(* ===== verification/Py_Prelude.thy ===== *)
theory Py_Prelude
  imports
    Main
    "HOL-Library.Char_ord"
    "HOL-Library.Code_Target_Nat"
    "HOL-Library.List_Lexorder"
    "HOL-Library.Product_Lexorder"
    "HOL-Library.Sublist"
begin

text \<open>
  Shared vocabulary of the development: Python exceptions as sums, the few
  string operations of the Python standard library that the modelled code
  uses, and generic lemmas on lists that the component theories share.

  A Python string is modelled as a HOL \<open>string\<close>: one character per code point,
  for the code points U+0000 to U+00FF.  Lengths therefore count code points,
  as \<open>len\<close> does, and \<open>utf8_len\<close> gives the encoded length.
\<close>

section \<open>Exceptions as sums\<close>

named_theorems py_simps \<open>unfolding rules of the exception combinators\<close>

definition bindE :: "'e + 'a \<Rightarrow> ('a \<Rightarrow> 'e + 'b) \<Rightarrow> 'e + 'b" where
  "bindE m f = (case m of Inl e \<Rightarrow> Inl e | Inr x \<Rightarrow> f x)"

definition ensure :: "bool \<Rightarrow> 'e \<Rightarrow> 'e + unit" where
  "ensure b e = (if b then Inr () else Inl e)"

definition of_opt :: "'e \<Rightarrow> 'a option \<Rightarrow> 'e + 'a" where
  "of_opt e x = (case x of None \<Rightarrow> Inl e | Some y \<Rightarrow> Inr y)"

definition map_err :: "('e \<Rightarrow> 'f) \<Rightarrow> 'e + 'a \<Rightarrow> 'f + 'a" where
  "map_err g m = (case m of Inl e \<Rightarrow> Inl (g e) | Inr x \<Rightarrow> Inr x)"

definition is_ok :: "'e + 'a \<Rightarrow> bool" where
  "is_ok m = (case m of Inl _ \<Rightarrow> False | Inr _ \<Rightarrow> True)"

fun mapE :: "('a \<Rightarrow> 'e + 'b) \<Rightarrow> 'a list \<Rightarrow> 'e + 'b list" where
  "mapE f [] = Inr []"
| "mapE f (x # xs) = bindE (f x) (\<lambda>y. bindE (mapE f xs) (\<lambda>ys. Inr (y # ys)))"

lemma bindE_Inl [simp, py_simps]: "bindE (Inl e) f = Inl e"
  by (simp add: bindE_def)

lemma bindE_Inr [simp, py_simps]: "bindE (Inr x) f = f x"
  by (simp add: bindE_def)

lemma bindE_ok: "bindE m f = Inr y \<longleftrightarrow> (\<exists>x. m = Inr x \<and> f x = Inr y)"
  by (cases m) auto

lemma bindE_okE:
  assumes "bindE m f = Inr y"
  obtains x where "m = Inr x" "f x = Inr y"
  using assms by (auto simp: bindE_ok)

lemma bindE_assoc: "bindE (bindE m f) g = bindE m (\<lambda>x. bindE (f x) g)"
  by (cases m) auto

lemma bindE_cong [fundef_cong]:
  "m = m' \<Longrightarrow> (\<And>x. m' = Inr x \<Longrightarrow> f x = f' x) \<Longrightarrow> bindE m f = bindE m' f'"
  by (cases m') auto

lemma ensure_ok [simp, py_simps]: "ensure b e = Inr u \<longleftrightarrow> b"
  by (simp add: ensure_def)

lemma ensure_err [simp, py_simps]: "ensure b e = Inl e' \<longleftrightarrow> \<not> b \<and> e' = e"
  by (auto simp: ensure_def)

lemma ensure_True [simp]: "ensure True e = Inr ()"
  by (simp add: ensure_def)

lemma ensure_False [simp]: "ensure False e = Inl e"
  by (simp add: ensure_def)

lemma bind_ensure_ok: "bindE (ensure b e) f = Inr y \<longleftrightarrow> b \<and> f () = Inr y"
  by (simp add: bindE_ok)

lemma of_opt_ok [simp, py_simps]: "of_opt e x = Inr y \<longleftrightarrow> x = Some y"
  by (cases x) (auto simp: of_opt_def)

lemma bindE_errE:
  assumes "bindE m f = Inl e"
  obtains "m = Inl e" | x where "m = Inr x" "f x = Inl e"
  using assms by (cases m) auto

lemma of_opt_err: "of_opt e x = Inl e' \<longleftrightarrow> x = None \<and> e' = e"
  by (cases x) (auto simp: of_opt_def)

lemma of_opt_simps [simp]: "of_opt e None = Inl e" "of_opt e (Some z) = Inr z"
  by (auto simp: of_opt_def)

lemma map_err_ok [simp, py_simps]: "map_err g m = Inr y \<longleftrightarrow> m = Inr y"
  by (cases m) (auto simp: map_err_def)

lemma map_err_simps [simp]: "map_err g (Inl e) = Inl (g e)" "map_err g (Inr z) = Inr z"
  by (auto simp: map_err_def)

lemma is_ok_simps [simp]: "\<not> is_ok (Inl e)" "is_ok (Inr x)"
  by (auto simp: is_ok_def)

lemma is_ok_iff: "is_ok m \<longleftrightarrow> (\<exists>x. m = Inr x)"
  by (cases m) auto

lemma mapE_ok_length: "mapE f xs = Inr ys \<Longrightarrow> length ys = length xs"
  by (induction xs arbitrary: ys) (auto simp: bindE_ok)

lemma mapE_ok_all2: "mapE f xs = Inr ys \<longleftrightarrow> list_all2 (\<lambda>x y. f x = Inr y) xs ys"
  by (induction xs arbitrary: ys) (auto simp: bindE_ok list_all2_Cons1)

lemma mapE_cong [fundef_cong]:
  "xs = ys \<Longrightarrow> (\<And>x. x \<in> set ys \<Longrightarrow> f x = g x) \<Longrightarrow> mapE f xs = mapE g ys"
proof (induction xs arbitrary: ys)
  case Nil
  then show ?case by auto
next
  case (Cons x xs)
  then have "mapE f xs = mapE g xs" and "f x = g x" by auto
  with Cons.prems(1) show ?case by (auto simp: bindE_def)
qed

lemmas ok_simps = bindE_ok ensure_ok of_opt_ok map_err_ok

section \<open>Characters\<close>

definition ord :: "char \<Rightarrow> nat" where
  "ord c = of_char c"

definition is_lower :: "char \<Rightarrow> bool" where
  "is_lower c \<longleftrightarrow> 97 \<le> ord c \<and> ord c \<le> 122"

definition is_upper :: "char \<Rightarrow> bool" where
  "is_upper c \<longleftrightarrow> 65 \<le> ord c \<and> ord c \<le> 90"

definition is_digit :: "char \<Rightarrow> bool" where
  "is_digit c \<longleftrightarrow> 48 \<le> ord c \<and> ord c \<le> 57"

definition is_alnum :: "char \<Rightarrow> bool" where
  "is_alnum c \<longleftrightarrow> is_lower c \<or> is_upper c \<or> is_digit c"

definition is_hex :: "char \<Rightarrow> bool" where
  "is_hex c \<longleftrightarrow> is_digit c \<or> (97 \<le> ord c \<and> ord c \<le> 102)"

text \<open>The class \<open>\s\<close> of \<open>re\<close> and the default set of \<open>str.strip\<close>, on U+0000 to U+00FF.\<close>

definition is_space :: "char \<Rightarrow> bool" where
  "is_space c \<longleftrightarrow> (9 \<le> ord c \<and> ord c \<le> 13) \<or> (28 \<le> ord c \<and> ord c \<le> 32)
     \<or> ord c = 133 \<or> ord c = 160"

text \<open>The class \<open>\w\<close> of \<open>re\<close>: underscore and the code points for which \<open>str.isalnum\<close> holds.\<close>

definition is_word :: "char \<Rightarrow> bool" where
  "is_word c \<longleftrightarrow> is_alnum c \<or> ord c = 95 \<or>
     ord c \<in> {170, 178, 179, 181, 185, 186, 188, 189, 190} \<or>
     (192 \<le> ord c \<and> ord c \<noteq> 215 \<and> ord c \<noteq> 247)"

definition lower_char :: "char \<Rightarrow> char" where
  "lower_char c = (if is_upper c \<or> (192 \<le> ord c \<and> ord c \<le> 222 \<and> ord c \<noteq> 215)
                   then char_of (ord c + 32) else c)"

definition lower :: "string \<Rightarrow> string" where
  "lower s = map lower_char s"

text \<open>\<open>len(s.encode("utf-8"))\<close> of a string of code points below U+0100.\<close>

definition utf8_len :: "string \<Rightarrow> nat" where
  "utf8_len s = sum_list (map (\<lambda>c. if ord c < 128 then 1 else 2) s)"

lemma utf8_len_Nil [simp]: "utf8_len [] = 0"
  by (simp add: utf8_len_def)

lemma utf8_len_Cons [simp]: "utf8_len (c # s) = (if ord c < 128 then 1 else 2) + utf8_len s"
  by (simp add: utf8_len_def)

lemma utf8_len_code [code]:
  "utf8_len [] = 0"
  "utf8_len (Char b0 b1 b2 b3 b4 b5 b6 b7 # s) = (if b7 then 2 else 1) + utf8_len s"
proof -
  have "ord (Char b0 b1 b2 b3 b4 b5 b6 b7) < 128 \<longleftrightarrow> \<not> b7"
    by (cases b0; cases b1; cases b2; cases b3; cases b4; cases b5; cases b6; cases b7; simp add: ord_def)
  then show "utf8_len (Char b0 b1 b2 b3 b4 b5 b6 b7 # s) = (if b7 then 2 else 1) + utf8_len s" by simp
qed simp

lemma utf8_len_append [simp]: "utf8_len (s @ t) = utf8_len s + utf8_len t"
  by (simp add: utf8_len_def)

lemma utf8_len_bounds: "length s \<le> utf8_len s \<and> utf8_len s \<le> 2 * length s"
  by (induction s) auto

text \<open>Characters are compared bit by bit.\<close>

lemma less_char_code [code]:
  "Char b0 b1 b2 b3 b4 b5 b6 b7 < Char c0 c1 c2 c3 c4 c5 c6 c7 \<longleftrightarrow>
    (if b7 \<longleftrightarrow> c7 then if b6 \<longleftrightarrow> c6 then if b5 \<longleftrightarrow> c5 then if b4 \<longleftrightarrow> c4 then if b3 \<longleftrightarrow> c3 then if b2 \<longleftrightarrow> c2 then
       if b1 \<longleftrightarrow> c1 then \<not> b0 \<and> c0 else c1 else c2 else c3 else c4 else c5 else c6 else c7)"
  unfolding less_char_simp by (auto simp: less_le)

section \<open>Strings\<close>

definition starts_with :: "string \<Rightarrow> string \<Rightarrow> bool" where
  "starts_with p s \<longleftrightarrow> take (length p) s = p"

definition ends_with :: "string \<Rightarrow> string \<Rightarrow> bool" where
  "ends_with p s \<longleftrightarrow> starts_with (rev p) (rev s)"

text \<open>\<open>n in s\<close> for strings.\<close>

fun py_in :: "string \<Rightarrow> string \<Rightarrow> bool" where
  "py_in n [] = (n = [])"
| "py_in n (c # s) = (starts_with n (c # s) \<or> py_in n s)"

lemma starts_with_iff: "starts_with p s \<longleftrightarrow> (\<exists>t. s = p @ t)"
  unfolding starts_with_def by (metis append_eq_conv_conj append_take_drop_id)

lemma ends_with_iff: "ends_with p s \<longleftrightarrow> (\<exists>t. s = t @ p)"
  unfolding ends_with_def starts_with_iff by (metis rev_append rev_rev_ident)

lemma py_in_iff: "py_in n s \<longleftrightarrow> (\<exists>a b. s = a @ n @ b)"
proof (induction s)
  case Nil
  then show ?case by auto
next
  case (Cons c s)
  show ?case
  proof
    assume "py_in n (c # s)"
    then consider "starts_with n (c # s)" | "py_in n s" by auto
    then show "\<exists>a b. c # s = a @ n @ b"
    proof cases
      case 1
      then obtain t where "c # s = [] @ n @ t" by (auto simp: starts_with_iff)
      then show ?thesis by blast
    next
      case 2
      then obtain a b where "s = a @ n @ b" using Cons.IH by blast
      then have "c # s = (c # a) @ n @ b" by simp
      then show ?thesis by blast
    qed
  next
    assume "\<exists>a b. c # s = a @ n @ b"
    then obtain a b where eq: "c # s = a @ n @ b" by blast
    show "py_in n (c # s)"
    proof (cases a)
      case Nil
      with eq have "starts_with n (c # s)" by (simp add: starts_with_iff)
      then show ?thesis by simp
    next
      case (Cons d a')
      with eq have "s = a' @ n @ b" by simp
      then show ?thesis using Cons.IH by auto
    qed
  qed
qed

definition lstrip :: "(char \<Rightarrow> bool) \<Rightarrow> string \<Rightarrow> string" where
  "lstrip P s = dropWhile P s"

definition strip_by :: "(char \<Rightarrow> bool) \<Rightarrow> string \<Rightarrow> string" where
  "strip_by P s = rev (dropWhile P (rev (dropWhile P s)))"

definition strip :: "string \<Rightarrow> string" where
  "strip s = strip_by is_space s"

definition is_blank :: "string \<Rightarrow> bool" where
  "is_blank s \<longleftrightarrow> list_all is_space s"

lemma strip_by_Nil_iff: "strip_by P s = [] \<longleftrightarrow> list_all P s"
proof -
  have "list_all P (dropWhile P s) \<longleftrightarrow> list_all P s"
    by (induction s) auto
  then show ?thesis
    by (simp add: strip_by_def dropWhile_eq_Nil_conv list_all_iff)
qed

lemma strip_Nil_iff: "strip s = [] \<longleftrightarrow> is_blank s"
  by (simp add: strip_def is_blank_def strip_by_Nil_iff)

lemma strip_by_id:
  assumes "s = [] \<or> (\<not> P (hd s) \<and> \<not> P (last s))"
  shows "strip_by P s = s"
proof (cases s rule: rev_cases)
  case Nil
  then show ?thesis by (simp add: strip_by_def)
next
  case (snoc t c)
  with assms have "\<not> P (hd s)" "\<not> P c" "s \<noteq> []" by auto
  then have "dropWhile P s = s" by (cases s) auto
  with snoc \<open>\<not> P c\<close> show ?thesis by (simp add: strip_by_def)
qed

lemma dropWhile_hd: "dropWhile P s \<noteq> [] \<Longrightarrow> \<not> P (hd (dropWhile P s))"
  by (rule hd_dropWhile)

lemma strip_by_ends: "strip_by P s \<noteq> [] \<Longrightarrow> \<not> P (hd (strip_by P s)) \<and> \<not> P (last (strip_by P s))"
proof -
  assume ne: "strip_by P s \<noteq> []"
  let ?t = "dropWhile P s"
  let ?u = "dropWhile P (rev ?t)"
  have "?u \<noteq> []" using ne by (simp add: strip_by_def)
  then have last: "\<not> P (last (strip_by P s))"
    by (simp add: strip_by_def last_rev dropWhile_hd)
  obtain v where v: "rev ?t = v @ ?u" by (metis takeWhile_dropWhile_id)
  then have "?t = rev ?u @ rev v" by (metis rev_append rev_rev_ident)
  with \<open>?u \<noteq> []\<close> have "hd ?t = hd (rev ?u) \<and> ?t \<noteq> []"
    by (metis Nil_is_append_conv Nil_is_rev_conv hd_append2)
  then have "\<not> P (hd (rev ?u))" using dropWhile_hd [of P s] by simp
  with last show ?thesis by (simp add: strip_by_def)
qed

lemma strip_by_idem [simp]: "strip_by P (strip_by P s) = strip_by P s"
  using strip_by_ends [of P s] by (intro strip_by_id) blast

lemma strip_idem [simp]: "strip (strip s) = strip s"
  by (simp add: strip_def)

text \<open>\<open>sep.join(parts)\<close>.\<close>

fun join :: "string \<Rightarrow> string list \<Rightarrow> string" where
  "join sep [] = []"
| "join sep [s] = s"
| "join sep (s # t # ts) = s @ sep @ join sep (t # ts)"

text \<open>Decimal text of an integer, \<open>str(n)\<close>.\<close>

fun dec_nat :: "nat \<Rightarrow> string" where
  "dec_nat n = (if n < 10 then [char_of (48 + n)] else dec_nat (n div 10) @ [char_of (48 + n mod 10)])"

declare dec_nat.simps [simp del]

definition dec_int :: "int \<Rightarrow> string" where
  "dec_int i = (if i < 0 then CHR ''-'' # dec_nat (nat (- i)) else dec_nat (nat i))"

text \<open>The same on integers, for evaluation.\<close>

function dec_pos :: "int \<Rightarrow> string" where
  "dec_pos i = (if i < 10 then [''0123456789'' ! nat i] else dec_pos (i div 10) @ [''0123456789'' ! nat (i mod 10)])"
  by auto
termination by (relation "measure nat") auto

declare dec_pos.simps [simp del]

lemma dec_digit: "n < 10 \<Longrightarrow> char_of (48 + n) = ''0123456789'' ! n"
proof -
  have "list_all (\<lambda>n::nat. char_of (48 + n) = ''0123456789'' ! n) [0..<10]" by code_simp
  moreover assume "n < 10"
  ultimately show ?thesis by (simp add: list_all_iff)
qed

lemma dec_pos_nat: "dec_pos (int n) = dec_nat n"
proof (induction n rule: dec_nat.induct)
  case (1 n)
  have parts: "int n div 10 = int (n div 10)" "nat (int n mod 10) = n mod 10" by (simp_all add: zdiv_int nat_mod_as_int)
  show ?case
  proof (cases "n < 10")
    case True
    then show ?thesis by (simp add: dec_pos.simps [of "int n"] dec_nat.simps [of n] dec_digit)
  next
    case False
    then show ?thesis using 1 by (simp add: dec_pos.simps [of "int n"] dec_nat.simps [of n] parts dec_digit)
  qed
qed

lemma dec_int_code [code]: "dec_int i = (if i < 0 then CHR ''-'' # dec_pos (- i) else dec_pos i)"
  using dec_pos_nat [of "nat i"] dec_pos_nat [of "nat (- i)"] by (cases "i < 0") (simp_all add: dec_int_def)

section \<open>Lists\<close>

text \<open>\<open>list(dict.fromkeys(xs))\<close>: first occurrences, in order.\<close>

fun dedup_acc :: "'a list \<Rightarrow> 'a list \<Rightarrow> 'a list" where
  "dedup_acc seen [] = []"
| "dedup_acc seen (x # xs) =
     (if x \<in> set seen then dedup_acc seen xs else x # dedup_acc (x # seen) xs)"

definition dedup :: "'a list \<Rightarrow> 'a list" where
  "dedup xs = dedup_acc [] xs"

lemma set_dedup_acc: "set (dedup_acc seen xs) = set xs - set seen"
  by (induction seen xs rule: dedup_acc.induct) auto

lemma distinct_dedup_acc: "distinct (dedup_acc seen xs)"
  by (induction seen xs rule: dedup_acc.induct) (auto simp: set_dedup_acc)

lemma set_dedup [simp]: "set (dedup xs) = set xs"
  by (simp add: dedup_def set_dedup_acc)

lemma distinct_dedup [simp]: "distinct (dedup xs)"
  by (simp add: dedup_def distinct_dedup_acc)

lemma dedup_acc_id: "distinct xs \<Longrightarrow> set xs \<inter> set seen = {} \<Longrightarrow> dedup_acc seen xs = xs"
  by (induction seen xs rule: dedup_acc.induct) auto

lemma dedup_id: "distinct xs \<Longrightarrow> dedup xs = xs"
  by (simp add: dedup_def dedup_acc_id)

text \<open>The first element with a property, \<open>next((x for x in xs if p(x)), None)\<close>, is the library's \<open>find\<close>.\<close>

lemma find_SomeD: "find P xs = Some x \<Longrightarrow> x \<in> set xs \<and> P x"
  by (auto simp: find_Some_iff)

lemma find_map_same:
  assumes "\<And>x. P (f x) = P x"
  shows "find P (map f xs) = map_option f (find P xs)"
  by (induction xs) (auto simp: assms)

lemma distinct_unique_key:
  assumes "distinct (map key xs)" "x \<in> set xs" "y \<in> set xs" "key x = key y"
  shows "x = y"
  using assms by (auto simp: distinct_map inj_on_def)

lemma find_unique_key:
  assumes "distinct (map key xs)" "x \<in> set xs"
  shows "find (\<lambda>y. key y = key x) xs = Some x"
  using assms by (induction xs) force+

text \<open>\<open>COALESCE(MAX(x), 0)\<close> over a column.\<close>

definition max0 :: "nat list \<Rightarrow> nat" where
  "max0 xs = fold max xs 0"

lemma fold_max_ge: "a \<le> fold max xs (a::nat)"
  by (induction xs arbitrary: a) (auto intro: order_trans [OF max.cobounded2])

lemma max0_upt [simp]: "max0 [1..<Suc n] = n"
proof (induction n)
  case (Suc n)
  then show ?case by (simp add: max0_def)
qed (simp add: max0_def)

lemma fold_max_eq: "fold max xs (a::nat) = max a (fold max xs 0)"
proof (induction xs arbitrary: a)
  case (Cons x xs)
  have "fold max xs (max x a) = max (max x a) (fold max xs 0)" by (rule Cons)
  moreover have "fold max xs x = max x (fold max xs 0)" by (rule Cons)
  ultimately show ?case by (simp add: max.assoc max.left_commute)
qed simp

lemma max0_ge: "x \<in> set xs \<Longrightarrow> x \<le> max0 xs"
  unfolding max0_def
proof (induction xs)
  case (Cons y xs)
  then show ?case using fold_max_eq [of xs y] fold_max_ge [of y xs] by auto
qed simp

text \<open>A slice \<open>xs[a:a+n]\<close> with non-negative bounds.\<close>

definition slice :: "nat \<Rightarrow> nat \<Rightarrow> 'a list \<Rightarrow> 'a list" where
  "slice start n xs = take n (drop start xs)"

lemma length_slice_le: "length (slice start n xs) \<le> n"
  by (simp add: slice_def)

lemma set_slice_subset: "set (slice start n xs) \<subseteq> set xs"
  by (auto simp: slice_def dest: in_set_takeD in_set_dropD)

text \<open>Stable sorting keeps the elements.\<close>

lemma set_sort_key [simp]: "set (sort_key f xs) = set xs"
  by simp

lemma sort_key_hd_le:
  assumes "sort_key f xs = y # ys" "x \<in> set xs"
  shows "f y \<le> f x"
proof -
  have "sorted (map f (y # ys))" using assms(1) by (metis sorted_sort_key)
  moreover have "x \<in> set (y # ys)" using assms by (metis set_sort_key)
  ultimately show ?thesis by auto
qed

lemma sort_key_Nil_iff [simp]: "sort_key f xs = [] \<longleftrightarrow> xs = []"
  by (metis length_0_conv length_sort)

lemma sort_key_Cons_in: "sort_key f xs = y # ys \<Longrightarrow> y \<in> set xs"
  by (metis list.set_intros(1) set_sort)

lemma in_map_filter: "y \<in> set (List.map_filter f xs) \<longleftrightarrow> (\<exists>x \<in> set xs. f x = Some y)"
  by (force simp: List.map_filter_def)

end
