(* ===== verification/Py_Regex.thy ===== *)
theory Py_Regex
  imports Py_Prelude
begin

text \<open>
  The fragment of Python's \<open>re\<close> that the modelled code uses, executable: character
  classes, sequence, ordered alternation, greedy bounded repetition and word
  boundaries.  A position is the character before it (if any) and the rest of the
  text.  \<open>ends r x\<close> lists the positions at which a match of \<open>r\<close> started at \<open>x\<close> may
  end, in the order the backtracking matcher tries them: the first is the match that
  \<open>re.match\<close> returns.
\<close>

type_synonym pos = "char option \<times> string"

datatype rx =
    Empty
  | Cls "char \<Rightarrow> bool"
  | Then rx rx
  | Or rx rx
  | Rep rx nat "nat option"
  | Bound

definition word_at :: "char option \<Rightarrow> bool" where
  "word_at p = (case p of None \<Rightarrow> False | Some c \<Rightarrow> is_word c)"

definition hd_opt :: "'a list \<Rightarrow> 'a option" where
  "hd_opt xs = (case xs of [] \<Rightarrow> None | x # _ \<Rightarrow> Some x)"

text \<open>
  Greedy repetition of \<open>f\<close> at least \<open>lo\<close> and at most \<open>hi\<close> times.  An optional round
  that consumes nothing is not tried again, so \<open>lo\<close> plus the length of the rest, plus
  one, is enough fuel: every later round shortens the rest.
\<close>

fun rep :: "(pos \<Rightarrow> pos list) \<Rightarrow> nat \<Rightarrow> nat \<Rightarrow> nat option \<Rightarrow> pos \<Rightarrow> pos list" where
  "rep f 0 lo hi x = (if lo = 0 then [x] else [])"
| "rep f (Suc k) lo hi x =
     (if hi = Some 0 then []
      else concat (map (\<lambda>y. if lo = 0 \<and> length (snd x) \<le> length (snd y) then []
                           else rep f k (lo - 1) (map_option (\<lambda>h. h - 1) hi) y) (f x)))
     @ (if lo = 0 then [x] else [])"

primrec ends :: "rx \<Rightarrow> pos \<Rightarrow> pos list" where
  "ends Empty x = [x]"
| "ends (Cls P) x = (case snd x of [] \<Rightarrow> [] | c # s \<Rightarrow> if P c then [(Some c, s)] else [])"
| "ends (Then a b) x = concat (map (ends b) (ends a x))"
| "ends (Or a b) x = ends a x @ ends b x"
| "ends (Rep r lo hi) x = rep (ends r) (Suc (lo + length (snd x))) lo hi x"
| "ends Bound x = (if word_at (fst x) = word_at (hd_opt (snd x)) then [] else [x])"

definition match_end :: "rx \<Rightarrow> pos \<Rightarrow> pos option" where
  "match_end r x = hd_opt (ends r x)"

text \<open>\<open>re.fullmatch\<close> and \<open>re.search\<close>, as truth values.\<close>

definition fullmatch :: "rx \<Rightarrow> string \<Rightarrow> bool" where
  "fullmatch r s \<longleftrightarrow> list_ex (\<lambda>y. snd y = []) (ends r (None, s))"

fun search_from :: "rx \<Rightarrow> char option \<Rightarrow> string \<Rightarrow> bool" where
  "search_from r p [] = (match_end r (p, []) \<noteq> None)"
| "search_from r p (c # s) = (match_end r (p, c # s) \<noteq> None \<or> search_from r (Some c) s)"

definition search :: "rx \<Rightarrow> string \<Rightarrow> bool" where
  "search r s = search_from r None s"

text \<open>\<open>re.match\<close> at the start of the text: the matched text.\<close>

definition match_text :: "rx \<Rightarrow> string \<Rightarrow> string option" where
  "match_text r s = map_option (\<lambda>y. take (length s - length (snd y)) s) (match_end r (None, s))"

text \<open>
  \<open>re.findall\<close> and \<open>re.sub\<close> of a pattern that never matches the empty text, as all the
  patterns used below: a match of length zero is passed over.
\<close>

fun findall_from :: "rx \<Rightarrow> nat \<Rightarrow> char option \<Rightarrow> string \<Rightarrow> string list" where
  "findall_from r skip p [] = []"
| "findall_from r (Suc skip) p (c # s) = findall_from r skip (Some c) s"
| "findall_from r 0 p (c # s) =
     (case match_end r (p, c # s) of
        Some y \<Rightarrow> (let n = length (c # s) - length (snd y) in
          if n = 0 then findall_from r 0 (Some c) s
          else take n (c # s) # findall_from r (n - 1) (Some c) s)
      | None \<Rightarrow> findall_from r 0 (Some c) s)"

definition findall :: "rx \<Rightarrow> string \<Rightarrow> string list" where
  "findall r s = findall_from r 0 None s"

fun sub_from :: "rx \<Rightarrow> string \<Rightarrow> nat \<Rightarrow> char option \<Rightarrow> string \<Rightarrow> string" where
  "sub_from r t skip p [] = []"
| "sub_from r t (Suc skip) p (c # s) = sub_from r t skip (Some c) s"
| "sub_from r t 0 p (c # s) =
     (case match_end r (p, c # s) of
        Some y \<Rightarrow> (let n = length (c # s) - length (snd y) in
          if n = 0 then c # sub_from r t 0 (Some c) s
          else t @ sub_from r t (n - 1) (Some c) s)
      | None \<Rightarrow> c # sub_from r t 0 (Some c) s)"

definition sub :: "rx \<Rightarrow> string \<Rightarrow> string \<Rightarrow> string" where
  "sub r t s = sub_from r t 0 None s"

section \<open>Building patterns\<close>

definition lit :: "string \<Rightarrow> rx" where
  "lit s = foldr (\<lambda>c r. Then (Cls (\<lambda>d. d = c)) r) s Empty"

text \<open>A literal under \<open>(?i)\<close>.\<close>

definition lit_ci :: "string \<Rightarrow> rx" where
  "lit_ci s = foldr (\<lambda>c r. Then (Cls (\<lambda>d. lower_char d = lower_char c)) r) s Empty"

fun seq :: "rx list \<Rightarrow> rx" where
  "seq [] = Empty"
| "seq [r] = r"
| "seq (r # rs) = Then r (seq rs)"

fun alt :: "rx list \<Rightarrow> rx" where
  "alt [] = Cls (\<lambda>_. False)"
| "alt [r] = r"
| "alt (r # rs) = Or r (alt rs)"

abbreviation star :: "rx \<Rightarrow> rx" where "star r \<equiv> Rep r 0 None"
abbreviation plus :: "rx \<Rightarrow> rx" where "plus r \<equiv> Rep r 1 None"
abbreviation opt :: "rx \<Rightarrow> rx" where "opt r \<equiv> Rep r 0 (Some 1)"
abbreviation spaces :: rx where "spaces \<equiv> star (Cls is_space)"

definition one_of :: "string \<Rightarrow> char \<Rightarrow> bool" where
  "one_of s c \<longleftrightarrow> c \<in> set s"

section \<open>Facts\<close>

text \<open>A match ends at a suffix of where it starts.\<close>

lemma rep_suffix:
  "\<forall>x y. y \<in> set (f x) \<longrightarrow> (\<exists>t. snd x = t @ snd y) \<Longrightarrow>
   y \<in> set (rep f k lo hi x) \<Longrightarrow> \<exists>t. snd x = t @ snd y"
proof (induction f k lo hi x arbitrary: y rule: rep.induct)
  case (1 f lo hi x)
  then show ?case by (auto split: if_splits)
next
  case (2 f k lo hi x)
  from "2.prems"(2) consider "y = x"
    | z where "z \<in> set (f x)" "y \<in> set (rep f k (lo - 1) (map_option (\<lambda>h. h - 1) hi) z)"
        "hi \<noteq> Some 0" "\<not> (lo = 0 \<and> length (snd x) \<le> length (snd z))"
    by (auto split: if_splits)
  then show ?case
  proof cases
    case 1
    then show ?thesis by auto
  next
    case 2
    then obtain t where "snd z = t @ snd y" using "2.IH" "2.prems"(1) by blast
    moreover obtain u where "snd x = u @ snd z" using "2.prems"(1) 2(1) by blast
    ultimately show ?thesis by auto
  qed
qed

lemma ends_suffix: "y \<in> set (ends r x) \<Longrightarrow> \<exists>t. snd x = t @ snd y"
proof (induction r arbitrary: x y)
  case (Cls P)
  then obtain c s where "snd x = c # s" "y = (Some c, s)"
    by (cases "snd x") (auto split: if_splits)
  then have "snd x = [c] @ snd y" by simp
  then show ?case by blast
next
  case (Then a b)
  then obtain z where "z \<in> set (ends a x)" "y \<in> set (ends b z)" by auto
  then obtain t u where "snd x = t @ snd z" "snd z = u @ snd y" using Then.IH by blast
  then show ?case by auto
next
  case (Or a b)
  from Or.prems have "y \<in> set (ends a x) \<or> y \<in> set (ends b x)" by simp
  then show ?case using Or.IH by blast
next
  case (Rep r lo hi)
  show ?case
    using rep_suffix [of "ends r" y "Suc (lo + length (snd x))" lo hi x] Rep by (simp del: rep.simps)
qed (auto split: if_splits)

lemma match_end_suffix: "match_end r x = Some y \<Longrightarrow> \<exists>t. snd x = t @ snd y"
  using ends_suffix [of y r x] by (cases "ends r x") (auto simp: match_end_def hd_opt_def)

text \<open>Every text \<open>findall\<close> returns occurs in the input.\<close>

lemma findall_from_in: "t \<in> set (findall_from r k p s) \<Longrightarrow> \<exists>a b. s = a @ t @ b \<and> t \<noteq> []"
proof (induction r k p s rule: findall_from.induct)
  case (2 r k p c s)
  then obtain a b where "s = a @ t @ b \<and> t \<noteq> []" by auto
  then have "c # s = (c # a) @ t @ b \<and> t \<noteq> []" by simp
  then show ?case by blast
next
  case (3 r p c s)
  have cons: "\<exists>a b. c # s = a @ t @ b \<and> t \<noteq> []" if h: "\<exists>a b. s = a @ t @ b \<and> t \<noteq> []"
  proof -
    from h obtain a b where "s = a @ t @ b \<and> t \<noteq> []" by blast
    then have "c # s = (c # a) @ t @ b \<and> t \<noteq> []" by simp
    then show ?thesis by blast
  qed
  show ?case
  proof (cases "match_end r (p, c # s)")
    case None
    with 3 cons show ?thesis by simp
  next
    case (Some y)
    let ?n = "length (c # s) - length (snd y)"
    show ?thesis
    proof (cases "?n = 0")
      case True
      with Some "3.prems" have "t \<in> set (findall_from r 0 (Some c) s)" by (simp add: Let_def)
      with 3(2) [OF Some refl True] cons show ?thesis by blast
    next
      case False
      with Some "3.prems" consider "t = take ?n (c # s)" | "t \<in> set (findall_from r (?n - 1) (Some c) s)"
        by (auto simp: Let_def)
      then show ?thesis
      proof cases
        case 1
        then have "c # s = [] @ t @ drop ?n (c # s)" by simp
        moreover have "t \<noteq> []" using 1 False by simp
        ultimately show ?thesis by blast
      next
        case 2
        with 3(3) [OF Some refl False] cons show ?thesis by blast
      qed
    qed
  qed
qed simp

lemma findall_in: "t \<in> set (findall r s) \<Longrightarrow> py_in t s \<and> t \<noteq> []"
  using findall_from_in unfolding findall_def py_in_iff by blast

end
