(* ===== verification/Py_Value.thy ===== *)
theory Py_Value
  imports Py_Prelude
begin

text \<open>
  Dynamically typed Python values as far as the modelled code inspects them,
  canonical JSON (\<open>json.dumps(v, ensure_ascii=False, allow_nan=False,
  sort_keys=True, separators=(",", ":"))\<close>) and what \<open>json.loads\<close> gives back.

  A float is represented by its serialised text (\<open>''nan''\<close>, \<open>''inf''\<close> and
  \<open>''-inf''\<close> are the non-finite ones); the code never computes with such
  values.  \<open>KOther\<close> is a dictionary key that is not a string, \<open>POther\<close> any
  object that \<open>json.dumps\<close> refuses.
\<close>

datatype pykey = KStr string | KOther

datatype pyval =
    PNone
  | PBool bool
  | PInt int
  | PFloat string
  | PStr string
  | PList "pyval list"
  | PTuple "pyval list"
  | PDict "(pykey \<times> pyval) list"
  | POther

fun key_str :: "pykey \<Rightarrow> string" where
  "key_str (KStr s) = s"
| "key_str KOther = []"

definition dict_get :: "(pykey \<times> pyval) list \<Rightarrow> string \<Rightarrow> pyval option" where
  "dict_get kvs k = map_of kvs (KStr k)"

definition finite_float :: "string \<Rightarrow> bool" where
  "finite_float s \<longleftrightarrow> s \<notin> {''nan'', ''inf'', ''-inf''}"

section \<open>Decoding what was encoded\<close>

text \<open>
  \<open>canon v\<close> is \<open>json.loads(json.dumps(v, sort_keys=True, ...))\<close>: tuples come back as
  lists and objects with their keys in order; \<open>None\<close> is the \<open>TypeError\<close> or
  \<open>ValueError\<close> of \<open>json.dumps\<close>.
\<close>

fun canon :: "pyval \<Rightarrow> pyval option" where
  "canon PNone = Some PNone"
| "canon (PBool b) = Some (PBool b)"
| "canon (PInt i) = Some (PInt i)"
| "canon (PFloat s) = (if finite_float s then Some (PFloat s) else None)"
| "canon (PStr s) = Some (PStr s)"
| "canon (PList vs) = map_option PList (those (map canon vs))"
| "canon (PTuple vs) = map_option PList (those (map canon vs))"
| "canon (PDict kvs) =
     map_option (\<lambda>xs. PDict (sort_key (\<lambda>kv. key_str (fst kv)) xs))
       (those (map (\<lambda>kv. case fst kv of
                            KStr s \<Rightarrow> map_option (\<lambda>w. (KStr s, w)) (canon (snd kv))
                          | KOther \<Rightarrow> None) kvs))"
| "canon POther = None"

section \<open>The encoded text\<close>

definition hex_digit :: "nat \<Rightarrow> char" where
  "hex_digit n = (if n < 10 then char_of (48 + n) else char_of (87 + n))"

definition json_char :: "char \<Rightarrow> string" where
  "json_char c =
    (if ord c = 34 then [CHR 0x5C, CHR 0x22]
     else if ord c = 92 then [CHR 0x5C, CHR 0x5C]
     else if ord c = 10 then [CHR 0x5C, CHR ''n'']
     else if ord c = 13 then [CHR 0x5C, CHR ''r'']
     else if ord c = 9 then [CHR 0x5C, CHR ''t'']
     else if ord c = 8 then [CHR 0x5C, CHR ''b'']
     else if ord c = 12 then [CHR 0x5C, CHR ''f'']
     else if ord c < 32 then CHR 0x5C # ''u00'' @ [hex_digit (ord c div 16), hex_digit (ord c mod 16)]
     else [c])"

text \<open>Most characters are copied: the bits of the code point say so without arithmetic.\<close>

definition json_control :: "char \<Rightarrow> string" where
  "json_control c = json_char c"

lemma json_char_code [code]:
  "json_char (Char b0 b1 b2 b3 b4 b5 b6 b7) =
    (if b5 \<or> b6 \<or> b7
     then if Char b0 b1 b2 b3 b4 b5 b6 b7 = CHR 0x22 \<or> Char b0 b1 b2 b3 b4 b5 b6 b7 = CHR 0x5C
       then [CHR 0x5C, Char b0 b1 b2 b3 b4 b5 b6 b7] else [Char b0 b1 b2 b3 b4 b5 b6 b7]
     else json_control (Char b0 b1 b2 b3 b4 b5 b6 b7))"
  by (cases b0; cases b1; cases b2; cases b3; cases b4; cases b5; cases b6; cases b7;
      simp add: json_control_def json_char_def ord_def)

lemmas json_control_code [code] = json_char_def [folded json_control_def]

definition json_string :: "string \<Rightarrow> string" where
  "json_string s = CHR 0x22 # concat (map json_char s) @ [CHR 0x22]"

fun json_text :: "pyval \<Rightarrow> string" where
  "json_text PNone = ''null''"
| "json_text (PBool b) = (if b then ''true'' else ''false'')"
| "json_text (PInt i) = dec_int i"
| "json_text (PFloat s) = s"
| "json_text (PStr s) = json_string s"
| "json_text (PList vs) = ''['' @ join '','' (map json_text vs) @ '']''"
| "json_text (PTuple vs) = ''['' @ join '','' (map json_text vs) @ '']''"
| "json_text (PDict kvs) =
     ''{'' @ join '','' (map (\<lambda>kv. json_string (key_str (fst kv)) @ '':'' @ json_text (snd kv)) kvs) @ ''}''"
| "json_text POther = []"

text \<open>Bytes of the UTF-8 encoding of the JSON text.\<close>

definition json_bytes :: "pyval \<Rightarrow> nat" where
  "json_bytes v = utf8_len (json_text v)"

section \<open>Canonical values\<close>

fun canonical :: "pyval \<Rightarrow> bool" where
  "canonical (PFloat s) = finite_float s"
| "canonical (PList vs) = (\<forall>v \<in> set vs. canonical v)"
| "canonical (PTuple vs) = False"
| "canonical (PDict kvs) =
     ((\<forall>kv \<in> set kvs. fst kv \<noteq> KOther \<and> canonical (snd kv)) \<and>
      sorted (map (\<lambda>kv. key_str (fst kv)) kvs))"
| "canonical POther = False"
| "canonical _ = True"

lemma those_Some_iff: "those xs = Some ys \<longleftrightarrow> xs = map Some ys"
proof (induction xs arbitrary: ys)
  case (Cons x xs)
  show ?case
  proof (cases x)
    case None
    then show ?thesis by (cases ys) auto
  next
    case (Some y)
    then show ?thesis by (cases ys) (auto simp: Cons.IH)
  qed
qed auto

lemma those_map_Some_in:
  assumes "those (map f xs) = Some ys" "y \<in> set ys"
  shows "\<exists>x \<in> set xs. f x = Some y"
proof -
  have "map f xs = map Some ys" using assms(1) by (simp add: those_Some_iff)
  moreover have "Some y \<in> set (map Some ys)" using assms(2) by simp
  ultimately have "Some y \<in> set (map f xs)" by metis
  then show ?thesis by auto
qed

lemma those_map_id:
  assumes "\<And>x. x \<in> set xs \<Longrightarrow> f x = Some x"
  shows "those (map f xs) = Some xs"
  using assms by (auto simp: those_Some_iff)

lemma canon_canonical: "canon v = Some w \<Longrightarrow> canonical w"
proof (induction v arbitrary: w rule: canon.induct)
  case (6 vs)
  then obtain ws where ws: "those (map canon vs) = Some ws" "w = PList ws" by auto
  then show ?case using those_map_Some_in [OF ws(1)] "6.IH" by auto
next
  case (7 vs)
  then obtain ws where ws: "those (map canon vs) = Some ws" "w = PList ws" by auto
  then show ?case using those_map_Some_in [OF ws(1)] "7.IH" by auto
next
  case (8 kvs)
  let ?f = "\<lambda>kv. case fst kv of KStr s \<Rightarrow> map_option (\<lambda>w. (KStr s, w)) (canon (snd kv)) | KOther \<Rightarrow> None"
  obtain ws where ws: "those (map ?f kvs) = Some ws"
    and w: "w = PDict (sort_key (\<lambda>kv. key_str (fst kv)) ws)" using "8.prems" by auto
  have "fst kv \<noteq> KOther \<and> canonical (snd kv)" if kv: "kv \<in> set ws" for kv
  proof -
    obtain x where x: "x \<in> set kvs" "?f x = Some kv" using those_map_Some_in [OF ws kv] by blast
    then obtain s u where s: "fst x = KStr s" "canon (snd x) = Some u" "kv = (KStr s, u)"
      by (auto split: pykey.splits)
    then have "canonical u" using "8.IH" x(1) by blast
    with s show ?thesis by simp
  qed
  with w show ?case by simp
qed (auto split: if_splits)

lemma canonical_canon: "canonical v \<Longrightarrow> canon v = Some v"
proof (induction v rule: canon.induct)
  case (6 vs)
  then have "those (map canon vs) = Some vs" by (intro those_map_id) simp
  then show ?case by simp
next
  case (8 kvs)
  let ?f = "\<lambda>kv. case fst kv of KStr s \<Rightarrow> map_option (\<lambda>w. (KStr s, w)) (canon (snd kv)) | KOther \<Rightarrow> None"
  have "?f kv = Some kv" if "kv \<in> set kvs" for kv
  proof (cases "fst kv")
    case (KStr s)
    have "canon (snd kv) = Some (snd kv)" using 8 that KStr by auto
    then show ?thesis using KStr by (simp add: prod_eq_iff)
  next
    case KOther
    then show ?thesis using "8.prems" that by auto
  qed
  then have "those (map ?f kvs) = Some kvs" by (intro those_map_id) simp
  moreover have "sort_key (\<lambda>kv. key_str (fst kv)) kvs = kvs"
    using "8.prems" by (simp add: sort_key_id_if_sorted)
  ultimately show ?case by simp
qed auto

text \<open>Encoding a decoded value again changes nothing.\<close>

lemma canon_idem: "canon v = Some w \<Longrightarrow> canon w = Some w"
  by (rule canonical_canon [OF canon_canonical])

end
