(* ===== verification/Agent_Types.thy ===== *)
theory Agent_Types
  imports Py_Regex Py_Value
begin

text \<open>
  The data model of the bounded agent: \<open>src/agent/state.py\<close> (limits, observations,
  failure codes, trace, result, run state) and the value objects with their
  validators of \<open>src/agent/research_models.py\<close>.  A pydantic model is a record
  together with the predicate its validators compute; constructing an instance that
  violates it raises, and the callers' models say so.  A float is its JSON text, a
  dictionary an association list in insertion order.
\<close>

section \<open>Sensitive text\<close>

definition is_ci :: "char \<Rightarrow> char \<Rightarrow> bool" where
  "is_ci c d \<longleftrightarrow> lower_char d = lower_char c"

definition is_letter :: "char \<Rightarrow> bool" where
  "is_letter c \<longleftrightarrow> is_lower c \<or> is_upper c"

definition colon_or_eq :: rx where "colon_or_eq = Cls (one_of '':='')"
definition slash_or_bslash :: rx where "slash_or_bslash = Cls (\<lambda>c. ord c = 47 \<or> ord c = 92)"
definition key_char :: "char \<Rightarrow> bool" where "key_char c \<longleftrightarrow> is_alnum c \<or> c = CHR ''_'' \<or> c = CHR ''-''"

definition credential_rx :: rx where
  "credential_rx = alt
     [seq [Bound, lit_ci ''authorization'', spaces, lit '':''],
      seq [Bound, lit_ci ''bearer'', plus (Cls is_space), plus (Cls (\<lambda>c. \<not> is_space c))],
      seq [Bound, opt (lit_ci ''groq_''), lit_ci ''api'', opt (Cls (one_of ''_-'')), lit_ci ''key'',
           star (Cls is_digit), spaces, colon_or_eq],
      seq [Bound, lit_ci ''local_workspace_token'', spaces, colon_or_eq],
      seq [Bound, lit_ci ''sk-'', Rep (Cls key_char) 8 None]]"

definition machine_path_rx :: rx where
  "machine_path_rx = alt
     [seq [Bound, Cls is_letter, lit '':'', slash_or_bslash],
      lit_ci ''/home/'', lit_ci ''/Users/'', lit_ci ''file://'']"

definition contains_sensitive_text :: "string \<Rightarrow> bool" where
  "contains_sensitive_text s \<longleftrightarrow> search credential_rx s \<or> search machine_path_rx s"

fun contains_protected_value :: "pyval \<Rightarrow> string list \<Rightarrow> bool" where
  "contains_protected_value (PStr s) secrets = list_ex (\<lambda>x. x \<noteq> [] \<and> py_in x s) secrets"
| "contains_protected_value (PDict kvs) secrets =
     list_ex (\<lambda>kv. (case fst kv of KStr k \<Rightarrow> list_ex (\<lambda>x. x \<noteq> [] \<and> py_in x k) secrets | KOther \<Rightarrow> False)
                   \<or> contains_protected_value (snd kv) secrets) kvs"
| "contains_protected_value (PList vs) secrets = list_ex (\<lambda>v. contains_protected_value v secrets) vs"
| "contains_protected_value (PTuple vs) secrets = list_ex (\<lambda>v. contains_protected_value v secrets) vs"
| "contains_protected_value _ secrets = False"

text \<open>\<open>AgentGoal\<close>: the validated text, or \<open>None\<close> for \<open>ValueError\<close>.\<close>

definition agent_goal :: "string \<Rightarrow> string option" where
  "agent_goal text =
    (if length text < 5 \<or> 500 < length text then None
     else let v = strip text in
       if length v < 5 \<or> contains_sensitive_text v \<or>
          list_ex (\<lambda>c. ord c < 32 \<and> ord c \<noteq> 9 \<and> ord c \<noteq> 10) v then None
       else Some v)"

section \<open>Limits and policy\<close>

definition tool_names :: "string list" where
  "tool_names = [''ask_rag'', ''inspect_retrieval'', ''read_document'', ''search_documents'']"

record agent_limits =
  al_max_steps :: nat
  al_max_tool_calls :: nat
  al_per_tool :: "(string \<times> nat) list"
  al_max_observations :: nat
  al_max_evidence :: nat
  al_max_excerpt :: nat
  al_max_observation_bytes :: int
  al_max_total_bytes :: int

definition valid_limits :: "agent_limits \<Rightarrow> bool" where
  "valid_limits l \<longleftrightarrow>
     1 \<le> al_max_steps l \<and> al_max_steps l \<le> 20 \<and> al_max_tool_calls l \<le> 10 \<and>
     al_max_observations l \<le> 10 \<and> al_max_evidence l \<le> 20 \<and> al_max_excerpt l \<le> 500 \<and>
     256 \<le> al_max_observation_bytes l \<and> al_max_observation_bytes l \<le> 32768 \<and>
     256 \<le> al_max_total_bytes l \<and> al_max_total_bytes l \<le> 65536 \<and>
     set (map fst (al_per_tool l)) = set tool_names \<and> distinct (map fst (al_per_tool l)) \<and>
     (\<forall>kv \<in> set (al_per_tool l). snd kv \<le> 10)"

definition default_limits :: agent_limits where
  "default_limits = \<lparr>al_max_steps = 8, al_max_tool_calls = 5,
     al_per_tool = [(''search_documents'', 2), (''inspect_retrieval'', 2), (''read_document'', 3), (''ask_rag'', 1)],
     al_max_observations = 5, al_max_evidence = 8, al_max_excerpt = 160,
     al_max_observation_bytes = 4096, al_max_total_bytes = 16384\<rparr>"

record run_policy =
  rp_allow_decision_provider :: bool
  rp_require_observation :: bool
  rp_reject_duplicates :: bool

text \<open>\<open>d[k]\<close> and \<open>d[k] += 1\<close> on a dictionary of counters.\<close>

definition count_at :: "(string \<times> nat) list \<Rightarrow> string \<Rightarrow> nat" where
  "count_at d k = (case map_of d k of None \<Rightarrow> 0 | Some n \<Rightarrow> n)"

definition bump :: "string \<Rightarrow> (string \<times> nat) list \<Rightarrow> (string \<times> nat) list" where
  "bump k d = map (\<lambda>kv. if fst kv = k then (k, snd kv + 1) else kv) d"

section \<open>Evidence and observations\<close>

text \<open>\<open>EvidenceRef\<close> is the pair of its kind and value.\<close>

type_synonym evidence_ref = "string \<times> string"

definition id_tail :: "char \<Rightarrow> bool" where
  "id_tail c \<longleftrightarrow> is_alnum c \<or> c = CHR ''_'' \<or> c = CHR ''.'' \<or> c = CHR '':'' \<or> c = CHR ''-''"

text \<open>\<open>[A-Za-z0-9][A-Za-z0-9_.:-]{0,127}\<close> and \<open>search-[0-9a-f]{16}\<close>.\<close>

definition canonical_id :: "string \<Rightarrow> bool" where
  "canonical_id s = (case s of [] \<Rightarrow> False | c # cs \<Rightarrow> is_alnum c \<and> length cs \<le> 127 \<and> list_all id_tail cs)"

definition canonical_search_id :: "string \<Rightarrow> bool" where
  "canonical_search_id s \<longleftrightarrow> take 7 s = ''search-'' \<and> length s = 23 \<and> list_all is_hex (drop 7 s)"

definition canonical_ref :: "evidence_ref \<Rightarrow> bool" where
  "canonical_ref r \<longleftrightarrow>
     (if fst r = ''search_id'' then canonical_search_id (snd r)
      else (fst r = ''document_id'' \<or> fst r = ''chunk_id'') \<and> canonical_id (snd r))"

record evidence_record =
  evd_document :: "string option"
  evd_chunk :: "string option"
  evd_label :: "string option"
  evd_citation :: "string option"
  evd_score_kind :: "string option"
  evd_scores :: "(string \<times> string option) list"
  evd_excerpt :: string

definition canonical_record :: "evidence_record \<Rightarrow> bool" where
  "canonical_record r \<longleftrightarrow>
     (case evd_chunk r of None \<Rightarrow> True | Some c \<Rightarrow> canonical_id c) \<and>
     (case evd_document r of None \<Rightarrow> True | Some d \<Rightarrow> canonical_id d)"

record stage_fact =
  sf_name :: string
  sf_status :: string
  sf_elapsed :: "string option"

record agent_observation =
  ob_tool :: string
  ob_search :: "string option"
  ob_evidence :: "evidence_record list"
  ob_stages :: "stage_fact list"
  ob_reported :: int
  ob_truncated :: bool

definition opt_str :: "string option \<Rightarrow> pyval" where
  "opt_str x = (case x of None \<Rightarrow> PNone | Some s \<Rightarrow> PStr s)"

definition opt_float :: "string option \<Rightarrow> pyval" where
  "opt_float x = (case x of None \<Rightarrow> PNone | Some s \<Rightarrow> PFloat s)"

definition field_dict :: "(string \<times> pyval) list \<Rightarrow> pyval" where
  "field_dict kvs = PDict (map (\<lambda>kv. (KStr (fst kv), snd kv)) kvs)"

definition evidence_value :: "evidence_record \<Rightarrow> pyval" where
  "evidence_value r = field_dict
     [(''document_id'', opt_str (evd_document r)), (''chunk_id'', opt_str (evd_chunk r)),
      (''source_label'', opt_str (evd_label r)), (''citation'', opt_str (evd_citation r)),
      (''score_kind'', opt_str (evd_score_kind r)),
      (''scores'', field_dict (map (\<lambda>kv. (fst kv, opt_float (snd kv))) (evd_scores r))),
      (''excerpt'', PStr (evd_excerpt r))]"

definition stage_value :: "stage_fact \<Rightarrow> pyval" where
  "stage_value s = field_dict
     [(''name'', PStr (sf_name s)), (''status'', PStr (sf_status s)), (''elapsed_ms'', opt_float (sf_elapsed s))]"

text \<open>\<open>AgentObservation.model_dump\<close> and the byte length of \<open>model_dump_json\<close>.\<close>

definition observation_value :: "agent_observation \<Rightarrow> pyval" where
  "observation_value ob = field_dict
     [(''tool_name'', PStr (ob_tool ob)), (''content_trust'', PStr ''untrusted_data''),
      (''search_id'', opt_str (ob_search ob)), (''evidence'', PList (map evidence_value (ob_evidence ob))),
      (''stages'', PList (map stage_value (ob_stages ob))), (''reported_items'', PInt (ob_reported ob)),
      (''truncated'', PBool (ob_truncated ob))]"

definition observation_bytes :: "agent_observation \<Rightarrow> nat" where
  "observation_bytes ob = json_bytes (observation_value ob)"

section \<open>Outcomes\<close>

definition failure_codes :: "string list" where
  "failure_codes =
     [''decision_provider_required'', ''decision_provider_unavailable'', ''decision_execution_failed'',
      ''decision_provider_auth_failed'', ''decision_provider_rate_limited'', ''decision_provider_timeout'',
      ''decision_provider_invalid_response'', ''decision_provider_schema_violation'', ''decision_provider_failed'',
      ''malformed_decision'', ''unknown_tool'', ''tool_not_allowed'', ''tool_provider_required'',
      ''invalid_arguments'', ''tool_unavailable'', ''tool_execution_failed'', ''final_without_observation'',
      ''invalid_evidence_reference'', ''invalid_citation'', ''duplicate_tool_call'', ''max_steps'',
      ''max_tool_calls'', ''per_tool_limit'', ''max_observations'', ''observation_bytes'',
      ''cancelled'', ''internal_error'', ''invalid_observation'',
      ''research_objective_required'', ''research_scope_mismatch'', ''research_search_limit'',
      ''research_unresolved_mismatch'', ''research_objective_uncited'', ''research_answer_too_long'',
      ''research_reference_limit'']"

datatype agent_status =
    Completed | InvalidDecision | PolicyDenied | BudgetExhausted | Unavailable | AgentFailed | AgentCancelled

datatype failure_domain = DomModel | DomPolicy | DomTool | DomSystem

record trace_entry =
  te_index :: nat
  te_kind :: string
  te_tool :: "string option"
  te_objective :: "string option"
  te_args :: "string list"
  te_outcome :: string
  te_refs :: "evidence_ref list"
  te_failure :: "string option"

section \<open>Research values\<close>

definition obj_identifier :: "string \<Rightarrow> bool" where
  "obj_identifier s = (case s of [] \<Rightarrow> False
     | c # cs \<Rightarrow> is_lower c \<and> length cs \<le> 31 \<and> list_all (\<lambda>d. is_lower d \<or> is_digit d \<or> d = CHR ''_'') cs)"

text \<open>\<open>[A-Z]{1,5}(?:-[A-Z])?\<close>.\<close>

definition ticker_rx :: rx where
  "ticker_rx = Then (Rep (Cls is_upper) 1 (Some 5)) (opt (Then (lit ''-'') (Cls is_upper)))"

definition is_ticker :: "string \<Rightarrow> bool" where
  "is_ticker s = fullmatch ticker_rx s"

record research_objective =
  ro_id :: string
  ro_question :: string
  ro_ticker :: "string option"

text \<open>\<open>_SENSITIVE\<close> and the validator \<open>safe_question\<close>: the stripped question, or \<open>None\<close>.\<close>

definition research_sensitive_rx :: rx where
  "research_sensitive_rx = alt
     [seq [Bound, lit_ci ''authorization'', spaces, lit '':''],
      seq [Bound, lit_ci ''bearer'', plus (Cls is_space), plus (Cls (\<lambda>c. \<not> is_space c))],
      seq [Bound, opt (lit_ci ''groq_''), lit_ci ''api'', opt (Cls (one_of ''_-'')), lit_ci ''key'', spaces, colon_or_eq],
      seq [Bound, lit_ci ''local_workspace_token'', spaces, colon_or_eq],
      seq [Bound, lit_ci ''sk-'', Rep (Cls key_char) 8 None],
      seq [Bound, Cls is_letter, lit '':'', slash_or_bslash],
      lit_ci ''/home/'', lit_ci ''/Users/'', lit_ci ''file://'']"

definition safe_question :: "string \<Rightarrow> string option" where
  "safe_question text =
    (if length text < 5 \<or> 120 < length text then None
     else let v = strip text in
       if length v < 5 \<or> search research_sensitive_rx v \<or> list_ex (\<lambda>c. ord c < 32) v then None else Some v)"

definition valid_objective :: "research_objective \<Rightarrow> bool" where
  "valid_objective o' \<longleftrightarrow> obj_identifier (ro_id o') \<and> safe_question (ro_question o') = Some (ro_question o') \<and>
     (case ro_ticker o' of None \<Rightarrow> True | Some t \<Rightarrow> is_ticker t)"

record research_config =
  rc_objectives :: "research_objective list"
  rc_max_evidence :: nat
  rc_max_searches :: nat
  rc_min_evidence :: nat

definition valid_config :: "research_config \<Rightarrow> bool" where
  "valid_config c \<longleftrightarrow>
     1 \<le> length (rc_objectives c) \<and> length (rc_objectives c) \<le> 6 \<and>
     1 \<le> rc_max_evidence c \<and> rc_max_evidence c \<le> 6 \<and>
     1 \<le> rc_max_searches c \<and> rc_max_searches c \<le> 2 \<and>
     1 \<le> rc_min_evidence c \<and> rc_min_evidence c \<le> 2 \<and>
     list_all valid_objective (rc_objectives c) \<and>
     distinct (map ro_id (rc_objectives c)) \<and>
     length (dedup (List.map_filter ro_ticker (rc_objectives c))) \<le> 5"

text \<open>\<open>ResearchConfig.model_dump\<close>.\<close>

definition objective_value :: "research_objective \<Rightarrow> pyval" where
  "objective_value o' = field_dict
     [(''objective_id'', PStr (ro_id o')), (''question'', PStr (ro_question o')), (''ticker_scope'', opt_str (ro_ticker o'))]"

definition config_value :: "research_config \<Rightarrow> pyval" where
  "config_value c = field_dict
     [(''version'', PStr ''agent_research_v1''), (''objectives'', PList (map objective_value (rc_objectives c))),
      (''max_evidence_entries'', PInt (int (rc_max_evidence c))),
      (''max_search_attempts_per_objective'', PInt (int (rc_max_searches c))),
      (''min_evidence_per_objective'', PInt (int (rc_min_evidence c)))]"

record research_evidence =
  rev_document :: "string option"
  rev_chunk :: string
  rev_ticker :: "string option"
  rev_objectives :: "string list"
  rev_tool :: string
  rev_step :: nat

text \<open>\<open>ResearchEvidence\<close>: field constraints and \<open>canonical_identity\<close>.\<close>

definition valid_evidence :: "research_evidence \<Rightarrow> bool" where
  "valid_evidence r \<longleftrightarrow>
     (case rev_ticker r of None \<Rightarrow> True | Some t \<Rightarrow> is_ticker t) \<and>
     length (rev_objectives r) \<le> 6 \<and> rev_tool r \<in> set tool_names \<and> 1 \<le> rev_step r \<and> rev_step r \<le> 20 \<and>
     canonical_id (rev_chunk r) \<and>
     (case rev_document r of None \<Rightarrow> True | Some d \<Rightarrow> canonical_id d) \<and>
     rev_objectives r \<noteq> [] \<and> distinct (rev_objectives r) \<and> list_all obj_identifier (rev_objectives r) \<and>
     (case rev_ticker r of None \<Rightarrow> True
      | Some t \<Rightarrow> (case rev_document r of None \<Rightarrow> False | Some d \<Rightarrow> starts_with (t @ '':'') d))"

datatype coverage = CovNone | CovSome | CovSufficient

record objective_status =
  os_id :: string
  os_coverage :: coverage
  os_count :: nat
  os_attempts :: nat

type_synonym research_gap = "string \<times> string"

definition gap_codes :: "string list" where
  "gap_codes = [''no_evidence'', ''below_threshold'', ''search_exhausted'', ''ledger_full'']"

record research_action =
  ra_objective :: string
  ra_tool :: string
  ra_fingerprint :: string
  ra_query :: "string option"
  ra_outcome :: string

record research_summary =
  rs_objectives :: "objective_status list"
  rs_evidence :: "research_evidence list"
  rs_gaps :: "research_gap list"
  rs_capped :: bool

text \<open>\<open>ResearchSummary\<close>: the list bounds and \<open>coherent_summary\<close>.\<close>

definition status_coherent :: "research_summary \<Rightarrow> objective_status \<Rightarrow> bool" where
  "status_coherent s st \<longleftrightarrow>
     (let actual = length (filter (\<lambda>r. os_id st \<in> set (rev_objectives r)) (rs_evidence s)) in
        os_count st = actual \<and> ((os_coverage st = CovNone) = (actual = 0)) \<and>
        ((os_coverage st = CovSufficient) \<noteq> (os_id st \<in> fst ` set (rs_gaps s))))"

definition valid_summary :: "research_summary \<Rightarrow> bool" where
  "valid_summary s \<longleftrightarrow>
     1 \<le> length (rs_objectives s) \<and> length (rs_objectives s) \<le> 6 \<and>
     length (rs_evidence s) \<le> 6 \<and> length (rs_gaps s) \<le> 6 \<and>
     list_all (\<lambda>st. obj_identifier (os_id st) \<and> os_count st \<le> 6 \<and> os_attempts st \<le> 2) (rs_objectives s) \<and>
     list_all valid_evidence (rs_evidence s) \<and>
     list_all (\<lambda>g. obj_identifier (fst g) \<and> snd g \<in> set gap_codes) (rs_gaps s) \<and>
     distinct (map os_id (rs_objectives s)) \<and>
     distinct (map (\<lambda>r. (rev_document r, rev_chunk r)) (rs_evidence s)) \<and>
     list_all (\<lambda>r. set (rev_objectives r) \<subseteq> set (map os_id (rs_objectives s))) (rs_evidence s) \<and>
     distinct (map fst (rs_gaps s)) \<and>
     list_all (\<lambda>g. fst g \<in> set (map os_id (rs_objectives s))) (rs_gaps s) \<and>
     list_all (status_coherent s) (rs_objectives s)"

section \<open>Facts\<close>

lemma fst_bump [simp]: "map fst (bump k d) = map fst d"
  by (induction d) (auto simp: bump_def)

lemma count_at_bump:
  "count_at (bump k d) j = (if j = k \<and> k \<in> fst ` set d then count_at d j + 1 else count_at d j)"
proof -
  have "map_of (bump k d) j = map_option (\<lambda>n. if j = k then n + 1 else n) (map_of d j)"
    by (induction d) (auto simp: bump_def)
  moreover have "map_of d k = None \<longleftrightarrow> k \<notin> fst ` set d" by (rule map_of_eq_None_iff)
  ultimately show ?thesis by (auto simp: count_at_def split: option.splits)
qed

lemma sum_bump:
  "distinct (map fst d) \<Longrightarrow> k \<in> fst ` set d \<Longrightarrow> sum_list (map snd (bump k d)) = Suc (sum_list (map snd d))"
proof (induction d)
  case (Cons x d)
  have same: "bump k d = d" if "k \<notin> fst ` set d"
    using that by (induction d) (auto simp: bump_def)
  show ?case
  proof (cases "fst x = k")
    case True
    with Cons.prems have "k \<notin> fst ` set d" by auto
    with same True show ?thesis by (simp add: bump_def)
  next
    case False
    with Cons show ?thesis by (auto simp: bump_def)
  qed
qed simp

lemma default_limits_valid: "valid_limits default_limits"
  by (auto simp: valid_limits_def default_limits_def tool_names_def)

end
