(* ===== verification/Agent_Research.thy ===== *)
theory Agent_Research
  imports Agent_Types
begin

text \<open>
  \<open>ResearchSession\<close> of \<open>src/agent/research.py\<close>: the ledger of evidence per research
  objective, its admission test for tool calls, and the summary and view built from
  it.  Validated tool arguments are the dictionary \<open>model_dump\<close> makes of them.
  Where the code constructs a validated model the function returns \<open>None\<close> if the
  validation would raise; \<open>session_inv\<close> shows that it never does.
\<close>

definition validate_research_limits :: "research_config \<Rightarrow> agent_limits \<Rightarrow> bool" where
  "validate_research_limits c l \<longleftrightarrow>
     \<not> (rc_max_evidence c > al_max_observations l * al_max_evidence l) \<and>
     \<not> (rc_max_searches c > count_at (al_per_tool l) ''search_documents'') \<and>
     \<not> (al_max_tool_calls l = 0 \<or> al_max_observations l = 0)"

text \<open>The text whose SHA-256 is the fingerprint of a call.\<close>

definition call_text :: "string \<Rightarrow> pyval \<Rightarrow> string" where
  "call_text tool args = json_text (PList [PStr tool, (case canon args of None \<Rightarrow> args | Some w \<Rightarrow> w)])"

definition arg_str :: "pyval \<Rightarrow> string \<Rightarrow> string option" where
  "arg_str args k = (case args of
     PDict kvs \<Rightarrow> (case dict_get kvs k of Some (PStr s) \<Rightarrow> Some s | _ \<Rightarrow> None) | _ \<Rightarrow> None)"

text \<open>\<open>_ticker\<close>: the first group of \<open>_DOCUMENT_TICKER\<close>; the ticker part holds no colon.\<close>

definition document_ticker :: "string option \<Rightarrow> string option" where
  "document_ticker d = (case d of None \<Rightarrow> None
     | Some s \<Rightarrow>
         (let t = takeWhile (\<lambda>c. c \<noteq> CHR '':'') s; r = dropWhile (\<lambda>c. c \<noteq> CHR '':'') s in
          if is_ticker t \<and> 2 \<le> length r \<and>
             list_all (\<lambda>c. is_alnum c \<or> c = CHR ''_'' \<or> c = CHR ''.'' \<or> c = CHR ''-'') (tl r)
          then Some t else None))"

record session =
  se_config :: research_config
  se_ledger :: "research_evidence list"
  se_actions :: "research_action list"
  se_seen :: "(string \<times> string) list"
  se_attempts :: "string \<Rightarrow> nat"
  se_capped :: bool

definition new_session :: "research_config \<Rightarrow> agent_limits \<Rightarrow> session option" where
  "new_session c l =
    (if validate_research_limits c l
     then Some \<lparr>se_config = c, se_ledger = [], se_actions = [], se_seen = [], se_attempts = (\<lambda>_. 0), se_capped = False\<rparr>
     else None)"

definition find_objective :: "session \<Rightarrow> string option \<Rightarrow> research_objective option" where
  "find_objective s oid = find (\<lambda>o'. Some (ro_id o') = oid) (rc_objectives (se_config s))"

definition before_tool ::
  "(string \<Rightarrow> string) \<Rightarrow> session \<Rightarrow> string option \<Rightarrow> string \<Rightarrow> pyval \<Rightarrow> string option" where
  "before_tool sha s oid tool args =
    (case find_objective s oid of
       None \<Rightarrow> Some ''research_objective_required''
     | Some ob \<Rightarrow>
         if ro_ticker ob \<noteq> None \<and>
            (if tool = ''read_document'' then document_ticker (arg_str args ''document_id'') \<noteq> ro_ticker ob
             else arg_str args ''ticker'' \<noteq> ro_ticker ob)
         then Some ''research_scope_mismatch''
         else if (ro_id ob, sha (call_text tool args)) \<in> set (se_seen s) then Some ''duplicate_tool_call''
         else if tool = ''search_documents'' \<and> rc_max_searches (se_config s) \<le> se_attempts s (ro_id ob)
         then Some ''research_search_limit''
         else None)"

definition start_tool :: "(string \<Rightarrow> string) \<Rightarrow> string \<Rightarrow> string \<Rightarrow> pyval \<Rightarrow> session \<Rightarrow> session" where
  "start_tool sha oid tool args s =
    s\<lparr>se_seen := (oid, sha (call_text tool args)) # se_seen s,
      se_attempts := (if tool = ''search_documents'' then (se_attempts s)(oid := se_attempts s oid + 1)
                      else se_attempts s)\<rparr>"

definition evidence_key :: "string option \<times> string \<Rightarrow> string \<times> string" where
  "evidence_key dc = ((case fst dc of None \<Rightarrow> [] | Some d \<Rightarrow> d), snd dc)"

abbreviation entry_key :: "research_evidence \<Rightarrow> string \<times> string" where
  "entry_key r \<equiv> evidence_key (rev_document r, rev_chunk r)"

definition cites :: "string \<Rightarrow> research_evidence \<Rightarrow> bool" where
  "cites oid r \<longleftrightarrow> oid \<in> set (rev_objectives r)"

definition evidence_count :: "string \<Rightarrow> session \<Rightarrow> nat" where
  "evidence_count oid s = length (filter (cites oid) (se_ledger s))"

fun update_first :: "('a \<Rightarrow> bool) \<Rightarrow> ('a \<Rightarrow> 'a) \<Rightarrow> 'a list \<Rightarrow> 'a list" where
  "update_first P f [] = []"
| "update_first P f (x # xs) = (if P x then f x # xs else x # update_first P f xs)"

text \<open>One round of the loop of \<open>observed\<close>.\<close>

definition add_objective :: "string \<Rightarrow> research_evidence \<Rightarrow> research_evidence" where
  "add_objective oid r = (if cites oid r then r else r\<lparr>rev_objectives := rev_objectives r @ [oid]\<rparr>)"

definition observe_record ::
  "research_objective \<Rightarrow> string \<Rightarrow> nat \<Rightarrow> evidence_record \<Rightarrow> session \<Rightarrow> session option" where
  "observe_record ob tool step rec s =
    (case evd_chunk rec of
       None \<Rightarrow> Some s
     | Some chunk \<Rightarrow>
         if \<not> canonical_ref (''chunk_id'', chunk) \<or>
            (case evd_document rec of None \<Rightarrow> False | Some d \<Rightarrow> \<not> canonical_ref (''document_id'', d)) then None
         else let ticker = document_ticker (evd_document rec) in
         if ro_ticker ob \<noteq> None \<and> ticker \<noteq> ro_ticker ob then Some s
         else let key = evidence_key (evd_document rec, chunk) in
         if key \<in> entry_key ` set (se_ledger s) then
           Some (s\<lparr>se_ledger := update_first (\<lambda>r. entry_key r = key) (add_objective (ro_id ob)) (se_ledger s)\<rparr>)
         else if rc_max_evidence (se_config s) \<le> length (se_ledger s) then Some (s\<lparr>se_capped := True\<rparr>)
         else let entry = \<lparr>rev_document = evd_document rec, rev_chunk = chunk, rev_ticker = ticker,
                           rev_objectives = [ro_id ob], rev_tool = tool, rev_step = step\<rparr> in
           if valid_evidence entry then Some (s\<lparr>se_ledger := se_ledger s @ [entry]\<rparr>) else None)"

fun observe_records ::
  "research_objective \<Rightarrow> string \<Rightarrow> nat \<Rightarrow> evidence_record list \<Rightarrow> session \<Rightarrow> session option" where
  "observe_records ob tool step [] s = Some s"
| "observe_records ob tool step (r # rs) s =
     Option.bind (observe_record ob tool step r s) (observe_records ob tool step rs)"

definition valid_action :: "research_action \<Rightarrow> bool" where
  "valid_action a \<longleftrightarrow> obj_identifier (ra_objective a) \<and> ra_tool a \<in> set tool_names \<and>
     length (ra_fingerprint a) = 64 \<and> list_all is_hex (ra_fingerprint a) \<and>
     (case ra_query a of None \<Rightarrow> True | Some q \<Rightarrow> length q \<le> 200)"

definition observed ::
  "(string \<Rightarrow> string) \<Rightarrow> string \<Rightarrow> string \<Rightarrow> pyval \<Rightarrow> agent_observation \<Rightarrow> nat \<Rightarrow> session \<Rightarrow> session option" where
  "observed sha oid tool args obs step s =
    Option.bind (find_objective s (Some oid)) (\<lambda>ob.
    Option.bind (observe_records ob tool step (ob_evidence obs) s) (\<lambda>s'.
    let action = \<lparr>ra_objective = oid, ra_tool = tool, ra_fingerprint = sha (call_text tool args),
          ra_query = (if tool = ''search_documents'' then arg_str args ''query'' else None),
          ra_outcome = (if evidence_count oid s < evidence_count oid s' then ''observed''
                        else if ob_evidence obs \<noteq> [] then ''no_new_evidence'' else ''empty'')\<rparr> in
    if valid_action action then Some (s'\<lparr>se_actions := se_actions s' @ [action]\<rparr>) else None))"

definition coverage_of :: "session \<Rightarrow> research_objective \<Rightarrow> coverage" where
  "coverage_of s ob =
    (let n = evidence_count (ro_id ob) s in
     if n = 0 then CovNone else if n < rc_min_evidence (se_config s) then CovSome else CovSufficient)"

definition gap_code :: "session \<Rightarrow> research_objective \<Rightarrow> string" where
  "gap_code s ob =
    (if se_capped s then ''ledger_full''
     else if rc_max_searches (se_config s) \<le> se_attempts s (ro_id ob) then ''search_exhausted''
     else if evidence_count (ro_id ob) s = 0 then ''no_evidence'' else ''below_threshold'')"

definition raw_summary :: "session \<Rightarrow> research_summary" where
  "raw_summary s =
    \<lparr>rs_objectives = map (\<lambda>ob. \<lparr>os_id = ro_id ob, os_coverage = coverage_of s ob,
        os_count = evidence_count (ro_id ob) s, os_attempts = se_attempts s (ro_id ob)\<rparr>) (rc_objectives (se_config s)),
     rs_evidence = se_ledger s,
     rs_gaps = map (\<lambda>ob. (ro_id ob, gap_code s ob))
        (filter (\<lambda>ob. coverage_of s ob \<noteq> CovSufficient) (rc_objectives (se_config s))),
     rs_capped = se_capped s\<rparr>"

definition summary :: "session \<Rightarrow> research_summary option" where
  "summary s = (if valid_summary (raw_summary s) then Some (raw_summary s) else None)"

text \<open>\<open>view\<close>: a summary with the configuration and at most ten actions, on the configured objectives.\<close>

definition view :: "session \<Rightarrow> (research_summary \<times> research_config \<times> research_action list) option" where
  "view s = Option.bind (summary s) (\<lambda>sm.
     if length (se_actions s) \<le> 10 \<and> map ro_id (rc_objectives (se_config s)) = map os_id (rs_objectives sm)
     then Some (sm, se_config s, se_actions s) else None)"

definition allowed_refs :: "research_summary \<Rightarrow> evidence_ref list" where
  "allowed_refs sm = concat (map (\<lambda>r. (''chunk_id'', rev_chunk r) #
     (case rev_document r of None \<Rightarrow> [] | Some d \<Rightarrow> [(''document_id'', d)])) (rs_evidence sm))"

definition entry_cited :: "evidence_ref list \<Rightarrow> research_evidence \<Rightarrow> bool" where
  "entry_cited refs r \<longleftrightarrow> (''chunk_id'', rev_chunk r) \<in> set refs \<or>
     (case rev_document r of None \<Rightarrow> False | Some d \<Rightarrow> (''document_id'', d) \<in> set refs)"

definition validate_research_final :: "session \<Rightarrow> evidence_ref list \<Rightarrow> string list \<Rightarrow> string option" where
  "validate_research_final s refs unresolved =
    (let sm = raw_summary s in
     if 12 < length refs then Some ''research_reference_limit''
     else if \<not> distinct unresolved \<or> set unresolved \<noteq> fst ` set (rs_gaps sm) then Some ''research_unresolved_mismatch''
     else if \<not> set refs \<subseteq> set (allowed_refs sm) then Some ''invalid_evidence_reference''
     else if list_ex (\<lambda>st. os_coverage st = CovSufficient \<and>
             \<not> list_ex (\<lambda>r. cites (os_id st) r \<and> entry_cited refs r) (rs_evidence sm)) (rs_objectives sm)
     then Some ''research_objective_uncited''
     else None)"

section \<open>The session invariant\<close>

definition session_inv :: "session \<Rightarrow> bool" where
  "session_inv s \<longleftrightarrow> valid_config (se_config s) \<and>
     length (se_ledger s) \<le> rc_max_evidence (se_config s) \<and>
     distinct (map entry_key (se_ledger s)) \<and>
     (\<forall>r \<in> set (se_ledger s). valid_evidence r \<and>
        set (rev_objectives r) \<subseteq> ro_id ` set (rc_objectives (se_config s))) \<and>
     (\<forall>ob \<in> set (rc_objectives (se_config s)). se_attempts s (ro_id ob) \<le> rc_max_searches (se_config s))"

lemma new_session_inv: "new_session c l = Some s \<Longrightarrow> valid_config c \<Longrightarrow> session_inv s"
  by (auto simp: new_session_def session_inv_def split: if_splits)

lemma find_objective_Some:
  "find_objective s oid = Some ob \<Longrightarrow> ob \<in> set (rc_objectives (se_config s)) \<and> oid = Some (ro_id ob)"
  unfolding find_objective_def by (auto dest: find_SomeD)

lemma evidence_key_inj:
  assumes "\<And>d. a = Some d \<Longrightarrow> d \<noteq> []" "\<And>d. b = Some d \<Longrightarrow> d \<noteq> []"
  shows "evidence_key (a, x) = evidence_key (b, y) \<longleftrightarrow> a = b \<and> x = y"
  using assms by (auto simp: evidence_key_def split: option.splits)

lemma canonical_id_nonempty: "canonical_id s \<Longrightarrow> s \<noteq> []"
  by (auto simp: canonical_id_def)

lemma start_tool_inv:
  assumes "session_inv s" "before_tool sha s (Some oid) tool args = None"
  shows "session_inv (start_tool sha oid tool args s)"
  using assms by (auto simp: session_inv_def start_tool_def before_tool_def split: option.splits if_splits
      dest!: find_objective_Some)

lemma update_first_length [simp]: "length (update_first P f xs) = length xs"
  by (induction xs) auto

lemma update_first_key:
  "(\<And>x. key (f x) = key x) \<Longrightarrow> map key (update_first P f xs) = map key xs"
  by (induction xs) auto

lemma update_first_in: "y \<in> set (update_first P f xs) \<Longrightarrow> y \<in> set xs \<or> (\<exists>x \<in> set xs. P x \<and> y = f x)"
  by (induction xs) (auto split: if_splits)

lemma add_objective_sel [simp]:
  "rev_document (add_objective oid r) = rev_document r" "rev_chunk (add_objective oid r) = rev_chunk r"
  "rev_ticker (add_objective oid r) = rev_ticker r" "rev_tool (add_objective oid r) = rev_tool r"
  "rev_step (add_objective oid r) = rev_step r"
  "set (rev_objectives (add_objective oid r)) = insert oid (set (rev_objectives r))"
  by (auto simp: add_objective_def cites_def)

lemma distinct_subset_length: "distinct xs \<Longrightarrow> set xs \<subseteq> set ys \<Longrightarrow> length xs \<le> length ys"
  by (metis List.finite_set card_length card_mono distinct_card le_trans)

lemma add_objective_valid:
  assumes "valid_evidence r" "valid_config c" "ob \<in> set (rc_objectives c)"
    and "set (rev_objectives r) \<subseteq> ro_id ` set (rc_objectives c)"
  shows "valid_evidence (add_objective (ro_id ob) r)"
proof -
  let ?r = "add_objective (ro_id ob) r"
  have id: "obj_identifier (ro_id ob)" using assms(2,3) by (auto simp: valid_config_def valid_objective_def list_all_iff)
  have d: "distinct (rev_objectives ?r)"
    using assms(1) by (auto simp: add_objective_def cites_def valid_evidence_def)
  have "set (rev_objectives ?r) \<subseteq> set (map ro_id (rc_objectives c))" using assms(3,4) by auto
  then have "length (rev_objectives ?r) \<le> length (map ro_id (rc_objectives c))"
    by (rule distinct_subset_length [OF d])
  then have len: "length (rev_objectives ?r) \<le> 6" using assms(2) by (simp add: valid_config_def)
  have ids: "list_all obj_identifier (rev_objectives ?r)"
    using assms(1) id by (auto simp: valid_evidence_def list_all_iff)
  have ne: "rev_objectives ?r \<noteq> []"
    using assms(1) by (auto simp: add_objective_def valid_evidence_def)
  show ?thesis using assms(1) d len ids ne unfolding valid_evidence_def add_objective_sel by blast
qed

lemma document_ticker_Some:
  assumes "document_ticker d = Some t"
  obtains s where "d = Some s" "is_ticker t" "starts_with (t @ '':'') s"
proof -
  from assms obtain s where s: "d = Some s" "t = takeWhile (\<lambda>c. c \<noteq> CHR '':'') s" "is_ticker t"
    "2 \<le> length (dropWhile (\<lambda>c. c \<noteq> CHR '':'') s)"
    by (auto simp: document_ticker_def Let_def split: option.splits if_splits)
  let ?r = "dropWhile (\<lambda>c. c \<noteq> CHR '':'') s"
  have "length ?r \<noteq> 0" using s(4) by linarith
  then have "?r \<noteq> []" by (metis list.size(3))
  then have "hd ?r = CHR '':''" using hd_dropWhile [of "\<lambda>c. c \<noteq> CHR '':''" s] by simp
  with \<open>?r \<noteq> []\<close> have "?r = CHR '':'' # tl ?r" by (metis list.collapse)
  moreover have "s = t @ ?r" using s(2) by simp
  ultimately have "s = (t @ '':'') @ tl ?r" by simp
  then have "starts_with (t @ '':'') s" unfolding starts_with_iff by blast
  with s that show ?thesis by blast
qed

lemma observe_record_inv:
  assumes "session_inv s" "ob \<in> set (rc_objectives (se_config s))" "canonical_record r"
    and "tool \<in> set tool_names" "1 \<le> step" "step \<le> 20"
  shows "\<exists>s'. observe_record ob tool step r s = Some s' \<and> session_inv s' \<and> se_config s' = se_config s \<and>
     se_actions s' = se_actions s \<and> se_attempts s' = se_attempts s"
proof (cases "evd_chunk r")
  case None
  then show ?thesis using assms(1) by (simp add: observe_record_def)
next
  case (Some chunk)
  have can: "canonical_ref (''chunk_id'', chunk)"
    "case evd_document r of None \<Rightarrow> True | Some d \<Rightarrow> canonical_ref (''document_id'', d)"
    using assms(3) Some by (auto simp: canonical_record_def canonical_ref_def split: option.splits)
  let ?key = "evidence_key (evd_document r, chunk)"
  let ?t = "document_ticker (evd_document r)"
  let ?upd = "s\<lparr>se_ledger := update_first (\<lambda>r. entry_key r = ?key) (add_objective (ro_id ob)) (se_ledger s)\<rparr>"
  let ?new = "\<lparr>rev_document = evd_document r, rev_chunk = chunk, rev_ticker = ?t,
                rev_objectives = [ro_id ob], rev_tool = tool, rev_step = step\<rparr>"
  note inv = assms(1) [unfolded session_inv_def]
  have upd: "session_inv ?upd"
  proof -
    have "map entry_key (update_first (\<lambda>r. entry_key r = ?key) (add_objective (ro_id ob)) (se_ledger s))
        = map entry_key (se_ledger s)" by (rule update_first_key) simp
    moreover have "valid_evidence y \<and> set (rev_objectives y) \<subseteq> ro_id ` set (rc_objectives (se_config s))"
      if "y \<in> set (update_first (\<lambda>r. entry_key r = ?key) (add_objective (ro_id ob)) (se_ledger s))" for y
      using update_first_in [OF that]
    proof
      assume "y \<in> set (se_ledger s)"
      then show ?thesis using inv by blast
    next
      assume "\<exists>x \<in> set (se_ledger s). entry_key x = ?key \<and> y = add_objective (ro_id ob) x"
      then obtain x where x: "x \<in> set (se_ledger s)" "y = add_objective (ro_id ob) x" by blast
      with inv have "valid_evidence x" "set (rev_objectives x) \<subseteq> ro_id ` set (rc_objectives (se_config s))" by blast+
      with x inv assms(2) add_objective_valid [of x "se_config s" ob] show ?thesis by simp
    qed
    ultimately show ?thesis using inv by (simp add: session_inv_def)
  qed
  have new: "valid_evidence ?new"
  proof -
    have "obj_identifier (ro_id ob)" using inv assms(2) by (auto simp: valid_config_def valid_objective_def list_all_iff)
    moreover have "case ?t of None \<Rightarrow> True | Some t \<Rightarrow> is_ticker t \<and>
        (case evd_document r of None \<Rightarrow> False | Some d \<Rightarrow> starts_with (t @ '':'') d)"
      by (cases ?t) (auto elim: document_ticker_Some)
    ultimately show ?thesis
      using can assms(4-6) by (auto simp: valid_evidence_def canonical_ref_def split: option.splits)
  qed
  have app: "session_inv (s\<lparr>se_ledger := se_ledger s @ [?new]\<rparr>)"
    if "?key \<notin> entry_key ` set (se_ledger s)" "\<not> rc_max_evidence (se_config s) \<le> length (se_ledger s)"
    using that inv new assms(2) by (auto simp: session_inv_def)
  have cap: "session_inv (s\<lparr>se_capped := True\<rparr>)" using inv by (simp add: session_inv_def)
  have notraise: "\<not> (\<not> canonical_ref (''chunk_id'', chunk) \<or>
      (case evd_document r of None \<Rightarrow> False | Some d \<Rightarrow> \<not> canonical_ref (''document_id'', d)))"
    using can by (auto split: option.splits)
  consider "ro_ticker ob \<noteq> None \<and> ?t \<noteq> ro_ticker ob"
    | "\<not> (ro_ticker ob \<noteq> None \<and> ?t \<noteq> ro_ticker ob)" "?key \<in> entry_key ` set (se_ledger s)"
    | "\<not> (ro_ticker ob \<noteq> None \<and> ?t \<noteq> ro_ticker ob)" "?key \<notin> entry_key ` set (se_ledger s)"
      "rc_max_evidence (se_config s) \<le> length (se_ledger s)"
    | "\<not> (ro_ticker ob \<noteq> None \<and> ?t \<noteq> ro_ticker ob)" "?key \<notin> entry_key ` set (se_ledger s)"
      "\<not> rc_max_evidence (se_config s) \<le> length (se_ledger s)" by blast
  then show ?thesis
  proof cases
    case 1
    then show ?thesis unfolding observe_record_def Some option.case Let_def if_not_P [OF notraise]
      using assms(1) by (simp only: if_True) simp
  next
    case 2
    then show ?thesis unfolding observe_record_def Some option.case Let_def if_not_P [OF notraise] if_not_P [OF 2(1)]
      if_P [OF 2(2)] using upd by simp
  next
    case 3
    then show ?thesis unfolding observe_record_def Some option.case Let_def if_not_P [OF notraise] if_not_P [OF 3(1)]
      if_not_P [OF 3(2)] if_P [OF 3(3)] using cap by simp
  next
    case 4
    then show ?thesis unfolding observe_record_def Some option.case Let_def if_not_P [OF notraise] if_not_P [OF 4(1)]
      if_not_P [OF 4(2)] if_not_P [OF 4(3)] if_P [OF new] using app by simp
  qed
qed

lemma observe_records_inv:
  assumes "session_inv s" "ob \<in> set (rc_objectives (se_config s))" "\<forall>r \<in> set rs. canonical_record r"
    and "tool \<in> set tool_names" "1 \<le> step" "step \<le> 20"
  shows "\<exists>s'. observe_records ob tool step rs s = Some s' \<and> session_inv s' \<and> se_config s' = se_config s \<and>
     se_actions s' = se_actions s \<and> se_attempts s' = se_attempts s"
  using assms(1-3)
proof (induction rs arbitrary: s)
  case (Cons r rs)
  obtain s1 where s1: "observe_record ob tool step r s = Some s1" "session_inv s1" "se_config s1 = se_config s"
    "se_actions s1 = se_actions s" "se_attempts s1 = se_attempts s"
    using observe_record_inv [OF Cons.prems(1,2) _ assms(4-6)] Cons.prems(3) by auto
  with Cons.IH [of s1] Cons.prems show ?case by auto
qed simp

lemma distinct_map_compose: "distinct (map (f \<circ> g) xs) \<Longrightarrow> distinct (map g xs)"
  by (induction xs) auto

lemma gap_iff:
  assumes "distinct (map ro_id (rc_objectives (se_config s)))" "ob \<in> set (rc_objectives (se_config s))"
  shows "ro_id ob \<in> fst ` set (rs_gaps (raw_summary s)) \<longleftrightarrow> coverage_of s ob \<noteq> CovSufficient"
proof -
  have g: "map fst (rs_gaps (raw_summary s)) =
      map ro_id (filter (\<lambda>ob. coverage_of s ob \<noteq> CovSufficient) (rc_objectives (se_config s)))"
    by (simp add: raw_summary_def)
  have uniq: "o' = ob" if "o' \<in> set (rc_objectives (se_config s))" "ro_id o' = ro_id ob" for o'
    using distinct_unique_key [OF assms(1) that(1) assms(2) that(2)] .
  have "ro_id ob \<in> set (map fst (rs_gaps (raw_summary s))) \<longleftrightarrow> coverage_of s ob \<noteq> CovSufficient"
    unfolding g using uniq assms(2) by (auto simp: image_iff)
  then show ?thesis by simp
qed

lemma coverage_none: "rc_min_evidence (se_config s) \<ge> 1 \<Longrightarrow> coverage_of s ob = CovNone \<longleftrightarrow> evidence_count (ro_id ob) s = 0"
  by (simp add: coverage_of_def Let_def)

lemma gap_code_in: "gap_code s ob \<in> set gap_codes"
  by (simp add: gap_code_def gap_codes_def)

lemma raw_summary_valid:
  assumes "session_inv s"
  shows "valid_summary (raw_summary s)"
proof -
  note inv = assms [unfolded session_inv_def]
  have cfg: "valid_config (se_config s)" using inv by blast
  let ?obs = "rc_objectives (se_config s)"
  have ids: "distinct (map ro_id ?obs)" "\<forall>ob \<in> set ?obs. obj_identifier (ro_id ob)"
    "1 \<le> length ?obs" "length ?obs \<le> 6" "rc_max_evidence (se_config s) \<le> 6"
    "rc_max_searches (se_config s) \<le> 2" "1 \<le> rc_min_evidence (se_config s)"
    using cfg by (auto simp: valid_config_def valid_objective_def list_all_iff)
  have led: "length (se_ledger s) \<le> 6" using inv ids(5) by linarith
  have cnt: "evidence_count oid s \<le> 6" for oid
    unfolding evidence_count_def using led length_filter_le [of "cites oid" "se_ledger s"] by linarith
  have att: "se_attempts s (ro_id ob) \<le> 2" if "ob \<in> set ?obs" for ob
    using inv ids(6) that by force
  have "distinct (map (evidence_key \<circ> (\<lambda>r. (rev_document r, rev_chunk r))) (se_ledger s))"
    using inv by (simp add: o_def)
  then have dk: "distinct (map (\<lambda>r. (rev_document r, rev_chunk r)) (se_ledger s))" by (rule distinct_map_compose)
  have gl: "length (filter (\<lambda>ob. coverage_of s ob \<noteq> CovSufficient) ?obs) \<le> 6"
    using ids(4) length_filter_le le_trans by blast
  have gd: "distinct (map ro_id (filter (\<lambda>ob. coverage_of s ob \<noteq> CovSufficient) ?obs))"
    using ids(1) by (rule distinct_map_filter)
  have coh: "status_coherent (raw_summary s) \<lparr>os_id = ro_id ob, os_coverage = coverage_of s ob,
        os_count = evidence_count (ro_id ob) s, os_attempts = se_attempts s (ro_id ob)\<rparr>" if "ob \<in> set ?obs" for ob
  proof -
    have "length (filter (\<lambda>r. ro_id ob \<in> set (rev_objectives r)) (se_ledger s)) = evidence_count (ro_id ob) s"
      by (simp add: evidence_count_def cites_def [abs_def])
    moreover have "rs_evidence (raw_summary s) = se_ledger s" by (simp add: raw_summary_def)
    ultimately show ?thesis
      using gap_iff [OF ids(1) that] coverage_none [OF ids(7)] by (auto simp: status_coherent_def Let_def)
  qed
  let ?sm = "raw_summary s"
  have ids_sm: "map os_id (rs_objectives ?sm) = map ro_id ?obs" by (simp add: raw_summary_def)
  have sets: "set (map os_id (rs_objectives ?sm)) = ro_id ` set ?obs" unfolding ids_sm by simp
  have ev: "rs_evidence ?sm = se_ledger s" by (simp add: raw_summary_def)
  have gaps: "map fst (rs_gaps ?sm) = map ro_id (filter (\<lambda>ob. coverage_of s ob \<noteq> CovSufficient) ?obs)"
    by (simp add: raw_summary_def)
  then have gset: "fst ` set (rs_gaps ?sm) \<subseteq> ro_id ` set ?obs"
    by (metis (no_types, lifting) filter_is_subset image_mono set_map)
  have st: "list_all (\<lambda>st. obj_identifier (os_id st) \<and> os_count st \<le> 6 \<and> os_attempts st \<le> 2) (rs_objectives ?sm)"
    using ids(2) cnt att by (simp add: raw_summary_def list_all_iff)
  have co: "list_all (status_coherent ?sm) (rs_objectives ?sm)"
    using coh by (simp add: raw_summary_def list_all_iff)
  have codes: "snd ` set (rs_gaps ?sm) \<subseteq> set gap_codes"
    by (auto simp: raw_summary_def gap_code_in)
  have gi: "list_all (\<lambda>g. obj_identifier (fst g) \<and> snd g \<in> set gap_codes) (rs_gaps ?sm)"
    "list_all (\<lambda>g. fst g \<in> set (map os_id (rs_objectives ?sm))) (rs_gaps ?sm)"
    using gset codes ids(2) unfolding sets by (auto simp: list_all_iff)
  have evi: "list_all valid_evidence (rs_evidence ?sm)"
    "list_all (\<lambda>r. set (rev_objectives r) \<subseteq> set (map os_id (rs_objectives ?sm))) (rs_evidence ?sm)"
    using inv unfolding sets ev list_all_iff by blast+
  have len: "length (rs_objectives ?sm) = length ?obs" using arg_cong [OF ids_sm, of length] by simp
  have glen: "length (rs_gaps ?sm) \<le> 6" using arg_cong [OF gaps, of length] gl by simp
  have dids: "distinct (map os_id (rs_objectives ?sm))" unfolding ids_sm by (rule ids(1))
  have dgap: "distinct (map fst (rs_gaps ?sm))" unfolding gaps by (rule gd)
  show ?thesis
    unfolding valid_summary_def len
    by (intro conjI st co gi evi glen dids dgap ids(3,4)) (use ev led dk in simp_all)
qed

lemma summary_total: "session_inv s \<Longrightarrow> summary s = Some (raw_summary s)"
  by (simp add: summary_def raw_summary_valid)

lemma view_total:
  "session_inv s \<Longrightarrow> length (se_actions s) \<le> 10 \<Longrightarrow> view s = Some (raw_summary s, se_config s, se_actions s)"
  by (simp add: view_def summary_total) (simp add: raw_summary_def)

lemma observed_inv:
  assumes "session_inv s" "find_objective s (Some oid) = Some ob" "tool \<in> set tool_names"
    and "1 \<le> step" "step \<le> 20" "\<forall>r \<in> set (ob_evidence obs). canonical_record r"
    and "length (sha (call_text tool args)) = 64" "list_all is_hex (sha (call_text tool args))"
    and "case arg_str args ''query'' of None \<Rightarrow> True | Some q \<Rightarrow> tool = ''search_documents'' \<longrightarrow> length q \<le> 200"
  shows "\<exists>s'. observed sha oid tool args obs step s = Some s' \<and> session_inv s' \<and>
     se_config s' = se_config s \<and> length (se_actions s') = Suc (length (se_actions s))"
proof -
  note fo = find_objective_Some [OF assms(2)]
  then have ob: "ob \<in> set (rc_objectives (se_config s))" "ro_id ob = oid" by auto
  obtain s1 where s1: "observe_records ob tool step (ob_evidence obs) s = Some s1" "session_inv s1"
    "se_config s1 = se_config s" "se_actions s1 = se_actions s"
    using observe_records_inv [OF assms(1) ob(1) assms(6,3,4,5)] by blast
  have "obj_identifier oid"
    using assms(1) ob by (auto simp: session_inv_def valid_config_def valid_objective_def list_all_iff)
  then have va: "valid_action \<lparr>ra_objective = oid, ra_tool = tool, ra_fingerprint = sha (call_text tool args),
      ra_query = (if tool = ''search_documents'' then arg_str args ''query'' else None), ra_outcome = out\<rparr>" for out
    using assms(3,7,8,9) by (auto simp: valid_action_def split: option.splits)
  show ?thesis
    unfolding observed_def assms(2) Option.bind.simps s1(1) Let_def if_P [OF va]
    using s1(2-4) by (simp add: session_inv_def)
qed

end
