(* ===== verification/Agent_Observation.thy ===== *)
theory Agent_Observation
  imports Agent_Types
begin

text \<open>
  \<open>src/agent/observation.py\<close>: the bounded projection of a tool's output into an
  \<open>AgentObservation\<close>.  The outputs carry the fields of the response models
  (\<open>src/agent/models.py\<close>, \<open>src/api/schemas.py\<close>) that the projection reads.
\<close>

section \<open>Tool outputs\<close>

record disc_hit =
  hit_chunk :: string
  hit_document :: string
  hit_score :: string
  hit_text :: string

datatype disc_item = DiscGroup "disc_hit list" | DiscHit disc_hit

record candidate =
  cd_chunk :: string
  cd_document :: "string option"
  cd_citation :: "string option"
  cd_text :: string
  cd_bm25 :: "string option"
  cd_dense :: "string option"
  cd_rrf :: "string option"
  cd_cross :: "string option"

record doc_chunk =
  dc_chunk :: "string option"
  dc_text :: string

record query_source =
  qs_citation :: string
  qs_score :: string
  qs_text :: string
  qs_chunk :: "string option"
  qs_document :: "string option"
  qs_rank :: "int option"
  qs_kind :: "string option"
  qs_reranker :: "string option"

datatype tool_data =
    Discovery string int "disc_item list" string
  | Retrieval int "candidate list" "stage_fact list"
  | DocumentData string int "doc_chunk list"
  | QueryData int "query_source list"

datatype obs_error = ObsLimit | ObsIntegrity

section \<open>Redaction\<close>

definition value_char :: "char \<Rightarrow> bool" where
  "value_char c \<longleftrightarrow> \<not> (is_space c \<or> c = CHR '','' \<or> c = CHR '';'')"

abbreviation credential_mark :: string where "credential_mark \<equiv> ''[redacted credential]''"

definition redactions :: "(rx \<times> string) list" where
  "redactions =
     [(seq [Bound, lit_ci ''bearer'', plus (Cls is_space), plus (Cls value_char)], credential_mark),
      (seq [Bound, lit_ci ''authorization'', spaces, lit '':'', spaces, plus (Cls value_char),
            opt (Then (plus (Cls is_space)) (plus (Cls value_char)))], credential_mark),
      (seq [Bound, opt (lit_ci ''groq_''), lit_ci ''api'', opt (Cls (one_of ''_-'')), lit_ci ''key'',
            star (Cls is_digit), spaces, colon_or_eq, spaces, plus (Cls value_char)], credential_mark),
      (seq [Bound, lit_ci ''local_workspace_token'', spaces, colon_or_eq, spaces, plus (Cls value_char)], credential_mark),
      (seq [Bound, lit ''sk-'', Rep (Cls key_char) 8 None], credential_mark),
      (Then machine_path_rx (star (Cls value_char)), ''[redacted path]'')]"

definition redact :: "string \<Rightarrow> string" where
  "redact s = fold (\<lambda>pr t. sub (fst pr) (snd pr) t) redactions s"

definition safe_text :: "string option \<Rightarrow> nat \<Rightarrow> string \<times> bool" where
  "safe_text v limit =
    (let s = (case v of None \<Rightarrow> [] | Some x \<Rightarrow> x); t = redact s in (take limit t, limit < length t \<or> t \<noteq> s))"

section \<open>Identities\<close>

definition check_scores :: "(string \<times> string option) list \<Rightarrow> obs_error + (string \<times> string option) list" where
  "check_scores kvs =
    bindE (ensure (list_all (\<lambda>kv. case snd kv of None \<Rightarrow> True | Some x \<Rightarrow> finite_float x) kvs) ObsIntegrity) (\<lambda>_. Inr kvs)"

definition check_canonical :: "string \<Rightarrow> string option \<Rightarrow> obs_error + string option" where
  "check_canonical kind v =
    (case v of None \<Rightarrow> Inr None
     | Some x \<Rightarrow> bindE (ensure (canonical_ref (kind, x)) ObsIntegrity) (\<lambda>_. Inr (Some x)))"

definition filing_ticker_rx :: rx where
  "filing_ticker_rx = Then (Cls is_upper)
     (Rep (Cls (\<lambda>c. is_upper c \<or> is_digit c \<or> c = CHR ''.'' \<or> c = CHR ''-'')) 0 (Some 9))"

definition accession_rx :: rx where
  "accession_rx = seq [Rep (Cls is_digit) 10 (Some 10), lit ''-'', Rep (Cls is_digit) 2 (Some 2), lit ''-'',
                       Rep (Cls is_digit) 6 (Some 6)]"

text \<open>The first groups of the two \<open>re.match\<close> calls on a chunk identity.\<close>

definition chunk_ticker :: "string \<Rightarrow> string option" where
  "chunk_ticker s =
    map_option (\<lambda>y. take (length s - length (snd y)) s)
      (find (\<lambda>y. case snd y of [] \<Rightarrow> False | c # _ \<Rightarrow> c = CHR ''_'' \<or> c = CHR ''-'') (ends filing_ticker_rx (None, s)))"

definition chunk_accession :: "string \<Rightarrow> string option" where
  "chunk_accession s =
    map_option (\<lambda>y. take 18 (snd y))
      (find (\<lambda>y. 18 < length (snd y) \<and> list_all is_digit (take 18 (snd y)) \<and> snd y ! 18 = CHR ''_'')
        (ends (Then filing_ticker_rx (lit ''_'')) (None, s)))"

definition source_pair_conflict :: "string option \<Rightarrow> string option \<Rightarrow> bool" where
  "source_pair_conflict d c =
    (case (d, c) of
       (Some ds, Some cs) \<Rightarrow>
         (let t = takeWhile (\<lambda>x. x \<noteq> CHR '':'') ds; r = dropWhile (\<lambda>x. x \<noteq> CHR '':'') ds; acc = tl r in
          ds \<noteq> [] \<and> cs \<noteq> [] \<and> r \<noteq> [] \<and> fullmatch filing_ticker_rx t \<and>
          ((case chunk_ticker cs of None \<Rightarrow> False | Some ct \<Rightarrow> ct \<noteq> t) \<or>
           (fullmatch accession_rx acc \<and>
            (case chunk_accession cs of None \<Rightarrow> False
             | Some ca \<Rightarrow> ca \<noteq> filter (\<lambda>x. x \<noteq> CHR ''-'') acc))))
     | _ \<Rightarrow> False)"

definition make_record ::
  "string option \<Rightarrow> string option \<Rightarrow> string option \<Rightarrow> string option \<Rightarrow> string option
     \<Rightarrow> (string \<times> string option) list \<Rightarrow> string \<Rightarrow> nat \<Rightarrow> obs_error + (evidence_record \<times> bool)" where
  "make_record d c label citation kind scores excerpt limit =
    bindE (ensure (case kind of None \<Rightarrow> True | Some k \<Rightarrow> \<not> (64 < length k \<or> contains_sensitive_text k)) ObsIntegrity) (\<lambda>_.
    let ex = safe_text (Some excerpt) limit; ci = safe_text citation 256 in
    bindE (check_canonical ''document_id'' d) (\<lambda>d'.
    bindE (check_canonical ''chunk_id'' c) (\<lambda>c'.
    bindE (ensure (\<not> source_pair_conflict d' c') ObsIntegrity) (\<lambda>_.
    Inr (\<lparr>evd_document = d', evd_chunk = c', evd_label = label,
          evd_citation = (if fst ci = [] then None else Some (fst ci)),
          evd_score_kind = kind, evd_scores = scores, evd_excerpt = fst ex\<rparr>, snd ex \<or> snd ci)))))"

section \<open>Extraction\<close>

fun item_hits :: "disc_item \<Rightarrow> disc_hit list" where
  "item_hits (DiscGroup hs) = hs"
| "item_hits (DiscHit h) = [h]"

definition hit_record :: "agent_limits \<Rightarrow> string \<Rightarrow> disc_hit \<Rightarrow> obs_error + (evidence_record \<times> bool)" where
  "hit_record l engine h =
    bindE (check_scores [(''score'', Some (hit_score h))]) (\<lambda>sc.
    make_record (Some (hit_document h)) (Some (hit_chunk h)) None None (Some engine) sc (hit_text h) (al_max_excerpt l))"

definition candidate_record :: "agent_limits \<Rightarrow> candidate \<Rightarrow> obs_error + (evidence_record \<times> bool)" where
  "candidate_record l c =
    bindE (check_scores [(''bm25_score'', cd_bm25 c), (''dense_score'', cd_dense c),
                         (''rrf_score'', cd_rrf c), (''cross_encoder_score'', cd_cross c)]) (\<lambda>sc.
    make_record (cd_document c) (Some (cd_chunk c)) None (cd_citation c) None sc (cd_text c) (al_max_excerpt l))"

definition doc_record :: "agent_limits \<Rightarrow> string \<Rightarrow> doc_chunk \<Rightarrow> obs_error + (evidence_record \<times> bool)" where
  "doc_record l d c = make_record (Some d) (dc_chunk c) None None None [] (dc_text c) (al_max_excerpt l)"

definition source_record :: "agent_limits \<Rightarrow> query_source \<Rightarrow> obs_error + (evidence_record \<times> bool)" where
  "source_record l s =
    (let label = (case qs_rank s of None \<Rightarrow> None
                  | Some r \<Rightarrow> if 0 < r then Some (''[Source '' @ dec_int r @ '']'') else None) in
    bindE (check_scores [(''score'', Some (qs_score s)), (''reranker_score'', qs_reranker s)]) (\<lambda>sc.
    make_record (qs_document s) (qs_chunk s) label (Some (qs_citation s)) (qs_kind s) sc (qs_text s) (al_max_excerpt l)))"

definition safe_stages :: "stage_fact list \<Rightarrow> bool" where
  "safe_stages ss \<longleftrightarrow>
     list_all (\<lambda>s. \<not> (64 < length (sf_name s) \<or> contains_sensitive_text (sf_name s)) \<and>
                   (case sf_elapsed s of None \<Rightarrow> True | Some x \<Rightarrow> finite_float x)) ss"

text \<open>\<open>_extract\<close>: search identity, records, stages, reported items, truncation.\<close>

fun extract_data ::
  "agent_limits \<Rightarrow> tool_data
     \<Rightarrow> obs_error + (string option \<times> evidence_record list \<times> stage_fact list \<times> int \<times> bool)" where
  "extract_data l (Discovery sid tot items engine) =
    bindE (check_canonical ''search_id'' (Some sid)) (\<lambda>s.
    let hits = concat (map item_hits items) in
    bindE (mapE (hit_record l engine) (take (al_max_evidence l) hits)) (\<lambda>rs.
    Inr (s, map fst rs, [], tot, list_ex snd rs \<or> al_max_evidence l < length hits)))"
| "extract_data l (Retrieval n cands stages) =
    bindE (mapE (candidate_record l) (take (al_max_evidence l) cands)) (\<lambda>rs.
    bindE (ensure (safe_stages (take 8 stages)) ObsIntegrity) (\<lambda>_.
    Inr (None, map fst rs, take 8 stages, n,
         list_ex snd rs \<or> al_max_evidence l < length cands \<or> 8 < length stages)))"
| "extract_data l (DocumentData d tot chunks) =
    bindE (mapE (doc_record l d) (take (al_max_evidence l) chunks)) (\<lambda>rs.
    bindE (if chunks = []
           then bindE (check_canonical ''document_id'' (Some d)) (\<lambda>d'.
                Inr [\<lparr>evd_document = d', evd_chunk = None, evd_label = None, evd_citation = None,
                      evd_score_kind = None, evd_scores = [], evd_excerpt = []\<rparr>])
           else Inr []) (\<lambda>extra.
    Inr (None, map fst rs @ extra, [], tot, list_ex snd rs \<or> al_max_evidence l < length chunks)))"
| "extract_data l (QueryData n srcs) =
    bindE (mapE (source_record l) (take (al_max_evidence l) srcs)) (\<lambda>rs.
    Inr (None, map fst rs, [], n, list_ex snd rs \<or> al_max_evidence l < length srcs))"

section \<open>Projection\<close>

text \<open>The \<open>while\<close> loop: blank the last excerpt, else drop the last record, else the last stage.\<close>

definition blank_last :: "evidence_record list \<Rightarrow> evidence_record list" where
  "blank_last rs = butlast rs @ [(last rs)\<lparr>evd_excerpt := []\<rparr>]"

definition shrink_weight :: "evidence_record list \<Rightarrow> nat" where
  "shrink_weight rs = sum_list (map (\<lambda>r. if evd_excerpt r = [] then 1 else 2) rs)"

lemma shrink_weight_snoc:
  "shrink_weight (rs @ [r]) = shrink_weight rs + (if evd_excerpt r = [] then 1 else 2)"
  by (simp add: shrink_weight_def)

lemma blank_last_weight:
  assumes "rs \<noteq> []" "evd_excerpt (last rs) \<noteq> []"
  shows "shrink_weight (blank_last rs) < shrink_weight rs"
proof -
  have "shrink_weight rs = shrink_weight (butlast rs @ [last rs])" using assms(1) by simp
  then show ?thesis using assms(2) by (simp add: blank_last_def shrink_weight_snoc)
qed

lemma butlast_weight:
  assumes "rs \<noteq> []"
  shows "shrink_weight (butlast rs) < shrink_weight rs"
proof -
  have "shrink_weight rs = shrink_weight (butlast rs @ [last rs])" using assms by simp
  then show ?thesis by (simp add: shrink_weight_snoc)
qed

definition build ::
  "string \<Rightarrow> string option \<Rightarrow> evidence_record list \<Rightarrow> stage_fact list \<Rightarrow> int \<Rightarrow> bool \<Rightarrow> agent_observation" where
  "build tool sid records stages reported trunc =
    \<lparr>ob_tool = tool, ob_search = sid, ob_evidence = records, ob_stages = stages,
     ob_reported = reported, ob_truncated = trunc\<rparr>"

function shrink ::
  "string \<Rightarrow> string option \<Rightarrow> int \<Rightarrow> int \<Rightarrow> evidence_record list \<Rightarrow> stage_fact list \<Rightarrow> bool
     \<Rightarrow> obs_error + agent_observation" where
  "shrink tool sid reported budget records stages trunc =
    (let ob = build tool sid records stages reported trunc in
     if int (observation_bytes ob) \<le> budget then Inr ob
     else if records \<noteq> [] \<and> evd_excerpt (last records) \<noteq> []
       then shrink tool sid reported budget (blank_last records) stages True
     else if records \<noteq> [] then shrink tool sid reported budget (butlast records) stages True
     else if stages \<noteq> [] then shrink tool sid reported budget records (butlast stages) True
     else Inl ObsLimit)"
  by pat_completeness auto
termination
  by (relation "measure (\<lambda>(tool, sid, reported, budget, records, stages, trunc). shrink_weight records + length stages)")
     (auto simp: blank_last_weight butlast_weight)

declare shrink.simps [simp del]

definition project_observation ::
  "agent_limits \<Rightarrow> int \<Rightarrow> string \<Rightarrow> tool_data \<Rightarrow> obs_error + agent_observation" where
  "project_observation l remaining tool d =
    (let budget = min (al_max_observation_bytes l) remaining in
     bindE (extract_data l d) (\<lambda>(sid, records, stages, reported, trunc).
     shrink tool sid reported budget records stages trunc))"

section \<open>Facts\<close>

abbreviation identity :: "evidence_record \<Rightarrow> string option \<times> string option" where
  "identity r \<equiv> (evd_document r, evd_chunk r)"

lemma blank_last_map:
  "rs \<noteq> [] \<Longrightarrow> (\<And>r. f (r\<lparr>evd_excerpt := []\<rparr>) = f r) \<Longrightarrow> map f (blank_last rs) = map f rs"
  unfolding blank_last_def by (metis append_butlast_last_id list.simps(8) list.simps(9) map_append)

lemma prefix_map_butlast: "prefix xs (map f (butlast ys)) \<Longrightarrow> prefix xs (map f ys)"
  by (metis butlast_snoc map_butlast prefix_order.order_trans prefixeq_butlast)

lemma shrink_ok:
  assumes "shrink tool sid reported budget records stages trunc = Inr ob"
  shows "int (observation_bytes ob) \<le> budget \<and> ob_tool ob = tool \<and> ob_search ob = sid \<and> ob_reported ob = reported \<and>
     prefix (map (\<lambda>r. (identity r, evd_label r, evd_citation r, evd_score_kind r, evd_scores r)) (ob_evidence ob))
            (map (\<lambda>r. (identity r, evd_label r, evd_citation r, evd_score_kind r, evd_scores r)) records) \<and>
     prefix (ob_stages ob) stages \<and>
     (ob_truncated ob = trunc \<and> ob_evidence ob = records \<and> ob_stages ob = stages \<or> ob_truncated ob)"
  using assms
proof (induction tool sid reported budget records stages trunc arbitrary: ob rule: shrink.induct)
  case (1 tool sid reported budget records stages trunc)
  let ?ob = "build tool sid records stages reported trunc"
  let ?f = "\<lambda>r. (identity r, evd_label r, evd_citation r, evd_score_kind r, evd_scores r)"
  consider "int (observation_bytes ?ob) \<le> budget"
    | "\<not> int (observation_bytes ?ob) \<le> budget" "records \<noteq> [] \<and> evd_excerpt (last records) \<noteq> []"
    | "\<not> int (observation_bytes ?ob) \<le> budget" "\<not> (records \<noteq> [] \<and> evd_excerpt (last records) \<noteq> [])" "records \<noteq> []"
    | "\<not> int (observation_bytes ?ob) \<le> budget" "\<not> (records \<noteq> [] \<and> evd_excerpt (last records) \<noteq> [])" "\<not> records \<noteq> []" "stages \<noteq> []"
    | "\<not> int (observation_bytes ?ob) \<le> budget" "\<not> (records \<noteq> [] \<and> evd_excerpt (last records) \<noteq> [])" "\<not> records \<noteq> []" "\<not> stages \<noteq> []"
    by blast
  then show ?case
  proof cases
    case a: 1
    with "1.prems" have "ob = ?ob" by (simp add: shrink.simps [of tool] Let_def)
    with a show ?thesis by (simp add: build_def)
  next
    case 2
    with "1.prems" have "shrink tool sid reported budget (blank_last records) stages True = Inr ob"
      by (simp add: shrink.simps [of tool _ _ _ records] Let_def)
    from "1.IH"(1) [OF refl 2 this] 2(2) show ?thesis by (auto simp: blank_last_map)
  next
    case 3
    with "1.prems" have "shrink tool sid reported budget (butlast records) stages True = Inr ob"
      by (simp add: shrink.simps [of tool _ _ _ records] Let_def)
    from "1.IH"(2) [OF refl 3 this] show ?thesis using prefix_map_butlast by auto
  next
    case 4
    with "1.prems" have "shrink tool sid reported budget records (butlast stages) True = Inr ob"
      by (simp add: shrink.simps [of tool _ _ _ _ stages] Let_def)
    from "1.IH"(3) [OF refl 4 this] show ?thesis
      by (metis prefix_order.order_trans prefixeq_butlast)
  next
    case 5
    with "1.prems" show ?thesis by (simp add: shrink.simps [of tool _ _ _ records] Let_def)
  qed
qed

lemma make_record_ok:
  assumes "make_record d c label citation kind scores excerpt limit = Inr (r, t)"
  shows "canonical_record r" "evd_document r = d" "evd_chunk r = c" "evd_label r = label" "evd_scores r = scores"
    "length (evd_excerpt r) \<le> limit" "\<not> source_pair_conflict d c"
proof -
  from assms obtain d' c' where
    "check_canonical ''document_id'' d = Inr d'" "check_canonical ''chunk_id'' c = Inr c'" "\<not> source_pair_conflict d' c'"
    and r: "r = \<lparr>evd_document = d', evd_chunk = c', evd_label = label,
          evd_citation = (if fst (safe_text citation 256) = [] then None else Some (fst (safe_text citation 256))),
          evd_score_kind = kind, evd_scores = scores, evd_excerpt = fst (safe_text (Some excerpt) limit)\<rparr>"
    unfolding make_record_def Let_def by (elim bindE_okE) auto
  then have same: "d' = d" "c' = c" "case d of None \<Rightarrow> True | Some x \<Rightarrow> canonical_id x"
    "case c of None \<Rightarrow> True | Some x \<Rightarrow> canonical_id x"
    by (auto simp: check_canonical_def bindE_ok canonical_ref_def split: option.splits)
  with r show "canonical_record r" by (simp add: canonical_record_def)
  show "evd_document r = d" "evd_chunk r = c" "evd_label r = label" "evd_scores r = scores" using r same by simp_all
  show "length (evd_excerpt r) \<le> limit" using r by (simp add: safe_text_def Let_def)
  show "\<not> source_pair_conflict d c" using same \<open>\<not> source_pair_conflict d' c'\<close> by simp
qed

definition good_record :: "agent_limits \<Rightarrow> evidence_record \<Rightarrow> bool" where
  "good_record l r \<longleftrightarrow> canonical_record r \<and> length (evd_excerpt r) \<le> al_max_excerpt l"

lemma mapE_all:
  assumes "mapE f xs = Inr ys" "\<And>x y. f x = Inr y \<Longrightarrow> P y" "y \<in> set ys"
  shows "P y"
  using assms(1,3)
proof (induction xs arbitrary: ys)
  case (Cons x xs)
  then obtain z zs where "f x = Inr z" "mapE f xs = Inr zs" "ys = z # zs" by (auto simp: bindE_ok)
  with Cons assms(2) show ?case by auto
qed simp

lemma record_good:
  "hit_record l e h = Inr rt \<Longrightarrow> good_record l (fst rt)"
  "candidate_record l c = Inr rt \<Longrightarrow> good_record l (fst rt)"
  "doc_record l d dc = Inr rt \<Longrightarrow> good_record l (fst rt)"
  "source_record l q = Inr rt \<Longrightarrow> good_record l (fst rt)"
  using make_record_ok(1,6) by (cases rt; auto simp: good_record_def hit_record_def candidate_record_def
      doc_record_def source_record_def Let_def bindE_ok)+

lemma mapE_good:
  assumes "mapE f xs = Inr rts" "\<And>x rt. f x = Inr rt \<Longrightarrow> good_record l (fst rt)" "r \<in> set (map fst rts)"
  shows "good_record l r"
proof -
  from assms(3) obtain rt where "rt \<in> set rts" "r = fst rt" by auto
  then show ?thesis using mapE_all [OF assms(1), of "\<lambda>rt. good_record l (fst rt)" rt] assms(2) by simp
qed

lemma extract_good:
  assumes "extract_data l d = Inr (sid, rs, st, n, t)"
  shows "\<forall>r \<in> set rs. good_record l r" "case sid of None \<Rightarrow> True | Some s \<Rightarrow> canonical_search_id s"
    "length rs \<le> max 1 (al_max_evidence l)"
proof -
  have all: "(\<forall>r \<in> set rs. good_record l r) \<and> (case sid of None \<Rightarrow> True | Some s \<Rightarrow> canonical_search_id s) \<and>
    length rs \<le> max 1 (al_max_evidence l)"
  proof (cases d)
    case (Discovery s tot items engine)
    with assms obtain rts where a: "check_canonical ''search_id'' (Some s) = Inr sid"
      "mapE (hit_record l engine) (take (al_max_evidence l) (concat (map item_hits items))) = Inr rts" "rs = map fst rts"
      by (auto simp: bindE_ok Let_def)
    have "\<forall>r \<in> set rs. good_record l r" unfolding a(3) by (rule ballI, rule mapE_good [OF a(2)], rule record_good(1), assumption+)
    moreover have "length rts \<le> al_max_evidence l" using mapE_ok_length [OF a(2)] by simp
    ultimately show ?thesis using a(1,3) by (auto simp: check_canonical_def canonical_ref_def bindE_ok)
  next
    case (Retrieval m cands stages)
    with assms obtain rts where a:
      "mapE (candidate_record l) (take (al_max_evidence l) cands) = Inr rts" "rs = map fst rts" "sid = None"
      by (auto simp: bindE_ok Let_def)
    have "\<forall>r \<in> set rs. good_record l r" unfolding a(2) by (rule ballI, rule mapE_good [OF a(1)], rule record_good(2), assumption+)
    moreover have "length rts \<le> al_max_evidence l" using mapE_ok_length [OF a(1)] by simp
    ultimately show ?thesis using a(2,3) by auto
  next
    case (DocumentData did tot chunks)
    with assms obtain rts extra where a:
      "mapE (doc_record l did) (take (al_max_evidence l) chunks) = Inr rts" "rs = map fst rts @ extra" "sid = None"
      "(if chunks = []
           then bindE (check_canonical ''document_id'' (Some did)) (\<lambda>d'.
                Inr [\<lparr>evd_document = d', evd_chunk = None, evd_label = None, evd_citation = None,
                      evd_score_kind = None, evd_scores = [], evd_excerpt = []\<rparr>])
           else Inr []) = (Inr extra :: obs_error + evidence_record list)"
      by (auto simp: bindE_ok Let_def simp del: if_split_asm)
    have "\<forall>r \<in> set (map fst rts). good_record l r" by (rule ballI, rule mapE_good [OF a(1)], rule record_good(3), assumption+)
    moreover have "\<forall>r \<in> set extra. good_record l r"
      using a(4) by (auto simp: bindE_ok check_canonical_def canonical_ref_def good_record_def canonical_record_def split: if_splits)
    moreover have "length rts \<le> al_max_evidence l" "chunks = [] \<longrightarrow> rts = []" "chunks \<noteq> [] \<longrightarrow> extra = []" "length extra \<le> 1"
      using mapE_ok_length [OF a(1)] a(4) by (auto simp: bindE_ok split: if_splits)
    ultimately show ?thesis using a(2,3) by (cases "chunks = []") auto
  next
    case (QueryData m srcs)
    with assms obtain rts where a:
      "mapE (source_record l) (take (al_max_evidence l) srcs) = Inr rts" "rs = map fst rts" "sid = None"
      by (auto simp: bindE_ok Let_def)
    have "\<forall>r \<in> set rs. good_record l r" unfolding a(2) by (rule ballI, rule mapE_good [OF a(1)], rule record_good(4), assumption+)
    moreover have "length rts \<le> al_max_evidence l" using mapE_ok_length [OF a(1)] by simp
    ultimately show ?thesis using a(2,3) by auto
  qed
  then show "\<forall>r \<in> set rs. good_record l r" "case sid of None \<Rightarrow> True | Some s \<Rightarrow> canonical_search_id s"
    "length rs \<le> max 1 (al_max_evidence l)" by blast+
qed

end
