(* ===== verification/Agent_Decision.thy ===== *)
theory Agent_Decision
  imports Agent_Types
begin

text \<open>
  \<open>src/agent/decision.py\<close>: \<open>parse_decision\<close>, from the structured object a decision
  model returns to a validated tool or final decision; \<open>None\<close> is the \<open>ValueError\<close> (or
  \<open>ValidationError\<close>) of the source.  The models are strict and forbid extra fields; a
  nested model is given as a dictionary.
\<close>

datatype decision =
    ToolDecision string "(string \<times> pyval) list" "string option"
  | FinalDecision string "evidence_ref list" "string list"

definition tool_identifier :: "string \<Rightarrow> bool" where
  "tool_identifier s = (case s of [] \<Rightarrow> False
     | c # cs \<Rightarrow> is_lower c \<and> length cs \<le> 63 \<and> list_all (\<lambda>d. is_lower d \<or> is_digit d \<or> d = CHR ''_'') cs)"

fun str_key :: "pykey \<Rightarrow> string option" where
  "str_key (KStr s) = Some s"
| "str_key KOther = None"

text \<open>A model's fields: string keys, all of them declared.\<close>

definition model_fields :: "string list \<Rightarrow> pyval \<Rightarrow> (string \<times> pyval) list option" where
  "model_fields allowed v = (case v of
     PDict kvs \<Rightarrow> (case those (map (str_key \<circ> fst) kvs) of
        None \<Rightarrow> None
      | Some ks \<Rightarrow> if set ks \<subseteq> set allowed then Some (zip ks (map snd kvs)) else None)
   | _ \<Rightarrow> None)"

fun scalar_ok :: "pyval \<Rightarrow> bool" where
  "scalar_ok (PStr s) = (\<not> (500 < length s \<or> contains_sensitive_text s))"
| "scalar_ok (PFloat x) = finite_float x"
| "scalar_ok (PInt _) = True"
| "scalar_ok (PBool _) = True"
| "scalar_ok PNone = True"
| "scalar_ok _ = False"

text \<open>\<open>bounded_arguments\<close> on a \<open>dict[str, DecisionScalar]\<close>.\<close>

definition parse_arguments :: "pyval \<Rightarrow> (string \<times> pyval) list option" where
  "parse_arguments v = (case v of
     PDict kvs \<Rightarrow> (case those (map (str_key \<circ> fst) kvs) of
        None \<Rightarrow> None
      | Some ks \<Rightarrow>
          if length kvs \<le> 16 \<and> list_all tool_identifier ks \<and> list_all scalar_ok (map snd kvs)
          then Some (zip ks (map snd kvs)) else None)
   | _ \<Rightarrow> None)"

fun as_str :: "pyval \<Rightarrow> string option" where
  "as_str (PStr s) = Some s"
| "as_str _ = None"

text \<open>An optional string field with a pattern: absent and \<open>None\<close> are the same.\<close>

definition optional_str :: "(string \<Rightarrow> bool) \<Rightarrow> pyval option \<Rightarrow> string option option" where
  "optional_str ok v = (case v of
     None \<Rightarrow> Some None
   | Some PNone \<Rightarrow> Some None
   | Some (PStr s) \<Rightarrow> if ok s then Some (Some s) else None
   | _ \<Rightarrow> None)"

definition as_items :: "pyval option \<Rightarrow> pyval list option" where
  "as_items v = (case v of
     None \<Rightarrow> Some [] | Some (PList vs) \<Rightarrow> Some vs | Some (PTuple vs) \<Rightarrow> Some vs | _ \<Rightarrow> None)"

definition parse_ref :: "pyval \<Rightarrow> evidence_ref option" where
  "parse_ref v = Option.bind (model_fields [''kind'', ''value''] v) (\<lambda>fs.
     Option.bind (Option.bind (map_of fs ''kind'') as_str) (\<lambda>k.
     Option.bind (Option.bind (map_of fs ''value'') as_str) (\<lambda>x.
     if canonical_ref (k, x) then Some (k, x) else None)))"

definition parse_tool :: "pyval \<Rightarrow> decision option" where
  "parse_tool v = Option.bind (model_fields [''kind'', ''tool_name'', ''arguments'', ''objective_id''] v) (\<lambda>fs.
     Option.bind (Option.bind (map_of fs ''tool_name'') as_str) (\<lambda>name.
     Option.bind (Option.bind (map_of fs ''arguments'') parse_arguments) (\<lambda>args.
     Option.bind (optional_str obj_identifier (map_of fs ''objective_id'')) (\<lambda>obj.
     if tool_identifier name then Some (ToolDecision name args obj) else None))))"

definition final_of :: "string \<Rightarrow> (string \<times> pyval) list \<Rightarrow> decision option" where
  "final_of answer fs =
    (if 1 \<le> length answer \<and> length answer \<le> 4000 \<and> strip answer \<noteq> [] \<and> \<not> contains_sensitive_text answer then
            Option.bind (as_items (map_of fs ''evidence_refs'')) (\<lambda>rs.
            Option.bind (those (map parse_ref rs)) (\<lambda>refs.
            Option.bind (as_items (map_of fs ''unresolved_objective_ids'')) (\<lambda>us.
            Option.bind (those (map as_str us)) (\<lambda>ids.
            if length refs \<le> 20 \<and> length ids \<le> 6 \<and> list_all obj_identifier ids \<and> distinct refs
            then Some (FinalDecision (strip answer) refs ids) else None))))
     else None)"

definition parse_final :: "pyval \<Rightarrow> decision option" where
  "parse_final v = Option.bind (model_fields [''kind'', ''answer'', ''evidence_refs'', ''unresolved_objective_ids''] v) (\<lambda>fs.
     Option.bind (Option.bind (map_of fs ''answer'') as_str) (\<lambda>answer. final_of answer fs))"

definition parse_decision :: "pyval \<Rightarrow> decision option" where
  "parse_decision v = (case v of
     PDict kvs \<Rightarrow> (case dict_get kvs ''kind'' of
        Some (PStr k) \<Rightarrow> if k = ''tool'' then parse_tool v else if k = ''final'' then parse_final v else None
      | _ \<Rightarrow> None)
   | _ \<Rightarrow> None)"

section \<open>What a parsed decision guarantees\<close>

lemma parse_final_ok:
  assumes "parse_final v = Some d"
  obtains a refs ids where "d = FinalDecision a refs ids" "a \<noteq> []" "length a \<le> 4000" "length refs \<le> 20"
    "distinct refs" "\<forall>r \<in> set refs. canonical_ref r" "length ids \<le> 6" "list_all obj_identifier ids"
proof -
  from assms obtain fs answer where f: "final_of answer fs = Some d"
    by (auto simp: parse_final_def Option.bind_eq_Some_conv)
  then have a: "answer \<noteq> []" "length answer \<le> 4000" "strip answer \<noteq> []"
    by (auto simp: final_of_def split: if_splits)
  from f have rest: "Option.bind (as_items (map_of fs ''evidence_refs'')) (\<lambda>rs.
            Option.bind (those (map parse_ref rs)) (\<lambda>refs.
            Option.bind (as_items (map_of fs ''unresolved_objective_ids'')) (\<lambda>us.
            Option.bind (those (map as_str us)) (\<lambda>ids.
            if length refs \<le> 20 \<and> length ids \<le> 6 \<and> list_all obj_identifier ids \<and> distinct refs
            then Some (FinalDecision (strip answer) refs ids) else None)))) = Some d"
    unfolding final_of_def by (simp split: if_splits)
  from rest obtain rs refs ids where r: "those (map parse_ref rs) = Some refs" "length refs \<le> 20" "length ids \<le> 6"
    "list_all obj_identifier ids" "distinct refs" "d = FinalDecision (strip answer) refs ids"
    by (auto simp: Option.bind_eq_Some_conv split: if_splits)
  have "canonical_ref x" if x: "x \<in> set refs" for x
  proof -
    obtain y where "parse_ref y = Some x" using those_map_Some_in [OF r(1) x] by blast
    then show ?thesis
      by (auto simp: parse_ref_def Option.bind_eq_Some_conv split: if_splits)
  qed
  moreover have "length (strip answer) \<le> length answer"
    unfolding strip_def strip_by_def using length_dropWhile_le [of is_space] by (metis le_trans length_rev)
  ultimately show ?thesis using that [OF r(6)] r a by auto
qed

end
