(* ===== verification/Agent_Orchestrator.thy ===== *)
theory Agent_Orchestrator
  imports Agent_Research Agent_Observation Agent_Decision
begin

text \<open>
  \<open>AgentOrchestrator\<close> of \<open>src/agent/orchestration.py\<close> over the registry of
  \<open>src/agent/registry.py\<close>.  The decision model, the tools' executables, the
  cancellation signal and the trace sink are the outside world, \<open>agent_env\<close>: what each
  of them answers when it is called.  The signal and the sink act on a world of type
  \<open>'w\<close> (the job store, for a durable run), which the state carries along; the result
  holds the world at its end.  An exception that leaves \<open>run\<close> is \<open>Inl w\<close>, with the
  world at that moment.
\<close>

section \<open>Configuration and outside world\<close>

record agent_tool =
  at_name :: string
  at_provider :: bool
  at_validate :: "(string \<times> pyval) list \<Rightarrow> pyval option"

record orchestrator =
  oc_registry :: "agent_tool list"
  oc_requires_provider :: bool
  oc_limits :: agent_limits
  oc_policy :: run_policy
  oc_research :: "research_config option"
  oc_protected :: "string list"
  oc_sha :: "string \<Rightarrow> string"

text \<open>\<open>AgentExecutionContext\<close>; \<open>cx_texts\<close> are the two localized texts of its locale.\<close>

record exec_context =
  cx_allowed :: "string list"
  cx_provider :: bool
  cx_texts :: "string \<times> string"

definition english_texts :: "string \<times> string" where
  "english_texts = (''No indexed source evidence was collected for this research goal.'',
                    ''Unresolved research objectives'')"

text \<open>\<open>DecisionRequest\<close>: policy view, goal, offered tools, observations, counters and research view.\<close>

record decision_request =
  dq_offered :: "string list"
  dq_require_observation :: bool
  dq_max_steps :: nat
  dq_max_tool_calls :: nat
  dq_per_tool :: "(string \<times> nat) list"
  dq_goal :: string
  dq_observations :: "agent_observation list"
  dq_steps :: nat
  dq_tool_calls :: nat
  dq_remaining :: "(string \<times> nat) list"
  dq_research :: "(research_summary \<times> research_config \<times> research_action list) option"

text \<open>The six codes that \<open>DecisionProviderError\<close> accepts.\<close>

datatype provider_code =
    AuthFailed | RateLimited | TimedOut | InvalidResponse | SchemaViolation | ProviderOther

fun provider_code_name :: "provider_code \<Rightarrow> string" where
  "provider_code_name AuthFailed = ''decision_provider_auth_failed''"
| "provider_code_name RateLimited = ''decision_provider_rate_limited''"
| "provider_code_name TimedOut = ''decision_provider_timeout''"
| "provider_code_name InvalidResponse = ''decision_provider_invalid_response''"
| "provider_code_name SchemaViolation = ''decision_provider_schema_violation''"
| "provider_code_name ProviderOther = ''decision_provider_failed''"

datatype model_answer =
    Answered pyval
  | ModelUnavailable
  | ProviderFailed provider_code
  | ExecutionFailed
  | OtherFailure

text \<open>
  \<open>ev_cancelled n k w\<close> is the answer of \<open>is_set\<close> at the \<open>k\<close>-th poll of decision \<open>n\<close>
  (\<open>None\<close> if it raises), \<open>ev_sink t steps tools w\<close> whether the sink took the entry \<open>t\<close>.
\<close>

record 'w agent_env =
  ev_decide :: "nat \<Rightarrow> decision_request \<Rightarrow> model_answer"
  ev_execute :: "nat \<Rightarrow> string \<Rightarrow> pyval \<Rightarrow> string + tool_data"
  ev_cancelled :: "nat \<Rightarrow> nat \<Rightarrow> 'w \<Rightarrow> bool option \<times> 'w"
  ev_sink :: "trace_entry \<Rightarrow> nat \<Rightarrow> nat \<Rightarrow> 'w \<Rightarrow> bool \<times> 'w"

record 'w agent_state =
  st_goal :: string
  st_steps :: nat
  st_decisions :: nat
  st_tool_calls :: nat
  st_per_tool :: "(string \<times> nat) list"
  st_observations :: "agent_observation list"
  st_trace :: "trace_entry list"
  st_seen :: "string list"
  st_bytes :: int
  st_session :: "session option"
  st_summary :: "research_summary option"
  st_view :: "(research_summary \<times> research_config \<times> research_action list) option"
  st_world :: 'w

record 'w agent_result =
  res_status :: agent_status
  res_answer :: "string option"
  res_refs :: "evidence_ref list"
  res_steps :: nat
  res_decisions :: nat
  res_tool_calls :: nat
  res_per_tool :: "(string \<times> nat) list"
  res_observations :: "agent_observation list"
  res_trace :: "trace_entry list"
  res_failure :: "(failure_domain \<times> string) option"
  res_research :: "research_summary option"
  res_world :: 'w

definition result_of ::
  "'w agent_state \<Rightarrow> agent_status \<Rightarrow> (failure_domain \<times> string) option \<Rightarrow> string option \<Rightarrow> evidence_ref list \<Rightarrow> 'w agent_result" where
  "result_of st status failure answer refs =
    \<lparr>res_status = status, res_answer = answer, res_refs = refs, res_steps = st_steps st,
     res_decisions = st_decisions st, res_tool_calls = st_tool_calls st, res_per_tool = st_per_tool st,
     res_observations = st_observations st, res_trace = st_trace st, res_failure = failure,
     res_research = st_summary st, res_world = st_world st\<rparr>"

definition failed :: "'w agent_state \<Rightarrow> agent_status \<Rightarrow> failure_domain \<Rightarrow> string \<Rightarrow> 'w agent_result" where
  "failed st status domain code = result_of st status (Some (domain, code)) None []"

section \<open>Registry\<close>

definition registry_ok :: "agent_tool list \<Rightarrow> bool" where
  "registry_ok ts \<longleftrightarrow> distinct (map at_name ts) \<and> set (map at_name ts) = set tool_names"

definition find_tool :: "agent_tool list \<Rightarrow> string \<Rightarrow> agent_tool option" where
  "find_tool ts name = find (\<lambda>t. at_name t = name) ts"

text \<open>\<open>invoke\<close>: the registry repeats the gate, then executes; an \<open>Inl\<close> is an \<open>AgentToolError\<close> code.\<close>

definition invoke ::
  "orchestrator \<Rightarrow> exec_context \<Rightarrow> 'w agent_env \<Rightarrow> nat \<Rightarrow> string \<Rightarrow> (string \<times> pyval) list \<Rightarrow> string + tool_data" where
  "invoke oc cx env n name args =
    bindE (of_opt ''unknown_tool'' (find_tool (oc_registry oc) name)) (\<lambda>t.
    bindE (ensure (name \<in> set (cx_allowed cx)) ''tool_not_allowed'') (\<lambda>_.
    bindE (ensure (\<not> (at_provider t \<and> \<not> cx_provider cx)) ''provider_required'') (\<lambda>_.
    bindE (of_opt ''invalid_arguments'' (at_validate t args)) (\<lambda>body.
    ev_execute env n name body))))"

section \<open>Citations\<close>

definition observation_refs :: "agent_observation \<Rightarrow> evidence_ref list" where
  "observation_refs ob =
    (case ob_search ob of None \<Rightarrow> [] | Some s \<Rightarrow> if s = [] then [] else [(''search_id'', s)]) @
    concat (map (\<lambda>r.
      (case evd_document r of None \<Rightarrow> [] | Some d \<Rightarrow> if d = [] then [] else [(''document_id'', d)]) @
      (case evd_chunk r of None \<Rightarrow> [] | Some c \<Rightarrow> if c = [] then [] else [(''chunk_id'', c)])) (ob_evidence ob))"

definition observed_refs :: "agent_observation list \<Rightarrow> evidence_ref list" where
  "observed_refs obs = concat (map observation_refs obs)"

definition trace_refs :: "agent_observation \<Rightarrow> evidence_ref list" where
  "trace_refs ob = take 20 (sort (dedup (observation_refs ob)))"

definition source_label_rx :: rx where
  "source_label_rx = seq [lit ''[Source'', plus (Cls is_space), Cls (\<lambda>c. is_digit c \<and> c \<noteq> CHR ''0''),
                          star (Cls is_digit), lit '']'']"

definition search_id_rx :: rx where
  "search_id_rx = seq [Bound, lit ''search-'', Rep (Cls is_hex) 16 (Some 16), Bound]"

definition document_id_rx :: rx where
  "document_id_rx = seq [Bound, Rep (Cls is_upper) 1 (Some 5), lit '':'',
     Rep (Cls (\<lambda>c. is_alnum c \<or> c = CHR ''_'' \<or> c = CHR ''.'' \<or> c = CHR ''-'')) 4 (Some 128), Bound]"

definition chunk_id_rx :: rx where
  "chunk_id_rx = seq [Bound, Rep (Cls is_upper) 1 (Some 5), lit ''_'', Rep (Cls is_digit) 8 None, lit ''_'',
     plus (Cls (\<lambda>c. is_alnum c \<or> c = CHR ''_'')), Bound]"

text \<open>The sources that an observation listed under a label.\<close>

definition labelled :: "agent_observation list \<Rightarrow> string \<Rightarrow> (string option \<times> string option) list" where
  "labelled obs label =
     dedup (map identity (filter (\<lambda>r. evd_label r = Some label) (concat (map ob_evidence obs))))"

definition pair_cited :: "evidence_ref list \<Rightarrow> string option \<times> string option \<Rightarrow> bool" where
  "pair_cited refs dc \<longleftrightarrow>
     (case snd dc of None \<Rightarrow> False | Some c \<Rightarrow> (''chunk_id'', c) \<in> set refs) \<or>
     (case fst dc of None \<Rightarrow> False | Some d \<Rightarrow> (''document_id'', d) \<in> set refs)"

definition label_ok :: "agent_observation list \<Rightarrow> evidence_ref list \<Rightarrow> string \<Rightarrow> bool" where
  "label_ok obs refs label \<longleftrightarrow>
     length (labelled obs label) = 1 \<and> list_ex (pair_cited refs) (labelled obs label)"

definition ids_cited :: "evidence_ref list \<Rightarrow> string \<Rightarrow> bool" where
  "ids_cited refs answer \<longleftrightarrow>
     list_all (\<lambda>v. (''search_id'', v) \<in> set refs) (findall search_id_rx answer) \<and>
     list_all (\<lambda>v. (''document_id'', v) \<in> set refs) (findall document_id_rx answer) \<and>
     list_all (\<lambda>v. (''chunk_id'', v) \<in> set refs) (findall chunk_id_rx answer)"

definition validate_final ::
  "run_policy \<Rightarrow> agent_observation list \<Rightarrow> string \<Rightarrow> evidence_ref list \<Rightarrow> string option" where
  "validate_final p obs answer refs =
    (if rp_require_observation p \<and> obs = [] then Some ''final_without_observation''
     else if \<not> set refs \<subseteq> set (observed_refs obs) then Some ''invalid_evidence_reference''
     else if \<not> list_all (label_ok obs refs) (findall source_label_rx answer) then Some ''invalid_citation''
     else if \<not> ids_cited refs answer then Some ''invalid_citation''
     else None)"

section \<open>One round\<close>

definition offered :: "orchestrator \<Rightarrow> exec_context \<Rightarrow> string list" where
  "offered oc cx = map at_name (filter (\<lambda>t. at_name t \<in> set (cx_allowed cx) \<and> (\<not> at_provider t \<or> cx_provider cx))
                     (oc_registry oc))"

definition request_of :: "orchestrator \<Rightarrow> exec_context \<Rightarrow> 'w agent_state \<Rightarrow> decision_request" where
  "request_of oc cx st =
    \<lparr>dq_offered = offered oc cx, dq_require_observation = rp_require_observation (oc_policy oc),
     dq_max_steps = al_max_steps (oc_limits oc), dq_max_tool_calls = al_max_tool_calls (oc_limits oc),
     dq_per_tool = al_per_tool (oc_limits oc), dq_goal = st_goal st, dq_observations = st_observations st,
     dq_steps = st_steps st, dq_tool_calls = st_tool_calls st,
     dq_remaining = map (\<lambda>kv. (fst kv, snd kv - count_at (st_per_tool st) (fst kv))) (al_per_tool (oc_limits oc)),
     dq_research = st_view st\<rparr>"

text \<open>\<open>record\<close>: append to the trace, then hand the entry to the sink, which may raise.\<close>

definition record_entry :: "'w agent_env \<Rightarrow> trace_entry \<Rightarrow> 'w agent_state \<Rightarrow> 'w + 'w agent_state" where
  "record_entry env t st =
    (case ev_sink env t (st_steps st) (st_tool_calls st) (st_world st) of
       (ok, w) \<Rightarrow> if ok then Inr (st\<lparr>st_trace := st_trace st @ [t], st_world := w\<rparr>) else Inl w)"

text \<open>\<open>cancel_event is not None and cancel_event.is_set()\<close>.\<close>

definition poll :: "'w agent_env \<Rightarrow> nat \<Rightarrow> 'w agent_state \<Rightarrow> 'w + (bool \<times> 'w agent_state)" where
  "poll env k st =
    (case ev_cancelled env (st_decisions st) k (st_world st) of
       (None, w) \<Rightarrow> Inl w
     | (Some c, w) \<Rightarrow> Inr (c, st\<lparr>st_world := w\<rparr>))"

definition entry ::
  "'w agent_state \<Rightarrow> string \<Rightarrow> string option \<Rightarrow> string option \<Rightarrow> string list \<Rightarrow> string \<Rightarrow> evidence_ref list \<Rightarrow> string option
     \<Rightarrow> trace_entry" where
  "entry st kind tool obj args outcome refs failure =
    \<lparr>te_index = st_decisions st, te_kind = kind, te_tool = tool, te_objective = obj, te_args = args,
     te_outcome = outcome, te_refs = refs, te_failure = failure\<rparr>"

definition refresh_research :: "'w agent_state \<Rightarrow> 'w + 'w agent_state" where
  "refresh_research st =
    (case st_session st of
       None \<Rightarrow> Inr st
     | Some s \<Rightarrow>
         bindE (of_opt (st_world st) (summary s)) (\<lambda>sm.
         bindE (of_opt (st_world st) (view s)) (\<lambda>v.
         Inr (st\<lparr>st_summary := Some sm, st_view := Some v\<rparr>))))"

text \<open>A round ends in a result or goes on with the next decision.\<close>

type_synonym 'w round_end = "'w agent_result + 'w agent_state"

definition provider_invalid :: "provider_code \<Rightarrow> bool" where
  "provider_invalid code \<longleftrightarrow> code = InvalidResponse \<or> code = SchemaViolation"

definition final_failure :: "orchestrator \<Rightarrow> 'w agent_state \<Rightarrow> string \<Rightarrow> evidence_ref list \<Rightarrow> string list \<Rightarrow> string option" where
  "final_failure oc st answer refs unresolved =
    (case validate_final (oc_policy oc) (st_observations st) answer refs of
       Some code \<Rightarrow> Some code
     | None \<Rightarrow> (case st_session st of
         None \<Rightarrow> None
       | Some s \<Rightarrow> (case validate_research_final s refs unresolved of
           Some code \<Rightarrow> Some code
         | None \<Rightarrow> if 1200 < utf8_len answer then Some ''research_answer_too_long'' else None)))"

definition gap_text :: "research_gap list \<Rightarrow> string" where
  "gap_text gs = join '', '' (map (\<lambda>g. fst g @ '' ('' @ snd g @ '')'') gs)"

definition final_answer :: "exec_context \<Rightarrow> 'w agent_state \<Rightarrow> string \<Rightarrow> string" where
  "final_answer cx st answer =
    (case (st_session st, st_summary st) of
       (Some _, Some sm) \<Rightarrow>
         (let a = (if rs_evidence sm = [] then fst (cx_texts cx) else answer) in
          if rs_gaps sm = [] then a
          else a @ [CHR 0x0A, CHR 0x0A] @ snd (cx_texts cx) @ '': '' @ gap_text (rs_gaps sm) @ ''.'')
     | _ \<Rightarrow> answer)"

definition handle_final ::
  "orchestrator \<Rightarrow> exec_context \<Rightarrow> 'w agent_env \<Rightarrow> string \<Rightarrow> evidence_ref list \<Rightarrow> string list \<Rightarrow> 'w agent_state
     \<Rightarrow> 'w + 'w agent_result" where
  "handle_final oc cx env answer refs unresolved st =
    (if st_session st = None \<and> unresolved \<noteq> [] then
       bindE (record_entry env (entry st ''final'' None None [] ''rejected'' [] (Some ''research_unresolved_mismatch'')) st) (\<lambda>st'.
       Inr (failed st' InvalidDecision DomPolicy ''research_unresolved_mismatch''))
     else
       (case final_failure oc st answer refs unresolved of
          Some code \<Rightarrow>
            bindE (record_entry env (entry st ''final'' None None [] ''rejected'' [] (Some code)) st) (\<lambda>st'.
            Inr (failed st' InvalidDecision DomPolicy code))
        | None \<Rightarrow>
            bindE (record_entry env (entry st ''final'' None None [] ''completed'' refs None) st) (\<lambda>st'.
            Inr (result_of st' Completed None (Some (final_answer cx st' answer)) refs))))"

text \<open>The tests before any budget is consumed: the first that fails rejects the call.\<close>

type_synonym rejection = "agent_status \<times> failure_domain \<times> string"

definition admit ::
  "orchestrator \<Rightarrow> exec_context \<Rightarrow> 'w agent_state \<Rightarrow> string \<Rightarrow> (string \<times> pyval) list \<Rightarrow> string option
     \<Rightarrow> rejection + (agent_tool \<times> pyval)" where
  "admit oc cx st name args obj =
    bindE (of_opt (InvalidDecision, DomTool, ''unknown_tool'') (find_tool (oc_registry oc) name)) (\<lambda>t.
    bindE (ensure (at_name t \<in> set (cx_allowed cx)) (PolicyDenied, DomPolicy, ''tool_not_allowed'')) (\<lambda>_.
    bindE (ensure (\<not> (at_provider t \<and> \<not> cx_provider cx)) (PolicyDenied, DomPolicy, ''tool_provider_required'')) (\<lambda>_.
    bindE (of_opt (InvalidDecision, DomTool, ''invalid_arguments'') (at_validate t args)) (\<lambda>body.
    bindE (ensure (\<not> (st_session st = None \<and> obj \<noteq> None)) (InvalidDecision, DomPolicy, ''research_objective_required'')) (\<lambda>_.
    bindE (case st_session st of None \<Rightarrow> Inr ()
           | Some s \<Rightarrow> (case before_tool (oc_sha oc) s obj (at_name t) body of
               None \<Rightarrow> Inr () | Some code \<Rightarrow> Inl (InvalidDecision, DomPolicy, code))) (\<lambda>_.
    bindE (ensure (st_tool_calls st < al_max_tool_calls (oc_limits oc)) (BudgetExhausted, DomPolicy, ''max_tool_calls'')) (\<lambda>_.
    bindE (ensure (count_at (st_per_tool st) (at_name t) < count_at (al_per_tool (oc_limits oc)) (at_name t))
            (BudgetExhausted, DomPolicy, ''per_tool_limit'')) (\<lambda>_.
    bindE (ensure (length (st_observations st) < al_max_observations (oc_limits oc))
            (BudgetExhausted, DomPolicy, ''max_observations'')) (\<lambda>_.
    bindE (ensure (\<not> (rp_reject_duplicates (oc_policy oc) \<and> oc_sha oc (call_text (at_name t) body) \<in> set (st_seen st)))
            (InvalidDecision, DomPolicy, ''duplicate_tool_call'')) (\<lambda>_.
    Inr (t, body)))))))))))"

definition tool_error :: "string \<Rightarrow> rejection" where
  "tool_error code =
    (if code = ''unknown_tool'' then (InvalidDecision, DomTool, ''unknown_tool'')
     else if code = ''tool_not_allowed'' then (PolicyDenied, DomPolicy, ''tool_not_allowed'')
     else if code = ''invalid_arguments'' then (InvalidDecision, DomTool, ''invalid_arguments'')
     else if code = ''unavailable'' then (Unavailable, DomTool, ''tool_unavailable'')
     else if code = ''provider_required'' then (PolicyDenied, DomPolicy, ''tool_provider_required'')
     else (AgentFailed, DomTool, ''tool_execution_failed''))"

definition charge :: "orchestrator \<Rightarrow> string option \<Rightarrow> agent_tool \<Rightarrow> pyval \<Rightarrow> 'w agent_state \<Rightarrow> 'w agent_state" where
  "charge oc obj t body st =
    st\<lparr>st_seen := oc_sha oc (call_text (at_name t) body) # st_seen st,
       st_tool_calls := st_tool_calls st + 1,
       st_per_tool := bump (at_name t) (st_per_tool st),
       st_session := (case (st_session st, obj) of
          (Some s, Some oid) \<Rightarrow> Some (start_tool (oc_sha oc) oid (at_name t) body s) | _ \<Rightarrow> st_session st)\<rparr>"

text \<open>The projection with the scan for protected values.\<close>

definition project_checked :: "orchestrator \<Rightarrow> 'w agent_state \<Rightarrow> string \<Rightarrow> tool_data \<Rightarrow> obs_error + agent_observation" where
  "project_checked oc st name d =
    bindE (project_observation (oc_limits oc) (al_max_total_bytes (oc_limits oc) - st_bytes st) name d) (\<lambda>ob.
    bindE (ensure (\<not> contains_protected_value (observation_value ob) (oc_protected oc)) ObsIntegrity) (\<lambda>_. Inr ob))"

definition take_observation ::
  "orchestrator \<Rightarrow> string option \<Rightarrow> agent_tool \<Rightarrow> pyval \<Rightarrow> agent_observation \<Rightarrow> 'w agent_state \<Rightarrow> 'w + 'w agent_state" where
  "take_observation oc obj t body ob st =
    (let st1 = st\<lparr>st_observations := st_observations st @ [ob],
                  st_bytes := st_bytes st + int (observation_bytes ob)\<rparr> in
     (case (st_session st1, obj) of
        (Some s, Some oid) \<Rightarrow>
          bindE (of_opt (st_world st) (observed (oc_sha oc) oid (at_name t) body ob (st_steps st1) s)) (\<lambda>s'.
          refresh_research (st1\<lparr>st_session := Some s'\<rparr>))
      | _ \<Rightarrow> Inr st1))"

definition run_tool ::
  "orchestrator \<Rightarrow> exec_context \<Rightarrow> 'w agent_env \<Rightarrow> string option \<Rightarrow> (string \<times> pyval) list \<Rightarrow> agent_tool \<Rightarrow> pyval
     \<Rightarrow> 'w agent_state \<Rightarrow> 'w + 'w round_end" where
  "run_tool oc cx env obj args t body st =
    bindE (refresh_research (charge oc obj t body st)) (\<lambda>st1.
    let names = sort (map fst args); tool = Some (at_name t) in
    (case invoke oc cx env (st_tool_calls st1) (at_name t) args of
       Inl code \<Rightarrow>
         bindE (record_entry env (entry st1 ''tool'' tool obj names ''failed'' []
                                   (Some (snd (snd (tool_error code))))) st1) (\<lambda>st2.
         Inr (Inl (failed st2 (fst (tool_error code)) (fst (snd (tool_error code))) (snd (snd (tool_error code))))))
     | Inr d \<Rightarrow>
         (case project_checked oc st1 (at_name t) d of
            Inl ObsLimit \<Rightarrow>
              bindE (record_entry env (entry st1 ''tool'' tool obj [] ''failed'' [] (Some ''observation_bytes'')) st1) (\<lambda>st2.
              Inr (Inl (failed st2 BudgetExhausted DomPolicy ''observation_bytes'')))
          | Inl ObsIntegrity \<Rightarrow>
              bindE (record_entry env (entry st1 ''tool'' tool obj [] ''failed'' [] (Some ''invalid_observation'')) st1) (\<lambda>st2.
              Inr (Inl (failed st2 AgentFailed DomTool ''invalid_observation'')))
          | Inr ob \<Rightarrow>
              bindE (take_observation oc obj t body ob st1) (\<lambda>st2.
              bindE (record_entry env (entry st2 ''tool'' tool obj names ''observed'' (trace_refs ob) None) st2) (\<lambda>st3.
              Inr (Inr st3))))))"

definition handle_tool ::
  "orchestrator \<Rightarrow> exec_context \<Rightarrow> 'w agent_env \<Rightarrow> string \<Rightarrow> (string \<times> pyval) list \<Rightarrow> string option \<Rightarrow> 'w agent_state
     \<Rightarrow> 'w + 'w round_end" where
  "handle_tool oc cx env name args obj st =
    (case admit oc cx st name args obj of
       Inl (status, domain, code) \<Rightarrow>
         bindE (record_entry env (entry st ''tool'' (Some name) obj (sort (map fst args)) ''rejected'' [] (Some code)) st) (\<lambda>st'.
         Inr (Inl (failed st' status domain code)))
     | Inr (t, body) \<Rightarrow>
         bindE (poll env 2 st) (\<lambda>(c, st').
         if c then Inr (Inl (failed st' AgentCancelled DomSystem ''cancelled''))
         else run_tool oc cx env obj args t body st'))"

definition handle_decision ::
  "orchestrator \<Rightarrow> exec_context \<Rightarrow> 'w agent_env \<Rightarrow> pyval \<Rightarrow> 'w agent_state \<Rightarrow> 'w + 'w round_end" where
  "handle_decision oc cx env raw st =
    (case parse_decision raw of
       None \<Rightarrow>
         bindE (record_entry env (entry st ''invalid'' None None [] ''rejected'' [] (Some ''malformed_decision'')) st) (\<lambda>st'.
         Inr (Inl (failed st' InvalidDecision DomModel ''malformed_decision'')))
     | Some (FinalDecision answer refs unresolved) \<Rightarrow>
         bindE (handle_final oc cx env answer refs unresolved (st\<lparr>st_steps := st_steps st + 1\<rparr>)) (\<lambda>r. Inr (Inl r))
     | Some (ToolDecision name args obj) \<Rightarrow>
         handle_tool oc cx env name args obj (st\<lparr>st_steps := st_steps st + 1\<rparr>))"

definition agent_round :: "orchestrator \<Rightarrow> exec_context \<Rightarrow> 'w agent_env \<Rightarrow> 'w agent_state \<Rightarrow> 'w + 'w round_end" where
  "agent_round oc cx env st =
    bindE (poll env 0 st) (\<lambda>(c0, st0).
    if c0 then Inr (Inl (failed st0 AgentCancelled DomSystem ''cancelled''))
    else
      let st1 = st0\<lparr>st_decisions := st_decisions st0 + 1\<rparr> in
      (case ev_decide env (st_decisions st1) (request_of oc cx st1) of
         ModelUnavailable \<Rightarrow> Inr (Inl (failed st1 Unavailable DomModel ''decision_provider_unavailable''))
       | ProviderFailed code \<Rightarrow>
           if provider_invalid code then
             bindE (record_entry env (entry st1 ''invalid'' None None [] ''rejected'' [] (Some (provider_code_name code))) st1) (\<lambda>st2.
             Inr (Inl (failed st2 InvalidDecision DomModel (provider_code_name code))))
           else Inr (Inl (failed st1 AgentFailed DomModel (provider_code_name code)))
       | ExecutionFailed \<Rightarrow> Inr (Inl (failed st1 AgentFailed DomModel ''decision_execution_failed''))
       | OtherFailure \<Rightarrow> Inr (Inl (failed st1 AgentFailed DomSystem ''internal_error''))
       | Answered raw \<Rightarrow>
           bindE (poll env 1 st1) (\<lambda>(c1, st2).
           if c1 then Inr (Inl (failed st2 AgentCancelled DomSystem ''cancelled''))
           else handle_decision oc cx env raw st2)))"

section \<open>The run\<close>

text \<open>\<open>for _ in range(max_steps)\<close>, with the number of rounds left.\<close>

fun rounds :: "nat \<Rightarrow> orchestrator \<Rightarrow> exec_context \<Rightarrow> 'w agent_env \<Rightarrow> 'w agent_state \<Rightarrow> 'w + 'w agent_result" where
  "rounds 0 oc cx env st = Inr (failed st BudgetExhausted DomPolicy ''max_steps'')"
| "rounds (Suc k) oc cx env st =
     bindE (agent_round oc cx env st) (\<lambda>out. (case out of Inl r \<Rightarrow> Inr r | Inr st' \<Rightarrow> rounds k oc cx env st'))"

definition initial_state :: "string \<Rightarrow> session option \<Rightarrow> 'w \<Rightarrow> 'w agent_state" where
  "initial_state goal s w =
    \<lparr>st_goal = goal, st_steps = 0, st_decisions = 0, st_tool_calls = 0,
     st_per_tool = map (\<lambda>n. (n, 0)) tool_names, st_observations = [], st_trace = [], st_seen = [],
     st_bytes = 0, st_session = s, st_summary = None, st_view = None, st_world = w\<rparr>"

definition open_session :: "orchestrator \<Rightarrow> 'w \<Rightarrow> 'w + session option" where
  "open_session oc w =
    (case oc_research oc of None \<Rightarrow> Inr None
     | Some c \<Rightarrow> bindE (of_opt w (new_session c (oc_limits oc))) (\<lambda>s. Inr (Some s)))"

definition run ::
  "orchestrator \<Rightarrow> exec_context \<Rightarrow> 'w agent_env \<Rightarrow> string \<Rightarrow> 'w \<Rightarrow> 'w + 'w agent_result" where
  "run oc cx env goal w =
    (if contains_protected_value (PStr goal) (oc_protected oc) then
       bindE (open_session oc w) (\<lambda>s.
       bindE (case s of None \<Rightarrow> Inr None | Some s' \<Rightarrow> bindE (of_opt w (summary s')) (\<lambda>sm. Inr (Some sm))) (\<lambda>sm.
       Inr (failed ((initial_state [] None w)\<lparr>st_summary := sm\<rparr>) InvalidDecision DomModel ''decision_provider_schema_violation'')))
     else
       bindE (of_opt w (agent_goal goal)) (\<lambda>g.
       bindE (open_session oc w) (\<lambda>s.
       bindE (refresh_research (initial_state g s w)) (\<lambda>st.
       if oc_requires_provider oc \<and> \<not> rp_allow_decision_provider (oc_policy oc)
       then Inr (failed st PolicyDenied DomPolicy ''decision_provider_required'')
       else rounds (al_max_steps (oc_limits oc)) oc cx env st))))"

text \<open>The constructor's checks.\<close>

definition orchestrator_ok :: "orchestrator \<Rightarrow> bool" where
  "orchestrator_ok oc \<longleftrightarrow> registry_ok (oc_registry oc) \<and> valid_limits (oc_limits oc) \<and>
     (case oc_research oc of None \<Rightarrow> True
      | Some c \<Rightarrow> valid_config c \<and> validate_research_limits c (oc_limits oc) \<and>
          \<not> contains_protected_value (config_value c) (oc_protected oc))"

end
