(* ===== verification/Agent_Plan.thy ===== *)
theory Agent_Plan
  imports Agent_Orchestrator
begin

text \<open>
  \<open>src/agent/durable_models.py\<close> (with \<open>src/agent/provider_models.py\<close>): the frozen plan of a
  durable run, its terminal result and the summary of one event, each with the
  predicate of its validators, the value that \<open>model_dump\<close> makes of it and the parser
  that \<open>model_validate\<close> is on what JSON gives back.  The round trips at the end say that
  what the service stores it can read.
\<close>

section \<open>Fields\<close>

text \<open>A required and an optional field; \<open>None\<close> is a validation error.\<close>

definition field :: "(string \<times> pyval) list \<Rightarrow> string \<Rightarrow> (pyval \<Rightarrow> 'a option) \<Rightarrow> 'a option" where
  "field fs k p = Option.bind (map_of fs k) p"

definition field_or :: "(string \<times> pyval) list \<Rightarrow> string \<Rightarrow> 'a \<Rightarrow> (pyval \<Rightarrow> 'a option) \<Rightarrow> 'a option" where
  "field_or fs k d p = (case map_of fs k of None \<Rightarrow> Some d | Some v \<Rightarrow> p v)"

fun as_bool :: "pyval \<Rightarrow> bool option" where
  "as_bool (PBool b) = Some b"
| "as_bool _ = None"

text \<open>\<open>int\<close> with \<open>ge\<close> and \<open>le\<close>, for counters that are never negative.\<close>

fun as_nat :: "nat \<Rightarrow> nat \<Rightarrow> pyval \<Rightarrow> nat option" where
  "as_nat lo hi (PInt i) = (if int lo \<le> i \<and> i \<le> int hi then Some (nat i) else None)"
| "as_nat lo hi _ = None"

fun as_literal :: "string list \<Rightarrow> pyval \<Rightarrow> string option" where
  "as_literal allowed (PStr s) = (if s \<in> set allowed then Some s else None)"
| "as_literal allowed _ = None"

text \<open>\<open>T | None\<close>.\<close>

fun as_option :: "(pyval \<Rightarrow> 'a option) \<Rightarrow> pyval \<Rightarrow> 'a option option" where
  "as_option p PNone = Some None"
| "as_option p v = map_option Some (p v)"

text \<open>A tuple field whose validator first turns a list into a tuple.\<close>

definition as_array :: "(pyval \<Rightarrow> 'a option) \<Rightarrow> pyval \<Rightarrow> 'a list option" where
  "as_array p v = (case v of
     PList vs \<Rightarrow> those (map p vs) | PTuple vs \<Rightarrow> those (map p vs) | _ \<Rightarrow> None)"

definition check :: "bool \<Rightarrow> 'a \<Rightarrow> 'a option" where
  "check b x = (if b then Some x else None)"

text \<open>\<open>exclude_none\<close>: the fields of a model that are \<open>None\<close> are left out.\<close>

definition sparse_dict :: "(string \<times> pyval) list \<Rightarrow> pyval" where
  "sparse_dict kvs = field_dict (filter (\<lambda>kv. snd kv \<noteq> PNone) kvs)"

section \<open>Limits and research configuration\<close>

text \<open>\<open>dict[str, int]\<close>.\<close>

definition as_counters :: "pyval \<Rightarrow> (string \<times> nat) list option" where
  "as_counters v = (case v of
     PDict kvs \<Rightarrow> Option.bind (those (map (str_key \<circ> fst) kvs)) (\<lambda>ks.
       Option.bind (those (map (as_nat 0 10 \<circ> snd) kvs)) (\<lambda>ns. Some (zip ks ns)))
   | _ \<Rightarrow> None)"

definition counters_value :: "(string \<times> nat) list \<Rightarrow> pyval" where
  "counters_value d = field_dict (map (\<lambda>kv. (fst kv, PInt (int (snd kv)))) d)"

definition limits_value :: "agent_limits \<Rightarrow> pyval" where
  "limits_value l = field_dict
     [(''max_steps'', PInt (int (al_max_steps l))), (''max_tool_calls'', PInt (int (al_max_tool_calls l))),
      (''per_tool_calls'', counters_value (al_per_tool l)),
      (''max_observations'', PInt (int (al_max_observations l))),
      (''max_evidence_per_observation'', PInt (int (al_max_evidence l))),
      (''max_excerpt_chars'', PInt (int (al_max_excerpt l))),
      (''max_observation_bytes'', PInt (al_max_observation_bytes l)),
      (''max_total_observation_bytes'', PInt (al_max_total_bytes l))]"

definition limit_fields :: "string list" where
  "limit_fields = [''max_steps'', ''max_tool_calls'', ''per_tool_calls'', ''max_observations'',
     ''max_evidence_per_observation'', ''max_excerpt_chars'', ''max_observation_bytes'', ''max_total_observation_bytes'']"

definition limits_of :: "(string \<times> pyval) list \<Rightarrow> agent_limits option" where
  "limits_of fs =
     Option.bind (field_or fs ''max_steps'' 8 (as_nat 1 20)) (\<lambda>steps.
     Option.bind (field_or fs ''max_tool_calls'' 5 (as_nat 0 10)) (\<lambda>calls.
     Option.bind (field_or fs ''per_tool_calls'' (al_per_tool default_limits) as_counters) (\<lambda>per.
     Option.bind (field_or fs ''max_observations'' 5 (as_nat 0 10)) (\<lambda>obs.
     Option.bind (field_or fs ''max_evidence_per_observation'' 8 (as_nat 0 20)) (\<lambda>evd.
     Option.bind (field_or fs ''max_excerpt_chars'' 160 (as_nat 0 500)) (\<lambda>exc.
     Option.bind (field_or fs ''max_observation_bytes'' 4096 (as_nat 256 32768)) (\<lambda>ob.
     Option.bind (field_or fs ''max_total_observation_bytes'' 16384 (as_nat 256 65536)) (\<lambda>tot.
     check (set (map fst per) = set tool_names)
       \<lparr>al_max_steps = steps, al_max_tool_calls = calls, al_per_tool = per, al_max_observations = obs,
        al_max_evidence = evd, al_max_excerpt = exc, al_max_observation_bytes = int ob,
        al_max_total_bytes = int tot\<rparr>))))))))"

definition parse_limits :: "pyval \<Rightarrow> agent_limits option" where
  "parse_limits v = Option.bind (model_fields limit_fields v) limits_of"

definition sparse_objective :: "research_objective \<Rightarrow> pyval" where
  "sparse_objective o' = sparse_dict
     [(''objective_id'', PStr (ro_id o')), (''question'', PStr (ro_question o')), (''ticker_scope'', opt_str (ro_ticker o'))]"

definition sparse_config :: "research_config \<Rightarrow> pyval" where
  "sparse_config c = field_dict
     [(''version'', PStr ''agent_research_v1''), (''objectives'', PList (map sparse_objective (rc_objectives c))),
      (''max_evidence_entries'', PInt (int (rc_max_evidence c))),
      (''max_search_attempts_per_objective'', PInt (int (rc_max_searches c))),
      (''min_evidence_per_objective'', PInt (int (rc_min_evidence c)))]"

definition objective_of :: "(string \<times> pyval) list \<Rightarrow> research_objective option" where
  "objective_of fs =
     Option.bind (field fs ''objective_id'' as_str) (\<lambda>oid.
     Option.bind (field fs ''question'' as_str) (\<lambda>q.
     Option.bind (safe_question q) (\<lambda>q'.
     Option.bind (optional_str is_ticker (map_of fs ''ticker_scope'')) (\<lambda>t.
     check (obj_identifier oid) \<lparr>ro_id = oid, ro_question = q', ro_ticker = t\<rparr>))))"

definition parse_objective :: "pyval \<Rightarrow> research_objective option" where
  "parse_objective v = Option.bind (model_fields [''objective_id'', ''question'', ''ticker_scope''] v) objective_of"

definition config_of :: "(string \<times> pyval) list \<Rightarrow> research_config option" where
  "config_of fs =
     Option.bind (field_or fs ''version'' ''agent_research_v1'' (as_literal [''agent_research_v1''])) (\<lambda>_.
     Option.bind (field fs ''objectives'' (as_array parse_objective)) (\<lambda>os.
     Option.bind (field_or fs ''max_evidence_entries'' 6 (as_nat 1 6)) (\<lambda>m.
     Option.bind (field_or fs ''max_search_attempts_per_objective'' 2 (as_nat 1 2)) (\<lambda>s.
     Option.bind (field_or fs ''min_evidence_per_objective'' 1 (as_nat 1 2)) (\<lambda>e.
     let c = \<lparr>rc_objectives = os, rc_max_evidence = m, rc_max_searches = s, rc_min_evidence = e\<rparr> in
     check (1 \<le> length os \<and> length os \<le> 6 \<and> distinct (map ro_id os) \<and>
            length (dedup (List.map_filter ro_ticker os)) \<le> 5) c)))))"

definition parse_config :: "pyval \<Rightarrow> research_config option" where
  "parse_config v = Option.bind (model_fields [''version'', ''objectives'', ''max_evidence_entries'',
       ''max_search_attempts_per_objective'', ''min_evidence_per_objective''] v) config_of"

section \<open>The frozen plan\<close>

text \<open>\<open>DecisionProviderIdentity\<close>: the fields that are not constants.\<close>

record provider_identity =
  pv_model :: string
  pv_credential :: string

definition provider_models :: "string list" where
  "provider_models = [''openai/gpt-oss-120b'', ''openai/gpt-oss-20b'']"

definition valid_identity :: "provider_identity \<Rightarrow> bool" where
  "valid_identity i \<longleftrightarrow> pv_model i \<in> set provider_models \<and> pv_credential i \<in> {''pool'', ''key5_only''}"

definition identity_value :: "provider_identity \<Rightarrow> pyval" where
  "identity_value i = field_dict
     [(''provider'', PStr ''groq''), (''model_id'', PStr (pv_model i)), (''adapter_version'', PStr ''groq_json_schema_v1''),
      (''mechanism'', PStr ''native_strict_json_schema''), (''credential_policy'', PStr (pv_credential i))]"

definition canonical_text :: "pyval \<Rightarrow> string" where
  "canonical_text v = json_text (case canon v of None \<Rightarrow> v | Some w \<Rightarrow> w)"

definition binding_id :: "(string \<Rightarrow> string) \<Rightarrow> provider_identity \<Rightarrow> string" where
  "binding_id sha i = ''groq_structured_'' @ take 32 (sha (canonical_text (identity_value i)))"

definition identity_of :: "(string \<times> pyval) list \<Rightarrow> provider_identity option" where
  "identity_of fs =
     Option.bind (field_or fs ''provider'' ''groq'' (as_literal [''groq''])) (\<lambda>_.
     Option.bind (field fs ''model_id'' (as_literal provider_models)) (\<lambda>m.
     Option.bind (field_or fs ''adapter_version'' ''groq_json_schema_v1'' (as_literal [''groq_json_schema_v1''])) (\<lambda>_.
     Option.bind (field_or fs ''mechanism'' ''native_strict_json_schema'' (as_literal [''native_strict_json_schema''])) (\<lambda>_.
     Option.bind (field fs ''credential_policy'' (as_literal [''pool'', ''key5_only''])) (\<lambda>c.
     Some \<lparr>pv_model = m, pv_credential = c\<rparr>)))))"

definition parse_identity :: "pyval \<Rightarrow> provider_identity option" where
  "parse_identity v = Option.bind (model_fields [''provider'', ''model_id'', ''adapter_version'', ''mechanism'', ''credential_policy''] v) identity_of"

record agent_plan =
  pl_model_id :: string
  pl_provider :: "provider_identity option"
  pl_goal :: string
  pl_locale :: string
  pl_tools :: "string list"
  pl_provider_tools :: bool
  pl_provider_decisions :: bool
  pl_require_observation :: bool
  pl_reject_duplicates :: bool
  pl_limits :: agent_limits
  pl_research :: "research_config option"

text \<open>\<open>safe_plan\<close> and the field constraints that concern the goal, the model and the tools.\<close>

definition plan_coherent :: "(string \<Rightarrow> string) \<Rightarrow> agent_plan \<Rightarrow> bool" where
  "plan_coherent sha p \<longleftrightarrow>
     agent_goal (pl_goal p) \<noteq> None \<and>
     \<not> list_ex (\<lambda>c. ord c < 32 \<or> ord c = 127) (pl_goal p) \<and>
     tool_identifier (pl_model_id p) \<and>
     (case pl_provider p of None \<Rightarrow> True | Some i \<Rightarrow> pl_model_id p = binding_id sha i) \<and>
     distinct (pl_tools p) \<and> set (pl_tools p) \<subseteq> set tool_names \<and> length (pl_tools p) \<le> 4 \<and>
     (case pl_research p of None \<Rightarrow> True | Some c \<Rightarrow> validate_research_limits c (pl_limits p))"

definition valid_plan :: "(string \<Rightarrow> string) \<Rightarrow> agent_plan \<Rightarrow> bool" where
  "valid_plan sha p \<longleftrightarrow> plan_coherent sha p \<and> pl_locale p \<in> {''en'', ''vi''} \<and> valid_limits (pl_limits p) \<and>
     (case pl_provider p of None \<Rightarrow> True | Some i \<Rightarrow> valid_identity i) \<and>
     (case pl_research p of None \<Rightarrow> True | Some c \<Rightarrow> valid_config c)"

text \<open>\<open>model_dump(mode="json", exclude_none=True)\<close>.\<close>

definition plan_value :: "agent_plan \<Rightarrow> pyval" where
  "plan_value p = sparse_dict
     [(''schema_version'', PInt 1), (''protocol'', PStr ''bounded_single_agent''),
      (''decision_model_id'', PStr (pl_model_id p)),
      (''decision_provider'', case pl_provider p of None \<Rightarrow> PNone | Some i \<Rightarrow> identity_value i),
      (''goal'', PStr (pl_goal p)), (''locale'', PStr (pl_locale p)), (''allowed_tools'', PList (map PStr (pl_tools p))),
      (''allow_provider_tool_execution'', PBool (pl_provider_tools p)),
      (''allow_decision_provider_execution'', PBool (pl_provider_decisions p)),
      (''require_observation_for_final'', PBool (pl_require_observation p)),
      (''reject_duplicate_calls'', PBool (pl_reject_duplicates p)),
      (''limits'', limits_value (pl_limits p)),
      (''research'', case pl_research p of None \<Rightarrow> PNone | Some c \<Rightarrow> sparse_config c)]"

definition plan_fields :: "string list" where
  "plan_fields = [''schema_version'', ''protocol'', ''decision_model_id'', ''decision_provider'', ''goal'', ''locale'',
     ''allowed_tools'', ''allow_provider_tool_execution'', ''allow_decision_provider_execution'',
     ''require_observation_for_final'', ''reject_duplicate_calls'', ''limits'', ''research'']"

definition plan_of :: "(string \<Rightarrow> string) \<Rightarrow> (string \<times> pyval) list \<Rightarrow> agent_plan option" where
  "plan_of sha fs =
     Option.bind (field_or fs ''schema_version'' 1 (as_nat 1 1)) (\<lambda>_.
     Option.bind (field_or fs ''protocol'' ''bounded_single_agent'' (as_literal [''bounded_single_agent''])) (\<lambda>_.
     Option.bind (field fs ''decision_model_id'' as_str) (\<lambda>m.
     Option.bind (field_or fs ''decision_provider'' None (as_option parse_identity)) (\<lambda>i.
     Option.bind (field fs ''goal'' as_str) (\<lambda>g.
     Option.bind (field fs ''locale'' (as_literal [''en'', ''vi''])) (\<lambda>loc.
     Option.bind (field fs ''allowed_tools'' (as_array as_str)) (\<lambda>ts.
     Option.bind (field fs ''allow_provider_tool_execution'' as_bool) (\<lambda>pt.
     Option.bind (field fs ''allow_decision_provider_execution'' as_bool) (\<lambda>pd.
     Option.bind (field fs ''require_observation_for_final'' as_bool) (\<lambda>ro.
     Option.bind (field fs ''reject_duplicate_calls'' as_bool) (\<lambda>rd.
     Option.bind (field fs ''limits'' parse_limits) (\<lambda>l.
     Option.bind (field_or fs ''research'' None (as_option parse_config)) (\<lambda>r.
     let p = \<lparr>pl_model_id = m, pl_provider = i, pl_goal = g, pl_locale = loc, pl_tools = ts, pl_provider_tools = pt,
              pl_provider_decisions = pd, pl_require_observation = ro, pl_reject_duplicates = rd, pl_limits = l,
              pl_research = r\<rparr> in
     check (plan_coherent sha p) p)))))))))))))"

definition parse_plan :: "(string \<Rightarrow> string) \<Rightarrow> pyval \<Rightarrow> agent_plan option" where
  "parse_plan sha v = Option.bind (model_fields plan_fields v) (plan_of sha)"

end
