(* ===== verification/Job_Types.thy ===== *)
theory Job_Types
  imports Py_Value
begin

text \<open>
  The data model of \<open>src/workspace/jobs.py\<close>: job and step states with their legal
  transitions, the bounds, the value objects, the tables of the SQLite schema
  (\<open>src/workspace/migrations.py\<close>, version 7) and the validators that every
  operation of the repository runs.

  An exception is modelled by its class; the message text is dropped.  The
  \<open>state\<close> and \<open>namespace\<close> columns of \<open>jobs\<close> and \<open>job_steps\<close> carry \<open>CHECK\<close>
  constraints in the schema, so their values are the datatypes below.
\<close>

section \<open>States and transitions\<close>

datatype namespace = NsPipeline | NsEvaluation | NsModelTest | NsAgent

datatype job_state = Queued | Running | Cancelling | Cancelled | Succeeded | Failed | Interrupted

datatype step_state = SPending | SRunning | SCancelled | SSucceeded | SFailed | SSkipped | SInterrupted

fun job_state_name :: "job_state \<Rightarrow> string" where
  "job_state_name Queued = ''queued''"
| "job_state_name Running = ''running''"
| "job_state_name Cancelling = ''cancelling''"
| "job_state_name Cancelled = ''cancelled''"
| "job_state_name Succeeded = ''succeeded''"
| "job_state_name Failed = ''failed''"
| "job_state_name Interrupted = ''interrupted''"

definition job_states :: "job_state list" where
  "job_states = [Queued, Running, Cancelling, Cancelled, Succeeded, Failed, Interrupted]"

definition parse_job_state :: "string \<Rightarrow> job_state option" where
  "parse_job_state s = find (\<lambda>st. job_state_name st = s) job_states"

fun terminal_job :: "job_state \<Rightarrow> bool" where
  "terminal_job Cancelled = True"
| "terminal_job Succeeded = True"
| "terminal_job Failed = True"
| "terminal_job Interrupted = True"
| "terminal_job _ = False"

fun terminal_step :: "step_state \<Rightarrow> bool" where
  "terminal_step SPending = False"
| "terminal_step SRunning = False"
| "terminal_step _ = True"

fun job_transitions :: "job_state \<Rightarrow> job_state set" where
  "job_transitions Queued = {Running, Cancelled}"
| "job_transitions Running = {Cancelling, Succeeded, Failed, Interrupted}"
| "job_transitions Cancelling = {Cancelled, Interrupted}"
| "job_transitions _ = {}"

fun step_transitions :: "step_state \<Rightarrow> step_state set" where
  "step_transitions SPending = {SRunning, SCancelled, SSkipped}"
| "step_transitions SRunning = {SCancelled, SSucceeded, SFailed, SInterrupted}"
| "step_transitions _ = {}"

datatype job_error =
    JobConflict | JobNotFound | JobTransition | JobData | JobLimit
  | ValueErr | TypeErr | SqliteIntegrity | Injected | OtherError

definition validate_job_transition :: "job_state \<Rightarrow> job_state \<Rightarrow> job_error + unit" where
  "validate_job_transition current target =
     ensure (target \<in> job_transitions current) JobTransition"

definition validate_step_transition :: "step_state \<Rightarrow> step_state \<Rightarrow> job_error + unit" where
  "validate_step_transition current target =
     ensure (target \<in> step_transitions current) JobTransition"

lemma parse_job_state_name [simp]: "parse_job_state (job_state_name st) = Some st"
  by (cases st) (simp_all add: parse_job_state_def job_states_def)

lemma terminal_job_no_transition: "terminal_job s \<longleftrightarrow> job_transitions s = {}"
  by (cases s) auto

lemma terminal_step_no_transition: "terminal_step s \<longleftrightarrow> step_transitions s = {}"
  by (cases s) auto

section \<open>Bounds\<close>

definition max_job_payload_bytes :: nat where "max_job_payload_bytes = 64 * 1024"
definition max_job_result_bytes :: nat where "max_job_result_bytes = 256 * 1024"
definition max_agent_event_bytes :: nat where "max_agent_event_bytes = 2048"
definition max_agent_decision_events :: nat where "max_agent_decision_events = 20"
definition max_job_steps :: nat where "max_job_steps = 64"
definition max_artifact_references :: nat where "max_artifact_references = 128"
definition max_failure_message_chars :: nat where "max_failure_message_chars = 2048"
definition max_list_limit :: int where "max_list_limit = 100"
definition job_record_schema_version :: int where "job_record_schema_version = 1"

definition agent_event_fields_v1 :: "string list" where
  "agent_event_fields_v1 =
     [''decision_index'', ''decision_kind'', ''tool_name'', ''argument_names'', ''outcome'',
      ''evidence_count'', ''evidence_refs'', ''step_count'', ''tool_call_count'', ''failure_code'']"

definition agent_event_fields :: "string list" where
  "agent_event_fields = agent_event_fields_v1 @ [''objective_id'']"

section \<open>Value objects\<close>

record progress =
  pg_stage :: "string option"
  pg_current :: "int option"
  pg_total :: "int option"

definition no_progress :: progress where
  "no_progress = \<lparr>pg_stage = None, pg_current = None, pg_total = None\<rparr>"

record job_step =
  js_id :: string
  js_job :: string
  js_ordinal :: nat
  js_name :: string
  js_state :: step_state
  js_revision :: int
  js_started :: "string option"
  js_finished :: "string option"

record durable_job =
  dj_id :: string
  dj_namespace :: namespace
  dj_type :: string
  dj_state :: job_state
  dj_revision :: int
  dj_fingerprint :: string
  dj_payload :: pyval
  dj_artifacts :: "string list"
  dj_progress :: progress
  dj_result :: "pyval option"
  dj_failure_code :: "string option"
  dj_failure_message :: "string option"
  dj_created :: string
  dj_updated :: string
  dj_started :: "string option"
  dj_finished :: "string option"
  dj_cancel_requested :: "string option"
  dj_steps :: "job_step list"

record job_event =
  ev_id :: string
  ev_job :: string
  ev_seq :: nat
  ev_type :: string
  ev_state :: "job_state option"
  ev_reason :: "string option"
  ev_progress :: progress
  ev_at :: string

record agent_job_event =
  ae_id :: string
  ae_seq :: nat
  ae_type :: string
  ae_state :: "job_state option"
  ae_reason :: "string option"
  ae_at :: string
  ae_payload :: pyval

record job_page =
  jp_items :: "durable_job list"
  jp_total :: nat
  jp_limit :: int
  jp_offset :: int

section \<open>Tables\<close>

text \<open>
  A JSON text column is represented by what \<open>json.loads\<close> makes of it: \<open>NullCol\<close>
  for SQL \<open>NULL\<close>, \<open>Garbage\<close> for text it rejects.  Every writer in the code
  stores canonical text, so equality of texts is equality of canonical values and
  the byte length of a stored text is \<open>json_bytes\<close> of its value.
\<close>

datatype json_col = NullCol | Json pyval | Garbage

record job_row =
  jr_id :: string
  jr_namespace :: namespace
  jr_type :: string
  jr_state :: job_state
  jr_fingerprint :: string
  jr_failure_code :: "string option"
  jr_revision :: int
  jr_created :: string
  jr_updated :: string
  jr_started :: "string option"
  jr_finished :: "string option"
  jr_schema :: "int option"
  jr_key_hash :: "string option"
  jr_payload :: json_col
  jr_artifacts :: json_col
  jr_stage :: "string option"
  jr_current :: "int option"
  jr_total :: "int option"
  jr_result :: json_col
  jr_failure_message :: "string option"
  jr_cancel_requested :: "string option"

record step_row =
  sr_id :: string
  sr_job :: string
  sr_ordinal :: nat
  sr_name :: string
  sr_state :: step_state
  sr_revision :: int
  sr_started :: "string option"
  sr_finished :: "string option"

record event_row =
  er_id :: string
  er_job :: string
  er_seq :: nat
  er_type :: string
  er_state :: "string option"
  er_reason :: "string option"
  er_stage :: "string option"
  er_current :: "int option"
  er_total :: "int option"
  er_at :: string
  er_agent_key :: "string option"
  er_agent_payload :: json_col

record job_db =
  db_jobs :: "job_row list"
  db_steps :: "step_row list"
  db_events :: "event_row list"

definition empty_db :: job_db where
  "empty_db = \<lparr>db_jobs = [], db_steps = [], db_events = []\<rparr>"

section \<open>Validators\<close>

text \<open>\<open>_OPAQUE_ID\<close>, \<open>_TYPE_NAME\<close> (also \<open>_FAILURE_CODE\<close>), \<open>_FINGERPRINT\<close> and \<open>_ARTIFACT_REFERENCE\<close>.\<close>

definition opaque_id :: "string \<Rightarrow> bool" where
  "opaque_id s = (case s of [] \<Rightarrow> False
     | c # cs \<Rightarrow> is_alnum c \<and> length cs \<le> 127 \<and> list_all (\<lambda>d. is_alnum d \<or> d = CHR ''_'' \<or> d = CHR ''-'') cs)"

definition type_name :: "string \<Rightarrow> bool" where
  "type_name s = (case s of [] \<Rightarrow> False
     | c # cs \<Rightarrow> is_lower c \<and> length cs \<le> 63 \<and> list_all (\<lambda>d. is_lower d \<or> is_digit d \<or> d = CHR ''_'') cs)"

definition fingerprint :: "string \<Rightarrow> bool" where
  "fingerprint s \<longleftrightarrow> length s = 64 \<and> list_all is_hex s"

definition artifact_reference :: "string \<Rightarrow> bool" where
  "artifact_reference s = (case s of [] \<Rightarrow> False
     | c # cs \<Rightarrow> is_alnum c \<and> length cs \<le> 255 \<and>
         list_all (\<lambda>d. is_alnum d \<or> d = CHR ''_'' \<or> d = CHR ''.'' \<or> d = CHR ''-'') cs)"

definition forbidden_keys :: "string list" where
  "forbidden_keys =
     [''api_key'', ''apikey'', ''authorization'', ''bearer'', ''bearer_token'', ''credential'',
      ''credentials'', ''groq_api_key'', ''local_workspace_token'', ''password'',
      ''provider_credential'', ''provider_key'', ''secret'', ''token'']"

definition drop_underscores :: "string \<Rightarrow> string" where
  "drop_underscores s = filter (\<lambda>c. c \<noteq> CHR ''_'') s"

definition compact_forbidden_keys :: "string list" where
  "compact_forbidden_keys = map drop_underscores forbidden_keys"

lemma compact_forbidden_keys_code [code]:
  "compact_forbidden_keys =
    [''apikey'', ''apikey'', ''authorization'', ''bearer'', ''bearertoken'', ''credential'',
     ''credentials'', ''groqapikey'', ''localworkspacetoken'', ''password'',
     ''providercredential'', ''providerkey'', ''secret'', ''token'']"
  by (simp add: compact_forbidden_keys_def forbidden_keys_def drop_underscores_def)

text \<open>
  \<open>_normal_key\<close>: \<open>re.sub("[^a-z0-9]+", "_", value.casefold()).strip("_")\<close>.  Below
  U+0100 case folding produces letters \<open>a\<close>-\<open>z\<close> only from \<open>A\<close>-\<open>Z\<close> and from the
  sharp s (U+00DF, folded to \<open>ss\<close>); every other character falls in the replaced class.
\<close>

definition fold_char :: "char \<Rightarrow> string" where
  "fold_char c = (if ord c = 223 then ''ss'' else [lower_char c])"

fun squash :: "bool \<Rightarrow> string \<Rightarrow> string" where
  "squash inrun [] = []"
| "squash inrun (c # s) =
     (if is_lower c \<or> is_digit c then c # squash False s
      else if inrun then squash True s else CHR ''_'' # squash True s)"

definition normal_key :: "string \<Rightarrow> string" where
  "normal_key s = strip_by (\<lambda>c. c = CHR ''_'') (squash False (concat (map fold_char s)))"

definition credential_key :: "string \<Rightarrow> bool" where
  "credential_key k =
    (let normalized = normal_key k; compact = drop_underscores normalized in
       normalized \<in> set forbidden_keys \<or> compact \<in> set compact_forbidden_keys \<or>
       list_ex (\<lambda>e. ends_with e normalized) [''_api_key'', ''_password'', ''_secret'', ''_token''] \<or>
       list_ex (\<lambda>e. ends_with e compact) [''apikey'', ''credential'', ''password'', ''secret'', ''token''])"

text \<open>
  \<open>PureWindowsPath(v).is_absolute()\<close> of Python 3.12: a drive (letter or UNC share)
  together with a root, by \<open>ntpath.splitroot\<close> and the UNC completion of \<open>pathlib\<close>.
\<close>

fun find_from :: "char \<Rightarrow> nat \<Rightarrow> string \<Rightarrow> nat option" where
  "find_from d i [] = None"
| "find_from d i (c # s) = (if i = 0 \<and> c = d then Some 0 else map_option Suc (find_from d (i - 1) s))"

fun split_on :: "char \<Rightarrow> string \<Rightarrow> string list" where
  "split_on d [] = [[]]"
| "split_on d (c # s) =
     (if c = d then [] # split_on d s
      else (case split_on d s of [] \<Rightarrow> [[c]] | t # ts \<Rightarrow> (c # t) # ts))"

definition upper_ascii :: "string \<Rightarrow> string" where
  "upper_ascii s = map (\<lambda>c. if is_lower c then char_of (ord c - 32) else c) s"

definition bslash :: char where "bslash = char_of (92::nat)"

definition windows_unc_root :: "string \<Rightarrow> bool" where
  "windows_unc_root p =
    (let start = (if upper_ascii (take 8 p) = [bslash, bslash, CHR ''?'', bslash] @ ''UNC'' @ [bslash] then 8 else 2);
         implied = (let parts = split_on bslash p in
            last p \<noteq> bslash \<and>
            ((length parts = 4 \<and> \<not> py_in (parts ! 2) ''?.'') \<or> length parts = 6))
     in case find_from bslash start p of
          None \<Rightarrow> implied
        | Some i \<Rightarrow> (case find_from bslash (i + 1) p of None \<Rightarrow> implied | Some j \<Rightarrow> True))"

definition windows_absolute :: "string \<Rightarrow> bool" where
  "windows_absolute v =
    (let p = map (\<lambda>c. if c = CHR ''/'' then bslash else c) v in
       if take 1 p = [bslash] then take 1 (drop 1 p) = [bslash] \<and> windows_unc_root p
       else take 1 (drop 1 p) = '':'' \<and> take 1 (drop 2 p) = [bslash])"

definition looks_absolute_path :: "string \<Rightarrow> bool" where
  "looks_absolute_path v \<longleftrightarrow> starts_with ''/'' v \<or> windows_absolute v"

text \<open>\<open>_CREDENTIAL_TEXT\<close>, searched at every position, letter case ignored.\<close>

definition credential_words :: "string list" where
  "credential_words =
     [''authorization'', ''bearer'', ''apikey'', ''api key'', ''api_key'', ''api-key'',
      ''password'', ''secret'', ''token'']"

definition credential_at :: "string \<Rightarrow> bool" where
  "credential_at s \<longleftrightarrow>
     list_ex (\<lambda>w. starts_with w (lower s) \<and>
        (case dropWhile is_space (drop (length w) s) of [] \<Rightarrow> False
         | c # _ \<Rightarrow> c = CHR '':'' \<or> c = CHR ''='')) credential_words"

text \<open>An evaluation that folds no more of the string than the word is long.\<close>

fun starts_ci :: "string \<Rightarrow> string \<Rightarrow> bool" where
  "starts_ci [] s = True"
| "starts_ci (a # w) [] = False"
| "starts_ci (a # w) (c # s) = (if lower_char c = a then starts_ci w s else False)"

lemma starts_ci: "starts_ci w s \<longleftrightarrow> starts_with w (lower s)"
  by (induction w s rule: starts_ci.induct) (auto simp: starts_with_def lower_def)

lemma credential_at_code [code]:
  "credential_at s \<longleftrightarrow>
     list_ex (\<lambda>w. if starts_ci w s then
         (case dropWhile is_space (drop (length w) s) of [] \<Rightarrow> False
          | c # _ \<Rightarrow> c = CHR '':'' \<or> c = CHR ''='') else False) credential_words"
  by (auto simp: credential_at_def starts_ci list_ex_iff)

definition credential_text :: "string \<Rightarrow> bool" where
  "credential_text s \<longleftrightarrow> list_ex credential_at (suffixes s)"

text \<open>An evaluation that looks closer only where one of the words can begin.\<close>

definition credential_start :: "char \<Rightarrow> bool" where
  "credential_start c \<longleftrightarrow> lower_char c \<in> {CHR ''a'', CHR ''b'', CHR ''p'', CHR ''s'', CHR ''t''}"

lemma credential_at_start: "credential_at (c # s) \<Longrightarrow> credential_start c"
  by (auto simp: credential_at_def starts_ci [symmetric] credential_words_def credential_start_def split: if_splits)

lemma credential_text_code [code]:
  "credential_text [] = False"
  "credential_text (c # s) =
     (if credential_start c then (if credential_at (c # s) then True else credential_text s) else credential_text s)"
  by (auto simp: credential_text_def credential_at_def [of "[]"] starts_ci [symmetric] credential_words_def
      dest: credential_at_start)

definition holds_secret :: "string list \<Rightarrow> string \<Rightarrow> bool" where
  "holds_secret secrets v \<longleftrightarrow> list_ex (\<lambda>x. v = x \<or> (8 \<le> length x \<and> py_in x v)) secrets"

definition safe_string :: "string list \<Rightarrow> string \<Rightarrow> bool" where
  "safe_string secrets v \<longleftrightarrow>
     \<not> looks_absolute_path v \<and> \<not> (credential_text v \<or> holds_secret secrets v)"

text \<open>\<open>_validate_safe_tree\<close> accepts: every rejection of the source is a \<open>ValueError\<close>.\<close>

fun safe_tree :: "string list \<Rightarrow> pyval \<Rightarrow> bool" where
  "safe_tree secrets (PDict kvs) =
     list_all (\<lambda>kv. (case fst kv of KOther \<Rightarrow> False | KStr k \<Rightarrow> \<not> credential_key k)
                    \<and> safe_tree secrets (snd kv)) kvs"
| "safe_tree secrets (PList vs) = list_all (safe_tree secrets) vs"
| "safe_tree secrets (PTuple vs) = list_all (safe_tree secrets) vs"
| "safe_tree secrets (PStr s) = safe_string secrets s"
| "safe_tree secrets _ = True"

definition canonical_object :: "string list \<Rightarrow> nat \<Rightarrow> pyval \<Rightarrow> job_error + pyval" where
  "canonical_object secrets max_bytes v =
    (case v of
       PDict _ \<Rightarrow>
         bindE (ensure (safe_tree secrets v) ValueErr) (\<lambda>_.
         bindE (of_opt ValueErr (canon v)) (\<lambda>w.
         bindE (ensure (json_bytes w \<le> max_bytes) JobLimit) (\<lambda>_. Inr w)))
     | _ \<Rightarrow> Inl TypeErr)"

definition decode_object :: "nat \<Rightarrow> json_col \<Rightarrow> job_error + pyval" where
  "decode_object max_bytes col =
    (case col of
       Json (PDict kvs) \<Rightarrow>
         bindE (ensure (json_bytes (PDict kvs) \<le> max_bytes) JobData) (\<lambda>_. Inr (PDict kvs))
     | _ \<Rightarrow> Inl JobData)"

definition validate_opaque :: "string \<Rightarrow> job_error + unit" where
  "validate_opaque s = ensure (opaque_id s) ValueErr"

definition validate_name :: "string \<Rightarrow> job_error + unit" where
  "validate_name s = ensure (type_name s) ValueErr"

definition validate_progress ::
  "string option \<Rightarrow> int option \<Rightarrow> int option \<Rightarrow> job_error + progress" where
  "validate_progress stage current tot =
    bindE (case stage of None \<Rightarrow> Inr () | Some s \<Rightarrow> validate_name s) (\<lambda>_.
    bindE (ensure ((current = None) = (tot = None)) ValueErr) (\<lambda>_.
    bindE (case (current, tot) of
             (Some c, Some t) \<Rightarrow> ensure (\<not> (t < 1 \<or> c < 0 \<or> c > t)) ValueErr
           | _ \<Rightarrow> Inr ()) (\<lambda>_.
    Inr \<lparr>pg_stage = stage, pg_current = current, pg_total = tot\<rparr>)))"

definition validate_failure ::
  "string list \<Rightarrow> string option \<Rightarrow> string option \<Rightarrow> job_error + (string \<times> string)" where
  "validate_failure secrets code msg =
    (case (code, msg) of
       (Some c, Some m) \<Rightarrow>
         bindE (validate_name c) (\<lambda>_.
         bindE (ensure (\<not> (is_blank m \<or> length m > max_failure_message_chars)) JobLimit) (\<lambda>_.
         bindE (ensure (\<not> list_ex (\<lambda>ch. ord ch < 32 \<and> ord ch \<noteq> 9) m) ValueErr) (\<lambda>_.
         bindE (ensure (safe_tree secrets (PStr m)) ValueErr) (\<lambda>_.
         Inr (c, m)))))
     | _ \<Rightarrow> Inl ValueErr)"

section \<open>Facts about the validators\<close>

lemma canonical_object_ok:
  "canonical_object secrets n v = Inr w \<Longrightarrow>
     safe_tree secrets v \<and> canon v = Some w \<and> json_bytes w \<le> n \<and> (\<exists>kvs. v = PDict kvs)"
  by (cases v) (auto simp: canonical_object_def ok_simps)

lemma canonical_object_dict:
  assumes "canonical_object secrets n v = Inr w"
  shows "\<exists>kvs. w = PDict kvs"
proof -
  from canonical_object_ok [OF assms] obtain kvs where "v = PDict kvs" "canon v = Some w" by blast
  then show ?thesis by auto
qed

lemma validate_progress_ok:
  "validate_progress s c t = Inr p \<Longrightarrow> p = \<lparr>pg_stage = s, pg_current = c, pg_total = t\<rparr>"
  by (auto simp: validate_progress_def ok_simps)

lemma validate_progress_bounds:
  "validate_progress s (Some c) t = Inr p \<Longrightarrow> \<exists>n. t = Some n \<and> 0 \<le> c \<and> c \<le> n \<and> 1 \<le> n"
  by (cases t) (auto simp: validate_progress_def ok_simps)

lemma validate_failure_ok:
  "validate_failure secrets c m = Inr (c', m') \<Longrightarrow> c = Some c' \<and> m = Some m'"
  by (auto simp: validate_failure_def ok_simps split: option.splits)

end
