(* ===== verification/Agent_Record.thy ===== *)
theory Agent_Record
  imports Agent_Plan Job_Types
begin

text \<open>
  The terminal result and the event summary of \<open>src/agent/durable_models.py\<close>, with the
  research summary of \<open>src/agent/research_models.py\<close> that a result holds: values,
  parsers and validators.  The event summary is not a strict model; its parser reads the
  types that the service writes and leaves out the coercions of other types.
\<close>

section \<open>Literals\<close>

fun status_name :: "agent_status \<Rightarrow> string" where
  "status_name Completed = ''completed''"
| "status_name InvalidDecision = ''invalid_decision''"
| "status_name PolicyDenied = ''policy_denied''"
| "status_name BudgetExhausted = ''budget_exhausted''"
| "status_name Unavailable = ''unavailable''"
| "status_name AgentFailed = ''failed''"
| "status_name AgentCancelled = ''cancelled''"

fun domain_name :: "failure_domain \<Rightarrow> string" where
  "domain_name DomModel = ''model''"
| "domain_name DomPolicy = ''policy''"
| "domain_name DomTool = ''tool''"
| "domain_name DomSystem = ''system''"

fun coverage_name :: "coverage \<Rightarrow> string" where
  "coverage_name CovNone = ''none''"
| "coverage_name CovSome = ''some''"
| "coverage_name CovSufficient = ''sufficient''"

definition named :: "('a \<Rightarrow> string) \<Rightarrow> 'a list \<Rightarrow> string \<Rightarrow> 'a option" where
  "named f xs s = find (\<lambda>x. f x = s) xs"

definition as_named :: "('a \<Rightarrow> string) \<Rightarrow> 'a list \<Rightarrow> pyval \<Rightarrow> 'a option" where
  "as_named f xs v = Option.bind (as_str v) (named f xs)"

definition all_statuses :: "agent_status list" where
  "all_statuses = [Completed, InvalidDecision, PolicyDenied, BudgetExhausted, Unavailable, AgentFailed, AgentCancelled]"

definition all_domains :: "failure_domain list" where
  "all_domains = [DomModel, DomPolicy, DomTool, DomSystem]"

definition all_coverages :: "coverage list" where
  "all_coverages = [CovNone, CovSome, CovSufficient]"

section \<open>The research summary\<close>

definition evidence_entry_value :: "research_evidence \<Rightarrow> pyval" where
  "evidence_entry_value r = field_dict
     [(''document_id'', opt_str (rev_document r)), (''chunk_id'', PStr (rev_chunk r)), (''ticker'', opt_str (rev_ticker r)),
      (''objective_ids'', PList (map PStr (rev_objectives r))), (''first_tool'', PStr (rev_tool r)),
      (''first_step'', PInt (int (rev_step r)))]"

definition objective_status_value :: "objective_status \<Rightarrow> pyval" where
  "objective_status_value s = field_dict
     [(''objective_id'', PStr (os_id s)), (''coverage'', PStr (coverage_name (os_coverage s))),
      (''evidence_count'', PInt (int (os_count s))), (''search_attempts'', PInt (int (os_attempts s)))]"

definition gap_value :: "research_gap \<Rightarrow> pyval" where
  "gap_value g = field_dict [(''objective_id'', PStr (fst g)), (''code'', PStr (snd g))]"

definition summary_value :: "research_summary \<Rightarrow> pyval" where
  "summary_value s = field_dict
     [(''version'', PStr ''agent_research_v1''), (''objectives'', PList (map objective_status_value (rs_objectives s))),
      (''evidence'', PList (map evidence_entry_value (rs_evidence s))), (''gaps'', PList (map gap_value (rs_gaps s))),
      (''evidence_capped'', PBool (rs_capped s))]"

definition evidence_entry_of :: "(string \<times> pyval) list \<Rightarrow> research_evidence option" where
  "evidence_entry_of fs =
     Option.bind (field_or fs ''document_id'' None (as_option as_str)) (\<lambda>d.
     Option.bind (field fs ''chunk_id'' as_str) (\<lambda>c.
     Option.bind (optional_str is_ticker (map_of fs ''ticker'')) (\<lambda>t.
     Option.bind (field fs ''objective_ids'' (as_array as_str)) (\<lambda>os.
     Option.bind (field fs ''first_tool'' (as_literal tool_names)) (\<lambda>tool.
     Option.bind (field fs ''first_step'' (as_nat 1 20)) (\<lambda>n.
     let r = \<lparr>rev_document = d, rev_chunk = c, rev_ticker = t, rev_objectives = os, rev_tool = tool, rev_step = n\<rparr> in
     check (valid_evidence r) r))))))"

definition parse_evidence_entry :: "pyval \<Rightarrow> research_evidence option" where
  "parse_evidence_entry v = Option.bind (model_fields [''document_id'', ''chunk_id'', ''ticker'', ''objective_ids'', ''first_tool'', ''first_step''] v) evidence_entry_of"

definition objective_status_of :: "(string \<times> pyval) list \<Rightarrow> objective_status option" where
  "objective_status_of fs =
     Option.bind (field fs ''objective_id'' as_str) (\<lambda>oid.
     Option.bind (field fs ''coverage'' (as_named coverage_name all_coverages)) (\<lambda>c.
     Option.bind (field fs ''evidence_count'' (as_nat 0 6)) (\<lambda>n.
     Option.bind (field fs ''search_attempts'' (as_nat 0 2)) (\<lambda>a.
     check (obj_identifier oid) \<lparr>os_id = oid, os_coverage = c, os_count = n, os_attempts = a\<rparr>))))"

definition parse_objective_status :: "pyval \<Rightarrow> objective_status option" where
  "parse_objective_status v = Option.bind (model_fields [''objective_id'', ''coverage'', ''evidence_count'', ''search_attempts''] v) objective_status_of"

definition gap_of :: "(string \<times> pyval) list \<Rightarrow> research_gap option" where
  "gap_of fs =
     Option.bind (field fs ''objective_id'' as_str) (\<lambda>oid.
     Option.bind (field fs ''code'' (as_literal gap_codes)) (\<lambda>c.
     check (obj_identifier oid) (oid, c)))"

definition parse_gap :: "pyval \<Rightarrow> research_gap option" where
  "parse_gap v = Option.bind (model_fields [''objective_id'', ''code''] v) gap_of"

definition summary_of :: "(string \<times> pyval) list \<Rightarrow> research_summary option" where
  "summary_of fs =
     Option.bind (field_or fs ''version'' ''agent_research_v1'' (as_literal [''agent_research_v1''])) (\<lambda>_.
     Option.bind (field fs ''objectives'' (as_array parse_objective_status)) (\<lambda>os.
     Option.bind (field fs ''evidence'' (as_array parse_evidence_entry)) (\<lambda>es.
     Option.bind (field fs ''gaps'' (as_array parse_gap)) (\<lambda>gs.
     Option.bind (field_or fs ''evidence_capped'' False as_bool) (\<lambda>cap.
     let s = \<lparr>rs_objectives = os, rs_evidence = es, rs_gaps = gs, rs_capped = cap\<rparr> in
     check (valid_summary s) s)))))"

definition parse_summary :: "pyval \<Rightarrow> research_summary option" where
  "parse_summary v = Option.bind (model_fields [''version'', ''objectives'', ''evidence'', ''gaps'', ''evidence_capped''] v) summary_of"

section \<open>The durable result\<close>

record durable_result =
  dr_status :: agent_status
  dr_answer :: "string option"
  dr_refs :: "evidence_ref list"
  dr_steps :: nat
  dr_decisions :: nat
  dr_tool_calls :: nat
  dr_per_tool :: "(string \<times> nat) list"
  dr_observations :: nat
  dr_failure :: "(failure_domain \<times> string) option"
  dr_research :: "research_summary option"

definition valid_result :: "durable_result \<Rightarrow> bool" where
  "valid_result d \<longleftrightarrow>
     (case dr_answer d of None \<Rightarrow> True | Some a \<Rightarrow> length a \<le> 4000) \<and>
     length (dr_refs d) \<le> 20 \<and> list_all canonical_ref (dr_refs d) \<and>
     dr_steps d \<le> 20 \<and> dr_decisions d \<le> 20 \<and> dr_tool_calls d \<le> 10 \<and> dr_observations d \<le> 10 \<and>
     set (map fst (dr_per_tool d)) = set tool_names \<and> (\<forall>kv \<in> set (dr_per_tool d). snd kv \<le> 10) \<and>
     sum_list (map snd (dr_per_tool d)) = dr_tool_calls d \<and>
     (case dr_failure d of None \<Rightarrow> True | Some (dmn, c) \<Rightarrow> c \<in> set failure_codes) \<and>
     (case dr_research d of None \<Rightarrow> True | Some s \<Rightarrow> valid_summary s) \<and>
     (if dr_status d = Completed then dr_answer d \<noteq> None \<and> dr_failure d = None else dr_answer d = None)"

definition ref_value :: "evidence_ref \<Rightarrow> pyval" where
  "ref_value r = field_dict [(''kind'', PStr (fst r)), (''value'', PStr (snd r))]"

definition failure_value :: "(failure_domain \<times> string) option \<Rightarrow> pyval" where
  "failure_value f = (case f of None \<Rightarrow> PNone
     | Some (dmn, c) \<Rightarrow> field_dict [(''domain'', PStr (domain_name dmn)), (''code'', PStr c)])"

definition result_value :: "durable_result \<Rightarrow> pyval" where
  "result_value d = field_dict
     [(''agent_status'', PStr (status_name (dr_status d))), (''answer'', opt_str (dr_answer d)),
      (''evidence_refs'', PList (map ref_value (dr_refs d))), (''step_count'', PInt (int (dr_steps d))),
      (''decision_call_count'', PInt (int (dr_decisions d))), (''tool_call_count'', PInt (int (dr_tool_calls d))),
      (''per_tool_calls'', counters_value (dr_per_tool d)), (''observation_count'', PInt (int (dr_observations d))),
      (''failure'', failure_value (dr_failure d)),
      (''research'', case dr_research d of None \<Rightarrow> PNone | Some s \<Rightarrow> summary_value s)]"

definition result_fields :: "string list" where
  "result_fields = [''agent_status'', ''answer'', ''evidence_refs'', ''step_count'', ''decision_call_count'',
     ''tool_call_count'', ''per_tool_calls'', ''observation_count'', ''failure'', ''research'']"

definition failure_of :: "(string \<times> pyval) list \<Rightarrow> (failure_domain \<times> string) option" where
  "failure_of fs =
     Option.bind (field fs ''domain'' (as_named domain_name all_domains)) (\<lambda>dmn.
     Option.bind (field fs ''code'' (as_literal failure_codes)) (\<lambda>c. Some (dmn, c)))"

definition parse_failure :: "pyval \<Rightarrow> (failure_domain \<times> string) option" where
  "parse_failure v = Option.bind (model_fields [''domain'', ''code''] v) failure_of"

definition stored_of :: "(string \<times> pyval) list \<Rightarrow> durable_result option" where
  "stored_of fs =
     Option.bind (field fs ''agent_status'' (as_named status_name all_statuses)) (\<lambda>st.
     Option.bind (field_or fs ''answer'' None (as_option as_str)) (\<lambda>a.
     Option.bind (field_or fs ''evidence_refs'' [] (as_array parse_ref)) (\<lambda>refs.
     Option.bind (field fs ''step_count'' (as_nat 0 20)) (\<lambda>n.
     Option.bind (field fs ''decision_call_count'' (as_nat 0 20)) (\<lambda>m.
     Option.bind (field fs ''tool_call_count'' (as_nat 0 10)) (\<lambda>t.
     Option.bind (field fs ''per_tool_calls'' as_counters) (\<lambda>per.
     Option.bind (field fs ''observation_count'' (as_nat 0 10)) (\<lambda>ob.
     Option.bind (field_or fs ''failure'' None (as_option parse_failure)) (\<lambda>f.
     Option.bind (field_or fs ''research'' None (as_option parse_summary)) (\<lambda>r.
     let d = \<lparr>dr_status = st, dr_answer = a, dr_refs = refs, dr_steps = n, dr_decisions = m, dr_tool_calls = t,
              dr_per_tool = per, dr_observations = ob, dr_failure = f, dr_research = r\<rparr> in
     check (valid_result d) d))))))))))"

definition parse_result :: "pyval \<Rightarrow> durable_result option" where
  "parse_result v = Option.bind (model_fields result_fields v) stored_of"

text \<open>\<open>_durable_result\<close>: \<open>None\<close> is the \<open>ValueError\<close> of the validators or of the byte limit.\<close>

definition max_agent_result_bytes :: nat where "max_agent_result_bytes = 8 * 1024"

definition durable_fields :: "'w agent_result \<Rightarrow> bool \<Rightarrow> durable_result" where
  "durable_fields r cancelled =
    \<lparr>dr_status = (if cancelled then AgentCancelled else res_status r),
     dr_answer = (if cancelled then None else res_answer r),
     dr_refs = (if cancelled then [] else res_refs r),
     dr_steps = res_steps r, dr_decisions = res_decisions r, dr_tool_calls = res_tool_calls r,
     dr_per_tool = res_per_tool r, dr_observations = length (res_observations r),
     dr_failure = (if cancelled then None else res_failure r), dr_research = res_research r\<rparr>"

definition durable_result_of :: "'w agent_result \<Rightarrow> bool \<Rightarrow> durable_result option" where
  "durable_result_of r cancelled =
    (let d = durable_fields r cancelled in
     check (valid_result d \<and> utf8_len (canonical_text (result_value d)) \<le> max_agent_result_bytes) d)"

section \<open>The event summary\<close>

record event_summary =
  es_index :: nat
  es_kind :: string
  es_tool :: "string option"
  es_objective :: "string option"
  es_args :: "string list"
  es_outcome :: string
  es_count :: nat
  es_refs :: "evidence_ref list"
  es_steps :: nat
  es_tools :: nat
  es_failure :: "string option"

definition valid_event :: "event_summary \<Rightarrow> bool" where
  "valid_event s \<longleftrightarrow>
     1 \<le> es_index s \<and> es_index s \<le> 20 \<and> es_kind s \<in> {''tool'', ''final'', ''invalid''} \<and>
     (case es_objective s of None \<Rightarrow> True | Some x \<Rightarrow> obj_identifier x) \<and> length (es_args s) \<le> 16 \<and>
     es_outcome s \<in> {''observed'', ''completed'', ''rejected'', ''failed''} \<and> es_count s \<le> 20 \<and>
     length (es_refs s) \<le> 8 \<and> list_all canonical_ref (es_refs s) \<and> es_steps s \<le> 20 \<and> es_tools s \<le> 10"

text \<open>The summary that \<open>_record_trace\<close> makes of a trace entry.\<close>

definition summary_of_entry :: "trace_entry \<Rightarrow> nat \<Rightarrow> nat \<Rightarrow> event_summary" where
  "summary_of_entry t steps tools =
    \<lparr>es_index = te_index t, es_kind = te_kind t, es_tool = te_tool t, es_objective = te_objective t,
     es_args = te_args t, es_outcome = te_outcome t, es_count = length (te_refs t), es_refs = take 8 (te_refs t),
     es_steps = steps, es_tools = tools, es_failure = te_failure t\<rparr>"

definition event_value :: "event_summary \<Rightarrow> pyval" where
  "event_value s = field_dict
     [(''decision_index'', PInt (int (es_index s))), (''decision_kind'', PStr (es_kind s)), (''tool_name'', opt_str (es_tool s)),
      (''objective_id'', opt_str (es_objective s)), (''argument_names'', PList (map PStr (es_args s))),
      (''outcome'', PStr (es_outcome s)), (''evidence_count'', PInt (int (es_count s))),
      (''evidence_refs'', PList (map ref_value (es_refs s))), (''step_count'', PInt (int (es_steps s))),
      (''tool_call_count'', PInt (int (es_tools s))), (''failure_code'', opt_str (es_failure s))]"

definition event_of :: "(string \<times> pyval) list \<Rightarrow> event_summary option" where
  "event_of fs =
     Option.bind (field fs ''decision_index'' (as_nat 1 20)) (\<lambda>i.
     Option.bind (field fs ''decision_kind'' (as_literal [''tool'', ''final'', ''invalid''])) (\<lambda>k.
     Option.bind (field_or fs ''tool_name'' None (as_option as_str)) (\<lambda>tn.
     Option.bind (optional_str obj_identifier (map_of fs ''objective_id'')) (\<lambda>ob.
     Option.bind (field_or fs ''argument_names'' [] (as_array as_str)) (\<lambda>args.
     Option.bind (field fs ''outcome'' (as_literal [''observed'', ''completed'', ''rejected'', ''failed''])) (\<lambda>oc.
     Option.bind (field fs ''evidence_count'' (as_nat 0 20)) (\<lambda>n.
     Option.bind (field_or fs ''evidence_refs'' [] (as_array parse_ref)) (\<lambda>refs.
     Option.bind (field fs ''step_count'' (as_nat 0 20)) (\<lambda>st.
     Option.bind (field fs ''tool_call_count'' (as_nat 0 10)) (\<lambda>tc.
     Option.bind (field_or fs ''failure_code'' None (as_option as_str)) (\<lambda>f.
     let s = \<lparr>es_index = i, es_kind = k, es_tool = tn, es_objective = ob, es_args = args, es_outcome = oc, es_count = n,
              es_refs = refs, es_steps = st, es_tools = tc, es_failure = f\<rparr> in
     check (valid_event s) s)))))))))))"

definition parse_event :: "pyval \<Rightarrow> event_summary option" where
  "parse_event v = Option.bind (model_fields agent_event_fields v) event_of"

end
