(* ===== verification/Job_Store.thy ===== *)
theory Job_Store
  imports Job_Types
begin

text \<open>
  \<open>SQLiteJobRepository\<close> of \<open>src/workspace/jobs.py\<close>: every public operation as a
  function of the three tables.  One operation is one transaction
  (\<open>WorkspaceDatabase.transaction\<close>, \<open>BEGIN IMMEDIATE\<close>): \<open>Inl e\<close> is an exception, after
  which the transaction is rolled back and the tables are those before the call;
  \<open>Inr (x, db)\<close> is a return of \<open>x\<close> with the committed tables \<open>db\<close>.

  \<open>job_env\<close> holds what the repository is constructed with and what it reads from
  outside: the clock's value for the call, the successive results of the identifier
  factory, the forbidden secret values, the fault injector and SHA-256 in hexadecimal.
\<close>

record job_env =
  je_now :: string
  je_newid :: "nat \<Rightarrow> string"
  je_secrets :: "string list"
  je_inject :: "string \<Rightarrow> string \<Rightarrow> bool"
  je_sha256 :: "string \<Rightarrow> string"

definition new_id :: "job_env \<Rightarrow> nat \<Rightarrow> string \<Rightarrow> job_error + string" where
  "new_id e k pfx =
    (let i = pfx @ ''_'' @ je_newid e k in bindE (validate_opaque i) (\<lambda>_. Inr i))"

definition inject :: "job_env \<Rightarrow> string \<Rightarrow> string \<Rightarrow> job_error + unit" where
  "inject e phase jid = ensure (\<not> je_inject e phase jid) Injected"

definition assert_revision :: "int \<Rightarrow> int \<Rightarrow> job_error + unit" where
  "assert_revision actual expected =
    bindE (ensure (1 \<le> expected) ValueErr) (\<lambda>_. ensure (actual = expected) JobConflict)"

section \<open>Reading rows\<close>

definition step_of_row :: "nat \<times> step_row \<Rightarrow> job_error + job_step" where
  "step_of_row ir =
    (let n = fst ir; r = snd ir in
     bindE (ensure (opaque_id (sr_id r) \<and> type_name (sr_name r)) JobData) (\<lambda>_.
     bindE (ensure (sr_ordinal r = n \<and> 1 \<le> sr_revision r) JobData) (\<lambda>_.
     Inr \<lparr>js_id = sr_id r, js_job = sr_job r, js_ordinal = sr_ordinal r, js_name = sr_name r,
          js_state = sr_state r, js_revision = sr_revision r, js_started = sr_started r,
          js_finished = sr_finished r\<rparr>)))"

definition steps_in :: "job_db \<Rightarrow> string \<Rightarrow> job_error + job_step list" where
  "steps_in db jid =
     mapE step_of_row
       (enumerate 0 (sort_key (\<lambda>r. (sr_ordinal r, sr_id r)) (filter (\<lambda>r. sr_job r = jid) (db_steps db))))"

fun str_of :: "pyval \<Rightarrow> string option" where
  "str_of (PStr s) = Some s"
| "str_of _ = None"

definition decode_artifacts :: "json_col \<Rightarrow> job_error + string list" where
  "decode_artifacts col =
    (case col of
       Json (PList vs) \<Rightarrow>
         bindE (ensure (length vs \<le> max_artifact_references) JobData) (\<lambda>_.
         bindE (of_opt JobData (those (map str_of vs))) (\<lambda>ss.
         bindE (ensure (list_all artifact_reference ss \<and> distinct ss) JobData) (\<lambda>_. Inr ss)))
     | _ \<Rightarrow> Inl JobData)"

definition decode_result :: "json_col \<Rightarrow> job_error + pyval option" where
  "decode_result col =
    (case col of NullCol \<Rightarrow> Inr None
     | _ \<Rightarrow> bindE (decode_object max_job_result_bytes col) (\<lambda>v. Inr (Some v)))"

definition job_from_row :: "job_env \<Rightarrow> job_db \<Rightarrow> job_row \<Rightarrow> job_error + durable_job" where
  "job_from_row e db r =
    bindE (ensure (jr_schema r = Some job_record_schema_version) JobData) (\<lambda>_.
    bindE (ensure (opaque_id (jr_id r) \<and> type_name (jr_type r)) JobData) (\<lambda>_.
    bindE (ensure (fingerprint (jr_fingerprint r)) JobData) (\<lambda>_.
    bindE (ensure (1 \<le> jr_revision r) JobData) (\<lambda>_.
    bindE (decode_object max_job_payload_bytes (jr_payload r)) (\<lambda>payload.
    bindE (decode_artifacts (jr_artifacts r)) (\<lambda>artifacts.
    bindE (decode_result (jr_result r)) (\<lambda>result.
    bindE (map_err (\<lambda>_. JobData) (validate_progress (jr_stage r) (jr_current r) (jr_total r))) (\<lambda>progress.
    bindE (ensure (safe_tree (je_secrets e) payload) JobData) (\<lambda>_.
    bindE (ensure (case result of None \<Rightarrow> True | Some v \<Rightarrow> safe_tree (je_secrets e) v) JobData) (\<lambda>_.
    bindE (if jr_failure_code r \<noteq> None \<or> jr_failure_message r \<noteq> None
           then map_err (\<lambda>_. JobData)
                  (bindE (validate_failure (je_secrets e) (jr_failure_code r) (jr_failure_message r)) (\<lambda>_. Inr ()))
           else Inr ()) (\<lambda>_.
    bindE (ensure (\<not> (jr_state r = Succeeded \<and> result = None)) JobData) (\<lambda>_.
    bindE (ensure (\<not> (jr_state r \<in> {Failed, Interrupted} \<and>
                      (jr_failure_code r = None \<or> jr_failure_message r = None))) JobData) (\<lambda>_.
    bindE (steps_in db (jr_id r)) (\<lambda>steps.
    Inr \<lparr>dj_id = jr_id r, dj_namespace = jr_namespace r, dj_type = jr_type r, dj_state = jr_state r,
         dj_revision = jr_revision r, dj_fingerprint = jr_fingerprint r, dj_payload = payload,
         dj_artifacts = artifacts, dj_progress = progress, dj_result = result,
         dj_failure_code = jr_failure_code r, dj_failure_message = jr_failure_message r,
         dj_created = jr_created r, dj_updated = jr_updated r, dj_started = jr_started r,
         dj_finished = jr_finished r, dj_cancel_requested = jr_cancel_requested r,
         dj_steps = steps\<rparr>))))))))))))))"

definition find_job :: "job_db \<Rightarrow> string \<Rightarrow> job_row option" where
  "find_job db jid = find (\<lambda>r. jr_id r = jid) (db_jobs db)"

definition job_in :: "job_env \<Rightarrow> job_db \<Rightarrow> string \<Rightarrow> job_error + durable_job" where
  "job_in e db jid =
    bindE (validate_opaque jid) (\<lambda>_.
    bindE (of_opt JobNotFound (find_job db jid)) (\<lambda>r.
    job_from_row e db r))"

definition get_job :: "job_env \<Rightarrow> job_db \<Rightarrow> string \<Rightarrow> job_error + durable_job" where
  "get_job e db jid = job_in e db jid"

section \<open>Writing rows\<close>

definition update_jobs :: "(job_row \<Rightarrow> bool) \<Rightarrow> (job_row \<Rightarrow> job_row) \<Rightarrow> job_db \<Rightarrow> job_db" where
  "update_jobs P f db = db\<lparr>db_jobs := map (\<lambda>r. if P r then f r else r) (db_jobs db)\<rparr>"

definition update_steps :: "(step_row \<Rightarrow> bool) \<Rightarrow> (step_row \<Rightarrow> step_row) \<Rightarrow> job_db \<Rightarrow> job_db" where
  "update_steps P f db = db\<lparr>db_steps := map (\<lambda>r. if P r then f r else r) (db_steps db)\<rparr>"

text \<open>\<open>UPDATE jobs SET ... WHERE job_id = ? AND revision = ?\<close>, with the row count test that follows it.\<close>

definition cas_job ::
  "string \<Rightarrow> int \<Rightarrow> (job_row \<Rightarrow> job_row) \<Rightarrow> job_db \<Rightarrow> job_error + job_db" where
  "cas_job jid n f db =
    bindE (ensure (length (filter (\<lambda>r. jr_id r = jid \<and> jr_revision r = n) (db_jobs db)) = 1) JobConflict)
      (\<lambda>_. Inr (update_jobs (\<lambda>r. jr_id r = jid \<and> jr_revision r = n) f db))"

definition next_sequence :: "job_db \<Rightarrow> string \<Rightarrow> nat" where
  "next_sequence db jid = max0 (map er_seq (filter (\<lambda>r. er_job r = jid) (db_events db))) + 1"

text \<open>
  \<open>INSERT INTO job_events\<close>: the primary key, the uniqueness of \<open>(job_id, sequence)\<close> and of
  \<open>(job_id, agent_event_key)\<close>, and the foreign key to \<open>jobs\<close>.
\<close>

definition insert_event :: "event_row \<Rightarrow> job_db \<Rightarrow> job_error + job_db" where
  "insert_event r db =
    bindE (ensure (er_id r \<notin> set (map er_id (db_events db)) \<and>
                   (er_job r, er_seq r) \<notin> set (map (\<lambda>x. (er_job x, er_seq x)) (db_events db)) \<and>
                   (er_agent_key r = None \<or>
                    (er_job r, er_agent_key r) \<notin> set (map (\<lambda>x. (er_job x, er_agent_key x)) (db_events db))) \<and>
                   er_job r \<in> set (map jr_id (db_jobs db))) SqliteIntegrity)
      (\<lambda>_. Inr (db\<lparr>db_events := db_events db @ [r]\<rparr>))"

definition append_event_in ::
  "job_env \<Rightarrow> nat \<Rightarrow> string \<Rightarrow> string \<Rightarrow> job_state option \<Rightarrow> string option \<Rightarrow> progress
     \<Rightarrow> job_db \<Rightarrow> job_error + job_db" where
  "append_event_in e k jid etype state reason progress db =
    bindE (new_id e k ''event'') (\<lambda>eid.
    map_err (\<lambda>_. JobConflict) (insert_event
      \<lparr>er_id = eid, er_job = jid, er_seq = next_sequence db jid, er_type = etype,
       er_state = map_option job_state_name state, er_reason = reason,
       er_stage = pg_stage progress, er_current = pg_current progress, er_total = pg_total progress,
       er_at = je_now e, er_agent_key = None, er_agent_payload = NullCol\<rparr> db))"

section \<open>Creation\<close>

definition valid_idempotency_key :: "string \<Rightarrow> bool" where
  "valid_idempotency_key k \<longleftrightarrow>
     \<not> (is_blank k \<or> length k > 256) \<and> \<not> list_ex (\<lambda>c. ord c < 33 \<or> ord c = 127) k"

definition find_key :: "job_db \<Rightarrow> namespace \<Rightarrow> string \<Rightarrow> job_row option" where
  "find_key db ns kh = find (\<lambda>r. jr_namespace r = ns \<and> jr_key_hash r = Some kh) (db_jobs db)"

definition find_idempotent_job ::
  "job_env \<Rightarrow> job_db \<Rightarrow> namespace \<Rightarrow> string \<Rightarrow> job_error + durable_job option" where
  "find_idempotent_job e db ns key =
    bindE (ensure (valid_idempotency_key key) ValueErr) (\<lambda>_.
    (case find_key db ns (je_sha256 e key) of
       None \<Rightarrow> Inr None
     | Some r \<Rightarrow> bindE (job_from_row e db r) (\<lambda>j. Inr (Some j))))"

definition insert_job :: "job_row \<Rightarrow> job_db \<Rightarrow> job_error + job_db" where
  "insert_job r db =
    bindE (ensure (jr_id r \<notin> set (map jr_id (db_jobs db)) \<and>
                   (jr_key_hash r = None \<or>
                    (jr_namespace r, jr_key_hash r) \<notin>
                      set (map (\<lambda>x. (jr_namespace x, jr_key_hash x)) (db_jobs db)))) SqliteIntegrity)
      (\<lambda>_. Inr (db\<lparr>db_jobs := db_jobs db @ [r]\<rparr>))"

definition insert_step :: "step_row \<Rightarrow> job_db \<Rightarrow> job_error + job_db" where
  "insert_step r db =
    bindE (ensure (sr_id r \<notin> set (map sr_id (db_steps db)) \<and>
                   (sr_job r, sr_ordinal r) \<notin> set (map (\<lambda>x. (sr_job x, sr_ordinal x)) (db_steps db))) SqliteIntegrity)
      (\<lambda>_. Inr (db\<lparr>db_steps := db_steps db @ [r]\<rparr>))"

fun insert_steps :: "job_env \<Rightarrow> string \<Rightarrow> nat \<Rightarrow> string list \<Rightarrow> job_db \<Rightarrow> job_error + job_db" where
  "insert_steps e jid n [] db = Inr db"
| "insert_steps e jid n (name # names) db =
    bindE (new_id e (Suc n) ''step'') (\<lambda>sid.
    bindE (map_err (\<lambda>_. JobConflict) (insert_step
             \<lparr>sr_id = sid, sr_job = jid, sr_ordinal = n, sr_name = name, sr_state = SPending,
              sr_revision = 1, sr_started = None, sr_finished = None\<rparr> db)) (\<lambda>db'.
    insert_steps e jid (Suc n) names db'))"

definition new_job_row ::
  "job_env \<Rightarrow> string \<Rightarrow> namespace \<Rightarrow> string \<Rightarrow> string \<Rightarrow> string \<Rightarrow> pyval \<Rightarrow> string list \<Rightarrow> job_row" where
  "new_job_row e jid ns jtype kh fp payload artifacts =
     \<lparr>jr_id = jid, jr_namespace = ns, jr_type = jtype, jr_state = Queued, jr_fingerprint = fp,
      jr_failure_code = None, jr_revision = 1, jr_created = je_now e, jr_updated = je_now e,
      jr_started = None, jr_finished = None, jr_schema = Some job_record_schema_version,
      jr_key_hash = Some kh, jr_payload = Json payload,
      jr_artifacts = Json (PList (map PStr artifacts)),
      jr_stage = None, jr_current = None, jr_total = None, jr_result = NullCol,
      jr_failure_message = None, jr_cancel_requested = None\<rparr>"

text \<open>The request of \<open>create_job\<close> after its validation: key hash, canonical payload.\<close>

definition validate_create ::
  "job_env \<Rightarrow> string \<Rightarrow> string \<Rightarrow> string \<Rightarrow> pyval \<Rightarrow> string list \<Rightarrow> string list \<Rightarrow> job_error + pyval" where
  "validate_create e jtype key fp payload artifacts steps =
    bindE (validate_name jtype) (\<lambda>_.
    bindE (ensure (valid_idempotency_key key) ValueErr) (\<lambda>_.
    bindE (ensure (fingerprint fp) ValueErr) (\<lambda>_.
    bindE (canonical_object (je_secrets e) max_job_payload_bytes payload) (\<lambda>w.
    bindE (ensure (length artifacts \<le> max_artifact_references) JobLimit) (\<lambda>_.
    bindE (ensure (list_all artifact_reference artifacts) ValueErr) (\<lambda>_.
    bindE (ensure (distinct artifacts) ValueErr) (\<lambda>_.
    bindE (ensure (length steps \<le> max_job_steps) JobLimit) (\<lambda>_.
    bindE (ensure (list_all type_name steps) ValueErr) (\<lambda>_.
    bindE (ensure (distinct steps) ValueErr) (\<lambda>_.
    Inr w))))))))))"

definition same_request :: "durable_job \<Rightarrow> string \<Rightarrow> string \<Rightarrow> pyval \<Rightarrow> string list \<Rightarrow> string list \<Rightarrow> bool" where
  "same_request j jtype fp w artifacts steps \<longleftrightarrow>
     dj_type j = jtype \<and> dj_fingerprint j = fp \<and> canon (dj_payload j) = Some w \<and>
     dj_artifacts j = artifacts \<and> map js_name (dj_steps j) = steps"

definition create_job ::
  "job_env \<Rightarrow> job_db \<Rightarrow> namespace \<Rightarrow> string \<Rightarrow> string \<Rightarrow> string \<Rightarrow> pyval \<Rightarrow> string list \<Rightarrow> string list
     \<Rightarrow> job_error + (durable_job \<times> job_db)" where
  "create_job e db ns jtype key fp payload artifacts steps =
    bindE (validate_create e jtype key fp payload artifacts steps) (\<lambda>w.
    let kh = je_sha256 e key in
    (case find_key db ns kh of
       Some r \<Rightarrow>
         bindE (job_from_row e db r) (\<lambda>stored.
         if same_request stored jtype fp w artifacts steps then Inr (stored, db) else Inl JobConflict)
     | None \<Rightarrow>
         bindE (new_id e 0 ''job'') (\<lambda>jid.
         bindE (map_err (\<lambda>_. JobConflict) (insert_job (new_job_row e jid ns jtype kh fp w artifacts) db)) (\<lambda>db1.
         bindE (insert_steps e jid 0 steps db1) (\<lambda>db2.
         bindE (append_event_in e (Suc (length steps)) jid ''created'' (Some Queued) None no_progress db2) (\<lambda>db3.
         bindE (inject e ''after_create'' jid) (\<lambda>_.
         bindE (job_in e db3 jid) (\<lambda>j. Inr (j, db3)))))))))"

section \<open>Transitions\<close>

text \<open>The result and failure columns that a target state admits.\<close>

definition terminal_columns ::
  "job_env \<Rightarrow> durable_job \<Rightarrow> job_state \<Rightarrow> pyval option \<Rightarrow> string option \<Rightarrow> string option
     \<Rightarrow> job_error + (json_col \<times> string option \<times> string option)" where
  "terminal_columns e current target result fcode fmsg =
    (if target = Succeeded then
       bindE (canonical_object (je_secrets e) max_job_result_bytes
               (case result of None \<Rightarrow> PDict [] | Some v \<Rightarrow> v)) (\<lambda>w.
       Inr (Json w, None, None))
     else if target \<in> {Failed, Interrupted} then
       bindE (validate_failure (je_secrets e) fcode fmsg) (\<lambda>cm.
       bindE (ensure (\<not> (result \<noteq> None \<and> dj_namespace current \<noteq> NsAgent)) ValueErr) (\<lambda>_.
       bindE (case result of None \<Rightarrow> Inr NullCol
              | Some v \<Rightarrow> bindE (canonical_object (je_secrets e) max_job_result_bytes v) (\<lambda>w. Inr (Json w))) (\<lambda>col.
       Inr (col, Some (fst cm), Some (snd cm)))))
     else
       bindE (ensure (result = None \<and> fcode = None \<and> fmsg = None) ValueErr) (\<lambda>_.
       Inr (NullCol, None, None)))"

definition stop_step :: "string \<Rightarrow> step_state \<Rightarrow> step_row \<Rightarrow> step_row" where
  "stop_step now st r = r\<lparr>sr_state := st, sr_revision := sr_revision r + 1, sr_finished := Some now\<rparr>"

definition step_state_of :: "job_state \<Rightarrow> step_state" where
  "step_state_of t = (if t = Failed then SFailed else SInterrupted)"

definition transition_job_in ::
  "job_env \<Rightarrow> nat \<Rightarrow> job_db \<Rightarrow> string \<Rightarrow> int \<Rightarrow> job_state \<Rightarrow> pyval option \<Rightarrow> string option \<Rightarrow> string option
     \<Rightarrow> job_error + (durable_job \<times> job_db)" where
  "transition_job_in e k db jid expected target result fcode fmsg =
    bindE (job_in e db jid) (\<lambda>current.
    bindE (assert_revision (dj_revision current) expected) (\<lambda>_.
    bindE (validate_job_transition (dj_state current) target) (\<lambda>_.
    bindE (ensure (\<not> (target = Succeeded \<and>
             list_ex (\<lambda>s. js_state s \<notin> {SSucceeded, SSkipped}) (dj_steps current))) JobTransition) (\<lambda>_.
    bindE (terminal_columns e current target result fcode fmsg) (\<lambda>cols.
    let started = (if target = Running then Some (je_now e) else dj_started current);
        finished = (if terminal_job target then Some (je_now e) else None);
        db1 = (if target \<in> {Failed, Interrupted}
               then update_steps (\<lambda>r. sr_job r = jid \<and> sr_state r = SRunning)
                      (stop_step (je_now e) (step_state_of target)) db
               else db)
    in
    bindE (cas_job jid expected (\<lambda>r. r\<lparr>jr_state := target, jr_revision := jr_revision r + 1,
             jr_updated := je_now e, jr_started := started, jr_finished := finished,
             jr_result := fst cols, jr_failure_code := fst (snd cols),
             jr_failure_message := snd (snd cols)\<rparr>) db1) (\<lambda>db2.
    bindE (inject e ''after_job_update'' jid) (\<lambda>_.
    bindE (append_event_in e k jid ''state_changed'' (Some target) (fst (snd cols)) (dj_progress current) db2) (\<lambda>db3.
    bindE (job_in e db3 jid) (\<lambda>j. Inr (j, db3))))))))))"

definition transition_job ::
  "job_env \<Rightarrow> job_db \<Rightarrow> string \<Rightarrow> int \<Rightarrow> job_state \<Rightarrow> pyval option \<Rightarrow> string option \<Rightarrow> string option
     \<Rightarrow> job_error + (durable_job \<times> job_db)" where
  "transition_job e db jid expected target result fcode fmsg =
    bindE (ensure (target \<notin> {Cancelling, Cancelled}) JobTransition) (\<lambda>_.
    transition_job_in e 0 db jid expected target result fcode fmsg)"

text \<open>One \<open>SELECT ... ORDER BY created_at ASC, job_id ASC LIMIT 1\<close> per registered executor.\<close>

definition oldest_queued :: "job_db \<Rightarrow> namespace \<times> string \<Rightarrow> job_row option" where
  "oldest_queued db nt =
    (case sort_key (\<lambda>r. (jr_created r, jr_id r))
            (filter (\<lambda>r. jr_namespace r = fst nt \<and> jr_state r = Queued \<and> jr_type r = snd nt) (db_jobs db)) of
       [] \<Rightarrow> None | r # _ \<Rightarrow> Some r)"

definition claim_candidates :: "job_db \<Rightarrow> (namespace \<times> string) list \<Rightarrow> job_row list" where
  "claim_candidates db eligible = List.map_filter (oldest_queued db) eligible"

definition claim_next_job ::
  "job_env \<Rightarrow> job_db \<Rightarrow> (namespace \<times> string) list \<Rightarrow> job_error + (durable_job option \<times> job_db)" where
  "claim_next_job e db eligible =
    bindE (ensure (eligible \<noteq> [] \<and> length eligible \<le> 4) ValueErr) (\<lambda>_.
    bindE (ensure (list_all (\<lambda>nt. type_name (snd nt)) eligible) ValueErr) (\<lambda>_.
    (case sort_key (\<lambda>r. (jr_created r, jr_id r)) (claim_candidates db eligible) of
       [] \<Rightarrow> Inr (None, db)
     | r # _ \<Rightarrow>
         bindE (transition_job_in e 0 db (jr_id r) (jr_revision r) Running None None None) (\<lambda>jd.
         Inr (Some (fst jd), snd jd)))))"

definition report_progress ::
  "job_env \<Rightarrow> job_db \<Rightarrow> string \<Rightarrow> int \<Rightarrow> string option \<Rightarrow> int option \<Rightarrow> int option
     \<Rightarrow> job_error + (durable_job \<times> job_db)" where
  "report_progress e db jid expected stage cur tot =
    bindE (validate_progress stage cur tot) (\<lambda>progress.
    bindE (job_in e db jid) (\<lambda>job.
    bindE (assert_revision (dj_revision job) expected) (\<lambda>_.
    bindE (ensure (dj_state job = Running) JobTransition) (\<lambda>_.
    bindE (cas_job jid expected (\<lambda>r. r\<lparr>jr_stage := stage, jr_current := cur, jr_total := tot,
             jr_revision := jr_revision r + 1, jr_updated := je_now e\<rparr>) db) (\<lambda>db1.
    bindE (inject e ''after_progress_update'' jid) (\<lambda>_.
    bindE (append_event_in e 0 jid ''progress'' (Some Running) None progress db1) (\<lambda>db2.
    bindE (job_in e db2 jid) (\<lambda>j. Inr (j, db2)))))))))"

definition allowed_step_targets :: "job_state \<Rightarrow> step_state set" where
  "allowed_step_targets s =
    (if s = Running then {SRunning, SSucceeded, SFailed, SSkipped, SInterrupted}
     else if s = Cancelling then {SCancelled, SInterrupted} else {})"

definition cas_step ::
  "string \<Rightarrow> string \<Rightarrow> int \<Rightarrow> (step_row \<Rightarrow> step_row) \<Rightarrow> job_db \<Rightarrow> job_error + job_db" where
  "cas_step sid jid n f db =
    (let P = (\<lambda>r. sr_id r = sid \<and> sr_job r = jid \<and> sr_revision r = n) in
     bindE (ensure (length (filter P (db_steps db)) = 1) JobConflict) (\<lambda>_. Inr (update_steps P f db)))"

definition transition_step ::
  "job_env \<Rightarrow> job_db \<Rightarrow> string \<Rightarrow> string \<Rightarrow> int \<Rightarrow> int \<Rightarrow> step_state \<Rightarrow> job_error + (durable_job \<times> job_db)" where
  "transition_step e db jid sid exp_job exp_step target =
    bindE (validate_opaque sid) (\<lambda>_.
    bindE (job_in e db jid) (\<lambda>job.
    bindE (assert_revision (dj_revision job) exp_job) (\<lambda>_.
    bindE (of_opt JobNotFound (find (\<lambda>r. sr_id r = sid \<and> sr_job r = jid) (db_steps db))) (\<lambda>row.
    bindE (ensure (sr_revision row = exp_step) JobConflict) (\<lambda>_.
    bindE (validate_step_transition (sr_state row) target) (\<lambda>_.
    bindE (ensure (target \<in> allowed_step_targets (dj_state job)) JobTransition) (\<lambda>_.
    let started = (if target = SRunning then Some (je_now e) else sr_started row);
        finished = (if terminal_step target then Some (je_now e) else None)
    in
    bindE (cas_step sid jid exp_step (\<lambda>r. r\<lparr>sr_state := target, sr_revision := sr_revision r + 1,
             sr_started := started, sr_finished := finished\<rparr>) db) (\<lambda>db1.
    bindE (cas_job jid exp_job (\<lambda>r. r\<lparr>jr_revision := jr_revision r + 1, jr_updated := je_now e\<rparr>) db1) (\<lambda>db2.
    bindE (inject e ''after_step_update'' jid) (\<lambda>_.
    bindE (append_event_in e 0 jid ''step_changed'' (Some (dj_state job)) None (dj_progress job) db2) (\<lambda>db3.
    bindE (job_in e db3 jid) (\<lambda>j. Inr (j, db3)))))))))))))"

section \<open>Cancellation and recovery\<close>

definition request_cancellation ::
  "job_env \<Rightarrow> job_db \<Rightarrow> string \<Rightarrow> int \<Rightarrow> job_error + (durable_job \<times> job_db)" where
  "request_cancellation e db jid expected =
    bindE (job_in e db jid) (\<lambda>job.
    bindE (assert_revision (dj_revision job) expected) (\<lambda>_.
    if dj_state job \<in> {Cancelling, Cancelled} then Inr (job, db)
    else
    bindE (ensure (dj_state job \<in> {Queued, Running}) JobTransition) (\<lambda>_.
    let target = (if dj_state job = Queued then Cancelled else Cancelling) in
    bindE (validate_job_transition (dj_state job) target) (\<lambda>_.
    let db1 = (if target = Cancelled
               then update_steps (\<lambda>r. sr_job r = jid \<and> sr_state r = SPending) (stop_step (je_now e) SCancelled) db
               else db) in
    bindE (cas_job jid expected (\<lambda>r. r\<lparr>jr_state := target, jr_revision := jr_revision r + 1,
             jr_updated := je_now e,
             jr_finished := (if target = Cancelled then Some (je_now e) else None),
             jr_cancel_requested := Some (je_now e)\<rparr>) db1) (\<lambda>db2.
    bindE (inject e ''after_cancel_request'' jid) (\<lambda>_.
    bindE (append_event_in e 0 jid ''cancellation_requested'' (Some target) None (dj_progress job) db2) (\<lambda>db3.
    bindE (job_in e db3 jid) (\<lambda>j. Inr (j, db3)))))))))"

definition acknowledge_cancellation ::
  "job_env \<Rightarrow> job_db \<Rightarrow> string \<Rightarrow> int \<Rightarrow> pyval option \<Rightarrow> job_error + (durable_job \<times> job_db)" where
  "acknowledge_cancellation e db jid expected result =
    bindE (job_in e db jid) (\<lambda>job.
    bindE (assert_revision (dj_revision job) expected) (\<lambda>_.
    bindE (validate_job_transition (dj_state job) Cancelled) (\<lambda>_.
    bindE (ensure (\<not> (result \<noteq> None \<and> dj_namespace job \<noteq> NsAgent)) ValueErr) (\<lambda>_.
    bindE (case result of None \<Rightarrow> Inr NullCol
           | Some v \<Rightarrow> bindE (canonical_object (je_secrets e) max_job_result_bytes v) (\<lambda>w. Inr (Json w))) (\<lambda>col.
    let db1 = update_steps (\<lambda>r. sr_job r = jid \<and> sr_state r \<in> {SPending, SRunning})
                (stop_step (je_now e) SCancelled) db in
    bindE (cas_job jid expected (\<lambda>r. r\<lparr>jr_state := Cancelled, jr_revision := jr_revision r + 1,
             jr_updated := je_now e, jr_finished := Some (je_now e), jr_result := col\<rparr>) db1) (\<lambda>db2.
    bindE (inject e ''after_cancel_acknowledgement'' jid) (\<lambda>_.
    bindE (append_event_in e 0 jid ''cancelled'' (Some Cancelled) None (dj_progress job) db2) (\<lambda>db3.
    bindE (job_in e db3 jid) (\<lambda>j. Inr (j, db3))))))))))"

definition recover_one ::
  "job_env \<Rightarrow> nat \<Rightarrow> string \<Rightarrow> job_db \<Rightarrow> job_error + (durable_job \<times> job_db)" where
  "recover_one e k jid db =
    bindE (job_in e db jid) (\<lambda>job.
    bindE (validate_job_transition (dj_state job) Interrupted) (\<lambda>_.
    let db1 = update_steps (\<lambda>r. sr_job r = jid \<and> sr_state r = SRunning) (stop_step (je_now e) SInterrupted) db in
    bindE (cas_job jid (dj_revision job) (\<lambda>r. r\<lparr>jr_state := Interrupted, jr_revision := jr_revision r + 1,
             jr_updated := je_now e, jr_finished := Some (je_now e),
             jr_failure_code := Some ''process_interrupted'',
             jr_failure_message := Some ''Execution stopped before the process completed the job.''\<rparr>) db1) (\<lambda>db2.
    bindE (inject e ''after_recovery_update'' jid) (\<lambda>_.
    bindE (append_event_in e k jid ''interrupted'' (Some Interrupted) (Some ''process_interrupted'')
             (dj_progress job) db2) (\<lambda>db3.
    bindE (job_in e db3 jid) (\<lambda>j. Inr (j, db3)))))))"

fun recover_all ::
  "job_env \<Rightarrow> nat \<Rightarrow> string list \<Rightarrow> job_db \<Rightarrow> job_error + (durable_job list \<times> job_db)" where
  "recover_all e k [] db = Inr ([], db)"
| "recover_all e k (jid # jids) db =
    bindE (recover_one e k jid db) (\<lambda>jd.
    bindE (recover_all e (Suc k) jids (snd jd)) (\<lambda>jsd.
    Inr (fst jd # fst jsd, snd jsd)))"

definition active_jobs :: "job_db \<Rightarrow> job_row list" where
  "active_jobs db =
     sort_key (\<lambda>r. (jr_updated r, jr_id r)) (filter (\<lambda>r. jr_state r \<in> {Running, Cancelling}) (db_jobs db))"

definition recover_interrupted_jobs ::
  "job_env \<Rightarrow> job_db \<Rightarrow> int \<Rightarrow> job_error + (durable_job list \<times> job_db)" where
  "recover_interrupted_jobs e db lim =
    bindE (ensure (1 \<le> lim \<and> lim \<le> max_list_limit) JobLimit) (\<lambda>_.
    recover_all e 0 (map jr_id (take (nat lim) (active_jobs db))) db)"

section \<open>Listings\<close>

definition list_jobs ::
  "job_env \<Rightarrow> job_db \<Rightarrow> namespace option \<Rightarrow> job_state option \<Rightarrow> int \<Rightarrow> int \<Rightarrow> job_error + job_page" where
  "list_jobs e db ns st lim off =
    bindE (ensure (1 \<le> lim \<and> lim \<le> max_list_limit) JobLimit) (\<lambda>_.
    bindE (ensure (0 \<le> off) ValueErr) (\<lambda>_.
    let sel = filter (\<lambda>r. (ns = None \<or> ns = Some (jr_namespace r)) \<and> (st = None \<or> st = Some (jr_state r)))
                (db_jobs db);
        rows = slice (nat off) (nat lim) (rev (sort_key (\<lambda>r. (jr_created r, jr_id r)) sel))
    in
    bindE (mapE (job_from_row e db) rows) (\<lambda>items.
    Inr \<lparr>jp_items = items, jp_total = length sel, jp_limit = lim, jp_offset = off\<rparr>)))"

definition event_state :: "string option \<Rightarrow> job_error + job_state option" where
  "event_state s =
    (case s of None \<Rightarrow> Inr None
     | Some n \<Rightarrow> bindE (of_opt JobData (parse_job_state n)) (\<lambda>st. Inr (Some st)))"

definition event_of_row :: "event_row \<Rightarrow> job_error + job_event" where
  "event_of_row r =
    bindE (event_state (er_state r)) (\<lambda>st.
    bindE (map_err (\<lambda>_. JobData) (validate_progress (er_stage r) (er_current r) (er_total r))) (\<lambda>progress.
    Inr \<lparr>ev_id = er_id r, ev_job = er_job r, ev_seq = er_seq r, ev_type = er_type r, ev_state = st,
         ev_reason = er_reason r, ev_progress = progress, ev_at = er_at r\<rparr>))"

definition events_after :: "job_db \<Rightarrow> string \<Rightarrow> int \<Rightarrow> int \<Rightarrow> event_row list" where
  "events_after db jid after lim =
     take (nat lim) (sort_key er_seq
       (filter (\<lambda>r. er_job r = jid \<and> after < int (er_seq r)) (db_events db)))"

definition list_events ::
  "job_env \<Rightarrow> job_db \<Rightarrow> string \<Rightarrow> int \<Rightarrow> int \<Rightarrow> job_error + job_event list" where
  "list_events e db jid after lim =
    bindE (validate_opaque jid) (\<lambda>_.
    bindE (ensure (0 \<le> after) ValueErr) (\<lambda>_.
    bindE (ensure (1 \<le> lim \<and> lim \<le> max_list_limit) JobLimit) (\<lambda>_.
    bindE (of_opt JobNotFound (find_job db jid)) (\<lambda>_.
    mapE event_of_row (events_after db jid after lim)))))"

section \<open>Agent decision events\<close>

definition dict_keys :: "pyval \<Rightarrow> pykey set" where
  "dict_keys v = (case v of PDict kvs \<Rightarrow> set (map fst kvs) | _ \<Rightarrow> {})"

definition agent_event_keys_ok :: "pyval \<Rightarrow> bool" where
  "agent_event_keys_ok v \<longleftrightarrow>
     dict_keys v = set (map KStr agent_event_fields) \<or> dict_keys v = set (map KStr agent_event_fields_v1)"

definition int_field :: "pyval \<Rightarrow> string \<Rightarrow> int option" where
  "int_field v k = (case v of PDict kvs \<Rightarrow> (case dict_get kvs k of Some (PInt i) \<Rightarrow> Some i | _ \<Rightarrow> None) | _ \<Rightarrow> None)"

definition agent_event_from_row :: "job_env \<Rightarrow> event_row \<Rightarrow> job_error + agent_job_event" where
  "agent_event_from_row e r =
    bindE (case er_agent_payload r of NullCol \<Rightarrow> Inr (PDict [])
           | col \<Rightarrow> bindE (decode_object max_agent_event_bytes col) (\<lambda>v.
                     bindE (ensure (agent_event_keys_ok v) JobData) (\<lambda>_. Inr v))) (\<lambda>payload.
    bindE (ensure (safe_tree (je_secrets e) payload) JobData) (\<lambda>_.
    bindE (event_state (er_state r)) (\<lambda>st.
    Inr \<lparr>ae_id = er_id r, ae_seq = er_seq r, ae_type = er_type r, ae_state = st,
         ae_reason = er_reason r, ae_at = er_at r, ae_payload = payload\<rparr>)))"

definition decision_key :: "int \<Rightarrow> string" where
  "decision_key i = ''decision_'' @ dec_int i"

definition agent_event_count :: "job_db \<Rightarrow> string \<Rightarrow> nat" where
  "agent_event_count db jid = length (filter (\<lambda>r. er_job r = jid \<and> er_agent_key r \<noteq> None) (db_events db))"

definition validate_agent_event ::
  "job_env \<Rightarrow> string \<Rightarrow> pyval \<Rightarrow> int \<Rightarrow> int \<Rightarrow> job_error + (int \<times> pyval)" where
  "validate_agent_event e key payload steps max_steps =
    bindE (ensure (agent_event_keys_ok payload) ValueErr) (\<lambda>_.
    bindE (validate_name key) (\<lambda>_.
    bindE (of_opt ValueErr (int_field payload ''decision_index'')) (\<lambda>i.
    bindE (ensure (1 \<le> i \<and> i \<le> int max_agent_decision_events \<and> key = decision_key i) ValueErr) (\<lambda>_.
    bindE (ensure (0 \<le> steps \<and> steps \<le> max_steps \<and> max_steps \<le> 20) ValueErr) (\<lambda>_.
    bindE (ensure (i \<le> max_steps) ValueErr) (\<lambda>_.
    bindE (canonical_object (je_secrets e) max_agent_event_bytes payload) (\<lambda>w.
    Inr (i, w))))))))"

definition append_agent_decision_event ::
  "job_env \<Rightarrow> job_db \<Rightarrow> string \<Rightarrow> string \<Rightarrow> pyval \<Rightarrow> int \<Rightarrow> int \<Rightarrow> job_error + (agent_job_event \<times> job_db)" where
  "append_agent_decision_event e db jid key payload steps max_steps =
    bindE (validate_agent_event e key payload steps max_steps) (\<lambda>iw.
    bindE (job_in e db jid) (\<lambda>job.
    bindE (ensure (dj_namespace job = NsAgent) JobNotFound) (\<lambda>_.
    (case find (\<lambda>r. er_job r = jid \<and> er_agent_key r = Some key) (db_events db) of
       Some old \<Rightarrow>
         bindE (ensure (er_agent_payload old = Json (snd iw)) JobConflict) (\<lambda>_.
         bindE (agent_event_from_row e old) (\<lambda>ev. Inr (ev, db)))
     | None \<Rightarrow>
         bindE (ensure (dj_state job \<in> {Running, Cancelling}) JobTransition) (\<lambda>_.
         let count = agent_event_count db jid in
         bindE (ensure (count < max_agent_decision_events) JobLimit) (\<lambda>_.
         bindE (ensure (fst iw = int count + 1) JobConflict) (\<lambda>_.
         let sequence = next_sequence db jid in
         bindE (cas_job jid (dj_revision job) (\<lambda>r. r\<lparr>jr_revision := jr_revision r + 1,
                  jr_updated := je_now e, jr_stage := Some ''execute_agent'',
                  jr_current := Some steps, jr_total := Some max_steps\<rparr>) db) (\<lambda>db1.
         bindE (new_id e 0 ''event'') (\<lambda>eid.
         let row = \<lparr>er_id = eid, er_job = jid, er_seq = sequence, er_type = ''agent_decision'',
                    er_state = Some (job_state_name (dj_state job)), er_reason = None,
                    er_stage = Some ''execute_agent'', er_current = Some steps, er_total = Some max_steps,
                    er_at = je_now e, er_agent_key = Some key, er_agent_payload = Json (snd iw)\<rparr> in
         bindE (insert_event row db1) (\<lambda>db2.
         bindE (agent_event_from_row e row) (\<lambda>ev. Inr (ev, db2))))))))))))"

definition list_agent_events ::
  "job_env \<Rightarrow> job_db \<Rightarrow> string \<Rightarrow> int \<Rightarrow> int \<Rightarrow> job_error + agent_job_event list" where
  "list_agent_events e db jid after lim =
    bindE (validate_opaque jid) (\<lambda>_.
    bindE (ensure (0 \<le> after) ValueErr) (\<lambda>_.
    bindE (ensure (1 \<le> lim \<and> lim \<le> max_list_limit) JobLimit) (\<lambda>_.
    bindE (job_in e db jid) (\<lambda>job.
    bindE (ensure (dj_namespace job = NsAgent) JobNotFound) (\<lambda>_.
    mapE (agent_event_from_row e) (events_after db jid after lim))))))"

end
