(* ===== verification/Job_Effects.thy ===== *)
theory Job_Effects
  imports Job_Store
begin

text \<open>
  What a committed operation of the job repository does to the tables.  Every
  mutation of an existing job has one shape, \<open>committed\<close>: the one row with the
  expected revision is rewritten, step rows are rewritten one by one, and exactly
  one event is appended under the next sequence number.  One elimination lemma per
  operation reduces the operations to this shape; the invariants of
  \<open>Job_Invariants\<close> are proved about the shape only.
\<close>

section \<open>Reading back\<close>

lemma find_job_Some:
  "find_job db jid = Some r \<Longrightarrow> r \<in> set (db_jobs db) \<and> jr_id r = jid"
  unfolding find_job_def by (blast dest: find_SomeD)

lemma decode_object_ok: "decode_object n col = Inr v \<Longrightarrow> col = Json v \<and> json_bytes v \<le> n \<and> (\<exists>kvs. v = PDict kvs)"
  by (auto simp: decode_object_def ok_simps split: json_col.splits pyval.splits)

text \<open>The checks a row has passed when it is read, and the fields of the job it becomes.\<close>

lemma job_from_row_pieces:
  assumes "job_from_row e db r = Inr j"
  obtains payload artifacts result progress steps where
    "1 \<le> jr_revision r" "decode_object max_job_payload_bytes (jr_payload r) = Inr payload"
    "decode_artifacts (jr_artifacts r) = Inr artifacts" "decode_result (jr_result r) = Inr result"
    "validate_progress (jr_stage r) (jr_current r) (jr_total r) = Inr progress"
    "safe_tree (je_secrets e) payload" "case result of None \<Rightarrow> True | Some v \<Rightarrow> safe_tree (je_secrets e) v"
    "\<not> (jr_state r = Succeeded \<and> result = None)"
    "\<not> (jr_state r \<in> {Failed, Interrupted} \<and> (jr_failure_code r = None \<or> jr_failure_message r = None))"
    "steps_in db (jr_id r) = Inr steps"
    "\<lparr>dj_id = jr_id r, dj_namespace = jr_namespace r, dj_type = jr_type r, dj_state = jr_state r,
         dj_revision = jr_revision r, dj_fingerprint = jr_fingerprint r, dj_payload = payload,
         dj_artifacts = artifacts, dj_progress = progress, dj_result = result,
         dj_failure_code = jr_failure_code r, dj_failure_message = jr_failure_message r,
         dj_created = jr_created r, dj_updated = jr_updated r, dj_started = jr_started r,
         dj_finished = jr_finished r, dj_cancel_requested = jr_cancel_requested r, dj_steps = steps\<rparr> = j"
  using assms unfolding job_from_row_def
  by (elim bindE_okE) (simp only: ensure_ok map_err_ok sum.inject, rule that; assumption)

lemma job_from_row_ok:
  assumes "job_from_row e db r = Inr j"
  shows "dj_id j = jr_id r" "dj_namespace j = jr_namespace r" "dj_type j = jr_type r"
    "dj_state j = jr_state r" "dj_revision j = jr_revision r" "dj_fingerprint j = jr_fingerprint r"
    "dj_started j = jr_started r" "1 \<le> jr_revision r" "jr_payload r = Json (dj_payload j)"
    "dj_failure_code j = jr_failure_code r" "dj_finished j = jr_finished r"
    "steps_in db (jr_id r) = Inr (dj_steps j)"
    "dj_progress j = \<lparr>pg_stage = jr_stage r, pg_current = jr_current r, pg_total = jr_total r\<rparr>"
    "jr_state r = Succeeded \<longrightarrow> dj_result j \<noteq> None"
    "jr_state r \<in> {Failed, Interrupted} \<longrightarrow> jr_failure_code r \<noteq> None \<and> jr_failure_message r \<noteq> None"
    "decode_artifacts (jr_artifacts r) = Inr (dj_artifacts j)"
    "decode_result (jr_result r) = Inr (dj_result j)"
proof -
  obtain payload artifacts result progress steps where p:
    "1 \<le> jr_revision r" "decode_object max_job_payload_bytes (jr_payload r) = Inr payload"
    "decode_artifacts (jr_artifacts r) = Inr artifacts" "decode_result (jr_result r) = Inr result"
    "validate_progress (jr_stage r) (jr_current r) (jr_total r) = Inr progress"
    "\<not> (jr_state r = Succeeded \<and> result = None)"
    "\<not> (jr_state r \<in> {Failed, Interrupted} \<and> (jr_failure_code r = None \<or> jr_failure_message r = None))"
    "steps_in db (jr_id r) = Inr steps"
    and j: "\<lparr>dj_id = jr_id r, dj_namespace = jr_namespace r, dj_type = jr_type r, dj_state = jr_state r,
         dj_revision = jr_revision r, dj_fingerprint = jr_fingerprint r, dj_payload = payload,
         dj_artifacts = artifacts, dj_progress = progress, dj_result = result,
         dj_failure_code = jr_failure_code r, dj_failure_message = jr_failure_message r,
         dj_created = jr_created r, dj_updated = jr_updated r, dj_started = jr_started r,
         dj_finished = jr_finished r, dj_cancel_requested = jr_cancel_requested r, dj_steps = steps\<rparr> = j"
    by (rule job_from_row_pieces [OF assms])
  have q: "jr_payload r = Json payload"
    "progress = \<lparr>pg_stage = jr_stage r, pg_current = jr_current r, pg_total = jr_total r\<rparr>"
    using decode_object_ok [OF p(2)] validate_progress_ok [OF p(5)] by blast+
  show "dj_id j = jr_id r" "dj_namespace j = jr_namespace r" "dj_type j = jr_type r"
    "dj_state j = jr_state r" "dj_revision j = jr_revision r" "dj_fingerprint j = jr_fingerprint r"
    "dj_started j = jr_started r" "1 \<le> jr_revision r" "jr_payload r = Json (dj_payload j)"
    "dj_failure_code j = jr_failure_code r" "dj_finished j = jr_finished r"
    "steps_in db (jr_id r) = Inr (dj_steps j)"
    "dj_progress j = \<lparr>pg_stage = jr_stage r, pg_current = jr_current r, pg_total = jr_total r\<rparr>"
    "jr_state r = Succeeded \<longrightarrow> dj_result j \<noteq> None"
    "jr_state r \<in> {Failed, Interrupted} \<longrightarrow> jr_failure_code r \<noteq> None \<and> jr_failure_message r \<noteq> None"
    "decode_artifacts (jr_artifacts r) = Inr (dj_artifacts j)"
    "decode_result (jr_result r) = Inr (dj_result j)"
    unfolding j [symmetric] using p q by auto
qed

lemma job_in_ok:
  assumes "job_in e db jid = Inr j"
  obtains r where "find_job db jid = Some r" "job_from_row e db r = Inr j" "opaque_id jid"
  using assms by (auto simp: job_in_def ok_simps validate_opaque_def)

lemma job_in_row:
  assumes "job_in e db jid = Inr j"
  obtains r where "find_job db jid = Some r" "r \<in> set (db_jobs db)" "jr_id r = jid" "dj_id j = jid"
    "dj_state j = jr_state r" "dj_revision j = jr_revision r" "dj_namespace j = jr_namespace r"
    "dj_started j = jr_started r" "1 \<le> jr_revision r" "steps_in db jid = Inr (dj_steps j)"
    "dj_progress j = \<lparr>pg_stage = jr_stage r, pg_current = jr_current r, pg_total = jr_total r\<rparr>"
proof -
  obtain r where r: "find_job db jid = Some r" "job_from_row e db r = Inr j"
    using job_in_ok [OF assms] by blast
  from find_job_Some [OF r(1)] job_from_row_ok [OF r(2)] r(1) show ?thesis
    by (intro that) auto
qed

section \<open>The shape of a committed change\<close>

definition committed ::
  "job_db \<Rightarrow> job_row \<Rightarrow> (job_row \<Rightarrow> job_row) \<Rightarrow> (step_row \<Rightarrow> step_row) \<Rightarrow> event_row \<Rightarrow> job_db \<Rightarrow> bool" where
  "committed db old f g ev db' \<longleftrightarrow>
     find_job db (jr_id old) = Some old \<and>
     filter (\<lambda>r. jr_id r = jr_id old \<and> jr_revision r = jr_revision old) (db_jobs db) = [old] \<and>
     db_jobs db' = map (\<lambda>r. if jr_id r = jr_id old \<and> jr_revision r = jr_revision old then f r else r) (db_jobs db) \<and>
     db_steps db' = map g (db_steps db) \<and>
     db_events db' = db_events db @ [ev] \<and>
     er_job ev = jr_id old \<and> er_seq ev = next_sequence db (jr_id old) \<and>
     er_id ev \<notin> set (map er_id (db_events db))"

text \<open>What no operation changes in a job row.\<close>

definition same_identity :: "job_row \<Rightarrow> job_row \<Rightarrow> bool" where
  "same_identity r s \<longleftrightarrow>
     jr_id s = jr_id r \<and> jr_namespace s = jr_namespace r \<and> jr_type s = jr_type r \<and>
     jr_fingerprint s = jr_fingerprint r \<and> jr_created s = jr_created r \<and> jr_schema s = jr_schema r \<and>
     jr_key_hash s = jr_key_hash r \<and> jr_payload s = jr_payload r \<and> jr_artifacts s = jr_artifacts r"

definition same_step :: "step_row \<Rightarrow> step_row \<Rightarrow> bool" where
  "same_step r s \<longleftrightarrow> sr_id s = sr_id r \<and> sr_job s = sr_job r \<and> sr_ordinal s = sr_ordinal r \<and> sr_name s = sr_name r"

lemma next_sequence_jobs [simp]:
  "next_sequence (db\<lparr>db_jobs := x\<rparr>) jid = next_sequence db jid"
  "next_sequence (db\<lparr>db_steps := y\<rparr>) jid = next_sequence db jid"
  by (simp_all add: next_sequence_def)

lemma next_sequence_updates [simp]:
  "next_sequence (update_jobs P f db) jid = next_sequence db jid"
  "next_sequence (update_steps Q g db) jid = next_sequence db jid"
  by (simp_all add: update_jobs_def update_steps_def)

lemma update_sel [simp]:
  "db_steps (update_jobs P f db) = db_steps db"
  "db_events (update_jobs P f db) = db_events db"
  "db_jobs (update_jobs P f db) = map (\<lambda>r. if P r then f r else r) (db_jobs db)"
  "db_jobs (update_steps Q g db) = db_jobs db"
  "db_events (update_steps Q g db) = db_events db"
  "db_steps (update_steps Q g db) = map (\<lambda>r. if Q r then g r else r) (db_steps db)"
  by (simp_all add: update_jobs_def update_steps_def)

lemma cas_job_ok:
  assumes "cas_job jid n f db = Inr db'"
  shows "db' = update_jobs (\<lambda>r. jr_id r = jid \<and> jr_revision r = n) f db"
    and "length (filter (\<lambda>r. jr_id r = jid \<and> jr_revision r = n) (db_jobs db)) = 1"
  using assms by (auto simp: cas_job_def ok_simps)

lemma filter_singleton:
  assumes "length (filter P xs) = 1" "x \<in> set xs" "P x"
  shows "filter P xs = [x]"
proof -
  obtain y where y: "filter P xs = [y]" using assms(1) by (auto simp: length_Suc_conv)
  have "x \<in> set (filter P xs)" using assms(2,3) by simp
  with y show ?thesis by simp
qed

lemma insert_event_ok:
  assumes "insert_event r db = Inr db'"
  shows "db' = db\<lparr>db_events := db_events db @ [r]\<rparr>" "er_id r \<notin> set (map er_id (db_events db))"
    "er_agent_key r \<noteq> None \<longrightarrow>
       (er_job r, er_agent_key r) \<notin> set (map (\<lambda>x. (er_job x, er_agent_key x)) (db_events db))"
  using assms by (auto simp: insert_event_def ok_simps)

lemma append_event_ok:
  assumes "append_event_in e k jid ty st rs p db = Inr db'"
  obtains eid where
    "db' = db\<lparr>db_events := db_events db @
       [\<lparr>er_id = eid, er_job = jid, er_seq = next_sequence db jid, er_type = ty,
         er_state = map_option job_state_name st, er_reason = rs,
         er_stage = pg_stage p, er_current = pg_current p, er_total = pg_total p,
         er_at = je_now e, er_agent_key = None, er_agent_payload = NullCol\<rparr>]\<rparr>"
    "eid \<notin> set (map er_id (db_events db))"
proof -
  from assms obtain eid where i: "insert_event
      \<lparr>er_id = eid, er_job = jid, er_seq = next_sequence db jid, er_type = ty,
         er_state = map_option job_state_name st, er_reason = rs,
         er_stage = pg_stage p, er_current = pg_current p, er_total = pg_total p,
         er_at = je_now e, er_agent_key = None, er_agent_payload = NullCol\<rparr> db = Inr db'"
    unfolding append_event_in_def by (elim bindE_okE) (simp only: map_err_ok)
  show ?thesis by (rule that [OF insert_event_ok(1) [OF i]]) (use insert_event_ok(2) [OF i] in simp)
qed

text \<open>From the pieces of an operation to the shape.\<close>

lemma committedI:
  assumes "find_job db jid = Some old" "jr_revision old = n"
    and "cas_job jid n f (update_steps Q g db) = Inr db2"
    and "append_event_in e k jid ty st rs p db2 = Inr db3"
  shows "\<exists>ev. committed db old f (\<lambda>r. if Q r then g r else r) ev db3 \<and>
     er_type ev = ty \<and> er_state ev = map_option job_state_name st \<and> er_agent_key ev = None"
proof -
  from find_job_Some [OF assms(1)] have old: "old \<in> set (db_jobs db)" "jr_id old = jid" by auto
  from cas_job_ok [OF assms(3)] have db2:
    "db2 = update_jobs (\<lambda>r. jr_id r = jid \<and> jr_revision r = n) f (update_steps Q g db)"
    "length (filter (\<lambda>r. jr_id r = jid \<and> jr_revision r = n) (db_jobs db)) = 1" by simp_all
  then have one: "filter (\<lambda>r. jr_id r = jid \<and> jr_revision r = n) (db_jobs db) = [old]"
    using old assms(2) by (intro filter_singleton) auto
  from append_event_ok [OF assms(4)] obtain eid where
    db3: "db3 = db2\<lparr>db_events := db_events db2 @
       [\<lparr>er_id = eid, er_job = jid, er_seq = next_sequence db2 jid, er_type = ty,
         er_state = map_option job_state_name st, er_reason = rs,
         er_stage = pg_stage p, er_current = pg_current p, er_total = pg_total p,
         er_at = je_now e, er_agent_key = None, er_agent_payload = NullCol\<rparr>]\<rparr>"
    "eid \<notin> set (map er_id (db_events db2))" by blast
  show ?thesis
    unfolding committed_def using assms(1,2) old(2) one db2(1) db3
    by (auto simp: update_jobs_def update_steps_def next_sequence_def)
qed

lemma update_steps_id: "update_steps (\<lambda>_. False) g db = db"
  by (simp add: update_steps_def)

lemma committedI_nosteps:
  assumes "find_job db jid = Some old" "jr_revision old = n"
    and "cas_job jid n f db = Inr db2"
    and "append_event_in e k jid ty st rs p db2 = Inr db3"
  shows "\<exists>ev. committed db old f (\<lambda>r. r) ev db3 \<and>
     er_type ev = ty \<and> er_state ev = map_option job_state_name st \<and> er_agent_key ev = None"
  using committedI [OF assms(1,2), where Q = "\<lambda>_. False" and g = "\<lambda>r. r"] assms(3,4)
  by (simp add: update_steps_id)

section \<open>One lemma per operation\<close>

lemma assert_revision_ok [simp]: "assert_revision a n = Inr u \<longleftrightarrow> 1 \<le> n \<and> a = n"
  by (simp add: assert_revision_def bind_ensure_ok)

lemma terminal_columns_cases:
  assumes "terminal_columns e j t res fc fm = Inr cols"
  shows "t = Succeeded \<longrightarrow> (\<exists>w. fst cols = Json w \<and> (\<exists>kvs. w = PDict kvs))"
    and "t = Running \<longrightarrow> cols = (NullCol, None, None)"
    and "t \<in> {Failed, Interrupted} \<longrightarrow> fst (snd cols) = fc \<and> snd (snd cols) = fm \<and> fc \<noteq> None \<and> fm \<noteq> None"
  using assms
  by (auto simp: terminal_columns_def ok_simps dest!: canonical_object_dict validate_failure_ok
      split: if_splits option.splits)

definition transition_row ::
  "job_env \<Rightarrow> job_state \<Rightarrow> string option \<Rightarrow> json_col \<times> string option \<times> string option \<Rightarrow> job_row \<Rightarrow> job_row" where
  "transition_row e t started cols r = r\<lparr>jr_state := t, jr_revision := jr_revision r + 1,
     jr_updated := je_now e, jr_started := started,
     jr_finished := (if terminal_job t then Some (je_now e) else None),
     jr_result := fst cols, jr_failure_code := fst (snd cols), jr_failure_message := snd (snd cols)\<rparr>"

definition transition_steps :: "job_env \<Rightarrow> string \<Rightarrow> job_state \<Rightarrow> step_row \<Rightarrow> step_row" where
  "transition_steps e jid t r =
     (if t \<in> {Failed, Interrupted} \<and> sr_job r = jid \<and> sr_state r = SRunning
      then stop_step (je_now e) (step_state_of t) r else r)"

lemma transition_job_in_effect:
  assumes "transition_job_in e k db jid n t res fc fm = Inr (j, db')"
  obtains old cols ev j0 where
    "find_job db jid = Some old" "jr_revision old = n" "1 \<le> n" "t \<in> job_transitions (jr_state old)"
    "job_in e db jid = Inr j0"
    "t = Succeeded \<Longrightarrow> \<forall>s \<in> set (dj_steps j0). js_state s \<in> {SSucceeded, SSkipped}"
    "terminal_columns e j0 t res fc fm = Inr cols"
    "committed db old (transition_row e t (if t = Running then Some (je_now e) else jr_started old) cols)
       (transition_steps e jid t) ev db'"
    "er_type ev = ''state_changed''" "er_state ev = Some (job_state_name t)" "er_agent_key ev = None"
    "job_in e db' jid = Inr j"
proof -
  let ?db1 = "if t \<in> {Failed, Interrupted}
     then update_steps (\<lambda>r. sr_job r = jid \<and> sr_state r = SRunning) (stop_step (je_now e) (step_state_of t)) db
     else db"
  let ?Q = "\<lambda>r. t \<in> {Failed, Interrupted} \<and> sr_job r = jid \<and> sr_state r = SRunning"
  have db1: "?db1 = update_steps ?Q (stop_step (je_now e) (step_state_of t)) db"
    by (simp add: update_steps_def)
  from assms obtain j0 cols db2 where
    a: "job_in e db jid = Inr j0" "1 \<le> n" "dj_revision j0 = n"
       "t \<in> job_transitions (dj_state j0)"
       "t = Succeeded \<longrightarrow> \<not> list_ex (\<lambda>s. js_state s \<notin> {SSucceeded, SSkipped}) (dj_steps j0)"
       "terminal_columns e j0 t res fc fm = Inr cols"
       "cas_job jid n (transition_row e t (if t = Running then Some (je_now e) else dj_started j0) cols) ?db1 = Inr db2"
       "append_event_in e k jid ''state_changed'' (Some t) (fst (snd cols)) (dj_progress j0) db2 = Inr db'"
       "job_in e db' jid = Inr j"
    unfolding transition_job_in_def Let_def transition_row_def [abs_def] validate_job_transition_def
    by (elim bindE_okE) (simp only: ensure_ok assert_revision_ok prod.inject sum.inject, blast)
  from job_in_row [OF a(1)] obtain old where
    old: "find_job db jid = Some old" "dj_state j0 = jr_state old" "dj_revision j0 = jr_revision old"
      "dj_started j0 = jr_started old" by metis
  have rev: "jr_revision old = n" using a(3) old(3) by simp
  obtain ev where ev: "committed db old
      (transition_row e t (if t = Running then Some (je_now e) else dj_started j0) cols)
      (\<lambda>r. if ?Q r then stop_step (je_now e) (step_state_of t) r else r) ev db'"
    "er_type ev = ''state_changed''" "er_state ev = Some (job_state_name t)" "er_agent_key ev = None"
    using committedI [OF old(1) rev a(7) [unfolded db1] a(8)] by auto
  have steps: "(\<lambda>r. if ?Q r then stop_step (je_now e) (step_state_of t) r else r) = transition_steps e jid t"
    by (rule ext) (simp add: transition_steps_def)
  show ?thesis
  proof (rule that [OF old(1) rev a(2) _ a(1) _ a(6) _ ev(2,3,4) a(9)])
    show "t \<in> job_transitions (jr_state old)" using a(4) old(2) by simp
    show "\<forall>s \<in> set (dj_steps j0). js_state s \<in> {SSucceeded, SSkipped}" if "t = Succeeded"
      using a(5) that by (auto simp: list_ex_iff)
    show "committed db old (transition_row e t (if t = Running then Some (je_now e) else jr_started old) cols)
       (transition_steps e jid t) ev db'" using ev(1) unfolding steps old(4) .
  qed
qed


definition progress_row ::
  "job_env \<Rightarrow> string option \<Rightarrow> int option \<Rightarrow> int option \<Rightarrow> job_row \<Rightarrow> job_row" where
  "progress_row e stage cur tot r = r\<lparr>jr_stage := stage, jr_current := cur, jr_total := tot,
     jr_revision := jr_revision r + 1, jr_updated := je_now e\<rparr>"

lemma report_progress_effect:
  assumes "report_progress e db jid n stage cur tot = Inr (j, db')"
  obtains old ev where
    "find_job db jid = Some old" "jr_revision old = n" "1 \<le> n" "jr_state old = Running"
    "committed db old (progress_row e stage cur tot) (\<lambda>r. r) ev db'"
    "er_type ev = ''progress''" "er_state ev = Some (job_state_name Running)" "er_agent_key ev = None"
    "job_in e db' jid = Inr j"
proof -
  from assms obtain u j0 db2 p where
    a: "job_in e db jid = Inr j0" "assert_revision (dj_revision j0) n = Inr u" "dj_state j0 = Running"
       "cas_job jid n (progress_row e stage cur tot) db = Inr db2"
       "append_event_in e 0 jid ''progress'' (Some Running) None p db2 = Inr db'"
       "job_in e db' jid = Inr j"
    unfolding report_progress_def progress_row_def [abs_def]
    by (elim bindE_okE) (clarsimp simp only: ensure_ok prod.inject sum.inject)
  from job_in_row [OF a(1)] obtain old where
    old: "find_job db jid = Some old" "dj_state j0 = jr_state old" "dj_revision j0 = jr_revision old" by metis
  have rev: "jr_revision old = n" and n: "1 \<le> n" using a(2) old(3) by simp_all
  obtain ev where "committed db old (progress_row e stage cur tot) (\<lambda>r. r) ev db'"
    "er_type ev = ''progress''" "er_state ev = Some (job_state_name Running)" "er_agent_key ev = None"
    using committedI_nosteps [OF old(1) rev a(4,5)] by auto
  with that [OF old(1) rev n] a(3,6) old(2) show ?thesis by simp
qed

definition request_row :: "job_env \<Rightarrow> job_state \<Rightarrow> job_row \<Rightarrow> job_row" where
  "request_row e target r = r\<lparr>jr_state := target, jr_revision := jr_revision r + 1,
     jr_updated := je_now e, jr_finished := (if target = Cancelled then Some (je_now e) else None),
     jr_cancel_requested := Some (je_now e)\<rparr>"

lemma request_cancellation_effect:
  assumes "request_cancellation e db jid n = Inr (j, db')"
  obtains (unchanged) old where
    "find_job db jid = Some old" "jr_revision old = n" "jr_state old \<in> {Cancelling, Cancelled}" "db' = db"
    "job_in e db jid = Inr j"
  | (requested) old ev t where
    "find_job db jid = Some old" "jr_revision old = n" "1 \<le> n" "jr_state old \<in> {Queued, Running}"
    "t = (if jr_state old = Queued then Cancelled else Cancelling)"
    "committed db old (request_row e t)
       (\<lambda>r. if t = Cancelled \<and> sr_job r = jid \<and> sr_state r = SPending
            then stop_step (je_now e) SCancelled r else r) ev db'"
    "er_type ev = ''cancellation_requested''" "er_state ev = Some (job_state_name t)" "er_agent_key ev = None"
    "job_in e db' jid = Inr j"
proof -
  from assms obtain j0 where j0: "job_in e db jid = Inr j0" "1 \<le> n" "dj_revision j0 = n"
    unfolding request_cancellation_def by (elim bindE_okE) (simp only: assert_revision_ok)
  from job_in_row [OF j0(1)] obtain old where
    old: "find_job db jid = Some old" "dj_state j0 = jr_state old" "dj_revision j0 = jr_revision old" by metis
  have rev: "jr_revision old = n" using j0(3) old(3) by simp
  show ?thesis
  proof (cases "dj_state j0 \<in> {Cancelling, Cancelled}")
    case True
    with assms j0 have "db' = db" "j = j0"
      by (simp_all add: request_cancellation_def assert_revision_def)
    with unchanged [OF old(1) rev] True old(2) j0(1) show ?thesis by simp
  next
    case False
    define t where "t = (if dj_state j0 = Queued then Cancelled else Cancelling)"
    let ?Q = "\<lambda>r. t = Cancelled \<and> sr_job r = jid \<and> sr_state r = SPending"
    let ?db1 = "if t = Cancelled
      then update_steps (\<lambda>r. sr_job r = jid \<and> sr_state r = SPending) (stop_step (je_now e) SCancelled) db else db"
    have db1: "?db1 = update_steps ?Q (stop_step (je_now e) SCancelled) db" by (simp add: update_steps_def)
    from assms False j0 obtain db2 where
      a: "dj_state j0 \<in> {Queued, Running}" "cas_job jid n (request_row e t) ?db1 = Inr db2"
         "append_event_in e 0 jid ''cancellation_requested'' (Some t) None (dj_progress j0) db2 = Inr db'"
         "job_in e db' jid = Inr j"
      unfolding request_cancellation_def j0(1) bindE_Inr assert_revision_def j0(3) Let_def t_def [symmetric]
        request_row_def [abs_def]
      by (simp only: if_False simp_thms ensure_True bindE_Inr, elim bindE_okE)
         (clarsimp simp only: ensure_ok prod.inject sum.inject)
    obtain ev where "committed db old (request_row e t)
        (\<lambda>r. if ?Q r then stop_step (je_now e) SCancelled r else r) ev db'"
      "er_type ev = ''cancellation_requested''" "er_state ev = Some (job_state_name t)" "er_agent_key ev = None"
      using committedI [OF old(1) rev a(2) [unfolded db1] a(3)] by auto
    with requested [OF old(1) rev j0(2)] a(1,4) old(2) t_def show ?thesis by simp
  qed
qed

definition acknowledge_row :: "job_env \<Rightarrow> json_col \<Rightarrow> job_row \<Rightarrow> job_row" where
  "acknowledge_row e col r = r\<lparr>jr_state := Cancelled, jr_revision := jr_revision r + 1,
     jr_updated := je_now e, jr_finished := Some (je_now e), jr_result := col\<rparr>"

lemma acknowledge_cancellation_effect:
  assumes "acknowledge_cancellation e db jid n res = Inr (j, db')"
  obtains old ev col where
    "find_job db jid = Some old" "jr_revision old = n" "1 \<le> n" "jr_state old \<in> {Queued, Cancelling}"
    "committed db old (acknowledge_row e col)
       (\<lambda>r. if sr_job r = jid \<and> sr_state r \<in> {SPending, SRunning}
            then stop_step (je_now e) SCancelled r else r) ev db'"
    "er_type ev = ''cancelled''" "er_state ev = Some (job_state_name Cancelled)" "er_agent_key ev = None"
    "job_in e db' jid = Inr j"
    "case res of None \<Rightarrow> col = NullCol
     | Some v \<Rightarrow> (\<exists>w. canonical_object (je_secrets e) max_job_result_bytes v = Inr w \<and> col = Json w)"
proof -
  let ?Q = "\<lambda>r. sr_job r = jid \<and> sr_state r \<in> {SPending, SRunning}"
  from assms obtain u j0 col db2 where
    a: "job_in e db jid = Inr j0" "assert_revision (dj_revision j0) n = Inr u" "Cancelled \<in> job_transitions (dj_state j0)"
       "cas_job jid n (acknowledge_row e col) (update_steps ?Q (stop_step (je_now e) SCancelled) db) = Inr db2"
       "append_event_in e 0 jid ''cancelled'' (Some Cancelled) None (dj_progress j0) db2 = Inr db'"
       "job_in e db' jid = Inr j"
    and c: "(case res of None \<Rightarrow> Inr NullCol
           | Some v \<Rightarrow> bindE (canonical_object (je_secrets e) max_job_result_bytes v) (\<lambda>w. Inr (Json w))) = Inr col"
    unfolding acknowledge_cancellation_def Let_def acknowledge_row_def [abs_def] validate_job_transition_def
    by (elim bindE_okE) (clarsimp simp only: ensure_ok prod.inject sum.inject)
  from job_in_row [OF a(1)] obtain old where
    old: "find_job db jid = Some old" "dj_state j0 = jr_state old" "dj_revision j0 = jr_revision old" by metis
  have rev: "jr_revision old = n" and n: "1 \<le> n" using a(2) old(3) by simp_all
  obtain ev where "committed db old (acknowledge_row e col)
      (\<lambda>r. if ?Q r then stop_step (je_now e) SCancelled r else r) ev db'"
    "er_type ev = ''cancelled''" "er_state ev = Some (job_state_name Cancelled)" "er_agent_key ev = None"
    using committedI [OF old(1) rev a(4,5)] by auto
  moreover have "jr_state old \<in> {Queued, Cancelling}" using a(3) old(2) by (cases "jr_state old") auto
  moreover have "case res of None \<Rightarrow> col = NullCol
     | Some v \<Rightarrow> (\<exists>w. canonical_object (je_secrets e) max_job_result_bytes v = Inr w \<and> col = Json w)"
    using c by (auto simp: bindE_ok split: option.splits)
  ultimately show ?thesis using that [OF old(1) rev n] a(6) by blast
qed

definition recover_row :: "job_env \<Rightarrow> job_row \<Rightarrow> job_row" where
  "recover_row e r = r\<lparr>jr_state := Interrupted, jr_revision := jr_revision r + 1,
     jr_updated := je_now e, jr_finished := Some (je_now e),
     jr_failure_code := Some ''process_interrupted'',
     jr_failure_message := Some ''Execution stopped before the process completed the job.''\<rparr>"

lemma recover_one_effect:
  assumes "recover_one e k jid db = Inr (j, db')"
  obtains old ev where
    "find_job db jid = Some old" "jr_state old \<in> {Running, Cancelling}"
    "committed db old (recover_row e) (transition_steps e jid Interrupted) ev db'"
    "er_type ev = ''interrupted''" "er_state ev = Some (job_state_name Interrupted)" "er_agent_key ev = None"
    "job_in e db' jid = Inr j"
proof -
  let ?Q = "\<lambda>r. sr_job r = jid \<and> sr_state r = SRunning"
  from assms obtain j0 db2 where
    a: "job_in e db jid = Inr j0" "Interrupted \<in> job_transitions (dj_state j0)"
       "cas_job jid (dj_revision j0) (recover_row e) (update_steps ?Q (stop_step (je_now e) SInterrupted) db) = Inr db2"
       "append_event_in e k jid ''interrupted'' (Some Interrupted) (Some ''process_interrupted'')
          (dj_progress j0) db2 = Inr db'"
       "job_in e db' jid = Inr j"
    unfolding recover_one_def Let_def recover_row_def [abs_def] validate_job_transition_def
    by (elim bindE_okE) (clarsimp simp only: ensure_ok prod.inject sum.inject)
  from job_in_row [OF a(1)] obtain old where
    old: "find_job db jid = Some old" "dj_state j0 = jr_state old" "dj_revision j0 = jr_revision old" by metis
  obtain ev where "committed db old (recover_row e)
      (\<lambda>r. if ?Q r then stop_step (je_now e) SInterrupted r else r) ev db'"
    "er_type ev = ''interrupted''" "er_state ev = Some (job_state_name Interrupted)" "er_agent_key ev = None"
    using committedI [OF old(1) old(3) [symmetric] a(3,4)] by auto
  moreover have "(\<lambda>r. if ?Q r then stop_step (je_now e) SInterrupted r else r) = transition_steps e jid Interrupted"
    by (rule ext) (simp add: transition_steps_def step_state_of_def)
  moreover have "jr_state old \<in> {Running, Cancelling}" using a(2) old(2) by (cases "jr_state old") auto
  ultimately show ?thesis using that [OF old(1)] a(5) by simp
qed

definition touch_row :: "job_env \<Rightarrow> job_row \<Rightarrow> job_row" where
  "touch_row e r = r\<lparr>jr_revision := jr_revision r + 1, jr_updated := je_now e\<rparr>"

lemma transition_step_effect:
  assumes "transition_step e db jid sid n m t = Inr (j, db')"
  obtains old ev row where
    "find_job db jid = Some old" "jr_revision old = n" "1 \<le> n"
    "row \<in> set (db_steps db)" "sr_id row = sid" "sr_job row = jid" "sr_revision row = m"
    "t \<in> step_transitions (sr_state row)" "t \<in> allowed_step_targets (jr_state old)"
    "filter (\<lambda>r. sr_id r = sid \<and> sr_job r = jid \<and> sr_revision r = m) (db_steps db) = [row]"
    "committed db old (touch_row e)
       (\<lambda>r. if sr_id r = sid \<and> sr_job r = jid \<and> sr_revision r = m
            then r\<lparr>sr_state := t, sr_revision := sr_revision r + 1,
                   sr_started := (if t = SRunning then Some (je_now e) else sr_started row),
                   sr_finished := (if terminal_step t then Some (je_now e) else None)\<rparr>
            else r) ev db'"
    "er_type ev = ''step_changed''" "er_state ev = Some (job_state_name (jr_state old))" "er_agent_key ev = None"
    "job_in e db' jid = Inr j"
proof -
  let ?Q = "\<lambda>r. sr_id r = sid \<and> sr_job r = jid \<and> sr_revision r = m"
  let ?g = "\<lambda>row r. r\<lparr>sr_state := t, sr_revision := sr_revision r + 1,
                   sr_started := (if t = SRunning then Some (je_now e) else sr_started row),
                   sr_finished := (if terminal_step t then Some (je_now e) else None)\<rparr>"
  from assms obtain u j0 row db1 db2 where
    a: "job_in e db jid = Inr j0" "assert_revision (dj_revision j0) n = Inr u"
       "find (\<lambda>r. sr_id r = sid \<and> sr_job r = jid) (db_steps db) = Some row" "sr_revision row = m"
       "t \<in> step_transitions (sr_state row)" "t \<in> allowed_step_targets (dj_state j0)"
       "cas_step sid jid m (?g row) db = Inr db1"
       "cas_job jid n (touch_row e) db1 = Inr db2"
       "append_event_in e 0 jid ''step_changed'' (Some (dj_state j0)) None (dj_progress j0) db2 = Inr db'"
       "job_in e db' jid = Inr j"
    unfolding transition_step_def Let_def touch_row_def [abs_def] validate_step_transition_def
    by (elim bindE_okE)
       (clarsimp simp only: ensure_ok of_opt_ok prod.inject sum.inject)
  from job_in_row [OF a(1)] obtain old where
    old: "find_job db jid = Some old" "dj_state j0 = jr_state old" "dj_revision j0 = jr_revision old" by metis
  have rev: "jr_revision old = n" and n: "1 \<le> n" using a(2) old(3) by simp_all
  have row: "row \<in> set (db_steps db)" "sr_id row = sid \<and> sr_job row = jid" using find_SomeD [OF a(3)] by auto
  have db1: "db1 = update_steps ?Q (?g row) db" "length (filter ?Q (db_steps db)) = 1"
    using a(7) unfolding cas_step_def Let_def by (auto simp: ok_simps)
  have one: "filter ?Q (db_steps db) = [row]" using row a(4) by (intro filter_singleton [OF db1(2)]) auto
  obtain ev where "committed db old (touch_row e) (\<lambda>r. if ?Q r then ?g row r else r) ev db'"
    "er_type ev = ''step_changed''" "er_state ev = Some (job_state_name (dj_state j0))" "er_agent_key ev = None"
    using committedI [OF old(1) rev a(8) [unfolded db1(1)] a(9)] by auto
  then show ?thesis
    using that [OF old(1) rev n row(1) conjunct1 [OF row(2)] conjunct2 [OF row(2)] a(4,5) _ one] a(6,10) old(2)
    by simp
qed


definition decision_row :: "job_env \<Rightarrow> int \<Rightarrow> int \<Rightarrow> job_row \<Rightarrow> job_row" where
  "decision_row e steps max_steps r = r\<lparr>jr_revision := jr_revision r + 1, jr_updated := je_now e,
     jr_stage := Some ''execute_agent'', jr_current := Some steps, jr_total := Some max_steps\<rparr>"

lemma validate_agent_event_ok:
  assumes "validate_agent_event e key payload steps ms = Inr (i, w)"
  shows "key = decision_key i" "1 \<le> i" "i \<le> int max_agent_decision_events" "i \<le> ms" "0 \<le> steps"
    "steps \<le> ms" "ms \<le> 20" "int_field payload ''decision_index'' = Some i"
    "canonical_object (je_secrets e) max_agent_event_bytes payload = Inr w"
  using assms unfolding validate_agent_event_def
  by (auto elim!: bindE_okE)

lemma append_agent_decision_event_effect:
  assumes "append_agent_decision_event e db jid key payload steps ms = Inr (v, db')"
  obtains (replayed) i w old where
    "validate_agent_event e key payload steps ms = Inr (i, w)" "db' = db"
    "old \<in> set (db_events db)" "er_job old = jid" "er_agent_key old = Some key"
    "er_agent_payload old = Json w" "agent_event_from_row e old = Inr v"
  | (appended) i w old ev where
    "validate_agent_event e key payload steps ms = Inr (i, w)" "key = decision_key i"
    "i = int (agent_event_count db jid) + 1"
    "find_job db jid = Some old" "jr_namespace old = NsAgent" "jr_state old \<in> {Running, Cancelling}"
    "committed db old (decision_row e steps ms) (\<lambda>r. r) ev db'"
    "er_type ev = ''agent_decision''" "er_state ev = Some (job_state_name (jr_state old))"
    "er_agent_key ev = Some key" "er_agent_payload ev = Json w"
    "\<forall>r \<in> set (db_events db). \<not> (er_job r = jid \<and> er_agent_key r = Some key)"
    "agent_event_count db jid < max_agent_decision_events" "agent_event_from_row e ev = Inr v"
proof -
  let ?P = "\<lambda>r. er_job r = jid \<and> er_agent_key r = Some key"
  from assms obtain iw j0 where
    v: "validate_agent_event e key payload steps ms = Inr iw" "job_in e db jid = Inr j0"
       "dj_namespace j0 = NsAgent"
    unfolding append_agent_decision_event_def by (elim bindE_okE) (simp only: ensure_ok)
  obtain i w where iw: "iw = (i, w)" by (cases iw)
  note vk = validate_agent_event_ok [OF v(1) [unfolded iw]]
  from job_in_row [OF v(2)] obtain old where
    old: "find_job db jid = Some old" "dj_state j0 = jr_state old" "dj_revision j0 = jr_revision old"
      "dj_namespace j0 = jr_namespace old" by metis
  show ?thesis
  proof (cases "find ?P (db_events db)")
    case (Some r)
    note rr = find_SomeD [OF Some]
    from assms v Some iw have "er_agent_payload r = Json w" "agent_event_from_row e r = Inr v" "db' = db"
      unfolding append_agent_decision_event_def by (auto simp: bindE_ok)
    with replayed [OF v(1) [unfolded iw]] rr show ?thesis by blast
  next
    case None
    define ev where "ev eid = \<lparr>er_id = eid, er_job = jid, er_seq = next_sequence db jid, er_type = ''agent_decision'',
        er_state = Some (job_state_name (dj_state j0)), er_reason = None,
        er_stage = Some ''execute_agent'', er_current = Some steps, er_total = Some ms,
        er_at = je_now e, er_agent_key = Some key, er_agent_payload = Json w\<rparr>" for eid
    from assms v None iw obtain db1 eid where
      a: "dj_state j0 \<in> {Running, Cancelling}" "i = int (agent_event_count db jid) + 1"
         "cas_job jid (dj_revision j0) (decision_row e steps ms) db = Inr db1"
         "insert_event (ev eid) db1 = Inr db'"
         "agent_event_count db jid < max_agent_decision_events" "agent_event_from_row e (ev eid) = Inr v"
      unfolding append_agent_decision_event_def Let_def decision_row_def [abs_def] ev_def
      by (auto simp: bindE_ok)
    from cas_job_ok [OF a(3)] have db1:
      "db1 = update_jobs (\<lambda>r. jr_id r = jid \<and> jr_revision r = jr_revision old) (decision_row e steps ms) db"
      "length (filter (\<lambda>r. jr_id r = jid \<and> jr_revision r = jr_revision old) (db_jobs db)) = 1"
      using old(3) by simp_all
    have o: "old \<in> set (db_jobs db)" "jr_id old = jid" using find_job_Some [OF old(1)] by auto
    have one: "filter (\<lambda>r. jr_id r = jid \<and> jr_revision r = jr_revision old) (db_jobs db) = [old]"
      using o by (intro filter_singleton [OF db1(2)]) auto
    have "committed db old (decision_row e steps ms) (\<lambda>r. r) (ev eid) db'"
      unfolding committed_def using one o(2) old(1) insert_event_ok(1,2) [OF a(4)] db1(1)
      by (auto simp: ev_def)
    moreover have "\<forall>r \<in> set (db_events db). \<not> ?P r" using None by (auto simp: find_None_iff)
    ultimately show ?thesis
      using appended [OF v(1) [unfolded iw] vk(1) a(2) old(1)] v(3) old(2,4) a(1,5,6) by (simp add: ev_def)
  qed
qed

section \<open>Creation\<close>

definition new_steps :: "string \<Rightarrow> nat \<Rightarrow> string list \<Rightarrow> step_row list \<Rightarrow> bool" where
  "new_steps jid n names rows \<longleftrightarrow>
     map sr_name rows = names \<and> map sr_ordinal rows = [n..<n + length names] \<and> distinct (map sr_id rows) \<and>
     (\<forall>r \<in> set rows. sr_job r = jid \<and> sr_state r = SPending \<and> sr_revision r = 1)"

lemma insert_steps_ok:
  assumes "insert_steps e jid n names db = Inr db'"
  shows "\<exists>rows. db' = db\<lparr>db_steps := db_steps db @ rows\<rparr> \<and> new_steps jid n names rows \<and>
           set (map sr_id rows) \<inter> set (map sr_id (db_steps db)) = {}"
  using assms
proof (induction names arbitrary: n db)
  case Nil
  then show ?case by (auto simp: new_steps_def)
next
  case (Cons name names)
  from Cons.prems obtain sid db1 where
    s: "insert_step \<lparr>sr_id = sid, sr_job = jid, sr_ordinal = n, sr_name = name, sr_state = SPending,
          sr_revision = 1, sr_started = None, sr_finished = None\<rparr> db = Inr db1"
       "insert_steps e jid (Suc n) names db1 = Inr db'"
    by (auto simp: bindE_ok)
  let ?r = "\<lparr>sr_id = sid, sr_job = jid, sr_ordinal = n, sr_name = name, sr_state = SPending,
          sr_revision = 1, sr_started = None, sr_finished = None\<rparr>"
  from s(1) have db1: "db1 = db\<lparr>db_steps := db_steps db @ [?r]\<rparr>" "sid \<notin> set (map sr_id (db_steps db))"
    by (auto simp: insert_step_def bindE_ok)
  from Cons.IH [OF s(2)] obtain rows where
    rows: "db' = db1\<lparr>db_steps := db_steps db1 @ rows\<rparr>" "new_steps jid (Suc n) names rows"
      "set (map sr_id rows) \<inter> set (map sr_id (db_steps db1)) = {}" by blast
  have "[n..<n + length (name # names)] = n # [Suc n..<Suc n + length names]"
    by (subst upt_conv_Cons) auto
  then have "new_steps jid n (name # names) (?r # rows)"
    using rows(2,3) db1 by (auto simp: new_steps_def simp del: upt_Suc)
  with rows db1 show ?case by (intro exI [of _ "?r # rows"]) auto
qed

definition created ::
  "job_db \<Rightarrow> job_row \<Rightarrow> string list \<Rightarrow> step_row list \<Rightarrow> event_row \<Rightarrow> job_db \<Rightarrow> bool" where
  "created db r names rows ev db' \<longleftrightarrow>
     jr_id r \<notin> set (map jr_id (db_jobs db)) \<and>
     (\<forall>x \<in> set (db_jobs db). \<not> (jr_namespace x = jr_namespace r \<and> jr_key_hash x = jr_key_hash r)) \<and>
     jr_state r = Queued \<and> jr_revision r = 1 \<and> jr_started r = None \<and> jr_key_hash r \<noteq> None \<and>
     new_steps (jr_id r) 0 names rows \<and> set (map sr_id rows) \<inter> set (map sr_id (db_steps db)) = {} \<and>
     db_jobs db' = db_jobs db @ [r] \<and> db_steps db' = db_steps db @ rows \<and> db_events db' = db_events db @ [ev] \<and>
     er_job ev = jr_id r \<and> er_seq ev = next_sequence db (jr_id r) \<and> er_id ev \<notin> set (map er_id (db_events db)) \<and>
     er_type ev = ''created'' \<and> er_state ev = Some (job_state_name Queued) \<and> er_agent_key ev = None"

lemma create_job_effect:
  assumes "create_job e db ns jtype key fp payload artifacts steps = Inr (j, db')"
  obtains (stored) r w where
    "validate_create e jtype key fp payload artifacts steps = Inr w"
    "find_key db ns (je_sha256 e key) = Some r" "job_from_row e db r = Inr j"
    "same_request j jtype fp w artifacts steps" "db' = db"
  | (fresh) jid w rows ev where
    "validate_create e jtype key fp payload artifacts steps = Inr w"
    "find_key db ns (je_sha256 e key) = None"
    "created db (new_job_row e jid ns jtype (je_sha256 e key) fp w artifacts) steps rows ev db'"
    "job_in e db' jid = Inr j"
proof -
  let ?kh = "je_sha256 e key"
  from assms obtain w where w: "validate_create e jtype key fp payload artifacts steps = Inr w"
    unfolding create_job_def by (elim bindE_okE)
  show ?thesis
  proof (cases "find_key db ns ?kh")
    case (Some r)
    from assms w Some have "job_from_row e db r = Inr j" "same_request j jtype fp w artifacts steps" "db' = db"
      unfolding create_job_def Let_def by (auto simp: bindE_ok split: if_splits)
    with stored [OF w Some] show ?thesis by blast
  next
    case None
    define row where "row = (\<lambda>jid. new_job_row e jid ns jtype ?kh fp w artifacts)"
    from assms w None obtain jid db1 db2 where
      a: "insert_job (row jid) db = Inr db1" "insert_steps e jid 0 steps db1 = Inr db2"
         "append_event_in e (Suc (length steps)) jid ''created'' (Some Queued) None no_progress db2 = Inr db'"
         "job_in e db' jid = Inr j"
      unfolding create_job_def Let_def row_def by (auto simp: bindE_ok)
    have sel: "jr_id (row jid) = jid" "jr_namespace (row jid) = ns" "jr_key_hash (row jid) = Some ?kh"
      "jr_state (row jid) = Queued" "jr_revision (row jid) = 1" "jr_started (row jid) = None"
      by (simp_all add: row_def new_job_row_def)
    from a(1) have db1: "db1 = db\<lparr>db_jobs := db_jobs db @ [row jid]\<rparr>" "jid \<notin> set (map jr_id (db_jobs db))"
      by (auto simp: insert_job_def bindE_ok sel)
    have key: "\<not> (jr_namespace x = ns \<and> jr_key_hash x = Some ?kh)" if "x \<in> set (db_jobs db)" for x
      using None that by (auto simp: find_key_def find_None_iff)
    from insert_steps_ok [OF a(2)] obtain rows where
      rows: "db2 = db1\<lparr>db_steps := db_steps db1 @ rows\<rparr>" "new_steps jid 0 steps rows"
        "set (map sr_id rows) \<inter> set (map sr_id (db_steps db1)) = {}" by blast
    from append_event_ok [OF a(3)] obtain eid where
      eid: "db' = db2\<lparr>db_events := db_events db2 @
        [\<lparr>er_id = eid, er_job = jid, er_seq = next_sequence db2 jid, er_type = ''created'',
          er_state = map_option job_state_name (Some Queued), er_reason = None,
          er_stage = pg_stage no_progress, er_current = pg_current no_progress, er_total = pg_total no_progress,
          er_at = je_now e, er_agent_key = None, er_agent_payload = NullCol\<rparr>]\<rparr>"
      "eid \<notin> set (map er_id (db_events db2))" by blast
    have seq: "next_sequence db2 jid = next_sequence db jid"
      unfolding rows(1) db1(1) by (simp add: next_sequence_def)
    have "created db (row jid) steps rows (last (db_events db')) db'"
      unfolding created_def sel using db1 rows eid key seq by auto
    with fresh [OF w None] a(4) show ?thesis by (simp add: row_def)
  qed
qed

end
