(* ===== verification/Versioned_Store.thy ===== *)
theory Versioned_Store
  imports Py_Prelude
begin

text \<open>
  The interface of an optimistically locked store: a version number per key, and
  writes that name the version they were prepared against.  The job repository
  (\<open>src/workspace/jobs.py\<close>) and the record repository
  (\<open>src/workspace/repository.py\<close>) both provide it; what a client may conclude
  from it is proved here once.
\<close>

locale versioned_store =
  fixes version :: "'s \<Rightarrow> 'k \<Rightarrow> int option"
    and try_write :: "'c \<Rightarrow> 's \<Rightarrow> 'k \<Rightarrow> int \<Rightarrow> 's option"
  assumes guard: "try_write c s k n = Some s' \<Longrightarrow> version s k = Some n"
    and bump: "try_write c s k n = Some s' \<Longrightarrow> s' \<noteq> s \<Longrightarrow> version s' k = Some (n + 1)"
    and frame: "try_write c s k n = Some s' \<Longrightarrow> k' \<noteq> k \<Longrightarrow> version s' k' = version s k'"
begin

lemma stale_rejected: "version s k \<noteq> Some n \<Longrightarrow> try_write c s k n = None"
  using guard by (cases "try_write c s k n") auto

lemma no_lost_update:
  assumes "try_write c s k n = Some s'" "s' \<noteq> s"
  shows "try_write d s' k n = None"
  by (rule stale_rejected) (use bump [OF assms] in auto)

text \<open>A sequence of writes, each naming its key and expected version; a refused write changes nothing.\<close>

fun run_writes :: "('c \<times> 'k \<times> int) list \<Rightarrow> 's \<Rightarrow> 's" where
  "run_writes [] s = s"
| "run_writes ((c, k, n) # ws) s =
     run_writes ws (case try_write c s k n of None \<Rightarrow> s | Some s' \<Rightarrow> s')"

lemma version_mono_step:
  assumes "version s k = Some v"
  shows "\<exists>v' \<ge> v. version (case try_write c s k' n of None \<Rightarrow> s | Some s' \<Rightarrow> s') k = Some v'"
proof (cases "try_write c s k' n")
  case None
  then show ?thesis using assms by auto
next
  case (Some s')
  show ?thesis
  proof (cases "k' = k \<and> s' \<noteq> s")
    case True
    with Some guard [OF Some] bump [OF Some] assms show ?thesis by auto
  next
    case False
    with Some frame [OF Some] assms show ?thesis by (cases "s' = s") auto
  qed
qed

lemma version_mono: "version s k = Some v \<Longrightarrow> \<exists>v' \<ge> v. version (run_writes ws s) k = Some v'"
proof (induction ws s arbitrary: v rule: run_writes.induct)
  case (2 c k' n ws s)
  obtain v' where "v' \<ge> v"
    "version (case try_write c s k' n of None \<Rightarrow> s | Some s' \<Rightarrow> s') k = Some v'"
    using version_mono_step [OF "2.prems", of c k' n] by blast
  with "2.IH" [of v'] show ?case by force
qed auto

text \<open>Once a write prepared against a version has changed the store, no later write prepared against it succeeds.\<close>

lemma winner_excludes_later:
  assumes "try_write c s k n = Some s'" "s' \<noteq> s"
  shows "try_write d (run_writes ws s') k n = None"
proof (rule stale_rejected)
  obtain v where "v \<ge> n + 1" "version (run_writes ws s') k = Some v"
    using version_mono [OF bump [OF assms]] by blast
  then show "version (run_writes ws s') k \<noteq> Some n" by simp
qed

end

end
