(* ===== verification/Job_Invariants.thy ===== *)
theory Job_Invariants
  imports Job_Effects Versioned_Store
begin

text \<open>
  The abstract specification of the job repository and the invariants of its
  tables.  \<open>life_cycle\<close> is the promise of the repository: which event may move a job
  from which state to which.  \<open>micro\<close> is one job change seen from the tables; every
  public operation is a sequence of such changes (\<open>job_tx_micro\<close>), and the
  invariant \<open>job_inv\<close> is kept by each of them.
\<close>

section \<open>The life cycle\<close>

inductive life_cycle :: "string \<Rightarrow> job_state \<Rightarrow> job_state \<Rightarrow> bool" where
  changed: "t \<in> job_transitions s \<Longrightarrow> t \<notin> {Cancelling, Cancelled} \<Longrightarrow> life_cycle ''state_changed'' s t"
| progressed: "life_cycle ''progress'' Running Running"
| stepped: "s \<in> {Running, Cancelling} \<Longrightarrow> life_cycle ''step_changed'' s s"
| decided: "s \<in> {Running, Cancelling} \<Longrightarrow> life_cycle ''agent_decision'' s s"
| withdrawn: "life_cycle ''cancellation_requested'' Queued Cancelled"
| requested: "life_cycle ''cancellation_requested'' Running Cancelling"
| acknowledged: "s \<in> {Queued, Cancelling} \<Longrightarrow> life_cycle ''cancelled'' s Cancelled"
| recovered: "s \<in> {Running, Cancelling} \<Longrightarrow> life_cycle ''interrupted'' s Interrupted"

code_pred life_cycle .

inductive_simps life_cycle_simps [simp]:
  "life_cycle ''state_changed'' s t"
  "life_cycle ''progress'' s t"
  "life_cycle ''step_changed'' s t"
  "life_cycle ''agent_decision'' s t"
  "life_cycle ''cancellation_requested'' s t"
  "life_cycle ''cancelled'' s t"
  "life_cycle ''interrupted'' s t"

inductive_cases life_cycleE: "life_cycle ty s t"

lemma life_cycle_not_terminal: "life_cycle ty s t \<Longrightarrow> \<not> terminal_job s"
  by (erule life_cycleE) (auto, cases s, auto)

lemma life_cycle_not_queued: "life_cycle ty s t \<Longrightarrow> t \<noteq> Queued"
  by (erule life_cycleE) (auto, cases s, auto)

lemma life_cycle_reaches: "life_cycle ty s t \<Longrightarrow> t = s \<or> t \<in> job_transitions s"
  by (erule life_cycleE) auto

text \<open>The history of a job as its event log tells it.\<close>

fun replay_from :: "job_state \<Rightarrow> event_row list \<Rightarrow> job_state option" where
  "replay_from s [] = Some s"
| "replay_from s (ev # evs) =
     (case er_state ev of None \<Rightarrow> None
      | Some nm \<Rightarrow> (case parse_job_state nm of None \<Rightarrow> None
         | Some t \<Rightarrow> if life_cycle (er_type ev) s t then replay_from t evs else None))"

fun replay :: "event_row list \<Rightarrow> job_state option" where
  "replay [] = None"
| "replay (ev # evs) =
     (if er_type ev = ''created'' \<and> er_state ev = Some (job_state_name Queued)
      then replay_from Queued evs else None)"

lemma replay_from_snoc:
  assumes "replay_from s evs = Some t" "er_state ev = Some (job_state_name u)" "life_cycle (er_type ev) t u"
  shows "replay_from s (evs @ [ev]) = Some u"
  using assms(1)
proof (induction evs arbitrary: s)
  case Nil
  then show ?case using assms(2,3) by simp
next
  case (Cons x xs)
  then show ?case by (auto split: option.splits if_splits)
qed

lemma replay_snoc:
  assumes "replay evs = Some t" "er_state ev = Some (job_state_name u)" "life_cycle (er_type ev) t u"
  shows "replay (evs @ [ev]) = Some u"
  using assms by (cases evs) (auto intro: replay_from_snoc split: if_splits)

lemma replay_from_never_queued:
  "replay_from s evs = Some t \<Longrightarrow> evs \<noteq> [] \<Longrightarrow> t \<noteq> Queued"
proof (induction evs arbitrary: s)
  case (Cons x xs)
  then show ?case
    by (cases xs) (auto split: option.splits if_splits dest: life_cycle_not_queued)
qed simp

text \<open>The starts of a job: its log has at most one.\<close>

definition is_start :: "event_row \<Rightarrow> bool" where
  "is_start ev \<longleftrightarrow> er_type ev = ''state_changed'' \<and> er_state ev = Some (job_state_name Running)"

lemma replay_from_starts:
  assumes "replay_from s evs = Some t"
  shows "length (filter is_start evs) \<le> (if s = Queued then 1 else 0)"
  using assms
proof (induction evs arbitrary: s)
  case (Cons x xs)
  from Cons.prems obtain u where u: "parse_job_state (the (er_state x)) = Some u"
    "life_cycle (er_type x) s u" "replay_from u xs = Some t"
    by (auto split: option.splits if_splits)
  have "u \<noteq> Queued" using u(2) by (rule life_cycle_not_queued)
  then have rest: "filter is_start xs = []" using Cons.IH [OF u(3)] by simp
  have "s = Queued" if "is_start x"
  proof -
    from that have "parse_job_state (the (er_state x)) = Some Running"
      unfolding is_start_def by (metis option.sel parse_job_state_name)
    with u(1) have "u = Running" by simp
    with that u(2) show ?thesis by (cases s) (auto simp: is_start_def)
  qed
  with rest show ?case by auto
qed simp

lemma replay_starts: "replay evs = Some t \<Longrightarrow> length (filter is_start evs) \<le> 1"
  by (cases evs) (auto simp: is_start_def dest!: replay_from_starts split: if_splits)

section \<open>One change of the tables\<close>

definition events_of :: "job_db \<Rightarrow> string \<Rightarrow> event_row list" where
  "events_of db jid = filter (\<lambda>ev. er_job ev = jid) (db_events db)"

definition steps_of :: "job_db \<Rightarrow> string \<Rightarrow> step_row list" where
  "steps_of db jid = filter (\<lambda>s. sr_job s = jid) (db_steps db)"

definition step_move :: "string \<Rightarrow> step_row \<Rightarrow> step_row \<Rightarrow> bool" where
  "step_move jid r s \<longleftrightarrow> same_step r s \<and>
     (s = r \<or> sr_job r = jid \<and> sr_state s \<in> step_transitions (sr_state r) \<and> sr_revision s = sr_revision r + 1)"

text \<open>What the target state of a job asks of its steps.\<close>

definition settled :: "job_db \<Rightarrow> job_row \<Rightarrow> job_state \<Rightarrow> (step_row \<Rightarrow> step_row) \<Rightarrow> bool" where
  "settled db old t g \<longleftrightarrow>
     (\<forall>r \<in> set (steps_of db (jr_id old)).
        (t = Succeeded \<longrightarrow> sr_state (g r) \<in> {SSucceeded, SSkipped}) \<and>
        (t = Cancelled \<longrightarrow> sr_state (g r) \<noteq> SPending) \<and>
        (terminal_job t \<longrightarrow> sr_state (g r) = SRunning \<longrightarrow> jr_state old = Queued \<and> sr_state r = SRunning))"

text \<open>A row is readable when \<open>_job_from_row\<close> returns a job; of the environment only the secrets matter.\<close>

definition reads :: "string list \<Rightarrow> job_db \<Rightarrow> job_row \<Rightarrow> bool" where
  "reads S db r \<longleftrightarrow> is_ok (job_from_row
     \<lparr>je_now = [], je_newid = \<lambda>_. [], je_secrets = S, je_inject = \<lambda>_ _. False, je_sha256 = \<lambda>_. []\<rparr> db r)"

lemma job_from_row_env:
  assumes "je_secrets e = je_secrets e'"
  shows "job_from_row e db r = job_from_row e' db r"
  unfolding job_from_row_def assms ..

lemma reads_iff: "je_secrets e = S \<Longrightarrow> reads S db r = is_ok (job_from_row e db r)"
  unfolding reads_def by (subst job_from_row_env [where e' = e]) auto

lemma job_from_row_steps:
  assumes "steps_in db' (jr_id r) = steps_in db (jr_id r)"
  shows "job_from_row e db' r = job_from_row e db r"
  unfolding job_from_row_def assms ..

lemma steps_in_of: "steps_of db' jid = steps_of db jid \<Longrightarrow> steps_in db' jid = steps_in db jid"
  by (simp add: steps_in_def steps_of_def)

lemma reads_steps: "steps_of db' (jr_id r) = steps_of db (jr_id r) \<Longrightarrow> reads S db' r = reads S db r"
  unfolding reads_def by (subst job_from_row_steps [OF steps_in_of]) auto

inductive micro :: "string list \<Rightarrow> job_db \<Rightarrow> job_db \<Rightarrow> bool" for S where
  create: "created db r names rows ev db' \<Longrightarrow> reads S db' r \<Longrightarrow> micro S db db'"
| change: "committed db old f g ev db' \<Longrightarrow> same_identity old (f old) \<Longrightarrow>
    jr_revision (f old) = jr_revision old + 1 \<Longrightarrow>
    er_state ev = Some (job_state_name (jr_state (f old))) \<Longrightarrow>
    life_cycle (er_type ev) (jr_state old) (jr_state (f old)) \<Longrightarrow>
    (\<forall>r \<in> set (db_steps db). step_move (jr_id old) r (g r)) \<Longrightarrow>
    settled db old (jr_state (f old)) g \<Longrightarrow>
    (er_agent_key ev = None \<or>
     er_agent_key ev = Some (decision_key (int (agent_event_count db (jr_id old)) + 1)) \<and>
     agent_event_count db (jr_id old) < max_agent_decision_events) \<Longrightarrow>
    reads S db' (f old) \<Longrightarrow>
    micro S db db'"

section \<open>The invariant\<close>

definition steps_inv :: "job_state \<Rightarrow> step_row list \<Rightarrow> bool" where
  "steps_inv st rows \<longleftrightarrow>
     map sr_ordinal rows = [0..<length rows] \<and>
     (\<forall>r \<in> set rows.
        (st = Queued \<longrightarrow> sr_state r = SPending) \<and>
        (st = Succeeded \<longrightarrow> sr_state r \<in> {SSucceeded, SSkipped}) \<and>
        (st = Cancelled \<longrightarrow> sr_state r \<noteq> SPending) \<and>
        (terminal_job st \<longrightarrow> sr_state r \<noteq> SRunning))"

definition log_inv :: "job_row \<Rightarrow> event_row list \<Rightarrow> bool" where
  "log_inv r evs \<longleftrightarrow>
     map er_seq evs = [1..<Suc (length evs)] \<and> jr_revision r = int (length evs) \<and>
     replay evs = Some (jr_state r) \<and>
     (let keys = filter (\<lambda>k. k \<noteq> None) (map er_agent_key evs) in
        keys = map (\<lambda>i. Some (decision_key (int i))) [1..<Suc (length keys)] \<and>
        length keys \<le> max_agent_decision_events)"

definition job_inv :: "string list \<Rightarrow> job_db \<Rightarrow> bool" where
  "job_inv S db \<longleftrightarrow>
     distinct (map jr_id (db_jobs db)) \<and>
     distinct (map (\<lambda>r. (jr_namespace r, jr_key_hash r)) (db_jobs db)) \<and>
     distinct (map er_id (db_events db)) \<and> distinct (map sr_id (db_steps db)) \<and>
     er_job ` set (db_events db) \<subseteq> jr_id ` set (db_jobs db) \<and>
     sr_job ` set (db_steps db) \<subseteq> jr_id ` set (db_jobs db) \<and>
     (\<forall>r \<in> set (db_jobs db).
        log_inv r (events_of db (jr_id r)) \<and> steps_inv (jr_state r) (steps_of db (jr_id r)) \<and> reads S db r)"

lemma job_inv_empty: "job_inv S empty_db"
  by (simp add: job_inv_def empty_db_def)

lemma job_inv_row:
  assumes "job_inv S db" "r \<in> set (db_jobs db)"
  shows "log_inv r (events_of db (jr_id r))" "steps_inv (jr_state r) (steps_of db (jr_id r))" "reads S db r"
  using assms by (auto simp: job_inv_def)

lemma job_inv_find:
  assumes "job_inv S db" "r \<in> set (db_jobs db)"
  shows "find_job db (jr_id r) = Some r"
  unfolding find_job_def using assms by (intro find_unique_key) (auto simp: job_inv_def)

section \<open>Every change keeps the invariant\<close>

lemma committed_old:
  assumes "committed db old f g ev db'"
  shows "old \<in> set (db_jobs db)"
  using assms by (auto simp: committed_def dest: find_job_Some)

lemma committed_jobs:
  assumes "committed db old f g ev db'" "distinct (map jr_id (db_jobs db))"
  shows "db_jobs db' = map (\<lambda>r. if jr_id r = jr_id old then f old else r) (db_jobs db)"
proof -
  have "(if jr_id r = jr_id old \<and> jr_revision r = jr_revision old then f r else r)
      = (if jr_id r = jr_id old then f old else r)" if "r \<in> set (db_jobs db)" for r
    using distinct_unique_key [OF assms(2) that committed_old [OF assms(1)]] by auto
  then show ?thesis using assms(1) by (simp add: committed_def cong: map_cong)
qed

lemma committed_row:
  assumes "committed db old f g ev db'" "distinct (map jr_id (db_jobs db))" "r \<in> set (db_jobs db')"
  shows "r = f old \<or> r \<in> set (db_jobs db) \<and> jr_id r \<noteq> jr_id old"
  using assms(3) unfolding committed_jobs [OF assms(1,2)] by (auto split: if_splits)

lemma committed_other:
  assumes "committed db old f g ev db'" "r \<in> set (db_jobs db)" "jr_id r \<noteq> jr_id old"
  shows "r \<in> set (db_jobs db')"
  using assms by (force simp: committed_def)

lemma committed_events_of:
  assumes "committed db old f g ev db'"
  shows "events_of db' jid = events_of db jid @ (if jid = jr_id old then [ev] else [])"
  using assms by (auto simp: committed_def events_of_def)

lemma committed_steps_of:
  assumes "committed db old f g ev db'" "\<forall>r \<in> set (db_steps db). step_move (jr_id old) r (g r)"
  shows "steps_of db' jid = map g (steps_of db jid)"
    and "jid \<noteq> jr_id old \<Longrightarrow> steps_of db' jid = steps_of db jid"
proof -
  have job: "sr_job (g r) = sr_job r" if "r \<in> set (db_steps db)" for r
    using assms(2) that by (auto simp: step_move_def same_step_def)
  have "steps_of db' jid = filter (\<lambda>s. sr_job s = jid) (map g (db_steps db))"
    using assms(1) by (simp add: committed_def steps_of_def)
  also have "\<dots> = map g (steps_of db jid)"
    using job by (simp add: steps_of_def filter_map o_def cong: filter_cong)
  finally show eq: "steps_of db' jid = map g (steps_of db jid)" .
  have "g r = r" if "r \<in> set (steps_of db jid)" "jid \<noteq> jr_id old" for r
    using assms(2) that by (auto simp: steps_of_def step_move_def)
  with eq show "jid \<noteq> jr_id old \<Longrightarrow> steps_of db' jid = steps_of db jid"
    by (simp add: map_idI)
qed

lemma map_same_key:
  assumes "\<And>r. r \<in> set xs \<Longrightarrow> key (f r) = key r"
  shows "map key (map f xs) = map key xs"
  using assms by simp

lemma log_inv_snoc:
  assumes "log_inv old evs" "er_seq ev = Suc (length evs)"
    and "jr_revision new = jr_revision old + 1" "er_state ev = Some (job_state_name (jr_state new))"
    and "life_cycle (er_type ev) (jr_state old) (jr_state new)"
    and "er_agent_key ev = None \<or> er_agent_key ev =
           Some (decision_key (int (length (filter (\<lambda>e. er_agent_key e \<noteq> None) evs)) + 1)) \<and>
           length (filter (\<lambda>e. er_agent_key e \<noteq> None) evs) < max_agent_decision_events"
  shows "log_inv new (evs @ [ev])"
proof -
  have len: "length (filter (\<lambda>k. k \<noteq> None) (map er_agent_key evs)) = length (filter (\<lambda>e. er_agent_key e \<noteq> None) evs)"
    by (simp add: filter_map o_def)
  have "replay (evs @ [ev]) = Some (jr_state new)"
    using assms(1,4,5) by (intro replay_snoc) (auto simp: log_inv_def)
  then show ?thesis
    using assms(1,2,3,6) len by (auto simp: log_inv_def Let_def add.commute)
qed

lemma next_sequence_log:
  assumes "map er_seq (events_of db jid) = [1..<Suc n]"
  shows "next_sequence db jid = Suc n"
  using assms max0_upt [of n] by (simp add: next_sequence_def events_of_def del: upt_Suc)

lemma agent_event_count_events_of:
  "agent_event_count db jid = length (filter (\<lambda>e. er_agent_key e \<noteq> None) (events_of db jid))"
  by (simp add: agent_event_count_def events_of_def conj_commute)

lemma micro_distinct_ids:
  assumes "committed db old f g ev db'" "same_identity old (f old)" "distinct (map jr_id (db_jobs db))"
  shows "map jr_id (db_jobs db') = map jr_id (db_jobs db)"
    and "map (\<lambda>r. (jr_namespace r, jr_key_hash r)) (db_jobs db') = map (\<lambda>r. (jr_namespace r, jr_key_hash r)) (db_jobs db)"
proof -
  have id: "r = old" if "r \<in> set (db_jobs db)" "jr_id r = jr_id old" for r
    using distinct_unique_key [OF assms(3) that(1) committed_old [OF assms(1)]] that(2) .
  show "map jr_id (db_jobs db') = map jr_id (db_jobs db)"
    using assms(2) id unfolding committed_jobs [OF assms(1,3)]
    by (intro map_same_key) (auto simp: same_identity_def)
  show "map (\<lambda>r. (jr_namespace r, jr_key_hash r)) (db_jobs db') = map (\<lambda>r. (jr_namespace r, jr_key_hash r)) (db_jobs db)"
    using assms(2) id unfolding committed_jobs [OF assms(1,3)]
    by (intro map_same_key) (auto simp: same_identity_def)
qed

lemma steps_inv_change:
  assumes "steps_inv (jr_state old) (steps_of db (jr_id old))"
    and "\<forall>r \<in> set (db_steps db). step_move (jr_id old) r (g r)"
    and "settled db old t g" "life_cycle ty (jr_state old) t"
  shows "steps_inv t (map g (steps_of db (jr_id old)))"
proof -
  have move: "step_move (jr_id old) r (g r)" if "r \<in> set (steps_of db (jr_id old))" for r
    using assms(2) that by (simp add: steps_of_def)
  then have "map sr_ordinal (map g (steps_of db (jr_id old))) = map sr_ordinal (steps_of db (jr_id old))"
    by (intro map_same_key) (auto simp: step_move_def same_step_def)
  with assms(1,3) life_cycle_not_queued [OF assms(4)] show ?thesis
    by (auto simp: steps_inv_def settled_def)
qed

lemma micro_change_inv:
  assumes inv: "job_inv S db" and c: "committed db old f g ev db'" and si: "same_identity old (f old)"
    and rv: "jr_revision (f old) = jr_revision old + 1"
    and st: "er_state ev = Some (job_state_name (jr_state (f old)))"
    and lc: "life_cycle (er_type ev) (jr_state old) (jr_state (f old))"
    and mv: "\<forall>r \<in> set (db_steps db). step_move (jr_id old) r (g r)"
    and se: "settled db old (jr_state (f old)) g"
    and ak: "er_agent_key ev = None \<or>
       er_agent_key ev = Some (decision_key (int (agent_event_count db (jr_id old)) + 1)) \<and>
       agent_event_count db (jr_id old) < max_agent_decision_events"
    and rd: "reads S db' (f old)"
  shows "job_inv S db'"
proof -
  have dist: "distinct (map jr_id (db_jobs db))" using inv by (simp add: job_inv_def)
  note old = committed_old [OF c]
  have fid: "jr_id (f old) = jr_id old" using si by (simp add: same_identity_def)
  note lg = job_inv_row [OF inv old]
  have seq: "er_seq ev = Suc (length (events_of db (jr_id old)))"
    using c lg(1) next_sequence_log by (auto simp: committed_def log_inv_def)
  have evs: "db_events db' = db_events db @ [ev]" "er_job ev = jr_id old" "er_id ev \<notin> set (map er_id (db_events db))"
    using c by (auto simp: committed_def)
  have steps: "db_steps db' = map g (db_steps db)" using c by (simp add: committed_def)
  have sid: "map sr_id (db_steps db') = map sr_id (db_steps db)" "map sr_job (db_steps db') = map sr_job (db_steps db)"
    using mv unfolding steps by (auto simp: step_move_def same_step_def)
  have ids: "jr_id ` set (db_jobs db') = jr_id ` set (db_jobs db)"
    using micro_distinct_ids(1) [OF c si dist] by (metis set_map)
  have sj: "sr_job ` set (db_steps db') = sr_job ` set (db_steps db)" using sid(2) by (metis set_map)
  have row: "log_inv r (events_of db' (jr_id r)) \<and> steps_inv (jr_state r) (steps_of db' (jr_id r)) \<and> reads S db' r"
    if "r \<in> set (db_jobs db')" for r
    using committed_row [OF c dist that]
  proof
    assume r: "r = f old"
    have "log_inv (f old) (events_of db (jr_id old) @ [ev])"
      by (rule log_inv_snoc [OF lg(1) seq rv st lc]) (use ak in \<open>simp add: agent_event_count_events_of\<close>)
    moreover have "steps_inv (jr_state (f old)) (map g (steps_of db (jr_id old)))"
      by (rule steps_inv_change [OF lg(2) mv se lc])
    ultimately show ?thesis
      using committed_events_of [OF c] committed_steps_of(1) [OF c mv] fid r rd by simp
  next
    assume "r \<in> set (db_jobs db) \<and> jr_id r \<noteq> jr_id old"
    with job_inv_row [OF inv] committed_events_of [OF c] committed_steps_of(2) [OF c mv] reads_steps [of db' r db] show ?thesis by simp
  qed
  show ?thesis
    unfolding job_inv_def
    using inv micro_distinct_ids [OF c si dist] evs sid row old ids sj
    by (auto simp: job_inv_def)
qed

lemma micro_create_inv:
  assumes inv: "job_inv S db" and c: "created db r names rows ev db'"
    and rd: "reads S db' r"
  shows "job_inv S db'"
proof -
  have nid: "jr_id r \<notin> jr_id ` set (db_jobs db)" using c by (simp add: created_def)
  have tabs: "db_jobs db' = db_jobs db @ [r]" "db_steps db' = db_steps db @ rows" "db_events db' = db_events db @ [ev]"
    using c by (auto simp: created_def)
  have sub: "er_job ` set (db_events db) \<subseteq> jr_id ` set (db_jobs db)"
    "sr_job ` set (db_steps db) \<subseteq> jr_id ` set (db_jobs db)"
    using inv by (simp_all add: job_inv_def)
  have none: "events_of db (jr_id r) = []" "steps_of db (jr_id r) = []"
    using sub nid unfolding events_of_def steps_of_def filter_empty_conv by (metis image_eqI subsetD)+
  have new: "new_steps (jr_id r) 0 names rows" using c by (simp add: created_def)
  have jobs: "sr_job x = jr_id r" if "x \<in> set rows" for x using new that by (simp add: new_steps_def)
  have e1: "events_of db' x = (if x = jr_id r then [ev] else events_of db x)" for x
    using none(1) c by (auto simp: events_of_def created_def)
  have s1: "steps_of db' x = (if x = jr_id r then rows else steps_of db x)" for x
    using none(2) jobs unfolding steps_of_def tabs by (auto simp: filter_empty_conv filter_id_conv)
  have "log_inv r [ev]"
    using c none(1) next_sequence_log [of db "jr_id r" 0] by (auto simp: log_inv_def created_def)
  moreover have "steps_inv (jr_state r) rows"
    using c new by (auto simp: steps_inv_def created_def new_steps_def)
  ultimately have new_row: "log_inv r [ev]" "steps_inv (jr_state r) rows" by blast+
  have row: "log_inv x (events_of db' (jr_id x)) \<and> steps_inv (jr_state x) (steps_of db' (jr_id x)) \<and> reads S db' x"
    if "x \<in> set (db_jobs db')" for x
  proof (cases "x = r")
    case True
    then show ?thesis using new_row e1 s1 rd by simp
  next
    case False
    with that tabs(1) have x: "x \<in> set (db_jobs db)" by simp
    with nid have "jr_id x \<noteq> jr_id r" by (metis image_eqI)
    with job_inv_row [OF inv x] e1 s1 reads_steps [of db' x db] show ?thesis by simp
  qed
  have key: "(jr_namespace r, jr_key_hash r) \<notin> (\<lambda>x. (jr_namespace x, jr_key_hash x)) ` set (db_jobs db)"
    using c by (auto simp: created_def)
  have dis: "distinct (map sr_id (db_steps db'))" "distinct (map er_id (db_events db'))"
    using inv c new by (auto simp: job_inv_def created_def new_steps_def)
  show ?thesis
    unfolding job_inv_def using inv nid key dis row tabs jobs c
    by (auto simp: job_inv_def created_def)
qed

lemma micro_inv: "micro S db db' \<Longrightarrow> job_inv S db \<Longrightarrow> job_inv S db'"
  by (induction rule: micro.induct) (blast intro: micro_create_inv micro_change_inv)+

section \<open>Operations as sequences of changes\<close>

text \<open>A transaction of the repository that commits, over every public operation that writes.\<close>

inductive job_tx :: "job_env \<Rightarrow> job_db \<Rightarrow> job_db \<Rightarrow> bool" for e where
  create: "create_job e db ns jtype key fp payload artifacts steps = Inr (j, db') \<Longrightarrow> job_tx e db db'"
| claim: "claim_next_job e db eligible = Inr (oj, db') \<Longrightarrow> job_tx e db db'"
| transition: "transition_job e db jid n t res fc fm = Inr (j, db') \<Longrightarrow> job_tx e db db'"
| progress: "report_progress e db jid n stage cur tot = Inr (j, db') \<Longrightarrow> job_tx e db db'"
| step: "transition_step e db jid sid n m t' = Inr (j, db') \<Longrightarrow> job_tx e db db'"
| request: "request_cancellation e db jid n = Inr (j, db') \<Longrightarrow> job_tx e db db'"
| acknowledge: "acknowledge_cancellation e db jid n res = Inr (j, db') \<Longrightarrow> job_tx e db db'"
| recover: "recover_interrupted_jobs e db lim = Inr (js, db') \<Longrightarrow> job_tx e db db'"
| decide: "append_agent_decision_event e db jid key payload m ms = Inr (v, db') \<Longrightarrow> job_tx e db db'"

inductive reachable_db :: "string list \<Rightarrow> job_db \<Rightarrow> bool" for S where
  start: "reachable_db S empty_db"
| tx: "reachable_db S db \<Longrightarrow> je_secrets e = S \<Longrightarrow> job_tx e db db' \<Longrightarrow> reachable_db S db'"

lemma same_step_refl [simp]: "same_step r r"
  by (simp add: same_step_def)

lemma same_identity_rows [simp]:
  "same_identity r (transition_row e t st cols r)" "same_identity r (progress_row e a b c r)"
  "same_identity r (request_row e t r)" "same_identity r (acknowledge_row e col r)"
  "same_identity r (recover_row e r)" "same_identity r (touch_row e r)" "same_identity r (decision_row e m n r)"
  by (simp_all add: same_identity_def transition_row_def progress_row_def request_row_def acknowledge_row_def
      recover_row_def touch_row_def decision_row_def)

lemma row_states [simp]:
  "jr_state (transition_row e t st cols r) = t" "jr_state (progress_row e a b c r) = jr_state r"
  "jr_state (request_row e t r) = t" "jr_state (acknowledge_row e col r) = Cancelled"
  "jr_state (recover_row e r) = Interrupted" "jr_state (touch_row e r) = jr_state r"
  "jr_state (decision_row e m n r) = jr_state r"
  by (simp_all add: transition_row_def progress_row_def request_row_def acknowledge_row_def
      recover_row_def touch_row_def decision_row_def)

lemma row_revisions [simp]:
  "jr_revision (transition_row e t st cols r) = jr_revision r + 1"
  "jr_revision (progress_row e a b c r) = jr_revision r + 1"
  "jr_revision (request_row e t r) = jr_revision r + 1"
  "jr_revision (acknowledge_row e col r) = jr_revision r + 1"
  "jr_revision (recover_row e r) = jr_revision r + 1" "jr_revision (touch_row e r) = jr_revision r + 1"
  "jr_revision (decision_row e m n r) = jr_revision r + 1"
  by (simp_all add: transition_row_def progress_row_def request_row_def acknowledge_row_def
      recover_row_def touch_row_def decision_row_def)

lemma stop_step_same [simp]: "same_step r (stop_step now st r)"
  by (simp add: same_step_def stop_step_def)

lemma stop_step_sel [simp]:
  "sr_state (stop_step now st r) = st" "sr_revision (stop_step now st r) = sr_revision r + 1"
  by (simp_all add: stop_step_def)

lemma steps_in_states:
  assumes "steps_in db jid = Inr ss"
  shows "js_state ` set ss = sr_state ` set (steps_of db jid)"
    and "map js_name ss = map sr_name (sort_key (\<lambda>r. (sr_ordinal r, sr_id r)) (steps_of db jid))"
proof -
  let ?rows = "sort_key (\<lambda>r. (sr_ordinal r, sr_id r)) (steps_of db jid)"
  have all: "list_all2 (\<lambda>x y. step_of_row x = Inr y) (enumerate 0 ?rows) ss"
    using assms unfolding steps_in_def steps_of_def mapE_ok_all2 .
  have "list_all2 (\<lambda>x y. js_state y = sr_state (snd x) \<and> js_name y = sr_name (snd x)) (enumerate 0 ?rows) ss"
    by (rule list_all2_mono [OF all]) (auto simp: step_of_row_def Let_def bindE_ok)
  then have "map js_state ss = map (sr_state \<circ> snd) (enumerate 0 ?rows) \<and>
      map js_name ss = map (sr_name \<circ> snd) (enumerate 0 ?rows)"
    by (induction rule: list_all2_induct) auto
  then have m: "map js_state ss = map sr_state ?rows" "map js_name ss = map sr_name ?rows"
    by (simp_all flip: map_map)
  show "map js_name ss = map sr_name ?rows" by (rule m(2))
  from m(1) have "set (map js_state ss) = set (map sr_state ?rows)" by simp
  then show "js_state ` set ss = sr_state ` set (steps_of db jid)" by simp
qed

lemma committed_jid: "committed db old f g ev db' \<Longrightarrow> find_job db jid = Some old' \<Longrightarrow> jr_id old' = jid"
  by (auto dest: find_job_Some)

lemma committed_find:
  assumes "committed db old f g ev db'" "same_identity old (f old)"
  shows "find_job db' (jr_id old) = Some (f old)"
proof -
  let ?c = "\<lambda>r. jr_id r = jr_id old \<and> jr_revision r = jr_revision old"
  have fid: "jr_id (f old) = jr_id old" using assms(2) by (simp add: same_identity_def)
  have only: "r = old" if "r \<in> set (db_jobs db)" "?c r" for r
  proof -
    have "r \<in> set (filter ?c (db_jobs db))" using that by simp
    moreover have "filter ?c (db_jobs db) = [old]" using assms(1) unfolding committed_def by blast
    ultimately show ?thesis by simp
  qed
  have "db_jobs db' = map (\<lambda>r. if ?c r then f r else r) (db_jobs db)"
    using assms(1) by (simp add: committed_def)
  also have "\<dots> = map (\<lambda>r. if ?c r then f old else r) (db_jobs db)"
    using only by (auto intro!: map_cong)
  finally have jobs: "db_jobs db' = map (\<lambda>r. if ?c r then f old else r) (db_jobs db)" .
  have "find_job db' (jr_id old) = map_option (\<lambda>r. if ?c r then f old else r) (find_job db (jr_id old))"
    unfolding find_job_def jobs by (rule find_map_same) (simp add: fid)
  moreover have "find_job db (jr_id old) = Some old" using assms(1) by (simp add: committed_def)
  ultimately show ?thesis by simp
qed

lemma committed_reads:
  assumes "committed db old f g ev db'" "same_identity old (f old)" "job_in e db' (jr_id old) = Inr j"
  shows "reads (je_secrets e) db' (f old)"
proof -
  obtain r where "find_job db' (jr_id old) = Some r" "job_from_row e db' r = Inr j"
    using job_in_ok [OF assms(3)] by blast
  with committed_find [OF assms(1,2)] show ?thesis by (simp add: reads_iff)
qed

lemma decision_row_reads:
  assumes "job_from_row e db r = Inr j" "0 \<le> m" "m \<le> ms" "1 \<le> ms"
  shows "is_ok (job_from_row e db (decision_row e m ms r))"
proof -
  have n: "type_name ''execute_agent''" by code_simp
  have p: "validate_progress (Some ''execute_agent'') (Some m) (Some ms) =
      Inr \<lparr>pg_stage = Some ''execute_agent'', pg_current = Some m, pg_total = Some ms\<rparr>"
    using assms(2-4) n by (simp add: validate_progress_def validate_name_def)
  have sel: "jr_id (decision_row e m ms r) = jr_id r" "jr_namespace (decision_row e m ms r) = jr_namespace r"
    "jr_type (decision_row e m ms r) = jr_type r" "jr_state (decision_row e m ms r) = jr_state r"
    "jr_fingerprint (decision_row e m ms r) = jr_fingerprint r" "jr_schema (decision_row e m ms r) = jr_schema r"
    "jr_failure_code (decision_row e m ms r) = jr_failure_code r"
    "jr_failure_message (decision_row e m ms r) = jr_failure_message r"
    "jr_revision (decision_row e m ms r) = jr_revision r + 1"
    "jr_payload (decision_row e m ms r) = jr_payload r" "jr_artifacts (decision_row e m ms r) = jr_artifacts r"
    "jr_result (decision_row e m ms r) = jr_result r"
    "jr_stage (decision_row e m ms r) = Some ''execute_agent''" "jr_current (decision_row e m ms r) = Some m"
    "jr_total (decision_row e m ms r) = Some ms"
    by (simp_all add: decision_row_def)
  have r1: "1 \<le> jr_revision r + 1" using job_from_row_ok(8) [OF assms(1)] by simp
  show ?thesis
    using assms(1) unfolding job_from_row_def sel p map_err_simps
    by (elim bindE_okE) (simp only: ensure_ok r1 simp_thms bindE_Inr ensure_True is_ok_simps)
qed

lemma transition_micro:
  assumes "transition_job_in e k db jid n t res fc fm = Inr (j, db')" "t \<notin> {Cancelling, Cancelled}"
  shows "micro (je_secrets e) db db'"
proof -
  obtain old cols ev j0 where
    o: "find_job db jid = Some old" "t \<in> job_transitions (jr_state old)" "job_in e db jid = Inr j0"
    "t = Succeeded \<Longrightarrow> \<forall>s \<in> set (dj_steps j0). js_state s \<in> {SSucceeded, SSkipped}"
    "committed db old (transition_row e t (if t = Running then Some (je_now e) else jr_started old) cols)
       (transition_steps e jid t) ev db'"
    "er_type ev = ''state_changed''" "er_state ev = Some (job_state_name t)" "er_agent_key ev = None" "job_in e db' jid = Inr j"
    by (rule transition_job_in_effect [OF assms(1)]) (rule that; assumption)
  have jid: "jr_id old = jid" using find_job_Some [OF o(1)] by simp
  have fin: "\<forall>r \<in> set (steps_of db jid). sr_state r \<in> {SSucceeded, SSkipped}" if "t = Succeeded"
  proof -
    obtain ss where "steps_in db jid = Inr ss" "dj_steps j0 = ss" using job_in_row [OF o(3)] by metis
    then have st: "js_state ` set (dj_steps j0) = sr_state ` set (steps_of db jid)" using steps_in_states(1) by simp
    show ?thesis
    proof
      fix r assume "r \<in> set (steps_of db jid)"
      then have "sr_state r \<in> js_state ` set (dj_steps j0)" unfolding st by (rule imageI)
      then show "sr_state r \<in> {SSucceeded, SSkipped}" using o(4) [OF that] by (auto elim!: imageE)
    qed
  qed
  show ?thesis
  proof (rule micro.change [OF o(5)])
    show "\<forall>r\<in>set (db_steps db). step_move (jr_id old) r (transition_steps e jid t r)"
      by (auto simp: transition_steps_def step_move_def jid step_state_of_def)
    show "settled db old (jr_state (transition_row e t (if t = Running then Some (je_now e) else jr_started old) cols old))
       (transition_steps e jid t)"
      using fin assms(2)
      by (cases t) (auto simp: settled_def transition_steps_def step_state_of_def jid steps_of_def)
    show "reads (je_secrets e) db' (transition_row e t (if t = Running then Some (je_now e) else jr_started old) cols old)"
      by (rule committed_reads [OF o(5)]) (use o(9) jid in simp_all)
  qed (use o assms(2) in simp_all)
qed

lemma claim_micro:
  assumes "claim_next_job e db eligible = Inr (oj, db')"
  shows "db' = db \<or> micro (je_secrets e) db db'"
  using assms unfolding claim_next_job_def
  by (auto simp: bindE_ok split: list.splits dest!: transition_micro)

lemma progress_micro:
  assumes "report_progress e db jid n stage cur tot = Inr (j, db')"
  shows "micro (je_secrets e) db db'"
proof -
  obtain old ev where
    o: "find_job db jid = Some old" "jr_state old = Running" "committed db old (progress_row e stage cur tot) (\<lambda>r. r) ev db'"
    "er_type ev = ''progress''" "er_state ev = Some (job_state_name Running)" "er_agent_key ev = None" "job_in e db' jid = Inr j"
    by (rule report_progress_effect [OF assms]) (rule that; assumption)
  have "reads (je_secrets e) db' (progress_row e stage cur tot old)"
    by (rule committed_reads [OF o(3)]) (use o(7) find_job_Some [OF o(1)] in simp_all)
  then show ?thesis
    by (intro micro.change [OF o(3)]) (use o in \<open>simp_all add: step_move_def settled_def\<close>)
qed

lemma step_micro:
  assumes "transition_step e db jid sid n m t = Inr (j, db')"
  shows "micro (je_secrets e) db db'"
proof -
  obtain old ev row where
    o: "find_job db jid = Some old" "row \<in> set (db_steps db)" "sr_id row = sid" "sr_job row = jid" "sr_revision row = m"
    "t \<in> step_transitions (sr_state row)" "t \<in> allowed_step_targets (jr_state old)"
    "filter (\<lambda>r. sr_id r = sid \<and> sr_job r = jid \<and> sr_revision r = m) (db_steps db) = [row]"
    "committed db old (touch_row e)
       (\<lambda>r. if sr_id r = sid \<and> sr_job r = jid \<and> sr_revision r = m
            then r\<lparr>sr_state := t, sr_revision := sr_revision r + 1,
                   sr_started := (if t = SRunning then Some (je_now e) else sr_started row),
                   sr_finished := (if terminal_step t then Some (je_now e) else None)\<rparr>
            else r) ev db'"
    "er_type ev = ''step_changed''" "er_state ev = Some (job_state_name (jr_state old))" "er_agent_key ev = None" "job_in e db' jid = Inr j"
    by (rule transition_step_effect [OF assms]) (rule that; assumption)
  have jid: "jr_id old = jid" using find_job_Some [OF o(1)] by simp
  have only: "r = row" if "r \<in> set (db_steps db)" "sr_id r = sid" "sr_job r = jid" "sr_revision r = m" for r
  proof -
    have "r \<in> set (filter (\<lambda>r. sr_id r = sid \<and> sr_job r = jid \<and> sr_revision r = m) (db_steps db))"
      using that by simp
    then show ?thesis unfolding o(8) by simp
  qed
  have active: "jr_state old \<in> {Running, Cancelling}"
    using o(7) by (auto simp: allowed_step_targets_def split: if_splits)
  show ?thesis
  proof (rule micro.change [OF o(9)])
    show "\<forall>r\<in>set (db_steps db). step_move (jr_id old) r
        (if sr_id r = sid \<and> sr_job r = jid \<and> sr_revision r = m
         then r\<lparr>sr_state := t, sr_revision := sr_revision r + 1,
                sr_started := (if t = SRunning then Some (je_now e) else sr_started row),
                sr_finished := (if terminal_step t then Some (je_now e) else None)\<rparr>
         else r)"
      using only o(6) by (auto simp: step_move_def same_step_def jid)
    show "reads (je_secrets e) db' (touch_row e old)"
      by (rule committed_reads [OF o(9)]) (use o(13) jid in simp_all)
  qed (use o active in \<open>auto simp: settled_def\<close>)
qed

lemma request_micro:
  assumes "request_cancellation e db jid n = Inr (j, db')"
  shows "db' = db \<or> micro (je_secrets e) db db'"
  using assms
proof (cases rule: request_cancellation_effect)
  case (requested old ev t)
  have jid: "jr_id old = jid" using find_job_Some [OF requested(1)] by simp
  have "micro (je_secrets e) db db'"
  proof (rule micro.change [OF requested(6)])
    show "\<forall>r\<in>set (db_steps db). step_move (jr_id old) r
        (if t = Cancelled \<and> sr_job r = jid \<and> sr_state r = SPending then stop_step (je_now e) SCancelled r else r)"
      by (auto simp: step_move_def jid)
    show "settled db old (jr_state (request_row e t old))
        (\<lambda>r. if t = Cancelled \<and> sr_job r = jid \<and> sr_state r = SPending then stop_step (je_now e) SCancelled r else r)"
      using requested(4,5) by (auto simp: settled_def jid steps_of_def split: if_splits)
    show "reads (je_secrets e) db' (request_row e t old)"
      by (rule committed_reads [OF requested(6)]) (use requested(10) jid in simp_all)
  qed (use requested in auto)
  then show ?thesis ..
qed simp

lemma acknowledge_micro:
  assumes "acknowledge_cancellation e db jid n res = Inr (j, db')"
  shows "micro (je_secrets e) db db'"
proof -
  obtain old ev col where
    o: "find_job db jid = Some old" "jr_state old \<in> {Queued, Cancelling}"
    "committed db old (acknowledge_row e col)
       (\<lambda>r. if sr_job r = jid \<and> sr_state r \<in> {SPending, SRunning}
            then stop_step (je_now e) SCancelled r else r) ev db'"
    "er_type ev = ''cancelled''" "er_state ev = Some (job_state_name Cancelled)" "er_agent_key ev = None" "job_in e db' jid = Inr j"
    by (rule acknowledge_cancellation_effect [OF assms]) (rule that; assumption)
  have jid: "jr_id old = jid" using find_job_Some [OF o(1)] by simp
  show ?thesis
  proof (rule micro.change [OF o(3)])
    show "settled db old (jr_state (acknowledge_row e col old))
       (\<lambda>r. if sr_job r = jid \<and> sr_state r \<in> {SPending, SRunning} then stop_step (je_now e) SCancelled r else r)"
      by (auto simp: settled_def jid steps_of_def)
    show "reads (je_secrets e) db' (acknowledge_row e col old)"
      by (rule committed_reads [OF o(3)]) (use o(7) jid in simp_all)
  qed (use o jid in \<open>auto simp: step_move_def\<close>)
qed

lemma recover_one_micro:
  assumes "recover_one e k jid db = Inr (j, db')"
  shows "micro (je_secrets e) db db'"
proof -
  obtain old ev where
    o: "find_job db jid = Some old" "jr_state old \<in> {Running, Cancelling}"
    "committed db old (recover_row e) (transition_steps e jid Interrupted) ev db'"
    "er_type ev = ''interrupted''" "er_state ev = Some (job_state_name Interrupted)" "er_agent_key ev = None" "job_in e db' jid = Inr j"
    by (rule recover_one_effect [OF assms]) (rule that; assumption)
  have jid: "jr_id old = jid" using find_job_Some [OF o(1)] by simp
  have "reads (je_secrets e) db' (recover_row e old)"
    by (rule committed_reads [OF o(3)]) (use o(7) jid in simp_all)
  then show ?thesis
    by (intro micro.change [OF o(3)])
       (use o jid in \<open>auto simp: step_move_def transition_steps_def step_state_of_def settled_def steps_of_def\<close>)
qed

lemma recover_all_micro:
  "recover_all e k jids db = Inr (js, db') \<Longrightarrow> (micro (je_secrets e))\<^sup>*\<^sup>* db db'"
proof (induction e k jids db arbitrary: js db' rule: recover_all.induct)
  case (2 e k jid jids db)
  from "2.prems" obtain j db1 js1 where
    r: "recover_one e k jid db = Inr (j, db1)" "recover_all e (Suc k) jids db1 = Inr (js1, db')"
    by (auto simp: bindE_ok)
  from "2.IH" [of "(j, db1)"] r have "(micro (je_secrets e))\<^sup>*\<^sup>* db1 db'" by simp
  with recover_one_micro [OF r(1)] show ?case by (rule converse_rtranclp_into_rtranclp)
qed simp

lemma decide_micro:
  assumes "append_agent_decision_event e db jid key payload m ms = Inr (v, db')"
  shows "db' = db \<or> micro (je_secrets e) db db'"
  using assms
proof (cases rule: append_agent_decision_event_effect)
  case (appended i w old ev)
  have jid: "jr_id old = jid" using find_job_Some [OF appended(4)] by simp
  obtain j0 where "job_in e db jid = Inr j0"
    using assms unfolding append_agent_decision_event_def by (elim bindE_okE)
  then obtain old' where "find_job db jid = Some old'" "job_from_row e db old' = Inr j0"
    using job_in_ok by blast
  with appended(4) have j0: "job_from_row e db old = Inr j0" by simp
  have "is_ok (job_from_row e db (decision_row e m ms old))"
    by (rule decision_row_reads [OF j0]) (use validate_agent_event_ok [OF appended(1)] in simp_all)
  moreover have "steps_of db' jid = steps_of db jid"
    using appended(7) by (simp add: committed_def steps_of_def)
  ultimately have rd: "reads (je_secrets e) db' (decision_row e m ms old)"
    using reads_steps [of db' "decision_row e m ms old" db] jid by (simp add: reads_iff decision_row_def)
  have "micro (je_secrets e) db db'"
    by (rule micro.change [OF appended(7)])
       (use appended jid rd in \<open>auto simp: step_move_def settled_def\<close>)
  then show ?thesis ..
qed simp

lemma create_micro:
  assumes "create_job e db ns jtype key fp payload artifacts steps = Inr (j, db')"
  shows "db' = db \<or> micro (je_secrets e) db db'"
  using assms
proof (cases rule: create_job_effect)
  case (fresh jid w rows ev)
  let ?r = "new_job_row e jid ns jtype (je_sha256 e key) fp w artifacts"
  have id: "jr_id ?r = jid" by (simp add: new_job_row_def)
  have c: "jid \<notin> jr_id ` set (db_jobs db)" "db_jobs db' = db_jobs db @ [?r]"
    using fresh(3) id by (simp_all add: created_def)
  from job_in_ok [OF fresh(4)] obtain r where r: "find_job db' jid = Some r" "job_from_row e db' r = Inr j" by blast
  have "r = ?r" using find_job_Some [OF r(1)] c by auto
  with r(2) have "reads (je_secrets e) db' ?r" by (simp add: reads_iff)
  with fresh(3) show ?thesis by (blast intro: micro.create)
qed simp

lemma job_tx_micro: "job_tx e db db' \<Longrightarrow> (micro (je_secrets e))\<^sup>*\<^sup>* db db'"
proof (induction rule: job_tx.induct)
  case (transition db jid n t res fc fm j db')
  then have "t \<notin> {Cancelling, Cancelled}" "transition_job_in e 0 db jid n t res fc fm = Inr (j, db')"
    by (simp_all add: transition_job_def bind_ensure_ok)
  then show ?case by (blast intro: transition_micro)
next
  case (recover db lim js db')
  then show ?case by (auto simp: recover_interrupted_jobs_def bind_ensure_ok intro: recover_all_micro)
qed (auto dest: create_micro claim_micro progress_micro step_micro request_micro acknowledge_micro decide_micro)

lemma micro_star_inv: "(micro S)\<^sup>*\<^sup>* db db' \<Longrightarrow> job_inv S db \<Longrightarrow> job_inv S db'"
  by (induction rule: rtranclp_induct) (auto intro: micro_inv)

lemma reachable_inv: "reachable_db S db \<Longrightarrow> job_inv S db"
  by (induction rule: reachable_db.induct) (auto intro: job_inv_empty micro_star_inv job_tx_micro)

section \<open>What a change leaves alone\<close>

lemma micro_terminal_frozen:
  assumes "micro S db db'" "job_inv S db" "r \<in> set (db_jobs db)" "terminal_job (jr_state r)"
  shows "r \<in> set (db_jobs db') \<and> events_of db' (jr_id r) = events_of db (jr_id r) \<and>
         steps_of db' (jr_id r) = steps_of db (jr_id r)"
  using assms(1)
proof cases
  case (create r' names rows ev)
  have "jr_id r' \<notin> jr_id ` set (db_jobs db)" using create by (simp add: created_def)
  with assms(3) have "jr_id r \<noteq> jr_id r'" by (metis image_eqI)
  with create assms(3) show ?thesis
    by (auto simp: created_def events_of_def steps_of_def new_steps_def filter_empty_conv)
next
  case (change old f g ev)
  have "r \<noteq> old" using change(5) assms(4) life_cycle_not_terminal by blast
  moreover have "distinct (map jr_id (db_jobs db))" using assms(2) by (simp add: job_inv_def)
  ultimately have "jr_id r \<noteq> jr_id old"
    using distinct_unique_key assms(3) committed_old [OF change(1)] by metis
  with committed_other [OF change(1) assms(3)] committed_events_of [OF change(1)]
    committed_steps_of(2) [OF change(1,6)] show ?thesis by simp
qed

lemma micro_star_terminal_frozen:
  assumes "(micro S)\<^sup>*\<^sup>* db db'" "job_inv S db" "r \<in> set (db_jobs db)" "terminal_job (jr_state r)"
  shows "r \<in> set (db_jobs db') \<and> events_of db' (jr_id r) = events_of db (jr_id r) \<and>
         steps_of db' (jr_id r) = steps_of db (jr_id r)"
  using assms(1)
proof (induction rule: rtranclp_induct)
  case base
  then show ?case using assms(3) by simp
next
  case (step y z)
  have "job_inv S y" by (rule micro_star_inv [OF step(1) assms(2)])
  with micro_terminal_frozen [OF step(2)] step(3) assms(4) show ?case by metis
qed

section \<open>How a change moves a job\<close>

lemma replay_from_append:
  "replay_from s (xs @ ys) = Option.bind (replay_from s xs) (\<lambda>t. replay_from t ys)"
  by (induction xs arbitrary: s) (auto split: option.splits)

definition job_moves :: "job_db \<Rightarrow> job_db \<Rightarrow> job_row \<Rightarrow> job_row \<Rightarrow> bool" where
  "job_moves db db' r r' \<longleftrightarrow> same_identity r r' \<and>
     (\<exists>evs. events_of db' (jr_id r) = events_of db (jr_id r) @ evs \<and>
            replay_from (jr_state r) evs = Some (jr_state r') \<and>
            jr_revision r' = jr_revision r + int (length evs))"

lemma same_identity_refl [simp]: "same_identity r r"
  by (simp add: same_identity_def)

lemma same_identity_trans: "same_identity r s \<Longrightarrow> same_identity s t \<Longrightarrow> same_identity r t"
  by (simp add: same_identity_def)

lemma job_moves_trans:
  assumes "job_moves db db1 r r1" "job_moves db1 db2 r1 r2"
  shows "job_moves db db2 r r2"
proof -
  have id: "jr_id r1 = jr_id r" using assms(1) by (simp add: job_moves_def same_identity_def)
  obtain e1 e2 where
    "events_of db1 (jr_id r) = events_of db (jr_id r) @ e1" "replay_from (jr_state r) e1 = Some (jr_state r1)"
    "jr_revision r1 = jr_revision r + int (length e1)"
    "events_of db2 (jr_id r) = events_of db1 (jr_id r) @ e2" "replay_from (jr_state r1) e2 = Some (jr_state r2)"
    "jr_revision r2 = jr_revision r1 + int (length e2)"
    using assms id by (auto simp: job_moves_def)
  then show ?thesis
    using assms same_identity_trans [of r r1 r2]
    unfolding job_moves_def by (intro conjI exI [of _ "e1 @ e2"]) (auto simp: replay_from_append)
qed

lemma micro_moves:
  assumes "micro S db db'" "job_inv S db" "r \<in> set (db_jobs db)"
  shows "\<exists>r' \<in> set (db_jobs db'). job_moves db db' r r'"
  using assms(1)
proof cases
  case (create n names rows ev)
  have "jr_id n \<notin> jr_id ` set (db_jobs db)" using create by (simp add: created_def)
  with assms(3) have "jr_id r \<noteq> jr_id n" by (metis image_eqI)
  then have "job_moves db db' r r"
    using create by (auto simp: job_moves_def created_def events_of_def)
  then show ?thesis using create(1) assms(3) by (auto simp: created_def)
next
  case (change old f g ev)
  have dist: "distinct (map jr_id (db_jobs db))" using assms(2) by (simp add: job_inv_def)
  show ?thesis
  proof (cases "r = old")
    case True
    have "f old \<in> set (db_jobs db')"
      using committed_jobs [OF change(1) dist] committed_old [OF change(1)] by auto
    moreover have "job_moves db db' r (f old)"
      using True change committed_events_of [OF change(1)] by (simp add: job_moves_def)
    ultimately show ?thesis by blast
  next
    case False
    then have ne: "jr_id r \<noteq> jr_id old"
      using distinct_unique_key [OF dist assms(3) committed_old [OF change(1)]] by blast
    have "job_moves db db' r r"
      using ne committed_events_of [OF change(1)] by (simp add: job_moves_def)
    then show ?thesis using committed_other [OF change(1) assms(3) ne] by blast
  qed
qed

lemma micro_star_moves:
  assumes "(micro S)\<^sup>*\<^sup>* db db'" "job_inv S db" "r \<in> set (db_jobs db)"
  shows "\<exists>r' \<in> set (db_jobs db'). job_moves db db' r r'"
  using assms(1)
proof (induction rule: rtranclp_induct)
  case base
  have "job_moves db db r r" by (simp add: job_moves_def)
  then show ?case using assms(3) by blast
next
  case (step y z)
  have "job_inv S y" by (rule micro_star_inv [OF step(1) assms(2)])
  with step micro_moves job_moves_trans show ?case by metis
qed

end
