(* ===== verification/Job_World.thy ===== *)
theory Job_World
  imports Job_Invariants
begin

text \<open>
  The job store as its clients see it over time.  A client talks to the store through
  single transactions, and other connections may commit between any two of them.  A
  \<open>store_world\<close> is the store with the number of calls made so far; \<open>store_env\<close> says for
  the \<open>n\<close>-th call what its clock, identifiers and faults are (\<open>sv_job\<close>) and what others have
  committed just before it (\<open>sv_others\<close>).

  An operation of a client is a function from a world to \<open>Inl\<close> of an exception or \<open>Inr\<close>
  of what it returns, with the world it leaves.  Every operation built from calls is a
  path of transactions (\<open>world_path\<close>), and what holds along every path holds of it.
\<close>

section \<open>Worlds and operations\<close>

record store_world =
  sw_db :: job_db
  sw_calls :: nat

record store_env =
  sv_job :: "nat \<Rightarrow> job_env"
  sv_others :: "nat \<Rightarrow> job_db \<Rightarrow> job_db"

type_synonym 'a store_op = "store_world \<Rightarrow> (job_error + 'a) \<times> store_world"

definition retW :: "'a \<Rightarrow> 'a store_op" where
  "retW x w = (Inr x, w)"

definition liftW :: "job_error + 'a \<Rightarrow> 'a store_op" where
  "liftW m w = (m, w)"

definition bindW :: "'a store_op \<Rightarrow> ('a \<Rightarrow> 'b store_op) \<Rightarrow> 'b store_op" where
  "bindW m f w = (case m w of (Inl err, w') \<Rightarrow> (Inl err, w') | (Inr x, w') \<Rightarrow> f x w')"

text \<open>\<open>except (JobConflictError, JobTransitionError)\<close> around \<open>m\<close>.\<close>

definition on_conflict :: "'a store_op \<Rightarrow> 'a store_op \<Rightarrow> 'a store_op" where
  "on_conflict m again w =
    (case m w of
       (Inl err, w') \<Rightarrow> if err \<in> {JobConflict, JobTransition} then again w' else (Inl err, w')
     | (Inr x, w') \<Rightarrow> (Inr x, w'))"

text \<open>One call of the repository: others first, then the transaction, rolled back if it raises.\<close>

definition repo_read :: "'x store_env_scheme \<Rightarrow> (job_env \<Rightarrow> job_db \<Rightarrow> job_error + 'a) \<Rightarrow> 'a store_op" where
  "repo_read e f w =
    (let n = sw_calls w; db = sv_others e n (sw_db w) in
     (f (sv_job e n) db, \<lparr>sw_db = db, sw_calls = Suc n\<rparr>))"

definition repo_write :: "'x store_env_scheme \<Rightarrow> (job_env \<Rightarrow> job_db \<Rightarrow> job_error + ('a \<times> job_db)) \<Rightarrow> 'a store_op" where
  "repo_write e f w =
    (let n = sw_calls w; db = sv_others e n (sw_db w) in
     case f (sv_job e n) db of
       Inl err \<Rightarrow> (Inl err, \<lparr>sw_db = db, sw_calls = Suc n\<rparr>)
     | Inr (x, db') \<Rightarrow> (Inr x, \<lparr>sw_db = db', sw_calls = Suc n\<rparr>))"

text \<open>
  A bounded retry: read the job, act on what was read, and start again if another writer
  was faster.  \<open>exhausted\<close> is what follows the last attempt.
\<close>

fun attempts ::
  "nat \<Rightarrow> unit store_op \<Rightarrow> 'x store_env_scheme \<Rightarrow> string \<Rightarrow> (durable_job \<Rightarrow> unit store_op) \<Rightarrow> unit store_op" where
  "attempts 0 exhausted e jid act = exhausted"
| "attempts (Suc k) exhausted e jid act =
     bindW (repo_read e (\<lambda>je db. get_job je db jid)) (\<lambda>cur.
     on_conflict (act cur) (attempts k exhausted e jid act))"

section \<open>Paths of transactions\<close>

inductive world_step :: "'x store_env_scheme \<Rightarrow> store_world \<Rightarrow> store_world \<Rightarrow> bool" for e where
  looked: "db = sv_others e (sw_calls w) (sw_db w) \<Longrightarrow> world_step e w \<lparr>sw_db = db, sw_calls = Suc (sw_calls w)\<rparr>"
| wrote: "job_tx (sv_job e (sw_calls w)) (sv_others e (sw_calls w) (sw_db w)) db \<Longrightarrow>
    world_step e w \<lparr>sw_db = db, sw_calls = Suc (sw_calls w)\<rparr>"

inductive_cases world_stepE: "world_step e w w'"

abbreviation world_path :: "'x store_env_scheme \<Rightarrow> store_world \<Rightarrow> store_world \<Rightarrow> bool" where
  "world_path e \<equiv> (world_step e)\<^sup>*\<^sup>*"

text \<open>An operation follows the path rules if every call of it does.\<close>

definition follows :: "'x store_env_scheme \<Rightarrow> 'a store_op \<Rightarrow> bool" where
  "follows e m \<longleftrightarrow> (\<forall>w. world_path e w (snd (m w)))"

named_theorems follows_intros \<open>operations that follow the path rules\<close>

lemma followsD: "follows e m \<Longrightarrow> m w = (x, w') \<Longrightarrow> world_path e w w'"
  by (metis follows_def snd_conv)

lemma follows_ret [follows_intros]: "follows e (retW x)"
  by (simp add: follows_def retW_def)

lemma follows_lift [follows_intros]: "follows e (liftW m)"
  by (simp add: follows_def liftW_def)

lemma follows_bind [follows_intros]:
  assumes "follows e m" "\<And>x. follows e (f x)"
  shows "follows e (bindW m f)"
  unfolding follows_def
proof
  fix w
  obtain x w1 where m: "m w = (x, w1)" by fastforce
  have "world_path e w w1" by (rule followsD [OF assms(1) m])
  moreover have "world_path e w1 (snd (f y w1))" for y using assms(2) by (simp add: follows_def)
  ultimately show "world_path e w (snd (bindW m f w))"
    using m by (auto simp: bindW_def split: sum.split intro: rtranclp_trans)
qed

lemma follows_conflict [follows_intros]:
  assumes "follows e m" "follows e again"
  shows "follows e (on_conflict m again)"
  unfolding follows_def
proof
  fix w
  obtain x w1 where m: "m w = (x, w1)" by fastforce
  have "world_path e w w1" by (rule followsD [OF assms(1) m])
  moreover have "world_path e w1 (snd (again w1))" using assms(2) by (simp add: follows_def)
  ultimately show "world_path e w (snd (on_conflict m again w))"
    using m by (auto simp: on_conflict_def split: sum.split intro: rtranclp_trans)
qed

lemma follows_read [follows_intros]: "follows e (repo_read e f)"
  by (auto simp: follows_def repo_read_def Let_def intro: world_step.looked)

lemma follows_attempts [follows_intros]:
  assumes "\<And>cur. follows e (act cur)" "follows e exhausted"
  shows "follows e (attempts k exhausted e jid act)"
  using assms(2) by (induction k) (auto intro!: follows_bind follows_conflict follows_read assms(1))

lemma follows_write:
  assumes "\<And>je db x db'. f je db = Inr (x, db') \<Longrightarrow> job_tx je db db'"
  shows "follows e (repo_write e f)"
  unfolding follows_def repo_write_def Let_def
  using assms by (auto split: sum.split prod.split intro!: r_into_rtranclp intro: world_step.intros)

lemma follows_if [follows_intros]: "follows e m \<Longrightarrow> follows e m' \<Longrightarrow> follows e (if b then m else m')"
  by simp

lemma follows_if_at [follows_intros]: "follows e m \<Longrightarrow> follows e m' \<Longrightarrow> follows e (\<lambda>w. if b then m w else m' w)"
  by (cases b) simp_all

lemma follows_raise [follows_intros]: "follows e (\<lambda>w. (x, w))"
  by (simp add: follows_def)

lemma follows_writes [follows_intros]:
  "follows e (repo_write e (\<lambda>je db. create_job je db ns jtype key fp payload artifacts steps))"
  "follows e (repo_write e (\<lambda>je db. transition_job je db jid n t res fc fm))"
  "follows e (repo_write e (\<lambda>je db. transition_step je db jid sid n m st))"
  "follows e (repo_write e (\<lambda>je db. request_cancellation je db jid n))"
  "follows e (repo_write e (\<lambda>je db. acknowledge_cancellation je db jid n res))"
  "follows e (repo_write e (\<lambda>je db. append_agent_decision_event je db jid key payload i ms))"
  by (rule follows_write, erule job_tx.intros)+

text \<open>\<open>try\<close> around \<open>m\<close> with a handler for every exception.\<close>

lemma follows_handler [follows_intros]:
  assumes "follows e m" "\<And>x. follows e (f x)" "\<And>err. follows e (h err)"
  shows "follows e (\<lambda>w. case m w of (Inr x, w') \<Rightarrow> f x w' | (Inl err, w') \<Rightarrow> h err w')"
  unfolding follows_def
proof
  fix w
  obtain x w1 where m: "m w = (x, w1)" by fastforce
  have "world_path e w w1" by (rule followsD [OF assms(1) m])
  moreover have "world_path e w1 (snd (f y w1))" "world_path e w1 (snd (h err w1))" for y err
    using assms(2,3) by (simp_all add: follows_def)
  ultimately show "world_path e w (snd (case m w of (Inr x, w') \<Rightarrow> f x w' | (Inl err, w') \<Rightarrow> h err w'))"
    using m by (auto split: sum.split intro: rtranclp_trans)
qed

lemma follows_snd: "follows e m \<Longrightarrow> world_path e w (snd (m w))"
  by (simp add: follows_def)

section \<open>What a path keeps\<close>

text \<open>
  The hypotheses on the rest of the system: every call sees the same forbidden values,
  and what others commit are transactions of the repository too.
\<close>

definition host_ok :: "string list \<Rightarrow> 'x store_env_scheme \<Rightarrow> bool" where
  "host_ok S e \<longleftrightarrow> (\<forall>n. je_secrets (sv_job e n) = S) \<and> (\<forall>n db. (micro S)\<^sup>*\<^sup>* db (sv_others e n db))"

lemma others_inv: "host_ok S e \<Longrightarrow> job_inv S db \<Longrightarrow> job_inv S (sv_others e n db)"
  unfolding host_ok_def using micro_star_inv by blast

lemma world_step_micro:
  assumes "host_ok S e" "world_step e w w'"
  shows "(micro S)\<^sup>*\<^sup>* (sw_db w) (sw_db w')"
  using assms(2)
proof cases
  case looked
  then show ?thesis using assms(1) by (simp add: host_ok_def)
next
  case (wrote db)
  have "(micro S)\<^sup>*\<^sup>* (sv_others e (sw_calls w) (sw_db w)) db"
    using job_tx_micro [OF wrote(2)] assms(1) by (simp add: host_ok_def)
  moreover have "(micro S)\<^sup>*\<^sup>* (sw_db w) (sv_others e (sw_calls w) (sw_db w))" using assms(1) by (simp add: host_ok_def)
  ultimately show ?thesis using wrote(1) by simp
qed

lemma world_path_micro:
  assumes "host_ok S e" "world_path e w w'"
  shows "(micro S)\<^sup>*\<^sup>* (sw_db w) (sw_db w')"
  using assms(2) by induction (auto intro: rtranclp_trans world_step_micro [OF assms(1)])

lemma world_path_inv: "host_ok S e \<Longrightarrow> world_path e w w' \<Longrightarrow> job_inv S (sw_db w) \<Longrightarrow> job_inv S (sw_db w')"
  by (blast intro: world_path_micro micro_star_inv)

section \<open>Successful operations\<close>

lemma bindW_ok: "bindW m f w = (Inr y, w'') \<longleftrightarrow> (\<exists>x w'. m w = (Inr x, w') \<and> f x w' = (Inr y, w''))"
  by (auto simp: bindW_def split: prod.splits sum.splits)

lemma liftW_ok: "liftW m w = (Inr y, w') \<longleftrightarrow> m = Inr y \<and> w' = w"
  by (auto simp: liftW_def)

lemma retW_ok: "retW x w = (Inr y, w') \<longleftrightarrow> y = x \<and> w' = w"
  by (auto simp: retW_def)

lemma repo_write_ok: "repo_write e f w = (Inr x, w') \<longleftrightarrow>
    (\<exists>db. f (sv_job e (sw_calls w)) (sv_others e (sw_calls w) (sw_db w)) = Inr (x, db) \<and>
       w' = \<lparr>sw_db = db, sw_calls = Suc (sw_calls w)\<rparr>)"
  by (auto simp: repo_write_def Let_def split: sum.splits prod.splits)

lemma repo_read_ok: "repo_read e f w = (Inr x, w') \<longleftrightarrow>
    f (sv_job e (sw_calls w)) (sv_others e (sw_calls w) (sw_db w)) = Inr x \<and>
    w' = \<lparr>sw_db = sv_others e (sw_calls w) (sw_db w), sw_calls = Suc (sw_calls w)\<rparr>"
  by (auto simp: repo_read_def Let_def)

lemmas durable_ok = bindW_ok liftW_ok retW_ok repo_write_ok repo_read_ok

lemma on_conflict_ok: "on_conflict m again w = (Inr y, w') \<Longrightarrow>
    m w = (Inr y, w') \<or> (\<exists>err w1. m w = (Inl err, w1) \<and> again w1 = (Inr y, w'))"
  by (auto simp: on_conflict_def split: prod.splits sum.splits if_splits)

end
