(* ===== verification/Agent_Durable.thy ===== *)
theory Agent_Durable
  imports Agent_Record Job_World
begin

text \<open>
  \<open>AgentDurableService\<close> of \<open>src/agent/durable.py\<close>: one bounded agent run owned by one durable
  job.  The operations live in the store world of \<open>Job_World\<close>; \<open>durable_env\<close> adds to the store
  environment what the service is constructed with and what its factories return.
\<close>

section \<open>The environment of the service\<close>

text \<open>A decision model; the service replaces one that is missing by \<open>_UnavailableDecisionModel\<close>.\<close>

record decision_model =
  dm_requires_provider :: bool
  dm_protected :: "string list"
  dm_decide :: "nat \<Rightarrow> decision_request \<Rightarrow> model_answer"

definition unavailable_model :: decision_model where
  "unavailable_model = \<lparr>dm_requires_provider = False, dm_protected = [], dm_decide = \<lambda>_ _. ModelUnavailable\<rparr>"

text \<open>
  \<open>de_model\<close> is \<open>None\<close> when the factory is absent, raises, or returns no model with a
  Boolean classification; \<open>de_registry\<close> is \<open>None\<close> when the registry factory raises.
  \<open>de_other_texts\<close> are the two Vietnamese texts.
\<close>

record durable_env = store_env +
  de_sha :: "string \<Rightarrow> string"
  de_protected :: "string list"
  de_model_id :: string
  de_provider :: "provider_identity option"
  de_registry :: "agent_tool list option"
  de_model :: "string \<Rightarrow> decision_model option"
  de_execute :: "nat \<Rightarrow> string \<Rightarrow> pyval \<Rightarrow> string + tool_data"
  de_other_texts :: "string \<times> string"

section \<open>Identities\<close>

definition agent_job_type :: string where "agent_job_type = ''bounded_agent_run''"
definition agent_step_name :: string where "agent_step_name = ''execute_agent''"

definition run_id_of :: "string \<Rightarrow> job_error + string" where
  "run_id_of jid = (if starts_with ''job_'' jid then Inr (''agent_'' @ drop 4 jid) else Inl JobData)"

definition run_id_char :: "char \<Rightarrow> bool" where
  "run_id_char c \<longleftrightarrow> is_alnum c \<or> c = CHR ''_'' \<or> c = CHR ''-''"

definition job_id_of :: "string \<Rightarrow> job_error + string" where
  "job_id_of rid =
    (let s = drop 6 rid in
     if starts_with ''agent_'' rid \<and> 1 \<le> length s \<and> length s \<le> 122 \<and> list_all run_id_char s
     then Inr (''job_'' @ s) else Inl JobNotFound)"

section \<open>Creation\<close>

record run_request =
  rq_goal :: string
  rq_locale :: string
  rq_tools :: "string list"
  rq_provider_tools :: bool
  rq_provider_decisions :: bool
  rq_require_observation :: bool
  rq_reject_duplicates :: bool
  rq_limits :: agent_limits
  rq_research :: "research_config option"

definition valid_request :: "run_request \<Rightarrow> bool" where
  "valid_request q \<longleftrightarrow>
     agent_goal (rq_goal q) \<noteq> None \<and> \<not> list_ex (\<lambda>c. ord c < 32 \<or> ord c = 127) (rq_goal q) \<and>
     rq_locale q \<in> {''en'', ''vi''} \<and> distinct (rq_tools q) \<and> set (rq_tools q) \<subseteq> set tool_names \<and>
     length (rq_tools q) \<le> 4 \<and> valid_limits (rq_limits q) \<and>
     (case rq_research q of None \<Rightarrow> True
      | Some c \<Rightarrow> valid_config c \<and> validate_research_limits c (rq_limits q))"

text \<open>\<open>body.model_dump(mode="json")\<close>.\<close>

definition request_value :: "run_request \<Rightarrow> pyval" where
  "request_value q = field_dict
     [(''goal'', PStr (rq_goal q)), (''locale'', PStr (rq_locale q)), (''allowed_tools'', PList (map PStr (rq_tools q))),
      (''allow_provider_tool_execution'', PBool (rq_provider_tools q)),
      (''allow_decision_provider_execution'', PBool (rq_provider_decisions q)),
      (''require_observation_for_final'', PBool (rq_require_observation q)),
      (''reject_duplicate_calls'', PBool (rq_reject_duplicates q)),
      (''limits'', limits_value (rq_limits q)),
      (''research'', case rq_research q of None \<Rightarrow> PNone | Some c \<Rightarrow> config_value c)]"

text \<open>\<open>_plan\<close>: the limits pass through a second validation of the body, which gives them back.\<close>

definition plan_fields_of :: "durable_env \<Rightarrow> run_request \<Rightarrow> agent_plan" where
  "plan_fields_of e q =
    \<lparr>pl_model_id = de_model_id e, pl_provider = de_provider e, pl_goal = strip (rq_goal q), pl_locale = rq_locale q,
     pl_tools = rq_tools q, pl_provider_tools = rq_provider_tools q, pl_provider_decisions = rq_provider_decisions q,
     pl_require_observation = rq_require_observation q, pl_reject_duplicates = rq_reject_duplicates q,
     pl_limits = rq_limits q, pl_research = rq_research q\<rparr>"

definition make_plan :: "durable_env \<Rightarrow> run_request \<Rightarrow> agent_plan option" where
  "make_plan e q = (let p = plan_fields_of e q in check (valid_plan (de_sha e) p) p)"

definition plan_fingerprint :: "durable_env \<Rightarrow> agent_plan \<Rightarrow> string" where
  "plan_fingerprint e p = de_sha e (canonical_text (plan_value p))"

section \<open>Views\<close>

record run_step =
  rt_state :: step_state
  rt_revision :: int
  rt_started :: "string option"
  rt_finished :: "string option"

record run_view =
  rv_run :: string
  rv_state :: job_state
  rv_revision :: int
  rv_fingerprint :: string
  rv_frozen :: agent_plan
  rv_created :: string
  rv_updated :: string
  rv_started :: "string option"
  rv_finished :: "string option"
  rv_cancel_requested :: "string option"
  rv_current :: "int option"
  rv_total :: "int option"
  rv_step :: run_step
  rv_result :: "durable_result option"
  rv_failure :: "(string \<times> string) option"

definition frozen :: "durable_env \<Rightarrow> durable_job \<Rightarrow> job_error + agent_plan" where
  "frozen e j =
    bindE (of_opt JobData (parse_plan (de_sha e) (dj_payload j))) (\<lambda>p.
    bindE (ensure (plan_fingerprint e p = dj_fingerprint j) JobData) (\<lambda>_.
    bindE (ensure (map js_name (dj_steps j) = [agent_step_name]) JobData) (\<lambda>_.
    Inr p)))"

definition stored_result :: "durable_job \<Rightarrow> job_error + durable_result option" where
  "stored_result j =
    (case dj_result j of None \<Rightarrow> Inr None
     | Some v \<Rightarrow>
         bindE (ensure (utf8_len (canonical_text v) \<le> max_agent_result_bytes) JobData) (\<lambda>_.
         bindE (of_opt JobData (parse_result v)) (\<lambda>d. Inr (Some d))))"

definition view_of :: "durable_env \<Rightarrow> durable_job \<Rightarrow> job_error + run_view" where
  "view_of e j =
    bindE (frozen e j) (\<lambda>p.
    bindE (stored_result j) (\<lambda>d.
    bindE (of_opt OtherError (hd_opt (dj_steps j))) (\<lambda>s.
    bindE (run_id_of (dj_id j)) (\<lambda>rid.
    Inr \<lparr>rv_run = rid, rv_state = dj_state j, rv_revision = dj_revision j, rv_fingerprint = dj_fingerprint j,
         rv_frozen = p, rv_created = dj_created j, rv_updated = dj_updated j, rv_started = dj_started j,
         rv_finished = dj_finished j, rv_cancel_requested = dj_cancel_requested j,
         rv_current = pg_current (dj_progress j), rv_total = pg_total (dj_progress j),
         rv_step = \<lparr>rt_state = js_state s, rt_revision = js_revision s, rt_started = js_started s, rt_finished = js_finished s\<rparr>,
         rv_result = d,
         rv_failure = (case (dj_failure_code j, dj_failure_message j) of
            (Some c, Some m) \<Rightarrow> if c \<noteq> [] \<and> m \<noteq> [] then Some (c, m) else None | _ \<Rightarrow> None)\<rparr>))))"

section \<open>Requests of a client\<close>

definition create_run :: "durable_env \<Rightarrow> run_request \<Rightarrow> string \<Rightarrow> run_view store_op" where
  "create_run e q key =
    bindW (liftW (ensure (\<not> contains_protected_value (request_value q) (de_protected e)) ValueErr)) (\<lambda>_.
    bindW (liftW (of_opt ValueErr (make_plan e q))) (\<lambda>p.
    bindW (repo_write e (\<lambda>je db. create_job je db NsAgent agent_job_type key (plan_fingerprint e p) (plan_value p) []
             [agent_step_name])) (\<lambda>j.
    liftW (view_of e j))))"

definition owned_job :: "durable_env \<Rightarrow> string \<Rightarrow> durable_job store_op" where
  "owned_job e rid =
    bindW (liftW (job_id_of rid)) (\<lambda>jid.
    bindW (repo_read e (\<lambda>je db. get_job je db jid)) (\<lambda>j.
    bindW (liftW (ensure (dj_namespace j = NsAgent \<and> dj_type j = agent_job_type) JobNotFound)) (\<lambda>_.
    retW j)))"

definition get_run :: "durable_env \<Rightarrow> string \<Rightarrow> run_view store_op" where
  "get_run e rid = bindW (owned_job e rid) (\<lambda>j. liftW (view_of e j))"

text \<open>A page: its items, the total, the page number and size.\<close>

type_synonym run_page = "run_view list \<times> nat \<times> int \<times> int"

definition list_runs :: "durable_env \<Rightarrow> job_state option \<Rightarrow> int \<Rightarrow> int \<Rightarrow> run_page store_op" where
  "list_runs e st page per =
    bindW (repo_read e (\<lambda>je db. list_jobs je db (Some NsAgent) st per ((page - 1) * per))) (\<lambda>rows.
    bindW (liftW (mapE (view_of e) (jp_items rows))) (\<lambda>items.
    retW (items, jp_total rows, page, per)))"

record run_outcome =
  ro_run :: string
  ro_state :: job_state
  ro_revision :: int
  ro_result :: "durable_result option"
  ro_failure :: "(string \<times> string) option"

definition run_result :: "durable_env \<Rightarrow> string \<Rightarrow> run_outcome store_op" where
  "run_result e rid = bindW (get_run e rid) (\<lambda>v. retW
     \<lparr>ro_run = rv_run v, ro_state = rv_state v, ro_revision = rv_revision v, ro_result = rv_result v,
      ro_failure = rv_failure v\<rparr>)"

definition cancel_run :: "durable_env \<Rightarrow> string \<Rightarrow> int \<Rightarrow> run_view store_op" where
  "cancel_run e rid expected =
    bindW (owned_job e rid) (\<lambda>j.
    bindW (repo_write e (\<lambda>je db. request_cancellation je db (dj_id j) expected)) (\<lambda>j'.
    liftW (view_of e j')))"

record event_view =
  vw_run :: string
  vw_event :: string
  vw_seq :: nat
  vw_type :: string
  vw_state :: "job_state option"
  vw_reason :: "string option"
  vw_at :: string
  vw_summary :: "event_summary option"

definition view_event :: "string \<Rightarrow> agent_job_event \<Rightarrow> job_error + event_view" where
  "view_event rid r =
    bindE (if ae_payload r = PDict [] then Inr None
           else bindE (of_opt JobData (parse_event (ae_payload r))) (\<lambda>s. Inr (Some s))) (\<lambda>s.
    Inr \<lparr>vw_run = rid, vw_event = ae_id r, vw_seq = ae_seq r, vw_type = ae_type r, vw_state = ae_state r,
         vw_reason = ae_reason r, vw_at = ae_at r, vw_summary = s\<rparr>)"

definition run_events :: "durable_env \<Rightarrow> string \<Rightarrow> int \<Rightarrow> event_view list store_op" where
  "run_events e rid after =
    bindW (owned_job e rid) (\<lambda>j.
    bindW (repo_read e (\<lambda>je db. list_agent_events je db (dj_id j) after 100)) (\<lambda>rows.
    liftW (mapE (view_event rid) rows)))"

section \<open>The environment of the orchestrator\<close>

text \<open>\<open>_DurableCancellationSignal.is_set\<close>, and \<open>_record_trace\<close> as the trace sink.\<close>

definition durable_cancelled :: "durable_env \<Rightarrow> string \<Rightarrow> store_world \<Rightarrow> bool option \<times> store_world" where
  "durable_cancelled e jid w =
    (case repo_read e (\<lambda>je db. get_job je db jid) w of
       (Inl _, w') \<Rightarrow> (None, w')
     | (Inr j, w') \<Rightarrow> (Some (dj_state j \<noteq> Running), w'))"

definition record_trace ::
  "durable_env \<Rightarrow> string \<Rightarrow> nat \<Rightarrow> trace_entry \<Rightarrow> nat \<Rightarrow> nat \<Rightarrow> agent_job_event store_op" where
  "record_trace e jid max_steps t steps tools =
    (let s = summary_of_entry t steps tools in
     bindW (liftW (ensure (valid_event s) ValueErr)) (\<lambda>_.
     repo_write e (\<lambda>je db. append_agent_decision_event je db jid (decision_key (int (te_index t))) (event_value s)
       (int steps) (int max_steps))))"

definition durable_sink ::
  "durable_env \<Rightarrow> string \<Rightarrow> nat \<Rightarrow> trace_entry \<Rightarrow> nat \<Rightarrow> nat \<Rightarrow> store_world \<Rightarrow> bool \<times> store_world" where
  "durable_sink e jid max_steps t steps tools w =
    (case record_trace e jid max_steps t steps tools w of (out, w') \<Rightarrow> (is_ok out, w'))"

definition durable_agent_env :: "durable_env \<Rightarrow> decision_model \<Rightarrow> string \<Rightarrow> nat \<Rightarrow> store_world agent_env" where
  "durable_agent_env e m jid max_steps =
    \<lparr>ev_decide = dm_decide m, ev_execute = de_execute e, ev_cancelled = (\<lambda>_ _. durable_cancelled e jid),
     ev_sink = durable_sink e jid max_steps\<rparr>"

section \<open>Finishing\<close>

definition finish_once ::
  "durable_env \<Rightarrow> string \<Rightarrow> 'w agent_result \<Rightarrow> durable_job \<Rightarrow> unit store_op" where
  "finish_once e jid r cur =
    (if dj_state cur = Cancelling then
       bindW (liftW (of_opt ValueErr (durable_result_of r True))) (\<lambda>d.
       bindW (repo_write e (\<lambda>je db. acknowledge_cancellation je db jid (dj_revision cur) (Some (result_value d)))) (\<lambda>_.
       retW ()))
     else if dj_state cur \<noteq> Running then retW ()
     else
       bindW (liftW (of_opt ValueErr (durable_result_of r False))) (\<lambda>d.
       if res_status r = Completed then
         bindW (liftW (of_opt OtherError (hd_opt (dj_steps cur)))) (\<lambda>s.
         bindW (repo_write e (\<lambda>je db. transition_step je db jid (js_id s) (dj_revision cur) (js_revision s) SSucceeded)) (\<lambda>cur'.
         bindW (repo_write e (\<lambda>je db. transition_job je db jid (dj_revision cur') Succeeded (Some (result_value d)) None None)) (\<lambda>_.
         retW ())))
       else
         bindW (repo_write e (\<lambda>je db. transition_job je db jid (dj_revision cur) Failed (Some (result_value d))
           (Some (case res_failure r of Some (dmn, c) \<Rightarrow> c | None \<Rightarrow> ''agent_execution_failed''))
           (Some ''Agent execution ended without a completed answer.''))) (\<lambda>_.
         retW ())))"

definition finish :: "nat \<Rightarrow> durable_env \<Rightarrow> string \<Rightarrow> 'w agent_result \<Rightarrow> unit store_op" where
  "finish k e jid r = attempts k (liftW (Inl JobConflict)) e jid (finish_once e jid r)"

definition abort_once :: "durable_env \<Rightarrow> string \<Rightarrow> durable_job \<Rightarrow> unit store_op" where
  "abort_once e jid cur =
    (if dj_state cur = Cancelling then
       bindW (repo_write e (\<lambda>je db. acknowledge_cancellation je db jid (dj_revision cur) None)) (\<lambda>_. retW ())
     else if dj_state cur = Running then
       bindW (repo_write e (\<lambda>je db. transition_job je db jid (dj_revision cur) Failed None
         (Some ''agent_execution_failed'') (Some ''Agent execution stopped before terminal result commit.''))) (\<lambda>_. retW ())
     else retW ())"

definition abort :: "nat \<Rightarrow> durable_env \<Rightarrow> string \<Rightarrow> unit store_op" where
  "abort k e jid = attempts k (retW ()) e jid (abort_once e jid)"

section \<open>Execution\<close>

definition durable_model :: "durable_env \<Rightarrow> agent_plan \<Rightarrow> decision_model" where
  "durable_model e p = (case de_model e (pl_model_id p) of None \<Rightarrow> unavailable_model | Some m \<Rightarrow> m)"

definition durable_orchestrator :: "durable_env \<Rightarrow> agent_plan \<Rightarrow> agent_tool list \<Rightarrow> orchestrator" where
  "durable_orchestrator e p tools =
    \<lparr>oc_registry = tools, oc_requires_provider = dm_requires_provider (durable_model e p), oc_limits = pl_limits p,
     oc_policy = \<lparr>rp_allow_decision_provider = pl_provider_decisions p,
                 rp_require_observation = pl_require_observation p,
                 rp_reject_duplicates = pl_reject_duplicates p\<rparr>,
     oc_research = pl_research p, oc_protected = dedup (de_protected e @ dm_protected (durable_model e p)),
     oc_sha = de_sha e\<rparr>"

definition durable_context :: "durable_env \<Rightarrow> agent_plan \<Rightarrow> exec_context" where
  "durable_context e p =
    \<lparr>cx_allowed = pl_tools p, cx_provider = pl_provider_tools p,
     cx_texts = (if pl_locale p = ''vi'' then de_other_texts e else english_texts)\<rparr>"

text \<open>\<open>AgentExecutionContext.__post_init__\<close>, for the request identity; the other checks hold of every plan.\<close>

definition request_identity :: "string \<Rightarrow> bool" where
  "request_identity rid \<longleftrightarrow> 1 \<le> length rid \<and> length rid \<le> 100 \<and> list_all run_id_char rid"

definition execute_body :: "durable_env \<Rightarrow> durable_job \<Rightarrow> string \<Rightarrow> unit store_op" where
  "execute_body e job rid =
    bindW (liftW (frozen e job)) (\<lambda>p.
    bindW (liftW (of_opt OtherError (hd_opt (dj_steps job)))) (\<lambda>s.
    bindW (repo_write e (\<lambda>je db. transition_step je db (dj_id job) (js_id s) (dj_revision job) (js_revision s) SRunning)) (\<lambda>job'.
    bindW (liftW (of_opt OtherError (de_registry e))) (\<lambda>tools.
    let oc = durable_orchestrator e p tools in
    bindW (liftW (ensure (orchestrator_ok oc) ValueErr)) (\<lambda>_.
    bindW (liftW (ensure (request_identity rid) ValueErr)) (\<lambda>_ w.
    (case run oc (durable_context e p)
            (durable_agent_env e (durable_model e p) (dj_id job') (al_max_steps (pl_limits p))) (pl_goal p) w of
       Inl w' \<Rightarrow> (Inl OtherError, w')
     | Inr r \<Rightarrow> finish 3 e (dj_id job') r (res_world r))))))))"

text \<open>The job keeps its identity when its step starts, so the handler can use the claimed one's.\<close>

definition execute_claimed :: "durable_env \<Rightarrow> durable_job \<Rightarrow> run_view store_op" where
  "execute_claimed e job =
    bindW (liftW (ensure (dj_namespace job = NsAgent \<and> dj_type job = agent_job_type \<and> dj_state job = Running) JobTransition)) (\<lambda>_.
    bindW (liftW (run_id_of (dj_id job))) (\<lambda>rid w.
    (case execute_body e job rid w of
       (Inr _, w') \<Rightarrow> get_run e rid w'
     | (Inl _, w') \<Rightarrow> bindW (abort 3 e (dj_id job)) (\<lambda>_. get_run e rid) w')))"

definition run_durable :: "durable_env \<Rightarrow> string \<Rightarrow> run_view store_op" where
  "run_durable e rid =
    bindW (owned_job e rid) (\<lambda>j.
    if dj_state j \<noteq> Queued then liftW (view_of e j)
    else (\<lambda>w.
      case repo_write e (\<lambda>je db. transition_job je db (dj_id j) (dj_revision j) Running None None None) w of
        (Inl err, w') \<Rightarrow> if err \<in> {JobConflict, JobTransition} then get_run e rid w' else (Inl err, w')
      | (Inr j', w') \<Rightarrow> execute_claimed e j' w'))"

end
