(* ===== verification/Agent_Invariants.thy ===== *)
theory Agent_Invariants
  imports Agent_Orchestrator
begin

text \<open>
  The invariant of the orchestrator's loop.  \<open>st_ok\<close> holds of the state at every
  point where a round may end, \<open>head_ok\<close> where a round begins; \<open>verdict\<close> says what
  the result claims.  \<open>agent_round_cases\<close> reduces a round to one of its ends.
\<close>

section \<open>Ends of the operations\<close>

lemma record_entry_ok:
  "record_entry env t st = Inr st' \<Longrightarrow> st' = st\<lparr>st_trace := st_trace st @ [t], st_world := st_world st'\<rparr>"
  by (auto simp: record_entry_def split: prod.splits if_splits)

lemma poll_ok: "poll env k st = Inr (c, st') \<Longrightarrow> st' = st\<lparr>st_world := st_world st'\<rparr>"
  by (auto simp: poll_def split: prod.splits option.splits)

lemma refresh_ok:
  assumes "refresh_research st = Inr st'"
  shows "\<exists>sm v. st' = st\<lparr>st_summary := sm, st_view := v\<rparr> \<and>
     (case st_session st of None \<Rightarrow> sm = st_summary st | Some s \<Rightarrow> sm = summary s)"
proof (cases "st_session st")
  case None
  with assms have "st' = st\<lparr>st_summary := st_summary st, st_view := st_view st\<rparr>" by (simp add: refresh_research_def)
  with None show ?thesis by (intro exI [of _ "st_summary st"] exI [of _ "st_view st"]) simp
next
  case (Some s)
  with assms show ?thesis by (auto simp: refresh_research_def bindE_ok)
qed

lemma find_tool_ok: "find_tool ts name = Some t \<Longrightarrow> t \<in> set ts \<and> at_name t = name"
  unfolding find_tool_def by (blast dest: find_SomeD)

lemma admit_ok:
  assumes "admit oc cx st name args obj = Inr (t, body)"
  shows "find_tool (oc_registry oc) name = Some t" "name \<in> set (cx_allowed cx)" "at_provider t \<longrightarrow> cx_provider cx"
    "at_validate t args = Some body" "st_session st = None \<longrightarrow> obj = None"
    "case st_session st of None \<Rightarrow> True | Some s \<Rightarrow> before_tool (oc_sha oc) s obj (at_name t) body = None"
    "st_tool_calls st < al_max_tool_calls (oc_limits oc)"
    "count_at (st_per_tool st) (at_name t) < count_at (al_per_tool (oc_limits oc)) (at_name t)"
    "length (st_observations st) < al_max_observations (oc_limits oc)"
    "rp_reject_duplicates (oc_policy oc) \<longrightarrow> oc_sha oc (call_text (at_name t) body) \<notin> set (st_seen st)"
proof -
  from assms obtain u where
    f: "find_tool (oc_registry oc) name = Some t" "at_name t \<in> set (cx_allowed cx)" "\<not> (at_provider t \<and> \<not> cx_provider cx)"
    and g: "at_validate t args = Some body" "\<not> (st_session st = None \<and> obj \<noteq> None)"
    "(case st_session st of None \<Rightarrow> Inr ()
           | Some s \<Rightarrow> (case before_tool (oc_sha oc) s obj (at_name t) body of
               None \<Rightarrow> Inr () | Some code \<Rightarrow> Inl (InvalidDecision, DomPolicy, code))) = (Inr u :: rejection + unit)"
    "st_tool_calls st < al_max_tool_calls (oc_limits oc)"
    "count_at (st_per_tool st) (at_name t) < count_at (al_per_tool (oc_limits oc)) (at_name t)"
    "length (st_observations st) < al_max_observations (oc_limits oc)"
    "\<not> (rp_reject_duplicates (oc_policy oc) \<and> oc_sha oc (call_text (at_name t) body) \<in> set (st_seen st))"
    unfolding admit_def
    by (elim bindE_okE) (simp only: ensure_ok of_opt_ok sum.inject prod.inject, blast)
  show "find_tool (oc_registry oc) name = Some t" by (rule f(1))
  show "name \<in> set (cx_allowed cx)" using f find_tool_ok [OF f(1)] by simp
  show "case st_session st of None \<Rightarrow> True | Some s \<Rightarrow> before_tool (oc_sha oc) s obj (at_name t) body = None"
    using g(3) by (auto split: option.splits)
  show "at_provider t \<longrightarrow> cx_provider cx" "at_validate t args = Some body" "st_session st = None \<longrightarrow> obj = None"
    "st_tool_calls st < al_max_tool_calls (oc_limits oc)"
    "count_at (st_per_tool st) (at_name t) < count_at (al_per_tool (oc_limits oc)) (at_name t)"
    "length (st_observations st) < al_max_observations (oc_limits oc)"
    "rp_reject_duplicates (oc_policy oc) \<longrightarrow> oc_sha oc (call_text (at_name t) body) \<notin> set (st_seen st)"
    using f g by auto
qed

section \<open>The invariant\<close>

definition budgets_ok :: "orchestrator \<Rightarrow> 'w agent_state \<Rightarrow> bool" where
  "budgets_ok oc st \<longleftrightarrow>
     st_steps st \<le> st_decisions st \<and> st_tool_calls st \<le> st_steps st \<and>
     st_tool_calls st \<le> al_max_tool_calls (oc_limits oc) \<and>
     map fst (st_per_tool st) = tool_names \<and> sum_list (map snd (st_per_tool st)) = st_tool_calls st \<and>
     (\<forall>n. count_at (st_per_tool st) n \<le> count_at (al_per_tool (oc_limits oc)) n) \<and>
     length (st_observations st) \<le> al_max_observations (oc_limits oc)"

definition observations_ok :: "orchestrator \<Rightarrow> 'w agent_state \<Rightarrow> bool" where
  "observations_ok oc st \<longleftrightarrow>
     (\<forall>ob \<in> set (st_observations st).
        int (observation_bytes ob) \<le> al_max_observation_bytes (oc_limits oc) \<and>
        (\<forall>r \<in> set (ob_evidence ob). canonical_record r) \<and>
        (case ob_search ob of None \<Rightarrow> True | Some s \<Rightarrow> canonical_search_id s) \<and>
        \<not> contains_protected_value (observation_value ob) (oc_protected oc)) \<and>
     st_bytes st = int (sum_list (map observation_bytes (st_observations st))) \<and>
     st_bytes st \<le> al_max_total_bytes (oc_limits oc)"

definition trace_ok :: "'w agent_state \<Rightarrow> bool" where
  "trace_ok st \<longleftrightarrow>
     map te_index (st_trace st) = [1..<Suc (length (st_trace st))] \<and> length (st_trace st) \<le> st_decisions st \<and>
     (\<forall>t \<in> set (butlast (st_trace st)). te_outcome t = ''observed'')"

definition st_ok :: "orchestrator \<Rightarrow> 'w agent_state \<Rightarrow> bool" where
  "st_ok oc st \<longleftrightarrow> budgets_ok oc st \<and> observations_ok oc st \<and> trace_ok st"

definition session_ok :: "orchestrator \<Rightarrow> 'w agent_state \<Rightarrow> bool" where
  "session_ok oc st \<longleftrightarrow>
     (case st_session st of
        None \<Rightarrow> oc_research oc = None \<and> st_summary st = None
      | Some s \<Rightarrow> oc_research oc = Some (se_config s) \<and> session_inv s \<and> length (se_actions s) \<le> st_tool_calls st \<and>
          st_summary st = Some (raw_summary s))"

definition head_ok :: "orchestrator \<Rightarrow> 'w agent_state \<Rightarrow> bool" where
  "head_ok oc st \<longleftrightarrow> st_ok oc st \<and> session_ok oc st \<and>
     st_steps st = st_decisions st \<and> length (st_trace st) = st_decisions st \<and>
     (\<forall>t \<in> set (st_trace st). te_outcome t = ''observed'')"

text \<open>What an end of the run claims.\<close>

definition verdict ::
  "orchestrator \<Rightarrow> exec_context \<Rightarrow> 'w agent_state \<Rightarrow> agent_status \<Rightarrow> (failure_domain \<times> string) option
     \<Rightarrow> string option \<Rightarrow> evidence_ref list \<Rightarrow> bool" where
  "verdict oc cx st status failure answer refs \<longleftrightarrow>
     (if status = Completed then
        failure = None \<and> st_trace st \<noteq> [] \<and> te_outcome (last (st_trace st)) = ''completed'' \<and>
        (\<exists>a u. answer = Some (final_answer cx st a) \<and> final_failure oc st a refs u = None \<and>
               length a \<le> 4000 \<and> length refs \<le> 20 \<and> distinct refs)
      else answer = None \<and> refs = [] \<and> (\<exists>d c. failure = Some (d, c) \<and> c \<in> set failure_codes))"

definition ended :: "orchestrator \<Rightarrow> exec_context \<Rightarrow> nat \<Rightarrow> 'w agent_result \<Rightarrow> bool" where
  "ended oc cx n r \<longleftrightarrow>
     (\<exists>st status failure answer refs. r = result_of st status failure answer refs \<and>
        st_ok oc st \<and> session_ok oc st \<and> st_decisions st \<le> n \<and> verdict oc cx st status failure answer refs)"

lemma endedI_failed:
  assumes "st_ok oc st" "session_ok oc st" "st_decisions st \<le> n" "status \<noteq> Completed" "code \<in> set failure_codes"
  shows "ended oc cx n (failed st status dmn code)"
  unfolding ended_def failed_def verdict_def using assms by (intro exI conjI refl) auto

section \<open>Steps that keep the invariant\<close>

lemma st_ok_world [simp]: "st_ok oc (st\<lparr>st_world := w\<rparr>) = st_ok oc st"
  by (simp add: st_ok_def budgets_ok_def observations_ok_def trace_ok_def)

lemma st_ok_decide: "head_ok oc st \<Longrightarrow> st_ok oc (st\<lparr>st_decisions := st_decisions st + 1\<rparr>)"
  by (auto simp: head_ok_def st_ok_def budgets_ok_def observations_ok_def trace_ok_def)

text \<open>Between the decision and the end of the round the trace holds the entries of the earlier rounds.\<close>

definition mid_ok :: "orchestrator \<Rightarrow> 'w agent_state \<Rightarrow> bool" where
  "mid_ok oc st \<longleftrightarrow> st_ok oc st \<and> session_ok oc st \<and> Suc (length (st_trace st)) = st_decisions st \<and>
     (\<forall>t \<in> set (st_trace st). te_outcome t = ''observed'')"

lemma session_ok_updates [simp]:
  "session_ok oc (st\<lparr>st_decisions := d\<rparr>) = session_ok oc st"
  "session_ok oc (st\<lparr>st_steps := k\<rparr>) = session_ok oc st"
  "session_ok oc (st\<lparr>st_trace := tr\<rparr>) = session_ok oc st"
  "session_ok oc (st\<lparr>st_world := w\<rparr>) = session_ok oc st"
  by (cases "st_session st"; simp add: session_ok_def)+

lemma mid_ok_world [simp]: "mid_ok oc (st\<lparr>st_world := w\<rparr>) = mid_ok oc st"
  by (simp add: mid_ok_def)

lemma head_ok_world [simp]: "head_ok oc (st\<lparr>st_world := w\<rparr>) = head_ok oc st"
  by (simp add: head_ok_def)

lemma mid_ok_decide: "head_ok oc st \<Longrightarrow> mid_ok oc (st\<lparr>st_decisions := st_decisions st + 1\<rparr>)"
  using st_ok_decide [of oc st] by (auto simp: mid_ok_def head_ok_def)

lemma mid_ok_step: "mid_ok oc st \<Longrightarrow> st_steps st < st_decisions st \<Longrightarrow> mid_ok oc (st\<lparr>st_steps := st_steps st + 1\<rparr>)"
  by (auto simp: mid_ok_def st_ok_def budgets_ok_def observations_ok_def trace_ok_def simp del: upt_Suc)

lemma mid_record:
  assumes "mid_ok oc st" "te_index t = st_decisions st"
  shows "st_ok oc (st\<lparr>st_trace := st_trace st @ [t], st_world := w\<rparr>)"
    "session_ok oc (st\<lparr>st_trace := st_trace st @ [t], st_world := w\<rparr>)"
proof -
  have "[1..<Suc (Suc (length (st_trace st)))] = [1..<Suc (length (st_trace st))] @ [Suc (length (st_trace st))]" by simp
  with assms have "trace_ok (st\<lparr>st_trace := st_trace st @ [t]\<rparr>)"
    by (simp add: mid_ok_def st_ok_def trace_ok_def del: upt_Suc)
  with assms have "st_ok oc (st\<lparr>st_trace := st_trace st @ [t]\<rparr>)"
    by (simp_all add: mid_ok_def st_ok_def budgets_ok_def observations_ok_def)
  then show "st_ok oc (st\<lparr>st_trace := st_trace st @ [t], st_world := w\<rparr>)"
    using st_ok_world [of oc w "st\<lparr>st_trace := st_trace st @ [t]\<rparr>"] by simp
  show "session_ok oc (st\<lparr>st_trace := st_trace st @ [t], st_world := w\<rparr>)"
    using session_ok_updates(4) [of oc w "st\<lparr>st_trace := st_trace st @ [t]\<rparr>"] assms(1) by (simp add: mid_ok_def)
qed

lemma entry_index [simp]: "te_index (entry st k tn ob a oc r f) = st_decisions st"
  "te_outcome (entry st k tn ob a oc r f) = oc"
  by (simp_all add: entry_def)

text \<open>The common end: an entry is recorded and the round fails.\<close>

lemma record_fail:
  assumes "mid_ok oc st" "record_entry env t st = Inr st'" "te_index t = st_decisions st"
    and "status \<noteq> Completed" "code \<in> set failure_codes" "st_decisions st \<le> n"
  shows "ended oc cx n (failed st' status dmn code)"
proof -
  obtain w where st': "st' = st\<lparr>st_trace := st_trace st @ [t], st_world := w\<rparr>"
    using record_entry_ok [OF assms(2)] by blast
  show ?thesis
    unfolding st' by (rule endedI_failed) (use assms mid_record [OF assms(1,3)] in auto)
qed

section \<open>The final decision\<close>

lemma final_failure_trace [simp]: "final_failure oc (st\<lparr>st_trace := tr, st_world := w\<rparr>) a refs u = final_failure oc st a refs u"
  by (simp add: final_failure_def cong: option.case_cong)

lemma validate_final_codes: "validate_final p obs a refs = Some c \<Longrightarrow> c \<in> set failure_codes"
  by (auto simp: validate_final_def failure_codes_def split: if_splits)

lemma validate_research_final_codes: "validate_research_final s refs u = Some c \<Longrightarrow> c \<in> set failure_codes"
  by (auto simp: validate_research_final_def Let_def failure_codes_def split: if_splits)

lemma final_failure_codes: "final_failure oc st a refs u = Some c \<Longrightarrow> c \<in> set failure_codes"
  using validate_final_codes validate_research_final_codes
  by (auto simp: final_failure_def failure_codes_def split: option.splits if_splits)

lemma before_tool_codes: "before_tool sha s obj tool args = Some c \<Longrightarrow> c \<in> set failure_codes"
  by (auto simp: before_tool_def failure_codes_def split: option.splits if_splits)

lemma handle_final_ended:
  assumes "mid_ok oc st" "handle_final oc cx env a refs u st = Inr r" "st_decisions st \<le> n"
    and "length a \<le> 4000" "length refs \<le> 20" "distinct refs"
  shows "ended oc cx n r"
proof (cases "st_session st = None \<and> u \<noteq> []")
  case True
  with assms(2) obtain st' where
    r: "record_entry env (entry st ''final'' None None [] ''rejected'' [] (Some ''research_unresolved_mismatch'')) st = Inr st'"
    "r = failed st' InvalidDecision DomPolicy ''research_unresolved_mismatch''"
    by (auto simp: handle_final_def bindE_ok)
  show ?thesis unfolding r(2)
    by (rule record_fail [OF assms(1) r(1)]) (use assms(3) in \<open>simp_all add: failure_codes_def\<close>)
next
  case False
  show ?thesis
  proof (cases "final_failure oc st a refs u")
    case (Some code)
    with False assms(2) obtain st' where
      r: "record_entry env (entry st ''final'' None None [] ''rejected'' [] (Some code)) st = Inr st'"
      "r = failed st' InvalidDecision DomPolicy code"
      by (auto simp: handle_final_def bindE_ok)
    show ?thesis unfolding r(2)
      by (rule record_fail [OF assms(1) r(1)]) (use assms(3) final_failure_codes [OF Some] in simp_all)
  next
    case None
    let ?t = "entry st ''final'' None None [] ''completed'' refs None"
    from None False assms(2) obtain st' where
      r: "record_entry env ?t st = Inr st'" "r = result_of st' Completed None (Some (final_answer cx st' a)) refs"
      by (auto simp: handle_final_def bindE_ok)
    obtain w where st': "st' = st\<lparr>st_trace := st_trace st @ [?t], st_world := w\<rparr>"
      using record_entry_ok [OF r(1)] by blast
    have "verdict oc cx st' Completed None (Some (final_answer cx st' a)) refs"
      using None assms(4-6) unfolding verdict_def by (auto simp: st')
    moreover have "st_ok oc st'" "session_ok oc st'" unfolding st' by (rule mid_record [OF assms(1)], simp)+
    moreover have "st_decisions st' \<le> n" using assms(3) by (simp add: st')
    ultimately show ?thesis unfolding ended_def r(2) by blast
  qed
qed

section \<open>The tool call\<close>

lemma session_ok_summary:
  assumes "session_ok oc st" "refresh_research st' = Inr st''" "st_session st' = Some s" "session_inv s"
    and "oc_research oc = Some (se_config s)" "length (se_actions s) \<le> st_tool_calls st'"
  shows "session_ok oc st''"
proof -
  obtain sm v where r: "st'' = st'\<lparr>st_summary := sm, st_view := v\<rparr>" "sm = summary s"
    using refresh_ok [OF assms(2)] assms(3) by auto
  then show ?thesis using assms(3-6) summary_total [OF assms(4)] by (simp add: session_ok_def)
qed

lemma refresh_keeps:
  assumes "refresh_research st = Inr st'"
  shows "budgets_ok oc st' = budgets_ok oc st" "observations_ok oc st' = observations_ok oc st"
    "trace_ok st' = trace_ok st" "st_trace st' = st_trace st" "st_decisions st' = st_decisions st"
    "st_session st' = st_session st" "st_steps st' = st_steps st" "st_tool_calls st' = st_tool_calls st"
    "st_observations st' = st_observations st" "st_bytes st' = st_bytes st"
  using refresh_ok [OF assms] by (auto simp: budgets_ok_def observations_ok_def trace_ok_def)

lemma charge_ok:
  assumes "mid_ok oc st" "orchestrator_ok oc" "admit oc cx st name args obj = Inr (t, body)"
    and "st_tool_calls st < st_steps st" "refresh_research (charge oc obj t body st) = Inr st1"
  shows "mid_ok oc st1" "st_decisions st1 = st_decisions st" "st_steps st1 = st_steps st"
    "st_tool_calls st1 = Suc (st_tool_calls st)" "st_observations st1 = st_observations st"
    "case st_session st1 of None \<Rightarrow> True | Some s \<Rightarrow> length (se_actions s) < st_tool_calls st1"
    "at_name t = name" "name \<in> set tool_names" "st_bytes st1 = st_bytes st"
    "st_session st1 = st_session (charge oc obj t body st)"
proof -
  note ad = admit_ok [OF assms(3)]
  have t: "t \<in> set (oc_registry oc)" "at_name t = name" using find_tool_ok [OF ad(1)] by auto
  have nm: "name \<in> set tool_names"
    using t assms(2) by (auto simp: orchestrator_ok_def registry_ok_def)
  show "at_name t = name" "name \<in> set tool_names" by (fact t(2), fact nm)
  let ?c = "charge oc obj t body st"
  have keys: "map fst (st_per_tool st) = tool_names" using assms(1) by (simp add: mid_ok_def st_ok_def budgets_ok_def)
  then have kin: "name \<in> fst ` set (st_per_tool st)" using nm by (metis set_map)
  have dis: "distinct (map fst (st_per_tool st))" unfolding keys by (simp add: tool_names_def)
  have b: "budgets_ok oc ?c"
    using assms(1,4) ad(7,8) keys kin sum_bump [OF dis kin] t(2)
    by (auto simp: mid_ok_def st_ok_def budgets_ok_def charge_def count_at_bump)
  have o: "observations_ok oc ?c" "trace_ok ?c"
    using assms(1) by (simp_all add: mid_ok_def st_ok_def observations_ok_def trace_ok_def charge_def del: upt_Suc)
  have sel: "st_trace ?c = st_trace st" "st_decisions ?c = st_decisions st" "st_steps ?c = st_steps st"
    "st_tool_calls ?c = Suc (st_tool_calls st)" "st_observations ?c = st_observations st" "st_bytes ?c = st_bytes st"
    by (simp_all add: charge_def)
  note rk = refresh_keeps [OF assms(5)]
  have so: "session_ok oc st" using assms(1) by (simp add: mid_ok_def)
  have sess: "session_ok oc st1 \<and> (case st_session st1 of None \<Rightarrow> True | Some s \<Rightarrow> length (se_actions s) < st_tool_calls st1)"
  proof (cases "st_session st")
    case None
    then have "st_session ?c = None" by (simp add: charge_def)
    moreover have "st_summary st1 = st_summary ?c"
      using refresh_ok [OF assms(5)] \<open>st_session ?c = None\<close> by auto
    ultimately show ?thesis using so None rk(6) by (simp add: session_ok_def charge_def)
  next
    case (Some s)
    then have bt: "before_tool (oc_sha oc) s obj (at_name t) body = None" using ad(6) by simp
    then obtain oid where oid: "obj = Some oid"
      by (cases obj) (auto simp: before_tool_def find_objective_def find_None_iff split: option.splits dest!: find_SomeD)
    let ?s = "start_tool (oc_sha oc) oid (at_name t) body s"
    have cs: "st_session ?c = Some ?s" using Some oid by (simp add: charge_def)
    have inv: "session_inv ?s"
      using start_tool_inv bt so Some oid by (auto simp: session_ok_def)
    have act: "length (se_actions ?s) < st_tool_calls ?c" "oc_research oc = Some (se_config ?s)"
      using so Some sel by (simp_all add: session_ok_def start_tool_def)
    have "session_ok oc st1"
      by (rule session_ok_summary [OF so assms(5) cs inv act(2)]) (use act(1) in simp)
    then show ?thesis using rk(6,8) cs act(1) by simp
  qed
  then show "case st_session st1 of None \<Rightarrow> True | Some s \<Rightarrow> length (se_actions s) < st_tool_calls st1" by blast
  show "mid_ok oc st1"
    using assms(1) b o sess rk sel by (simp add: mid_ok_def st_ok_def)
  show "st_decisions st1 = st_decisions st" "st_steps st1 = st_steps st" "st_tool_calls st1 = Suc (st_tool_calls st)"
    "st_observations st1 = st_observations st" "st_bytes st1 = st_bytes st" "st_session st1 = st_session ?c"
    using rk sel by simp_all
qed

lemma project_checked_ok:
  assumes "project_checked oc st name d = Inr ob"
  shows "int (observation_bytes ob) \<le> al_max_observation_bytes (oc_limits oc)"
    "int (observation_bytes ob) \<le> al_max_total_bytes (oc_limits oc) - st_bytes st"
    "\<forall>r \<in> set (ob_evidence ob). canonical_record r"
    "case ob_search ob of None \<Rightarrow> True | Some s \<Rightarrow> canonical_search_id s"
    "\<not> contains_protected_value (observation_value ob) (oc_protected oc)"
proof -
  let ?l = "oc_limits oc"
  from assms obtain sid rs ss n tr where
    x: "extract_data ?l d = Inr (sid, rs, ss, n, tr)"
    "shrink name sid n (min (al_max_observation_bytes ?l) (al_max_total_bytes ?l - st_bytes st)) rs ss tr = Inr ob"
    "\<not> contains_protected_value (observation_value ob) (oc_protected oc)"
    by (auto simp: project_checked_def project_observation_def bindE_ok)
  note sh = shrink_ok [OF x(2)] and ex = extract_good [OF x(1)]
  let ?f = "\<lambda>r. (identity r, evd_label r, evd_citation r, evd_score_kind r, evd_scores r)"
  show "int (observation_bytes ob) \<le> al_max_observation_bytes ?l"
    "int (observation_bytes ob) \<le> al_max_total_bytes ?l - st_bytes st" using sh by simp_all
  show "case ob_search ob of None \<Rightarrow> True | Some s \<Rightarrow> canonical_search_id s" using sh ex(2) by simp
  show "\<not> contains_protected_value (observation_value ob) (oc_protected oc)" by (rule x(3))
  show "\<forall>r \<in> set (ob_evidence ob). canonical_record r"
  proof
    fix r assume "r \<in> set (ob_evidence ob)"
    then have "?f r \<in> set (map ?f (ob_evidence ob))" by simp
    then have "?f r \<in> set (map ?f rs)" using sh set_mono_prefix by blast
    then obtain r' where "r' \<in> set rs" "?f r = ?f r'" by auto
    with ex(1) show "canonical_record r" by (simp add: good_record_def canonical_record_def)
  qed
qed

lemma observed_keeps:
  assumes "observed sha oid tool args ob step s = Some s'" "session_inv s" "tool \<in> set tool_names"
    and "1 \<le> step" "step \<le> 20" "\<forall>r \<in> set (ob_evidence ob). canonical_record r"
  shows "session_inv s'" "se_config s' = se_config s" "length (se_actions s') = Suc (length (se_actions s))"
proof -
  from assms(1) obtain o' s1 where
    o: "find_objective s (Some oid) = Some o'" "observe_records o' tool step (ob_evidence ob) s = Some s1"
    and s': "\<exists>a. s' = s1\<lparr>se_actions := se_actions s1 @ [a]\<rparr>"
    by (auto simp: observed_def Option.bind_eq_Some_conv Let_def split: if_splits)
  have "o' \<in> set (rc_objectives (se_config s))" using find_objective_Some [OF o(1)] by blast
  then obtain s2 where "observe_records o' tool step (ob_evidence ob) s = Some s2" "session_inv s2"
    "se_config s2 = se_config s" "se_actions s2 = se_actions s"
    using observe_records_inv [OF assms(2) _ assms(6,3,4,5)] by blast
  moreover have "session_inv (x\<lparr>se_actions := y\<rparr>) = session_inv x" for x y by (simp add: session_inv_def)
  ultimately show "session_inv s'" "se_config s' = se_config s" "length (se_actions s') = Suc (length (se_actions s))"
    using o(2) s' by auto
qed

lemma take_observation_ok:
  assumes "mid_ok oc st" "take_observation oc obj t body ob st = Inr st'"
    and "project_checked oc st (at_name t) d = Inr ob" "length (st_observations st) < al_max_observations (oc_limits oc)"
    and "at_name t \<in> set tool_names" "1 \<le> st_steps st" "st_steps st \<le> 20"
    and "case st_session st of None \<Rightarrow> True | Some s \<Rightarrow> length (se_actions s) < st_tool_calls st \<and> obj \<noteq> None"
  shows "mid_ok oc st'" "st_decisions st' = st_decisions st" "st_steps st' = st_steps st" "st_trace st' = st_trace st"
proof -
  note pc = project_checked_ok [OF assms(3)]
  let ?st1 = "st\<lparr>st_observations := st_observations st @ [ob], st_bytes := st_bytes st + int (observation_bytes ob)\<rparr>"
  have b: "budgets_ok oc ?st1" "observations_ok oc ?st1" "trace_ok ?st1"
    using assms(1,4) pc
    by (auto simp: mid_ok_def st_ok_def budgets_ok_def observations_ok_def trace_ok_def simp del: upt_Suc)
  have so: "session_ok oc st" using assms(1) by (simp add: mid_ok_def)
  have all: "budgets_ok oc st' \<and> observations_ok oc st' \<and> trace_ok st' \<and> session_ok oc st' \<and>
    st_decisions st' = st_decisions st \<and> st_steps st' = st_steps st \<and> st_trace st' = st_trace st"
  proof (cases "st_session st")
    case None
    with assms(2) have "st' = ?st1" by (simp add: take_observation_def Let_def)
    moreover have "session_ok oc ?st1" using so None by (simp add: session_ok_def)
    ultimately show ?thesis using b by simp
  next
    case (Some s)
    with assms(8) obtain oid where oid: "obj = Some oid" "length (se_actions s) < st_tool_calls st" by auto
    from assms(2) Some oid obtain s' where
      s': "observed (oc_sha oc) oid (at_name t) body ob (st_steps st) s = Some s'"
      "refresh_research (?st1\<lparr>st_session := Some s'\<rparr>) = Inr st'"
      by (auto simp: take_observation_def Let_def bindE_ok)
    have inv: "session_inv s" "oc_research oc = Some (se_config s)" using so Some by (auto simp: session_ok_def)
    note k = observed_keeps [OF s'(1) inv(1) assms(5,6,7) pc(3)]
    have "session_ok oc st'"
      by (rule session_ok_summary [OF so s'(2) _ k(1)]) (use k inv oid(2) in simp_all)
    moreover note rk = refresh_keeps [OF s'(2)]
    moreover have "budgets_ok oc (?st1\<lparr>st_session := Some s'\<rparr>)" "observations_ok oc (?st1\<lparr>st_session := Some s'\<rparr>)"
      "trace_ok (?st1\<lparr>st_session := Some s'\<rparr>)"
      using b by (simp_all add: budgets_ok_def observations_ok_def trace_ok_def del: upt_Suc)
    ultimately show ?thesis by simp
  qed
  then show "st_decisions st' = st_decisions st" "st_steps st' = st_steps st" "st_trace st' = st_trace st" by blast+
  from all assms(1) show "mid_ok oc st'" by (simp add: mid_ok_def st_ok_def del: upt_Suc)
qed

lemma tool_error_codes: "snd (snd (tool_error c)) \<in> set failure_codes" "fst (tool_error c) \<noteq> Completed"
  by (auto simp: tool_error_def failure_codes_def)

lemma admit_codes:
  assumes "admit oc cx st name args obj = Inl (status, dmn, code)"
  shows "status \<noteq> Completed \<and> code \<in> set failure_codes"
  using assms unfolding admit_def
  by (elim bindE_errE) (auto simp: of_opt_err failure_codes_def dest: before_tool_codes split: option.splits)

text \<open>A round that is not the last leaves the invariant for the next; any other ends well.\<close>

definition round_ok :: "orchestrator \<Rightarrow> exec_context \<Rightarrow> nat \<Rightarrow> 'w round_end \<Rightarrow> bool" where
  "round_ok oc cx n out = (case out of
     Inl r \<Rightarrow> ended oc cx n r
   | Inr st' \<Rightarrow> head_ok oc st' \<and> st_decisions st' = n)"

lemma run_tool_ok:
  assumes "orchestrator_ok oc" "mid_ok oc st" "admit oc cx st name args obj = Inr (t, body)"
    and "st_tool_calls st < st_steps st" "st_steps st = st_decisions st" "st_decisions st \<le> 20"
    and "run_tool oc cx env obj args t body st = Inr out"
  shows "round_ok oc cx (st_decisions st) out"
proof -
  note ad = admit_ok [OF assms(3)]
  from assms(7) obtain st1 where st1: "refresh_research (charge oc obj t body st) = Inr st1"
    unfolding run_tool_def by (elim bindE_okE)
  note ch = charge_ok [OF assms(2,1,3,4) st1]
  have objs: "case st_session st1 of None \<Rightarrow> True | Some s \<Rightarrow> length (se_actions s) < st_tool_calls st1 \<and> obj \<noteq> None"
  proof (cases "st_session st")
    case None
    then show ?thesis using ch(10) by (simp add: charge_def)
  next
    case (Some s)
    then have "obj \<noteq> None" using ad(6)
      by (auto simp: before_tool_def find_objective_def find_None_iff split: option.splits dest!: find_SomeD)
    then show ?thesis using ch(6) by (simp split: option.splits)
  qed
  let ?names = "sort (map fst args)"
  show ?thesis
  proof (cases "invoke oc cx env (st_tool_calls st1) (at_name t) args")
    case (Inl code)
    with assms(7) st1 obtain st2 where r:
      "record_entry env (entry st1 ''tool'' (Some (at_name t)) obj ?names ''failed'' [] (Some (snd (snd (tool_error code))))) st1 = Inr st2"
      "out = Inl (failed st2 (fst (tool_error code)) (fst (snd (tool_error code))) (snd (snd (tool_error code))))"
      by (auto simp: run_tool_def bindE_ok Let_def)
    have "ended oc cx (st_decisions st) (failed st2 (fst (tool_error code)) (fst (snd (tool_error code))) (snd (snd (tool_error code))))"
      by (rule record_fail [OF ch(1) r(1)]) (use tool_error_codes ch(2) in simp_all)
    then show ?thesis by (simp add: round_ok_def r(2))
  next
    case (Inr d)
    show ?thesis
    proof (cases "project_checked oc st1 (at_name t) d")
      case (Inl err)
      define code where "code = (case err of ObsLimit \<Rightarrow> ''observation_bytes'' | ObsIntegrity \<Rightarrow> ''invalid_observation'')"
      from assms(7) st1 Inr Inl obtain st2 status dmn where r:
        "record_entry env (entry st1 ''tool'' (Some (at_name t)) obj [] ''failed'' [] (Some code)) st1 = Inr st2"
        "out = Inl (failed st2 status dmn code)" "status \<noteq> Completed"
        by (cases err) (auto simp: run_tool_def bindE_ok Let_def code_def)
      have "ended oc cx (st_decisions st) (failed st2 status dmn code)"
        by (rule record_fail [OF ch(1) r(1)]) (use r(3) ch(2) in \<open>auto simp: code_def failure_codes_def split: obs_error.splits\<close>)
      then show ?thesis by (simp add: round_ok_def r(2))
    next
      case pc: (Inr ob)
      from assms(7) st1 Inr pc obtain st2 st3 where r:
        "take_observation oc obj t body ob st1 = Inr st2"
        "record_entry env (entry st2 ''tool'' (Some (at_name t)) obj ?names ''observed'' (trace_refs ob) None) st2 = Inr st3"
        "out = Inr st3"
        by (auto simp: run_tool_def bindE_ok Let_def)
      have "length (st_observations st1) < al_max_observations (oc_limits oc)" "at_name t \<in> set tool_names"
        "1 \<le> st_steps st1" "st_steps st1 \<le> 20"
        using ad(9) ch assms(4,5,6) by auto
      note tk = take_observation_ok [OF ch(1) r(1) pc this objs]
      let ?e = "entry st2 ''tool'' (Some (at_name t)) obj ?names ''observed'' (trace_refs ob) None"
      obtain w where st3: "st3 = st2\<lparr>st_trace := st_trace st2 @ [?e], st_world := w\<rparr>"
        using record_entry_ok [OF r(2)] by blast
      have "st_ok oc st3" "session_ok oc st3" unfolding st3 by (rule mid_record [OF tk(1)], simp)+
      moreover have "Suc (length (st_trace st2)) = st_decisions st2" "\<forall>x \<in> set (st_trace st2). te_outcome x = ''observed''"
        using tk(1) by (simp_all add: mid_ok_def)
      ultimately have "head_ok oc st3 \<and> st_decisions st3 = st_decisions st"
        using tk(2,3) ch(2,3) assms(5) by (simp add: head_ok_def st3)
      then show ?thesis by (simp add: round_ok_def r(3))
    qed
  qed
qed

section \<open>The round and the run\<close>

lemma admit_world [simp]: "admit oc cx (st\<lparr>st_world := w\<rparr>) name args obj = admit oc cx st name args obj"
  by (simp add: admit_def cong: option.case_cong)

lemma handle_tool_ok:
  assumes "orchestrator_ok oc" "mid_ok oc st" "st_tool_calls st < st_steps st" "st_steps st = st_decisions st"
    and "st_decisions st \<le> 20" "handle_tool oc cx env name args obj st = Inr out"
  shows "round_ok oc cx (st_decisions st) out"
proof (cases "admit oc cx st name args obj")
  case (Inl rj)
  obtain status dmn code where rj: "rj = (status, dmn, code)" by (cases rj)
  with assms(6) Inl obtain st' where r:
    "record_entry env (entry st ''tool'' (Some name) obj (sort (map fst args)) ''rejected'' [] (Some code)) st = Inr st'"
    "out = Inl (failed st' status dmn code)"
    by (auto simp: handle_tool_def bindE_ok)
  have "ended oc cx (st_decisions st) (failed st' status dmn code)"
    by (rule record_fail [OF assms(2) r(1)]) (use admit_codes [OF Inl [unfolded rj]] in auto)
  then show ?thesis by (simp add: round_ok_def r(2))
next
  case (Inr tb)
  obtain t body where tb: "tb = (t, body)" by (cases tb)
  with assms(6) Inr obtain c st' where c: "poll env 2 st = Inr (c, st')"
    "(if c then Inr (Inl (failed st' AgentCancelled DomSystem ''cancelled''))
      else run_tool oc cx env obj args t body st') = Inr out"
    by (auto simp: handle_tool_def bindE_ok)
  obtain w where st': "st' = st\<lparr>st_world := w\<rparr>" using poll_ok [OF c(1)] by blast
  have ok: "st_ok oc st'" "session_ok oc st'" "mid_ok oc st'" "st_decisions st' = st_decisions st"
    using assms(2) by (simp_all add: st' mid_ok_def)
  show ?thesis
  proof (cases c)
    case True
    have "ended oc cx (st_decisions st) (failed st' AgentCancelled DomSystem ''cancelled'')"
      by (rule endedI_failed) (use ok in \<open>auto simp: failure_codes_def\<close>)
    with c(2) True show ?thesis by (auto simp: round_ok_def)
  next
    case False
    with c(2) have r: "run_tool oc cx env obj args t body st' = Inr out" by simp
    have a: "admit oc cx st' name args obj = Inr (t, body)" using Inr tb by (simp add: st')
    have "round_ok oc cx (st_decisions st') out"
      by (rule run_tool_ok [OF assms(1) ok(3) a _ _ _ r]) (use assms(3-5) in \<open>simp_all add: st'\<close>)
    then show ?thesis using ok(4) by simp
  qed
qed

lemma handle_decision_ok:
  assumes "orchestrator_ok oc" "mid_ok oc st" "Suc (st_steps st) = st_decisions st" "st_decisions st \<le> 20"
    and "handle_decision oc cx env raw st = Inr out"
  shows "round_ok oc cx (st_decisions st) out"
proof (cases "parse_decision raw")
  case None
  with assms(5) obtain st' where r:
    "record_entry env (entry st ''invalid'' None None [] ''rejected'' [] (Some ''malformed_decision'')) st = Inr st'"
    "out = Inl (failed st' InvalidDecision DomModel ''malformed_decision'')"
    by (auto simp: handle_decision_def bindE_ok)
  have "ended oc cx (st_decisions st) (failed st' InvalidDecision DomModel ''malformed_decision'')"
    by (rule record_fail [OF assms(2) r(1)]) (simp_all add: failure_codes_def)
  then show ?thesis by (simp add: round_ok_def r(2))
next
  case (Some d)
  let ?st = "st\<lparr>st_steps := st_steps st + 1\<rparr>"
  have mid: "mid_ok oc ?st" by (rule mid_ok_step [OF assms(2)]) (use assms(3) in simp)
  show ?thesis
  proof (cases d)
    case (FinalDecision a refs u)
    from assms(5) Some FinalDecision obtain r where r: "handle_final oc cx env a refs u ?st = Inr r" "out = Inl r"
      by (auto simp: handle_decision_def bindE_ok)
    have "parse_final raw = Some d"
      using Some FinalDecision by (auto simp: parse_decision_def parse_tool_def Option.bind_eq_Some_conv
        split: pyval.splits option.splits if_splits)
    then have "length a \<le> 4000" "length refs \<le> 20" "distinct refs"
      using FinalDecision by (auto elim: parse_final_ok)
    with handle_final_ended [OF mid r(1)] have "ended oc cx (st_decisions st) r" by simp
    then show ?thesis by (simp add: round_ok_def r(2))
  next
    case (ToolDecision name args obj)
    with assms(5) Some have h: "handle_tool oc cx env name args obj ?st = Inr out"
      by (simp add: handle_decision_def)
    have "st_tool_calls st \<le> st_steps st" using assms(2) by (simp add: mid_ok_def st_ok_def budgets_ok_def)
    then show ?thesis
      using handle_tool_ok [OF assms(1) mid _ _ _ h] assms(3,4) by simp
  qed
qed

lemma agent_round_ok:
  assumes "orchestrator_ok oc" "head_ok oc st" "st_decisions st < 20" "agent_round oc cx env st = Inr out"
  shows "round_ok oc cx (Suc (st_decisions st)) out"
proof -
  from assms(4) obtain c0 st0 where c0: "poll env 0 st = Inr (c0, st0)"
    unfolding agent_round_def by (elim bindE_okE) auto
  obtain w0 where st0: "st0 = st\<lparr>st_world := w0\<rparr>" using poll_ok [OF c0] by blast
  have h0: "head_ok oc st0" "st_decisions st0 = st_decisions st" using assms(2) by (simp_all add: st0)
  let ?st = "st0\<lparr>st_decisions := Suc (st_decisions st0)\<rparr>"
  have mid: "mid_ok oc ?st" using mid_ok_decide [OF h0(1)] by simp
  then have ok: "st_ok oc ?st" "session_ok oc ?st" by (simp_all add: mid_ok_def)
  have head: "st_ok oc st0" "session_ok oc st0" using h0(1) by (simp_all add: head_ok_def)
  have fail: "round_ok oc cx (Suc (st_decisions st)) (Inl (failed ?st status dmn code))"
    if "status \<noteq> Completed" "code \<in> set failure_codes" for status dmn code
    unfolding round_ok_def sum.case by (rule endedI_failed [OF ok _ that]) (simp add: h0)
  have fail0: "round_ok oc cx (Suc (st_decisions st)) (Inl (failed st0 status dmn code))"
    if "status \<noteq> Completed" "code \<in> set failure_codes" for status dmn code
    unfolding round_ok_def sum.case by (rule endedI_failed [OF head _ that]) (simp add: h0)
  have pcn: "provider_code_name p \<in> set failure_codes" for p by (cases p) (simp_all add: failure_codes_def)
  show ?thesis
  proof (cases c0)
    case True
    with assms(4) c0 have "out = Inl (failed st0 AgentCancelled DomSystem ''cancelled'')" by (simp add: agent_round_def)
    then show ?thesis using fail0 by (simp add: failure_codes_def)
  next
    case False
    let ?ans = "ev_decide env (st_decisions ?st) (request_of oc cx ?st)"
    show ?thesis
    proof (cases ?ans)
      case (Answered raw)
      with assms(4) c0 False obtain c1 st1 where c1: "poll env 1 ?st = Inr (c1, st1)"
        "(if c1 then Inr (Inl (failed st1 AgentCancelled DomSystem ''cancelled''))
          else handle_decision oc cx env raw st1) = Inr out"
        by (auto simp: agent_round_def bindE_ok Let_def)
      obtain w1 where st1: "st1 = ?st\<lparr>st_world := w1\<rparr>" using poll_ok [OF c1(1)] by blast
      have ok1: "mid_ok oc st1" "st_ok oc st1" "session_ok oc st1" "st_decisions st1 = Suc (st_decisions st)"
        "st_steps st1 = st_steps st"
        unfolding st1 mid_ok_world st_ok_world session_ok_updates(4) using mid ok by (simp_all add: st0)
      show ?thesis
      proof (cases c1)
        case True
        with c1 have "out = Inl (failed st1 AgentCancelled DomSystem ''cancelled'')" by simp
        then show ?thesis using ok1 by (auto intro!: endedI_failed simp: round_ok_def failure_codes_def)
      next
        case False
        with c1 have h: "handle_decision oc cx env raw st1 = Inr out" by simp
        have "st_steps st = st_decisions st" using assms(2) by (simp add: head_ok_def)
        then show ?thesis using handle_decision_ok [OF assms(1) ok1(1) _ _ h] ok1 assms(3) by simp
      qed
    next
      case ModelUnavailable
      with assms(4) c0 False have "out = Inl (failed ?st Unavailable DomModel ''decision_provider_unavailable'')"
        by (simp add: agent_round_def Let_def)
      then show ?thesis using fail by (simp add: failure_codes_def)
    next
      case (ProviderFailed p)
      show ?thesis
      proof (cases "provider_invalid p")
        case True
        with assms(4) c0 False ProviderFailed obtain st2 where r:
          "record_entry env (entry ?st ''invalid'' None None [] ''rejected'' [] (Some (provider_code_name p))) ?st = Inr st2"
          "out = Inl (failed st2 InvalidDecision DomModel (provider_code_name p))"
          by (auto simp: agent_round_def bindE_ok Let_def)
        have "ended oc cx (Suc (st_decisions st)) (failed st2 InvalidDecision DomModel (provider_code_name p))"
          by (rule record_fail [OF mid r(1)]) (simp_all add: pcn h0)
        then show ?thesis by (simp add: round_ok_def r(2))
      next
        case np: False
        with assms(4) c0 False ProviderFailed have "out = Inl (failed ?st AgentFailed DomModel (provider_code_name p))"
          by (simp add: agent_round_def Let_def)
        then show ?thesis using fail pcn by simp
      qed
    next
      case ExecutionFailed
      with assms(4) c0 False have "out = Inl (failed ?st AgentFailed DomModel ''decision_execution_failed'')"
        by (simp add: agent_round_def Let_def)
      then show ?thesis using fail by (simp add: failure_codes_def)
    next
      case OtherFailure
      with assms(4) c0 False have "out = Inl (failed ?st AgentFailed DomSystem ''internal_error'')"
        by (simp add: agent_round_def Let_def)
      then show ?thesis using fail by (simp add: failure_codes_def)
    qed
  qed
qed

lemma ended_mono:
  assumes "ended oc cx m r" "m \<le> n"
  shows "ended oc cx n r"
proof -
  obtain st status failure answer refs where "r = result_of st status failure answer refs"
    "st_ok oc st" "session_ok oc st" "st_decisions st \<le> m" "verdict oc cx st status failure answer refs"
    using assms(1) unfolding ended_def by blast
  with assms(2) show ?thesis unfolding ended_def by (intro exI conjI) auto
qed

lemma rounds_ended:
  "orchestrator_ok oc \<Longrightarrow> rounds k oc cx env st = Inr r \<Longrightarrow> head_ok oc st \<Longrightarrow> st_decisions st + k \<le> 20 \<Longrightarrow>
    ended oc cx (st_decisions st + k) r"
proof (induction k arbitrary: st)
  case 0
  then show ?case by (auto intro!: endedI_failed simp: head_ok_def failure_codes_def)
next
  case (Suc k)
  from Suc.prems(2) obtain out where
    o: "agent_round oc cx env st = Inr out" "(case out of Inl r' \<Rightarrow> Inr r' | Inr st' \<Rightarrow> rounds k oc cx env st') = Inr r"
    by (auto simp: bindE_ok)
  have ro: "round_ok oc cx (Suc (st_decisions st)) out"
    by (rule agent_round_ok [OF Suc.prems(1,3) _ o(1)]) (use Suc.prems(4) in simp)
  show ?case
  proof (cases out)
    case (Inl r')
    with o(2) ro have "ended oc cx (Suc (st_decisions st)) r" by (simp add: round_ok_def)
    then show ?thesis by (rule ended_mono) simp
  next
    case (Inr st')
    with ro have "head_ok oc st'" "st_decisions st' = Suc (st_decisions st)" by (simp_all add: round_ok_def)
    with Suc.IH [of st'] Suc.prems(1,4) o(2) Inr show ?thesis by simp
  qed
qed

lemma open_session_ok:
  assumes "orchestrator_ok oc" "open_session oc w = Inr s"
  shows "case s of None \<Rightarrow> oc_research oc = None
    | Some s' \<Rightarrow> oc_research oc = Some (se_config s') \<and> session_inv s' \<and> se_actions s' = []"
proof (cases "oc_research oc")
  case (Some c)
  with assms(2) obtain s' where "new_session c (oc_limits oc) = Some s'" "s = Some s'"
    by (auto simp: open_session_def bindE_ok)
  moreover have "valid_config c" using assms(1) Some by (simp add: orchestrator_ok_def)
  ultimately show ?thesis
    using new_session_inv [of c "oc_limits oc" s'] Some by (auto simp: new_session_def split: if_splits)
qed (use assms in \<open>simp add: open_session_def\<close>)

lemma initial_head_ok:
  assumes "orchestrator_ok oc" "open_session oc w = Inr s" "refresh_research (initial_state g s w) = Inr st"
  shows "head_ok oc st" "st_decisions st = 0"
proof -
  let ?i = "initial_state g s w"
  note rk = refresh_keeps [OF assms(3)]
  have "sum_list (map snd (map (\<lambda>n. (n, 0::nat)) tool_names)) = 0" by (simp add: tool_names_def)
  moreover have "count_at (map (\<lambda>n. (n, 0)) tool_names) m = 0" for m
    by (auto simp: count_at_def tool_names_def)
  ultimately have b: "budgets_ok oc ?i" by (simp add: budgets_ok_def initial_state_def o_def)
  have "0 \<le> al_max_total_bytes (oc_limits oc)" using assms(1) by (simp add: orchestrator_ok_def valid_limits_def)
  then have o: "observations_ok oc ?i" "trace_ok ?i"
    by (simp_all add: observations_ok_def trace_ok_def initial_state_def)
  have "session_ok oc st"
  proof (cases s)
    case None
    then have "st_session ?i = None" "st_summary ?i = None" by (simp_all add: initial_state_def)
    moreover from this have "st_summary st = None" using refresh_ok [OF assms(3)] by auto
    ultimately show ?thesis using rk(6) open_session_ok [OF assms(1,2)] None by (simp add: session_ok_def)
  next
    case (Some s')
    then have ss: "st_session ?i = Some s'" by (simp add: initial_state_def)
    obtain sm v where "st = ?i\<lparr>st_summary := sm, st_view := v\<rparr>" "sm = summary s'"
      using refresh_ok [OF assms(3)] ss by auto
    then show ?thesis using ss open_session_ok [OF assms(1,2)] Some summary_total by (simp add: session_ok_def)
  qed
  then show "head_ok oc st" "st_decisions st = 0"
    using rk b o by (simp_all add: head_ok_def st_ok_def) (simp_all add: initial_state_def)
qed

text \<open>Every result of a run that passed the screen of its goal.\<close>

lemma run_ended:
  assumes "orchestrator_ok oc" "run oc cx env goal w = Inr r" "\<not> contains_protected_value (PStr goal) (oc_protected oc)"
  shows "ended oc cx (al_max_steps (oc_limits oc)) r"
proof -
  from assms(2,3) obtain g s st where
    a: "open_session oc w = Inr s" "refresh_research (initial_state g s w) = Inr st"
    "(if oc_requires_provider oc \<and> \<not> rp_allow_decision_provider (oc_policy oc)
       then Inr (failed st PolicyDenied DomPolicy ''decision_provider_required'')
       else rounds (al_max_steps (oc_limits oc)) oc cx env st) = Inr r"
    unfolding run_def by (auto simp del: contains_protected_value.simps elim!: bindE_okE)
  note h = initial_head_ok [OF assms(1) a(1,2)]
  show ?thesis
  proof (cases "oc_requires_provider oc \<and> \<not> rp_allow_decision_provider (oc_policy oc)")
    case True
    with a(3) have "r = failed st PolicyDenied DomPolicy ''decision_provider_required''" by simp
    then show ?thesis using h by (auto intro!: endedI_failed simp: head_ok_def failure_codes_def)
  next
    case False
    with a(3) have "rounds (al_max_steps (oc_limits oc)) oc cx env st = Inr r" by simp
    moreover have "al_max_steps (oc_limits oc) \<le> 20" using assms(1) by (simp add: orchestrator_ok_def valid_limits_def)
    ultimately show ?thesis using rounds_ended [OF assms(1) _ h(1)] h(2) by fastforce
  qed
qed

text \<open>Every result: either the goal held a protected value and nothing ran, or the run ended well.\<close>

lemma run_cases:
  assumes "orchestrator_ok oc" "run oc cx env goal w = Inr r"
  obtains (refused) sm where
      "r = failed ((initial_state [] None w)\<lparr>st_summary := sm\<rparr>) InvalidDecision DomModel ''decision_provider_schema_violation''"
      "case sm of None \<Rightarrow> True | Some x \<Rightarrow> valid_summary x"
  | (ran) st status failure answer refs where
      "r = result_of st status failure answer refs" "st_ok oc st" "session_ok oc st"
      "st_decisions st \<le> al_max_steps (oc_limits oc)" "verdict oc cx st status failure answer refs"
proof (cases "contains_protected_value (PStr goal) (oc_protected oc)")
  case True
  with assms(2) obtain s sm where
    s: "(case s of None \<Rightarrow> Inr None | Some s' \<Rightarrow> bindE (of_opt w (summary s')) (\<lambda>sm. Inr (Some sm))) = Inr sm"
    and r: "r = failed ((initial_state [] None w)\<lparr>st_summary := sm\<rparr>) InvalidDecision DomModel ''decision_provider_schema_violation''"
    unfolding run_def by (auto simp del: contains_protected_value.simps elim!: bindE_okE)
  from s have "case sm of None \<Rightarrow> True | Some x \<Rightarrow> valid_summary x"
    by (auto simp: bindE_ok summary_def split: option.splits if_splits)
  with r show ?thesis by (rule refused)
next
  case False
  from run_ended [OF assms False, unfolded ended_def] ran show ?thesis by (elim exE conjE) assumption
qed

end
