(* ===== verification/Agent_World.thy ===== *)
theory Agent_World
  imports Agent_Invariants
begin

text \<open>
  What a run does to the world it is given.  A world sees the run only through the
  polls of its cancellation signal and the entries handed to its sink, so a property
  \<open>P ts w\<close> of the entries recorded so far and the world that every poll and every entry
  keeps holds at the end.  The locale proves this once; the durable service interprets
  it on its own environment.
\<close>

section \<open>Postconditions of fallible steps\<close>

definition post :: "'e + 'a \<Rightarrow> ('e \<Rightarrow> bool) \<Rightarrow> ('a \<Rightarrow> bool) \<Rightarrow> bool" where
  "post m E Q = (case m of Inl e \<Rightarrow> E e | Inr x \<Rightarrow> Q x)"

lemma post_simps [simp]: "post (Inl e) E Q = E e" "post (Inr x) E Q = Q x"
  by (simp_all add: post_def)

lemma post_bind:
  assumes "post m E R" "\<And>x. R x \<Longrightarrow> post (f x) E Q"
  shows "post (bindE m f) E Q"
  using assms by (cases m) auto

lemma post_mono:
  assumes "post m E R" "\<And>x. R x \<Longrightarrow> Q x"
  shows "post m E Q"
  using assms by (cases m) auto

lemma post_of_opt: "(x = None \<Longrightarrow> E e) \<Longrightarrow> (\<And>y. x = Some y \<Longrightarrow> Q y) \<Longrightarrow> post (of_opt e x) E Q"
  by (cases x) auto

section \<open>Worlds that polls and entries keep\<close>

text \<open>
  The counters that go with an entry.  Every decision but a malformed one is a step, and
  every decision before the last was a tool call that ran, so the entry itself says how many
  steps and tool calls there were when it was recorded.
\<close>

definition entry_steps :: "trace_entry \<Rightarrow> nat" where
  "entry_steps t = (if te_kind t = ''invalid'' then te_index t - 1 else te_index t)"

definition entry_tools :: "trace_entry \<Rightarrow> nat" where
  "entry_tools t = (if te_outcome t = ''observed'' \<or> te_outcome t = ''failed'' then te_index t else te_index t - 1)"

locale agent_world =
  fixes env :: "'w agent_env" and P :: "trace_entry list \<Rightarrow> 'w \<Rightarrow> bool"
  assumes poll_keeps: "P ts w \<Longrightarrow> ev_cancelled env n k w = (c, w') \<Longrightarrow> P ts w'"
    and sink_takes: "P ts w \<Longrightarrow> te_index t = Suc (length ts) \<Longrightarrow>
      ev_sink env t (entry_steps t) (entry_tools t) w = (True, w') \<Longrightarrow> P (ts @ [t]) w'"
    and sink_refuses: "P ts w \<Longrightarrow> te_index t = Suc (length ts) \<Longrightarrow>
      ev_sink env t (entry_steps t) (entry_tools t) w = (False, w') \<Longrightarrow> P ts w'"
begin

definition left :: "'w \<Rightarrow> bool" where
  "left w \<longleftrightarrow> (\<exists>ts. P ts w)"

text \<open>Between rounds the three counters agree; within a round \<open>i\<close> and \<open>j\<close> say whether the step and
  the tool call of this round are already counted.\<close>

definition at_head :: "'w agent_state \<Rightarrow> bool" where
  "at_head st \<longleftrightarrow> P (st_trace st) (st_world st) \<and> length (st_trace st) = st_decisions st \<and>
     st_steps st = st_decisions st \<and> st_tool_calls st = st_decisions st"

definition at_mid :: "nat \<Rightarrow> nat \<Rightarrow> 'w agent_state \<Rightarrow> bool" where
  "at_mid i j st \<longleftrightarrow> P (st_trace st) (st_world st) \<and> Suc (length (st_trace st)) = st_decisions st \<and>
     Suc (st_steps st) = st_decisions st + i \<and> Suc (st_tool_calls st) = st_decisions st + j"

definition at_mark :: "nat \<Rightarrow> nat \<Rightarrow> 'w agent_state \<Rightarrow> bool" where
  "at_mark i j st \<longleftrightarrow> P (st_trace st) (st_world st) \<and> length (st_trace st) = st_decisions st \<and>
     Suc (st_steps st) = st_decisions st + i \<and> Suc (st_tool_calls st) = st_decisions st + j"

definition at_end :: "'w agent_result \<Rightarrow> bool" where
  "at_end r \<longleftrightarrow> P (res_trace r) (res_world r)"

definition round_post :: "'w round_end \<Rightarrow> bool" where
  "round_post out = (case out of Inl r \<Rightarrow> at_end r | Inr st \<Rightarrow> at_head st)"

lemma round_post_simps [simp]: "round_post (Inl r) = at_end r" "round_post (Inr st) = at_head st"
  by (simp_all add: round_post_def)

lemma leaves: "P ts w \<Longrightarrow> left w"
  unfolding left_def ..

lemma mid_leaves: "at_mid i j st \<Longrightarrow> left (st_world st)"
  by (auto simp: at_mid_def intro: leaves)

lemma end_mid: "at_mid i j st \<Longrightarrow> at_end (failed st status dmn code)"
  by (simp add: at_mid_def at_end_def failed_def result_of_def)

lemma end_mark: "at_mark i j st \<Longrightarrow> at_end (result_of st status failure answer refs)"
  by (simp add: at_mark_def at_end_def result_of_def)

lemma end_failed_mark: "at_mark i j st \<Longrightarrow> at_end (failed st status dmn code)"
  by (simp add: end_mark failed_def)

lemma end_failed_head: "at_head st \<Longrightarrow> at_end (failed st status dmn code)"
  by (simp add: at_head_def at_end_def failed_def result_of_def)

lemma head_mark: "at_mark 1 1 st \<Longrightarrow> at_head st"
  by (simp add: at_mark_def at_head_def)

lemma mid_step: "at_mid 0 j st \<Longrightarrow> at_mid 1 j (st\<lparr>st_steps := Suc (st_steps st)\<rparr>)"
  by (simp add: at_mid_def)

lemma poll_head: "at_head st \<Longrightarrow> post (poll env k st) left (\<lambda>(c, st'). at_head st')"
  unfolding poll_def at_head_def
  by (auto split: prod.splits option.splits intro: leaves dest: poll_keeps)

lemma poll_mid: "at_mid i j st \<Longrightarrow> post (poll env k st) left (\<lambda>(c, st'). at_mid i j st')"
  unfolding poll_def at_mid_def
  by (auto split: prod.splits option.splits intro: leaves dest: poll_keeps)

definition counted :: "nat \<Rightarrow> nat \<Rightarrow> trace_entry \<Rightarrow> bool" where
  "counted i j t \<longleftrightarrow> i = (if te_kind t = ''invalid'' then 0 else 1) \<and>
     j = (if te_outcome t = ''observed'' \<or> te_outcome t = ''failed'' then 1 else 0)"

lemma counted_entry [simp]:
  "counted i j (entry st k tn ob a oc r f) \<longleftrightarrow> i = (if k = ''invalid'' then 0 else 1) \<and>
     j = (if oc = ''observed'' \<or> oc = ''failed'' then 1 else 0)"
  by (simp add: counted_def entry_def)

lemma record_mid:
  assumes "at_mid i j st" "te_index t = st_decisions st" "counted i j t"
  shows "post (record_entry env t st) left (at_mark i j)"
proof -
  have n: "entry_steps t = st_steps st" "entry_tools t = st_tool_calls st"
    using assms by (auto simp: at_mid_def counted_def entry_steps_def entry_tools_def split: if_splits)
  obtain ok w' where s: "ev_sink env t (entry_steps t) (entry_tools t) (st_world st) = (ok, w')" by fastforce
  have P: "P (st_trace st) (st_world st)" "te_index t = Suc (length (st_trace st))"
    using assms by (simp_all add: at_mid_def)
  show ?thesis
  proof (cases ok)
    case True
    with s n assms sink_takes [OF P] show ?thesis by (simp add: record_entry_def at_mid_def at_mark_def)
  next
    case False
    with s n leaves [OF sink_refuses [OF P]] show ?thesis by (simp add: record_entry_def)
  qed
qed

lemma refresh_mid: "at_mid i j st \<Longrightarrow> post (refresh_research st) left (at_mid i j)"
  unfolding refresh_research_def
  by (cases "st_session st")
     (auto simp: at_mid_def intro!: post_bind [where R = "\<lambda>_. True"] post_of_opt intro: leaves)

lemma refresh_head: "at_head st \<Longrightarrow> post (refresh_research st) left at_head"
  unfolding refresh_research_def
  by (cases "st_session st")
     (auto simp: at_head_def intro!: post_bind [where R = "\<lambda>_. True"] post_of_opt intro: leaves)

lemma charge_mid: "at_mid i 0 st \<Longrightarrow> at_mid i 1 (charge oc obj t body st)"
  by (simp add: at_mid_def charge_def)

lemma take_mid:
  assumes "at_mid i j st"
  shows "post (take_observation oc obj t body ob st) left (at_mid i j)"
proof -
  have "at_mid i j (st\<lparr>st_observations := obs, st_bytes := b, st_session := s\<rparr>)"
    "at_mid i j (st\<lparr>st_observations := obs, st_bytes := b\<rparr>)" for obs b s
    using assms by (simp_all add: at_mid_def)
  then show ?thesis
    using mid_leaves [OF assms] unfolding take_observation_def Let_def
    by (cases "st_session st"; cases obj)
       (auto intro!: post_bind [where R = "\<lambda>_. True"] post_of_opt refresh_mid)
qed

lemma record_failed:
  assumes "at_mid i j st" "te_index t = st_decisions st" "counted i j t"
  shows "post (bindE (record_entry env t st) (\<lambda>st'. Inr (Inl (failed st' status dmn code)))) left round_post"
  by (rule post_bind [OF record_mid [OF assms]]) (simp add: end_failed_mark)

lemma observe_post:
  assumes "at_mid 1 1 st"
  shows "post (bindE (take_observation oc obj t body ob st) (\<lambda>st2.
      bindE (record_entry env (entry st2 ''tool'' tn ob' a ''observed'' refs f) st2) (\<lambda>st3. Inr (Inr st3)))) left round_post"
  by (rule post_bind [OF take_mid [OF assms]]) (erule post_bind [OF record_mid], simp_all add: head_mark)

lemma run_tool_post:
  assumes "at_mid 1 0 st"
  shows "post (run_tool oc cx env obj args t body st) left round_post"
  unfolding run_tool_def Let_def
  by (rule post_bind [OF refresh_mid [OF charge_mid [OF assms]]])
     (auto split: sum.split obs_error.split simp: observe_post intro!: record_failed)

lemma handle_tool_post:
  assumes "at_mid 1 0 st"
  shows "post (handle_tool oc cx env name args obj st) left round_post"
proof (cases "admit oc cx st name args obj")
  case (Inl rj)
  then show ?thesis
    by (cases rj) (auto simp: handle_tool_def intro!: record_failed [OF assms])
next
  case (Inr tb)
  then show ?thesis
    by (cases tb) (auto simp: handle_tool_def end_mid run_tool_post intro!: post_bind [OF poll_mid [OF assms]])
qed

lemma handle_final_post:
  assumes "at_mid 1 0 st"
  shows "post (handle_final oc cx env a refs u st) left at_end"
  unfolding handle_final_def
  by (auto split: option.split simp: end_failed_mark end_mark intro!: post_bind [OF record_mid [OF assms]])

lemma handle_decision_post:
  assumes "at_mid 0 0 st"
  shows "post (handle_decision oc cx env raw st) left round_post"
proof (cases "parse_decision raw")
  case None
  then show ?thesis by (auto simp: handle_decision_def intro!: record_failed [OF assms])
next
  case (Some d)
  then show ?thesis
    using mid_step [OF assms]
    by (cases d) (auto simp: handle_decision_def intro!: handle_tool_post post_bind [OF handle_final_post])
qed

lemma mid_of_head: "at_head st \<Longrightarrow> at_mid 0 0 (st\<lparr>st_decisions := Suc (st_decisions st)\<rparr>)"
  by (simp add: at_head_def at_mid_def)

lemma answered_post:
  assumes "at_mid 0 0 st"
  shows "post (bindE (poll env k st) (\<lambda>(c, st2).
      if c then Inr (Inl (failed st2 AgentCancelled DomSystem ''cancelled''))
      else handle_decision oc cx env raw st2)) left round_post"
  by (rule post_bind [OF poll_mid [OF assms]]) (auto simp: end_mid handle_decision_post)

lemma agent_round_post:
  assumes "at_head st"
  shows "post (agent_round oc cx env st) left round_post"
  unfolding agent_round_def Let_def
  by (rule post_bind [OF poll_head [OF assms]])
     (auto split: model_answer.split simp: end_failed_head
       intro!: answered_post mid_of_head end_mid record_failed [OF mid_of_head])

lemma rounds_post: "at_head st \<Longrightarrow> post (rounds k oc cx env st) left at_end"
proof (induction k arbitrary: st)
  case 0
  then show ?case by (simp add: end_failed_head)
next
  case (Suc k)
  show ?case
    unfolding rounds.simps
    by (rule post_bind [OF agent_round_post [OF Suc.prems]]) (auto simp: round_post_def Suc.IH split: sum.splits)
qed

text \<open>Whatever way the run ends, the world is still one that \<open>P\<close> allows.\<close>

theorem run_post:
  assumes "P [] w"
  shows "post (run oc cx env goal w) left at_end"
proof -
  have lw: "left w" by (rule leaves [OF assms])
  have session: "post (open_session oc w) left (\<lambda>_. True)"
    unfolding open_session_def using lw by (auto split: option.split intro!: post_bind [where R = "\<lambda>_. True"] post_of_opt)
  have head: "at_head (initial_state g s w)" for g s
    using assms by (simp add: at_head_def initial_state_def)
  have blank: "at_head ((initial_state [] None w)\<lparr>st_summary := sm\<rparr>)" for sm
    using assms by (simp add: at_head_def initial_state_def)
  have sm: "post (case s of None \<Rightarrow> Inr None | Some s' \<Rightarrow> bindE (of_opt w (summary s')) (\<lambda>sm. Inr (Some sm))) left (\<lambda>_. True)" for s
    using lw by (auto split: option.split intro!: post_bind [where R = "\<lambda>_. True"] post_of_opt)
  have refuse: "post (bindE (open_session oc w) (\<lambda>s.
       bindE (case s of None \<Rightarrow> Inr None | Some s' \<Rightarrow> bindE (of_opt w (summary s')) (\<lambda>sm. Inr (Some sm))) (\<lambda>sm.
       Inr (failed ((initial_state [] None w)\<lparr>st_summary := sm\<rparr>) InvalidDecision DomModel ''decision_provider_schema_violation''))))
       left at_end"
    by (rule post_bind [OF session], rule post_bind [OF sm]) (simp add: end_failed_head [OF blank])
  have start: "post (bindE (refresh_research (initial_state g s w)) (\<lambda>st.
       if oc_requires_provider oc \<and> \<not> rp_allow_decision_provider (oc_policy oc)
       then Inr (failed st PolicyDenied DomPolicy ''decision_provider_required'')
       else rounds (al_max_steps (oc_limits oc)) oc cx env st)) left at_end" for g s
    by (rule post_bind [OF refresh_head [OF head]]) (simp add: end_failed_head rounds_post)
  have "post (of_opt w (agent_goal goal)) left (\<lambda>_. True)" using lw by (rule post_of_opt) simp
  then have go: "post (bindE (of_opt w (agent_goal goal)) (\<lambda>g.
       bindE (open_session oc w) (\<lambda>s.
       bindE (refresh_research (initial_state g s w)) (\<lambda>st.
       if oc_requires_provider oc \<and> \<not> rp_allow_decision_provider (oc_policy oc)
       then Inr (failed st PolicyDenied DomPolicy ''decision_provider_required'')
       else rounds (al_max_steps (oc_limits oc)) oc cx env st)))) left at_end"
    by (rule post_bind) (rule post_bind [OF session start])
  show ?thesis unfolding run_def by (cases "contains_protected_value (PStr goal) (oc_protected oc)")
    (simp_all only: if_True if_False refuse go)
qed

end

end
