(* ===== verification/Agent_Service.thy ===== *)
theory Agent_Service
  imports Agent_Durable Agent_World
begin

text \<open>
  How the durable service moves the job store.  Every operation is a path of single
  transactions between which other connections may commit (\<open>world_path\<close>); \<open>serve\<close>
  collects the operations of the service, and what holds along every path (the
  invariant of the tables, the finality of ended jobs) holds of every sequence of
  requests.  The orchestrator inside a run is covered by interpreting
  \<open>agent_world\<close> on the environment that the service gives it.
\<close>

section \<open>The orchestrator in the world of the store\<close>

lemma durable_cancelled_path: "durable_cancelled e jid w = (c, w') \<Longrightarrow> world_path e w w'"
  using follows_read [of e "\<lambda>je db. get_job je db jid"] unfolding durable_cancelled_def
  by (auto split: prod.splits sum.splits dest: followsD)

lemma record_trace_follows [follows_intros]: "follows e (record_trace e jid ms t steps tools)"
  unfolding record_trace_def Let_def by (intro follows_intros)

lemma durable_sink_path: "durable_sink e jid ms t i j w = (ok, w') \<Longrightarrow> world_path e w w'"
  using record_trace_follows [of e jid ms t i j] unfolding durable_sink_def
  by (auto split: prod.splits dest: followsD)

interpretation store_path: agent_world "durable_agent_env e m jid ms" "\<lambda>_. world_path e w0" for e m jid ms w0
  by unfold_locales
     (auto simp: durable_agent_env_def dest: durable_cancelled_path durable_sink_path intro: rtranclp_trans)

lemma run_follows:
  "case run oc cx (durable_agent_env e m jid ms) goal w of
     Inl w' \<Rightarrow> world_path e w w' | Inr r \<Rightarrow> world_path e w (res_world r)"
  using store_path.run_post [of e w w oc cx m jid ms goal]
  by (auto simp: post_def store_path.left_def store_path.at_end_def split: sum.splits)

section \<open>The operations of the service\<close>

lemma finish_once_follows [follows_intros]: "follows e (finish_once e jid r cur)"
  unfolding finish_once_def by (intro follows_intros)

lemma finish_follows [follows_intros]: "follows e (finish k e jid r)"
  unfolding finish_def by (intro follows_intros)

lemma abort_once_follows [follows_intros]: "follows e (abort_once e jid cur)"
  unfolding abort_once_def by (intro follows_intros)

lemma abort_follows [follows_intros]: "follows e (abort k e jid)"
  unfolding abort_def by (intro follows_intros)

lemma owned_job_follows [follows_intros]: "follows e (owned_job e rid)"
  unfolding owned_job_def by (intro follows_intros)

lemma get_run_follows [follows_intros]: "follows e (get_run e rid)"
  unfolding get_run_def by (intro follows_intros)

lemma run_body_follows [follows_intros]:
  "follows e (\<lambda>w. case run oc cx (durable_agent_env e m jid ms) goal w of
     Inl w' \<Rightarrow> (Inl OtherError, w') | Inr r \<Rightarrow> finish k e jid r (res_world r))"
  unfolding follows_def
proof
  fix w
  have "world_path e w' (snd (finish k e jid r w'))" for r :: "store_world agent_result" and w'
    using finish_follows [of e k jid r] by (simp add: follows_def)
  then show "world_path e w (snd (case run oc cx (durable_agent_env e m jid ms) goal w of
     Inl w' \<Rightarrow> (Inl OtherError, w') | Inr r \<Rightarrow> finish k e jid r (res_world r)))"
    using run_follows [where oc = oc and cx = cx and e = e and m = m and jid = jid and ms = ms and goal = goal and w = w] by (auto split: sum.splits intro: rtranclp_trans)
qed

lemma execute_body_follows [follows_intros]: "follows e (execute_body e job rid)"
  unfolding execute_body_def Let_def by (intro follows_intros)

lemma execute_claimed_follows [follows_intros]: "follows e (execute_claimed e job)"
  unfolding execute_claimed_def by (intro follows_intros)

lemma run_durable_follows [follows_intros]: "follows e (run_durable e rid)"
  unfolding run_durable_def by (intro follows_intros)

text \<open>The requests that the service answers, and the world after one of them.\<close>

datatype service_call =
    CreateRun run_request string
  | GetRun string
  | ListRuns "job_state option" int int
  | ResultOfRun string
  | CancelRun string int
  | EventsOfRun string int
  | StartRun string
  | ExecuteClaimed durable_job

fun serve :: "durable_env \<Rightarrow> service_call \<Rightarrow> store_world \<Rightarrow> store_world" where
  "serve e (CreateRun q key) w = snd (create_run e q key w)"
| "serve e (GetRun rid) w = snd (get_run e rid w)"
| "serve e (ListRuns st page per) w = snd (list_runs e st page per w)"
| "serve e (ResultOfRun rid) w = snd (run_result e rid w)"
| "serve e (CancelRun rid n) w = snd (cancel_run e rid n w)"
| "serve e (EventsOfRun rid after) w = snd (run_events e rid after w)"
| "serve e (StartRun rid) w = snd (run_durable e rid w)"
| "serve e (ExecuteClaimed job) w = snd (execute_claimed e job w)"

lemma client_follows [follows_intros]:
  "follows e (create_run e q key)" "follows e (list_runs e st page per)" "follows e (run_result e rid)"
  "follows e (cancel_run e rid n)" "follows e (run_events e rid after)"
  unfolding create_run_def list_runs_def run_result_def cancel_run_def run_events_def
  by (intro follows_intros)+

lemma serve_follows: "world_path e w (serve e c w)"
  by (cases c) (simp_all only: serve.simps, (rule follows_snd, intro follows_intros)+)

lemma serve_all_follows: "world_path e w (fold (serve e) cs w)"
proof (induction cs arbitrary: w)
  case (Cons c cs)
  have "world_path e (serve e c w) (fold (serve e) cs (serve e c w))" by (rule Cons.IH)
  with serve_follows show ?case by (auto intro: rtranclp_trans)
qed simp

end
