(* ===== verification/Agent_Roundtrip.thy ===== *)
theory Agent_Roundtrip
  imports Agent_Record
begin

text \<open>
  What the service stores it can read: \<open>parse\<close> inverts \<open>canon \<circ> value\<close> for the frozen
  plan, the durable result and the event summary.  \<open>reads_as\<close> is the statement for one
  model; the lemmas on fields, options and arrays compose it.
\<close>

section \<open>Decoded dictionaries\<close>

lemma those_None_iff: "those xs = None \<longleftrightarrow> None \<in> set xs"
  by (induction xs) (auto split: option.splits)

lemma canon_field_dict:
  assumes "canon (field_dict kvs) = Some w"
  shows "w = PDict (sort_key (\<lambda>kv. key_str (fst kv)) (map (\<lambda>kv. (KStr (fst kv), the (canon (snd kv)))) kvs)) \<and>
    (\<forall>kv \<in> set kvs. canon (snd kv) \<noteq> None)"
proof -
  let ?f = "\<lambda>kv. map_option (\<lambda>w. (KStr (fst kv), w)) (canon (snd kv))"
  have eq: "map (\<lambda>kv. case fst kv of KStr s \<Rightarrow> map_option (\<lambda>w. (KStr s, w)) (canon (snd kv)) | KOther \<Rightarrow> None)
      (map (\<lambda>kv. (KStr (fst kv), snd kv)) kvs) = map ?f kvs" by simp
  from assms obtain xs where xs: "those (map ?f kvs) = Some xs" "w = PDict (sort_key (\<lambda>kv. key_str (fst kv)) xs)"
    unfolding field_dict_def canon.simps eq by auto
  then have m: "map ?f kvs = map Some xs" by (simp add: those_Some_iff)
  have ok: "canon (snd kv) \<noteq> None" if "kv \<in> set kvs" for kv
  proof -
    have "?f kv \<in> set (map Some xs)" unfolding m [symmetric] using that by simp
    then show ?thesis by auto
  qed
  have "map Some xs = map Some (map (\<lambda>kv. (KStr (fst kv), the (canon (snd kv)))) kvs)"
    unfolding m [symmetric] using ok by (auto simp: list.map_comp)
  then have "xs = map (\<lambda>kv. (KStr (fst kv), the (canon (snd kv)))) kvs"
    by (metis (no_types) inj_map_eq_map inj_Some)
  with xs(2) ok show ?thesis by simp
qed

lemma canon_field_dict_ok:
  assumes "\<forall>kv \<in> set kvs. canon (snd kv) \<noteq> None"
  shows "canon (field_dict kvs) \<noteq> None"
proof -
  have "None \<notin> set (map (\<lambda>kv. map_option (\<lambda>w. (KStr (fst kv), w)) (canon (snd kv))) kvs)"
    using assms by auto
  then show ?thesis by (simp add: field_dict_def o_def those_None_iff)
qed

lemma map_of_perm:
  assumes "set xs = set ys" "distinct (map fst xs)" "distinct (map fst ys)"
  shows "map_of xs = map_of ys"
proof
  fix k
  show "map_of xs k = map_of ys k"
    using assms by (metis map_of_eq_Some_iff not_Some_eq)
qed

lemma distinct_map_sort_key: "distinct (map f (sort_key g xs)) = distinct (map f xs)"
  by (simp add: distinct_map)

text \<open>The fields that a parser sees are the encoded ones.\<close>

lemma canon_fields:
  assumes "canon (field_dict kvs) = Some w" "distinct (map fst kvs)" "fst ` set kvs \<subseteq> set allowed"
  obtains fs where "model_fields allowed w = Some fs" "\<And>k. map_of fs k = Option.bind (map_of kvs k) canon"
proof -
  let ?xs = "map (\<lambda>kv. (KStr (fst kv), the (canon (snd kv)))) kvs"
  let ?ys = "sort_key (\<lambda>kv. key_str (fst kv)) ?xs"
  note c = canon_field_dict [OF assms(1)]
  let ?fs = "map (\<lambda>kv. (key_str (fst kv), snd kv)) ?ys"
  have str: "str_key (fst kv) = Some (key_str (fst kv))" if "kv \<in> set ?ys" for kv using that by auto
  have "those (map (str_key \<circ> fst) ?ys) = Some (map (\<lambda>kv. key_str (fst kv)) ?ys)"
    unfolding those_Some_iff using str by simp
  moreover have "set (map (\<lambda>kv. key_str (fst kv)) ?ys) \<subseteq> set allowed" using assms(3) by auto
  moreover have "zip (map (\<lambda>kv. key_str (fst kv)) ys) (map snd ys) = map (\<lambda>kv. (key_str (fst kv), snd kv)) ys" for ys
    by (induction ys) auto
  ultimately have mf: "model_fields allowed w = Some ?fs" using c by (simp add: model_fields_def)
  let ?zs = "map (\<lambda>kv. (fst kv, the (canon (snd kv)))) kvs"
  have sets: "set ?fs = set ?zs" by (simp add: image_image)
  have dz: "distinct (map fst ?zs)" using assms(2) by (simp add: o_def)
  have "distinct (map (\<lambda>kv. key_str (fst kv)) ?xs)" using assms(2) by (simp add: o_def)
  then have "distinct (map (\<lambda>kv. key_str (fst kv)) ?ys)"
    by (simp only: distinct_map_sort_key)
  then have df: "distinct (map fst ?fs)" by (simp add: o_def)
  have "map_of ?fs k = Option.bind (map_of kvs k) canon" for k
  proof -
    have "map_of ?fs k = map_of ?zs k" using map_of_perm [OF sets df dz] by simp
    also have "\<dots> = map_option (the \<circ> canon) (map_of kvs k)" by (induction kvs) auto
    also have "\<dots> = Option.bind (map_of kvs k) canon"
      using c by (cases "map_of kvs k") (auto dest!: map_of_SomeD)
    finally show ?thesis .
  qed
  with mf that show ?thesis by blast
qed

section \<open>Composing round trips\<close>

definition reads_as :: "(pyval \<Rightarrow> 'a option) \<Rightarrow> pyval \<Rightarrow> 'a \<Rightarrow> bool" where
  "reads_as p v x \<longleftrightarrow> (\<exists>w. canon v = Some w \<and> p w = Some x)"

lemma reads_asE: "reads_as p v x \<Longrightarrow> (\<And>w. canon v = Some w \<Longrightarrow> p w = Some x \<Longrightarrow> thesis) \<Longrightarrow> thesis"
  by (auto simp: reads_as_def)

lemma reads_as_bind: "reads_as p v x \<Longrightarrow> Option.bind (canon v) p = Some x"
  by (auto simp: reads_as_def)

lemma reads_array:
  assumes "\<And>x. x \<in> set xs \<Longrightarrow> reads_as p (f x) x"
  shows "reads_as (as_array p) (PList (map f xs)) xs"
proof -
  have c: "canon (f x) = Some (the (canon (f x)))" "p (the (canon (f x))) = Some x" if "x \<in> set xs" for x
    using assms [OF that] by (auto simp: reads_as_def)
  have "those (map canon (map f xs)) = Some (map (\<lambda>x. the (canon (f x))) xs)"
    unfolding those_Some_iff using c(1) by simp
  moreover have "those (map p (map (\<lambda>x. the (canon (f x))) xs)) = Some xs"
    unfolding those_Some_iff using c(2) by simp
  ultimately show ?thesis by (simp add: reads_as_def as_array_def)
qed

lemma reads_scalars [simp]:
  "reads_as as_str (PStr s) s" "reads_as as_bool (PBool b) b"
  "lo \<le> n \<Longrightarrow> n \<le> hi \<Longrightarrow> reads_as (as_nat lo hi) (PInt (int n)) n"
  "s \<in> set lits \<Longrightarrow> reads_as (as_literal lits) (PStr s) s"
  by (auto simp: reads_as_def)

lemma reads_strs [simp]: "reads_as (as_array as_str) (PList (map PStr xs)) xs"
  by (rule reads_array) simp

text \<open>\<open>json.dumps\<close> does not raise.\<close>

definition encodes :: "pyval \<Rightarrow> bool" where
  "encodes v \<longleftrightarrow> canon v \<noteq> None"

lemma encodes_scalars [simp]: "encodes PNone" "encodes (PBool b)" "encodes (PInt i)" "encodes (PStr s)"
  by (simp_all add: encodes_def)

lemma encodes_strs [simp]: "encodes (PList (map PStr xs))"
  using reads_strs [of xs] by (auto simp: encodes_def reads_as_def)

lemma reads_encodes: "reads_as p v x \<Longrightarrow> encodes v"
  by (auto simp: reads_as_def encodes_def)

text \<open>A model: its fields determine what the parser returns.\<close>

lemma reads_model:
  assumes "\<forall>kv \<in> set kvs. encodes (snd kv)" "distinct (map fst kvs)" "fst ` set kvs \<subseteq> set allowed"
    and "\<And>fs. map_of fs = (\<lambda>k. Option.bind (map_of kvs k) canon) \<Longrightarrow> q fs = Some x"
    and "p = (\<lambda>v. Option.bind (model_fields allowed v) q)"
  shows "reads_as p (field_dict kvs) x"
proof -
  obtain w where w: "canon (field_dict kvs) = Some w" using canon_field_dict_ok assms(1) unfolding encodes_def by blast
  obtain fs where fs: "model_fields allowed w = Some fs" "\<And>k. map_of fs k = Option.bind (map_of kvs k) canon"
    by (rule canon_fields [OF w assms(2,3)]) blast
  have "q fs = Some x" by (rule assms(4)) (use fs(2) in blast)
  with w fs(1) assms(5) show ?thesis by (auto simp: reads_as_def)
qed

section \<open>The parts of a plan\<close>

lemma reads_option:
  "reads_as (as_option p) PNone None"
  "reads_as p v x \<Longrightarrow> (\<And>w. canon v = Some w \<Longrightarrow> w \<noteq> PNone) \<Longrightarrow> reads_as (as_option p) v (Some x)"
proof -
  show "reads_as (as_option p) PNone None" by (simp add: reads_as_def)
  assume "reads_as p v x" "\<And>w. canon v = Some w \<Longrightarrow> w \<noteq> PNone"
  then obtain w where w: "canon v = Some w" "p w = Some x" "w \<noteq> PNone" by (auto simp: reads_as_def)
  then show "reads_as (as_option p) v (Some x)" by (cases w) (auto simp: reads_as_def)
qed

lemma canon_dict_not_none: "canon (field_dict kvs) = Some w \<Longrightarrow> w \<noteq> PNone"
  by (auto simp: field_dict_def)

text \<open>A dictionary of counters comes back in key order.\<close>

definition in_key_order :: "(string \<times> nat) list \<Rightarrow> (string \<times> nat) list" where
  "in_key_order d = sort_key fst d"

lemma in_key_order_facts [simp]:
  "set (in_key_order d) = set d" "distinct (map fst (in_key_order d)) = distinct (map fst d)"
  by (simp_all add: in_key_order_def distinct_map_sort_key)

lemma map_insort_key: "map f (insort_key (\<lambda>x. g (f x)) x ys) = insort_key g (f x) (map f ys)"
  by (induction ys) auto

lemma map_sort_key: "map f (sort_key (\<lambda>x. g (f x)) xs) = sort_key g (map f xs)"
  by (induction xs) (simp_all add: map_insort_key)

lemma reads_counters:
  assumes "\<forall>kv \<in> set d. snd kv \<le> 10"
  shows "reads_as as_counters (counters_value d) (in_key_order d)"
proof -
  let ?kvs = "map (\<lambda>kv. (fst kv, PInt (int (snd kv)))) d"
  let ?k = "\<lambda>kv. (KStr (fst kv), PInt (int (snd kv)))"
  have "canon (field_dict ?kvs) \<noteq> None" by (rule canon_field_dict_ok) auto
  then obtain w where w: "canon (field_dict ?kvs) = Some w" by blast
  have "map (\<lambda>kv. (KStr (fst kv), the (canon (snd kv)))) ?kvs = map ?k d" by simp
  then have "w = PDict (sort_key (\<lambda>kv. key_str (fst kv)) (map ?k d))"
    using canon_field_dict [OF w] by (simp only:)
  moreover have "sort_key (\<lambda>kv. key_str (fst kv)) (map ?k d) = map ?k (in_key_order d)"
    using map_sort_key [of ?k "\<lambda>kv. key_str (fst kv)" d] by (simp add: in_key_order_def)
  ultimately have wd: "w = PDict (map ?k (in_key_order d))" by simp
  have ks: "those (map (str_key \<circ> fst) (map ?k (in_key_order d))) = Some (map fst (in_key_order d))"
    unfolding those_Some_iff by simp
  have ns: "those (map (as_nat 0 10 \<circ> snd) (map ?k (in_key_order d))) = Some (map snd (in_key_order d))"
    unfolding those_Some_iff using assms by auto
  have "as_counters w = Some (in_key_order d)"
    unfolding wd as_counters_def pyval.case ks ns Option.bind.simps zip_map_fst_snd ..
  with w show ?thesis by (simp add: reads_as_def counters_value_def)
qed

definition ordered_limits :: "agent_limits \<Rightarrow> agent_limits" where
  "ordered_limits l = l\<lparr>al_per_tool := in_key_order (al_per_tool l)\<rparr>"

text \<open>Evaluating a parser on the fields it sees.\<close>

named_theorems reads_simps \<open>what the parser of a field returns\<close>

lemma reads_as_case: "reads_as p v x \<Longrightarrow> (case canon v of None \<Rightarrow> Some d | Some w \<Rightarrow> p w) = Some x"
  by (auto simp: reads_as_def)

lemmas reads_scalar_simps [reads_simps] =
  reads_scalars [THEN reads_as_bind] reads_scalars [THEN reads_as_case] reads_strs [THEN reads_as_bind]
  field_def field_or_def

lemmas reads_dels = canon.simps as_nat.simps as_literal.simps as_str.simps as_bool.simps as_option.simps

lemma reads_opt_str [simp]:
  "reads_as (as_option as_str) (opt_str x) x" "encodes (opt_str x)"
  by (cases x; simp add: opt_str_def reads_as_def encodes_def)+

lemma reads_optional_str:
  assumes "case x of None \<Rightarrow> True | Some s \<Rightarrow> ok s"
  shows "optional_str ok (canon (opt_str x)) = Some x" "optional_str ok None = Some None"
  using assms by (auto simp: opt_str_def optional_str_def split: option.splits)

lemmas reads_opt_simps [reads_simps] =
  reads_opt_str(1) [THEN reads_as_bind] reads_opt_str(1) [THEN reads_as_case] reads_strs [THEN reads_as_case]

lemma reads_limits:
  assumes "valid_limits l"
  shows "reads_as parse_limits (limits_value l) (ordered_limits l)"
proof -
  note v = assms [unfolded valid_limits_def]
  have c: "reads_as as_counters (counters_value (al_per_tool l)) (in_key_order (al_per_tool l))"
    using v by (intro reads_counters) blast
  have o: "int (nat (al_max_observation_bytes l)) = al_max_observation_bytes l"
    "int (nat (al_max_total_bytes l)) = al_max_total_bytes l" using v by auto
  have b: "reads_as (as_nat 256 32768) (PInt (al_max_observation_bytes l)) (nat (al_max_observation_bytes l))"
    "reads_as (as_nat 256 65536) (PInt (al_max_total_bytes l)) (nat (al_max_total_bytes l))"
    using v by (auto simp: reads_as_def)
  show ?thesis
    unfolding limits_value_def
    by (rule reads_model [where allowed = limit_fields and q = limits_of])
       (use v reads_encodes [OF c] in \<open>simp_all add: limits_of_def reads_as_case [OF c] reads_as_case [OF b(1)]
          reads_as_case [OF b(2)] reads_simps o check_def ordered_limits_def limit_fields_def parse_limits_def [abs_def]
          del: reads_dels\<close>)
qed

lemma reads_objective:
  assumes "valid_objective o'"
  shows "reads_as parse_objective (sparse_objective o') o'"
proof -
  have t: "optional_str is_ticker (canon (PStr t)) = Some (Some t)" if "ro_ticker o' = Some t" for t
    using assms that by (simp add: valid_objective_def optional_str_def)
  have n: "optional_str is_ticker None = Some None" by (simp add: optional_str_def)
  show ?thesis
    unfolding sparse_objective_def sparse_dict_def
    by (rule reads_model [where allowed = "[''objective_id'', ''question'', ''ticker_scope'']" and q = objective_of])
       (cases "ro_ticker o'"; use assms in \<open>simp add: opt_str_def objective_of_def parse_objective_def [abs_def]
          reads_simps t n check_def valid_objective_def del: reads_dels\<close>)+
qed

lemma reads_config:
  assumes "valid_config c"
  shows "reads_as parse_config (sparse_config c) c"
proof -
  note v = assms [unfolded valid_config_def]
  have a: "reads_as (as_array parse_objective) (PList (map sparse_objective (rc_objectives c))) (rc_objectives c)"
    by (rule reads_array, rule reads_objective) (use v in \<open>auto simp: list_all_iff\<close>)
  show ?thesis
    unfolding sparse_config_def
    by (rule reads_model [where allowed = "[''version'', ''objectives'', ''max_evidence_entries'',
       ''max_search_attempts_per_objective'', ''min_evidence_per_objective'']" and q = config_of])
       (use v reads_encodes [OF a] in \<open>simp_all add: config_of_def parse_config_def [abs_def] reads_as_bind [OF a]
          reads_simps check_def del: reads_dels\<close>)
qed

lemma reads_identity:
  assumes "valid_identity i"
  shows "reads_as parse_identity (identity_value i) i"
  unfolding identity_value_def
  by (rule reads_model [where allowed = "[''provider'', ''model_id'', ''adapter_version'', ''mechanism'', ''credential_policy'']"
        and q = identity_of])
     (use assms in \<open>auto simp: identity_of_def parse_identity_def [abs_def] reads_simps valid_identity_def
        provider_models_def simp del: reads_dels\<close>)

lemma field_dict_not_none [simp]: "field_dict kvs \<noteq> PNone" "sparse_dict kvs \<noteq> PNone"
  by (simp_all add: field_dict_def sparse_dict_def)

lemma reads_some:
  assumes "reads_as p (field_dict kvs) x"
  shows "reads_as (as_option p) (field_dict kvs) (Some x)"
  by (rule reads_option(2) [OF assms canon_dict_not_none])

section \<open>The plan\<close>

definition ordered_plan :: "agent_plan \<Rightarrow> agent_plan" where
  "ordered_plan p = p\<lparr>pl_limits := ordered_limits (pl_limits p)\<rparr>"

lemma count_at_ordered:
  "distinct (map fst d) \<Longrightarrow> count_at (in_key_order d) k = count_at d k"
  unfolding count_at_def by (simp add: map_of_perm [of "in_key_order d" d])

lemma ordered_coherent:
  assumes "valid_limits (pl_limits p)"
  shows "plan_coherent sha (ordered_plan p) = plan_coherent sha p"
proof -
  have "distinct (map fst (al_per_tool (pl_limits p)))" using assms by (simp add: valid_limits_def)
  then have "validate_research_limits c (ordered_limits (pl_limits p)) = validate_research_limits c (pl_limits p)" for c
    by (simp add: validate_research_limits_def ordered_limits_def count_at_ordered)
  then show ?thesis by (simp add: plan_coherent_def ordered_plan_def cong: option.case_cong)
qed

lemma reads_plan:
  assumes "valid_plan sha p"
  shows "reads_as (parse_plan sha) (plan_value p) (ordered_plan p)"
proof -
  note v = assms [unfolded valid_plan_def]
  have l: "reads_as parse_limits (limits_value (pl_limits p)) (ordered_limits (pl_limits p))"
    using v by (blast intro: reads_limits)
  have i: "reads_as (as_option parse_identity) (identity_value i) (Some i)" if "pl_provider p = Some i" for i
    using reads_identity [of i] v that unfolding identity_value_def by (intro reads_some) simp
  have c: "reads_as (as_option parse_config) (sparse_config c) (Some c)" if "pl_research p = Some c" for c
    using reads_config [of c] v that unfolding sparse_config_def by (intro reads_some) simp
  have nn: "identity_value i \<noteq> PNone" "sparse_config c \<noteq> PNone" "limits_value l \<noteq> PNone" for i c l
    by (simp_all add: identity_value_def sparse_config_def limits_value_def)
  have loc: "pl_locale p \<in> set [''en'', ''vi'']" using v by simp
  have coh: "plan_coherent sha (ordered_plan p)" using v ordered_coherent by blast
  then have coh': "plan_coherent sha (p\<lparr>pl_limits := ordered_limits (pl_limits p)\<rparr>)" by (simp add: ordered_plan_def)
  have one: "(case canon (PInt 1) of None \<Rightarrow> Some (Suc 0) | Some w \<Rightarrow> as_nat (Suc 0) (Suc 0) w) = Some (Suc 0)" by simp
  note simps = one plan_of_def parse_plan_def [abs_def] plan_fields_def reads_simps reads_as_bind [OF l] check_def
    ordered_plan_def nn reads_as_bind [OF reads_scalars(4) [OF loc]] reads_encodes [OF l]
  have eq: "\<lparr>pl_model_id = pl_model_id p, pl_provider = pr, pl_goal = pl_goal p, pl_locale = pl_locale p,
      pl_tools = pl_tools p, pl_provider_tools = pl_provider_tools p, pl_provider_decisions = pl_provider_decisions p,
      pl_require_observation = pl_require_observation p, pl_reject_duplicates = pl_reject_duplicates p,
      pl_limits = x, pl_research = re\<rparr> = p\<lparr>pl_limits := x\<rparr>" if "pl_provider p = pr" "pl_research p = re" for pr re x
    using that by (cases p) simp
  show ?thesis
    unfolding plan_value_def sparse_dict_def
    by (rule reads_model [where allowed = plan_fields and q = "plan_of sha"];
        cases "pl_provider p"; cases "pl_research p")
       (use coh' in \<open>simp_all add: simps eq reads_as_case [OF i] reads_as_case [OF c] reads_encodes [OF i]
          reads_encodes [OF c] del: reads_dels\<close>)
qed

text \<open>The fingerprint does not see the order: the encoded plan is the same.\<close>

lemma canon_ordered_counters: "canon (counters_value (in_key_order d)) = canon (counters_value d)"
proof -
  let ?f = "\<lambda>kv. map_option (\<lambda>w. (KStr (fst kv), w)) (canon (PInt (int (snd kv))))"
  have c: "canon (counters_value x) =
      Some (PDict (sort_key (\<lambda>kv. key_str (fst kv)) (map (\<lambda>kv. (KStr (fst kv), PInt (int (snd kv)))) x)))"
    for x :: "(string \<times> nat) list"
  proof -
    have "those (map (\<lambda>kv. Some (KStr (fst kv), PInt (int (snd kv)))) x) =
        Some (map (\<lambda>kv. (KStr (fst kv), PInt (int (snd kv)))) x)" by (simp add: those_Some_iff)
    then show ?thesis by (simp add: counters_value_def field_dict_def o_def)
  qed
  have "sort_key (\<lambda>kv. key_str (fst kv)) (map (\<lambda>kv. (KStr (fst kv), PInt (int (snd kv)))) x)
      = map (\<lambda>kv. (KStr (fst kv), PInt (int (snd kv)))) (in_key_order x)" for x :: "(string \<times> nat) list"
    using map_sort_key [of "\<lambda>kv. (KStr (fst kv), PInt (int (snd kv)))" "\<lambda>kv. key_str (fst kv)" x]
    by (simp add: in_key_order_def)
  moreover have "in_key_order (in_key_order d) = in_key_order d" by (simp add: in_key_order_def sort_key_id_if_sorted)
  ultimately show ?thesis unfolding c by simp
qed

lemma canon_field_dict_cong:
  assumes "map fst kvs = map fst kvs'" "map (canon \<circ> snd) kvs = map (canon \<circ> snd) kvs'"
  shows "canon (field_dict kvs) = canon (field_dict kvs')"
proof -
  let ?g = "\<lambda>p. map_option (\<lambda>w. (KStr (fst p), w)) (snd p)"
  have m: "map (\<lambda>kv. map_option (\<lambda>w. (KStr (fst kv), w)) (canon (snd kv))) xs
      = map ?g (zip (map fst xs) (map (canon \<circ> snd) xs))" for xs
    by (induction xs) auto
  show ?thesis unfolding field_dict_def by (simp add: o_def m assms [unfolded o_def])
qed

lemma canon_ordered_plan: "canon (plan_value (ordered_plan p)) = canon (plan_value p)"
proof -
  have l: "canon (limits_value (ordered_limits l)) = canon (limits_value l)" for l
    unfolding limits_value_def by (rule canon_field_dict_cong) (simp_all add: ordered_limits_def canon_ordered_counters)
  have nn: "limits_value l \<noteq> PNone" for l by (simp add: limits_value_def)
  show ?thesis
    unfolding plan_value_def sparse_dict_def
    by (rule canon_field_dict_cong; cases "pl_provider p"; cases "pl_research p")
       (simp_all add: ordered_plan_def l nn del: canon.simps)
qed

section \<open>The durable result\<close>

lemma record_eta:
  "\<lparr>rev_document = rev_document r, rev_chunk = rev_chunk r, rev_ticker = rev_ticker r,
     rev_objectives = rev_objectives r, rev_tool = rev_tool r, rev_step = rev_step r\<rparr> = r"
  "\<lparr>rs_objectives = rs_objectives x, rs_evidence = rs_evidence x, rs_gaps = rs_gaps x, rs_capped = rs_capped x\<rparr> = x"
  "\<lparr>dr_status = dr_status d, dr_answer = dr_answer d, dr_refs = dr_refs d, dr_steps = dr_steps d,
     dr_decisions = dr_decisions d, dr_tool_calls = dr_tool_calls d, dr_per_tool = dr_per_tool d,
     dr_observations = dr_observations d, dr_failure = dr_failure d, dr_research = dr_research d\<rparr> = d"
  "\<lparr>es_index = es_index e, es_kind = es_kind e, es_tool = es_tool e, es_objective = es_objective e,
     es_args = es_args e, es_outcome = es_outcome e, es_count = es_count e, es_refs = es_refs e,
     es_steps = es_steps e, es_tools = es_tools e, es_failure = es_failure e\<rparr> = e"
  by simp_all

lemma named_find:
  assumes "x \<in> set xs" "inj_on f (set xs)"
  shows "named f xs (f x) = Some x"
proof -
  obtain y where y: "find (\<lambda>z. f z = f x) xs = Some y"
    using assms(1) by (metis (mono_tags, lifting) find_None_iff not_Some_eq)
  then have "y \<in> set xs" "f y = f x" by (auto dest: find_SomeD)
  then have "y = x" using assms by (meson inj_onD)
  with y show ?thesis by (simp add: named_def)
qed

lemma reads_named: "x \<in> set xs \<Longrightarrow> inj_on f (set xs) \<Longrightarrow> reads_as (as_named f xs) (PStr (f x)) x"
  by (simp add: reads_as_def as_named_def named_find)

lemma reads_status [simp]: "reads_as (as_named status_name all_statuses) (PStr (status_name x)) x"
  by (rule reads_named; cases x) (simp_all add: all_statuses_def)

lemma reads_domain [simp]: "reads_as (as_named domain_name all_domains) (PStr (domain_name x)) x"
  by (rule reads_named; cases x) (simp_all add: all_domains_def)

lemma reads_coverage [simp]: "reads_as (as_named coverage_name all_coverages) (PStr (coverage_name x)) x"
  by (rule reads_named; cases x) (simp_all add: all_coverages_def)

lemmas reads_name_simps [reads_simps] =
  reads_status [THEN reads_as_bind] reads_domain [THEN reads_as_bind] reads_coverage [THEN reads_as_bind]

lemma reads_ref:
  assumes "canonical_ref r"
  shows "reads_as parse_ref (ref_value r) r"
  unfolding ref_value_def
  by (rule reads_model [where allowed = "[''kind'', ''value'']" and
        q = "\<lambda>fs. Option.bind (Option.bind (map_of fs ''kind'') as_str) (\<lambda>k.
          Option.bind (Option.bind (map_of fs ''value'') as_str) (\<lambda>x.
          if canonical_ref (k, x) then Some (k, x) else None))"])
     (use assms in \<open>simp_all add: parse_ref_def [abs_def]\<close>)

lemma reads_refs:
  "list_all canonical_ref rs \<Longrightarrow> reads_as (as_array parse_ref) (PList (map ref_value rs)) rs"
  by (rule reads_array, rule reads_ref) (simp add: list_all_iff)

lemma reads_evidence_entry:
  assumes "valid_evidence r"
  shows "reads_as parse_evidence_entry (evidence_entry_value r) r"
proof -
  note v = assms [unfolded valid_evidence_def]
  have t: "optional_str is_ticker (canon (opt_str (rev_ticker r))) = Some (rev_ticker r)"
    by (rule reads_optional_str) (use v in blast)
  show ?thesis
    unfolding evidence_entry_value_def
    by (rule reads_model [where allowed = "[''document_id'', ''chunk_id'', ''ticker'', ''objective_ids'', ''first_tool'', ''first_step'']"
          and q = evidence_entry_of])
       (use v assms in \<open>simp_all add: evidence_entry_of_def parse_evidence_entry_def [abs_def] reads_simps t check_def Let_def record_eta
          del: reads_dels\<close>)
qed

lemma reads_objective_status:
  assumes "obj_identifier (os_id x)" "os_count x \<le> 6" "os_attempts x \<le> 2"
  shows "reads_as parse_objective_status (objective_status_value x) x"
  unfolding objective_status_value_def
  by (rule reads_model [where allowed = "[''objective_id'', ''coverage'', ''evidence_count'', ''search_attempts'']"
        and q = objective_status_of])
     (use assms in \<open>simp_all add: objective_status_of_def parse_objective_status_def [abs_def] reads_simps check_def
        del: reads_dels\<close>)

lemma reads_gap:
  assumes "obj_identifier (fst g)" "snd g \<in> set gap_codes"
  shows "reads_as parse_gap (gap_value g) g"
  unfolding gap_value_def
  by (rule reads_model [where allowed = "[''objective_id'', ''code'']" and q = gap_of])
     (use assms reads_scalars(4) [OF assms(2), THEN reads_as_bind] in
       \<open>simp_all add: gap_of_def parse_gap_def [abs_def] reads_simps check_def del: reads_dels\<close>)

lemma reads_summary:
  assumes "valid_summary x"
  shows "reads_as parse_summary (summary_value x) x"
proof -
  note v = assms [unfolded valid_summary_def]
  have a: "reads_as (as_array parse_objective_status) (PList (map objective_status_value (rs_objectives x))) (rs_objectives x)"
    by (rule reads_array, rule reads_objective_status) (use v in \<open>auto simp: list_all_iff\<close>)
  have b: "reads_as (as_array parse_evidence_entry) (PList (map evidence_entry_value (rs_evidence x))) (rs_evidence x)"
    by (rule reads_array, rule reads_evidence_entry) (use v in \<open>auto simp: list_all_iff\<close>)
  have c: "reads_as (as_array parse_gap) (PList (map gap_value (rs_gaps x))) (rs_gaps x)"
    by (rule reads_array, rule reads_gap) (use v in \<open>auto simp: list_all_iff\<close>)
  show ?thesis
    unfolding summary_value_def
    by (rule reads_model [where allowed = "[''version'', ''objectives'', ''evidence'', ''gaps'', ''evidence_capped'']"
          and q = summary_of])
       (use assms reads_encodes [OF a] reads_encodes [OF b] reads_encodes [OF c] in
         \<open>simp_all add: summary_of_def parse_summary_def [abs_def] reads_as_bind [OF a] reads_as_bind [OF b]
          reads_as_bind [OF c] reads_simps check_def Let_def record_eta del: reads_dels\<close>)
qed

lemma reads_failure:
  assumes "c \<in> set failure_codes"
  shows "reads_as parse_failure (field_dict [(''domain'', PStr (domain_name dmn)), (''code'', PStr c)]) (dmn, c)"
  by (rule reads_model [where allowed = "[''domain'', ''code'']" and q = failure_of])
     (use assms reads_scalars(4) [OF assms, THEN reads_as_bind] in
       \<open>simp_all add: failure_of_def parse_failure_def [abs_def] reads_simps del: reads_dels\<close>)

lemma reads_result:
  assumes "valid_result d" "dr_per_tool d = in_key_order (dr_per_tool d)"
  shows "reads_as parse_result (result_value d) d"
proof -
  note v = assms(1) [unfolded valid_result_def]
  have p: "reads_as as_counters (counters_value (dr_per_tool d)) (dr_per_tool d)"
    using reads_counters [of "dr_per_tool d"] v assms(2) by simp
  have a: "reads_as (as_array parse_ref) (PList (map ref_value (dr_refs d))) (dr_refs d)"
    using v by (blast intro: reads_refs)
  have f: "reads_as (as_option parse_failure) (failure_value (dr_failure d)) (dr_failure d)"
  proof (cases "dr_failure d")
    case None
    then show ?thesis by (simp add: failure_value_def reads_option(1))
  next
    case (Some x)
    obtain dmn c where x: "x = (dmn, c)" by (cases x)
    then have "c \<in> set failure_codes" using v Some by auto
    from reads_some [OF reads_failure [OF this]] show ?thesis by (simp add: failure_value_def Some x)
  qed
  have r: "reads_as (as_option parse_summary) (case dr_research d of None \<Rightarrow> PNone | Some x \<Rightarrow> summary_value x) (dr_research d)"
  proof (cases "dr_research d")
    case None
    then show ?thesis by (simp add: reads_option(1))
  next
    case (Some x)
    then have "valid_summary x" using v by simp
    from reads_summary [OF this] show ?thesis unfolding Some option.case summary_value_def by (rule reads_some)
  qed
  show ?thesis
    unfolding result_value_def
    by (rule reads_model [where allowed = result_fields and q = stored_of])
       (use v assms(1) reads_encodes [OF p] reads_encodes [OF a] reads_encodes [OF f] reads_encodes [OF r] in
         \<open>simp_all add: stored_of_def parse_result_def [abs_def] result_fields_def reads_as_bind [OF p]
          reads_as_case [OF a] reads_as_case [OF f] reads_as_case [OF r] reads_simps check_def Let_def record_eta del: reads_dels\<close>)
qed

section \<open>The event summary\<close>

lemma reads_event:
  assumes "valid_event x"
  shows "reads_as parse_event (event_value x) x"
proof -
  note v = assms [unfolded valid_event_def]
  have a: "reads_as (as_array parse_ref) (PList (map ref_value (es_refs x))) (es_refs x)"
    using v by (blast intro: reads_refs)
  have o: "optional_str obj_identifier (canon (opt_str (es_objective x))) = Some (es_objective x)"
    by (rule reads_optional_str) (use v in blast)
  have k: "es_kind x \<in> set [''tool'', ''final'', ''invalid'']"
    "es_outcome x \<in> set [''observed'', ''completed'', ''rejected'', ''failed'']" using v by auto
  note lits = k [THEN reads_scalars(4), THEN reads_as_bind]
  show ?thesis
    unfolding event_value_def
    by (rule reads_model [where allowed = agent_event_fields and q = event_of])
       (use v assms reads_encodes [OF a] in
         \<open>simp_all add: event_of_def parse_event_def [abs_def] agent_event_fields_def agent_event_fields_v1_def
          reads_as_case [OF a] o lits reads_simps check_def Let_def record_eta del: reads_dels\<close>)
qed

end
