(* ===== verification/Agent_Result.thy ===== *)
theory Agent_Result
  imports Agent_Roundtrip Agent_Invariants
begin

text \<open>
  The terminal result of a run as a durable record: whatever the model and the tools
  did, the fields that the service copies from the result pass the validators of
  \<open>AgentDurableResult\<close>, so that only the byte limit can refuse them, and what is stored
  reads back as it was.
\<close>

section \<open>Lengths\<close>

lemma length_utf8_len: "length s \<le> utf8_len s"
  by (induction s) (auto simp: utf8_len_def)

lemma length_join: "\<forall>s \<in> set ss. length s \<le> n \<Longrightarrow> length (join sep ss) \<le> length ss * (n + length sep)"
proof (induction sep ss rule: join.induct)
  case (3 sep s t ss)
  then have "length (join sep (t # ss)) \<le> length (t # ss) * (n + length sep)" "length s \<le> n" by simp_all
  then show ?case by simp
qed simp_all

lemma gap_code_length: "c \<in> set gap_codes \<Longrightarrow> length c \<le> 16"
  by (auto simp: gap_codes_def)

lemma obj_identifier_length: "obj_identifier s \<Longrightarrow> length s \<le> 32"
  by (auto simp: obj_identifier_def split: list.splits)

lemma gap_text_length:
  assumes "valid_summary sm"
  shows "length (gap_text (rs_gaps sm)) \<le> 400"
proof -
  have g: "length (fst g) \<le> 32 \<and> length (snd g) \<le> 16" if "g \<in> set (rs_gaps sm)" for g
    using assms that obj_identifier_length gap_code_length by (auto simp: valid_summary_def list_all_iff)
  have "length (gap_text (rs_gaps sm)) \<le> length (map (\<lambda>g. fst g @ '' ('' @ snd g @ '')'') (rs_gaps sm)) * (52 + length '', '')"
    unfolding gap_text_def by (rule length_join) (use g in fastforce)
  also have "\<dots> \<le> 6 * 54" using assms by (simp add: valid_summary_def)
  finally show ?thesis by simp
qed

text \<open>The two localized texts are short; the English ones have 67 and 30 characters.\<close>

definition short_texts :: "exec_context \<Rightarrow> bool" where
  "short_texts cx \<longleftrightarrow> length (fst (cx_texts cx)) \<le> 1000 \<and> length (snd (cx_texts cx)) \<le> 1000"

lemma english_short: "cx_texts cx = english_texts \<Longrightarrow> short_texts cx"
  by (simp add: short_texts_def english_texts_def)

lemma session_summary_valid:
  assumes "session_ok oc st" "st_session st \<noteq> None"
  shows "\<exists>sm. st_summary st = Some sm \<and> valid_summary sm"
  using assms raw_summary_valid by (auto simp: session_ok_def)

lemma final_answer_length:
  assumes "session_ok oc st" "short_texts cx" "length a \<le> 4000" "st_session st \<noteq> None \<longrightarrow> length a \<le> 1200"
  shows "length (final_answer cx st a) \<le> 4000"
proof (cases "st_session st")
  case None
  then show ?thesis using assms(3) by (simp add: final_answer_def)
next
  case (Some s)
  then obtain sm where sm: "st_summary st = Some sm" "valid_summary sm" using session_summary_valid [OF assms(1)] by auto
  show ?thesis
    using Some sm gap_text_length [OF sm(2)] assms(2,4) by (auto simp: final_answer_def short_texts_def Let_def)
qed

section \<open>References\<close>

lemma observation_refs_canonical:
  assumes "\<forall>r \<in> set (ob_evidence ob). canonical_record r"
    and "case ob_search ob of None \<Rightarrow> True | Some s \<Rightarrow> canonical_search_id s" "x \<in> set (observation_refs ob)"
  shows "canonical_ref x"
proof -
  from assms(3) consider
    s where "ob_search ob = Some s" "x = (''search_id'', s)"
  | r d where "r \<in> set (ob_evidence ob)" "evd_document r = Some d" "x = (''document_id'', d)"
  | r c where "r \<in> set (ob_evidence ob)" "evd_chunk r = Some c" "x = (''chunk_id'', c)"
    by (auto simp: observation_refs_def split: option.splits if_splits dest!: sym [of "Some _"])
  then show ?thesis
  proof cases
    case 1
    then show ?thesis using assms(2) by (simp add: canonical_ref_def)
  next
    case (2 r d)
    then have "canonical_record r" using assms(1) by blast
    with 2 show ?thesis by (simp add: canonical_ref_def canonical_record_def)
  next
    case (3 r c)
    then have "canonical_record r" using assms(1) by blast
    with 3 show ?thesis by (simp add: canonical_ref_def canonical_record_def)
  qed
qed

lemma observed_refs_canonical:
  assumes "observations_ok oc st" "x \<in> set (observed_refs (st_observations st))"
  shows "canonical_ref x"
proof -
  obtain ob where ob: "ob \<in> set (st_observations st)" "x \<in> set (observation_refs ob)"
    using assms(2) by (auto simp: observed_refs_def)
  then show ?thesis using assms(1) by (intro observation_refs_canonical [OF _ _ ob(2)]) (auto simp: observations_ok_def)
qed

section \<open>The durable fields of a run\<close>

lemma per_tool_bound:
  assumes "valid_limits l" "\<forall>n. count_at d n \<le> count_at (al_per_tool l) n" "distinct (map fst d)" "kv \<in> set d"
  shows "snd kv \<le> 10"
proof -
  have le: "count_at (al_per_tool l) n \<le> 10" for n
    using assms(1) by (auto simp: count_at_def valid_limits_def split: option.splits dest!: map_of_SomeD)
  have "map_of d (fst kv) = Some (snd kv)" using assms(3,4) by simp
  then have "count_at d (fst kv) = snd kv" by (simp add: count_at_def)
  then show ?thesis using assms(2) le by (metis le_trans)
qed

lemma ended_fields_valid:
  assumes "orchestrator_ok oc" "short_texts cx" "st_ok oc st" "session_ok oc st"
    and "st_decisions st \<le> al_max_steps (oc_limits oc)" "verdict oc cx st status failure answer refs"
  shows "valid_result (durable_fields (result_of st status failure answer refs) c)"
proof -
  have lim: "valid_limits (oc_limits oc)" using assms(1) by (simp add: orchestrator_ok_def)
  have b: "st_steps st \<le> 20" "st_decisions st \<le> 20" "st_tool_calls st \<le> 10" "length (st_observations st) \<le> 10"
    "set (map fst (st_per_tool st)) = set tool_names" "sum_list (map snd (st_per_tool st)) = st_tool_calls st"
    "\<forall>n. count_at (st_per_tool st) n \<le> count_at (al_per_tool (oc_limits oc)) n"
    using assms(3,5) lim by (auto simp: st_ok_def budgets_ok_def valid_limits_def)
  have "distinct (map fst (st_per_tool st))" using assms(3) by (simp add: st_ok_def budgets_ok_def tool_names_def)
  then have per: "\<forall>kv \<in> set (st_per_tool st). snd kv \<le> 10" using per_tool_bound [OF lim b(7)] by blast
  have sm: "case st_summary st of None \<Rightarrow> True | Some s \<Rightarrow> valid_summary s"
    using session_summary_valid [OF assms(4)] assms(4)
    by (cases "st_session st") (auto simp: session_ok_def)
  show ?thesis
  proof (cases "status = Completed")
    case True
    then obtain a u where a: "failure = None" "answer = Some (final_answer cx st a)" "final_failure oc st a refs u = None"
      "length a \<le> 4000" "length refs \<le> 20"
      using assms(6) by (auto simp: verdict_def)
    have "st_session st \<noteq> None \<longrightarrow> length a \<le> 1200"
      using a(3) length_utf8_len [of a] by (auto simp: final_failure_def split: option.splits if_splits)
    then have len: "length (final_answer cx st a) \<le> 4000"
      by (rule final_answer_length [OF assms(4,2) a(4)])
    have "set refs \<subseteq> set (observed_refs (st_observations st))"
      using a(3) by (auto simp: final_failure_def validate_final_def split: option.splits if_splits)
    then have "list_all canonical_ref refs"
      using assms(3) observed_refs_canonical [of oc st] unfolding list_all_iff st_ok_def by blast
    then show ?thesis
      using True a len b per sm by (auto simp: valid_result_def durable_fields_def result_of_def)
  next
    case False
    then show ?thesis
      using assms(6) b per sm by (auto simp: verdict_def valid_result_def durable_fields_def result_of_def)
  qed
qed

lemma per_tool_in_order: "map fst d = tool_names \<Longrightarrow> in_key_order d = d"
  unfolding in_key_order_def by (rule sort_key_id_if_sorted) (simp add: tool_names_def)

text \<open>Whatever a run returns, its durable fields are valid and its counters are in key order.\<close>

lemma run_fields_valid:
  assumes "orchestrator_ok oc" "short_texts cx" "run oc cx env goal w = Inr r"
  shows "valid_result (durable_fields r c) \<and> map fst (res_per_tool r) = tool_names"
  using assms(1,3)
proof (cases rule: run_cases)
  case (refused sm)
  then show ?thesis
    by (simp add: valid_result_def durable_fields_def failed_def result_of_def initial_state_def o_def failure_codes_def tool_names_def)
next
  case (ran st status failure answer refs)
  then show ?thesis
    using ended_fields_valid [OF assms(1,2) ran(2-5)] by (simp add: result_of_def st_ok_def budgets_ok_def)
qed

end
