(* ===== verification/Agent_Finish.thy ===== *)
theory Agent_Finish
  imports Agent_Service Agent_Result
begin

text \<open>
  What \<open>_finish\<close> leaves in the store: the job has ended, and if the service ended it,
  its row holds the canonical form of the durable result of this very run under the
  state that the result calls for.  Reading the row gives that result back.
\<close>

section \<open>The row of an ended run\<close>

definition failure_code_of :: "'w agent_result \<Rightarrow> string" where
  "failure_code_of r = (case res_failure r of Some (dmn, c) \<Rightarrow> c | None \<Rightarrow> ''agent_execution_failed'')"

text \<open>The row reports the run \<open>r\<close>.\<close>

definition reports :: "'w agent_result \<Rightarrow> job_row \<Rightarrow> bool" where
  "reports r row \<longleftrightarrow>
     (\<exists>d w. durable_result_of r (jr_state row = Cancelled) = Some d \<and> canon (result_value d) = Some w \<and>
        jr_result row = Json w) \<and>
     (jr_state row = Succeeded \<and> res_status r = Completed \<and> jr_failure_code row = None \<or>
      jr_state row = Failed \<and> res_status r \<noteq> Completed \<and> jr_failure_code row = Some (failure_code_of r) \<or>
      jr_state row = Cancelled)"

lemma transition_reports:
  assumes "transition_job e db jid n t (Some v) fc fm = Inr (j, db')" "t \<in> {Succeeded, Failed}"
  obtains row w where "find_job db' jid = Some row" "jr_state row = t" "canon v = Some w" "jr_result row = Json w"
    "t = Succeeded \<Longrightarrow> jr_failure_code row = None" "t = Failed \<Longrightarrow> jr_failure_code row = fc"
proof -
  from assms have "transition_job_in e 0 db jid n t (Some v) fc fm = Inr (j, db')"
    by (simp add: transition_job_def bind_ensure_ok)
  then show ?thesis
  proof (cases rule: transition_job_in_effect)
    case (1 old cols ev j0)
    let ?row = "transition_row e t (if t = Running then Some (je_now e) else jr_started old) cols old"
    have "find_job db' jid = Some ?row"
      using committed_find [OF 1(8)] find_job_Some [OF 1(1)] by simp
    moreover obtain w where "canon v = Some w" "fst cols = Json w"
      "t = Succeeded \<longrightarrow> fst (snd cols) = None" "t = Failed \<longrightarrow> fst (snd cols) = fc"
      using 1(7) assms(2)
      by (auto simp: terminal_columns_def ok_simps dest!: canonical_object_ok validate_failure_ok split: if_splits)
    ultimately show ?thesis by (intro that) (auto simp: transition_row_def)
  qed
qed

lemma acknowledge_reports:
  assumes "acknowledge_cancellation e db jid n (Some v) = Inr (j, db')"
  obtains row w where "find_job db' jid = Some row" "jr_state row = Cancelled" "canon v = Some w" "jr_result row = Json w"
  using assms
proof (cases rule: acknowledge_cancellation_effect)
  case (1 old ev col)
  have "find_job db' jid = Some (acknowledge_row e col old)"
    using committed_find [OF 1(5)] find_job_Some [OF 1(1)] by simp
  moreover obtain w where "canon v = Some w" "col = Json w" using 1(10) canonical_object_ok by auto
  ultimately show ?thesis by (intro that) (auto simp: acknowledge_row_def)
qed

lemma finish_once_reports:
  assumes "finish_once e jid r cur w = (Inr u, w')"
  shows "dj_state cur \<notin> {Running, Cancelling} \<and> w' = w \<or>
         dj_state cur \<in> {Running, Cancelling} \<and>
         (\<exists>row. find_job (sw_db w') jid = Some row \<and> reports r row \<and>
            (jr_state row = Cancelled \<longleftrightarrow> dj_state cur = Cancelling))"
proof -
  consider "dj_state cur = Cancelling" | "dj_state cur \<notin> {Running, Cancelling}" | "dj_state cur = Running" by blast
  then show ?thesis
  proof cases
    case 1
    with assms obtain d je db j db' where
      d: "durable_result_of r True = Some d" and
      a: "acknowledge_cancellation je db jid (dj_revision cur) (Some (result_value d)) = Inr (j, db')" and w': "sw_db w' = db'"
      by (auto simp: finish_once_def durable_ok)
    from a obtain row v where row: "find_job db' jid = Some row" "jr_state row = Cancelled"
      "canon (result_value d) = Some v" "jr_result row = Json v"
      by (rule acknowledge_reports)
    then have "reports r row" using d by (simp add: reports_def)
    then show ?thesis using 1 row(1,2) w' by auto
  next
    case 2
    then show ?thesis using assms by (auto simp: finish_once_def durable_ok)
  next
    case 3
    show ?thesis
    proof (cases "res_status r = Completed")
      case True
      with 3 assms obtain d je db n j db' where
        d: "durable_result_of r False = Some d" and
        t: "transition_job je db jid n Succeeded (Some (result_value d)) None None = Inr (j, db')" and w': "sw_db w' = db'"
        by (auto simp: finish_once_def durable_ok)
      from t obtain row v where row: "find_job db' jid = Some row" "jr_state row = Succeeded"
        "canon (result_value d) = Some v" "jr_result row = Json v" "jr_failure_code row = None"
        by (rule transition_reports) auto
      then have "reports r row" using d True by (simp add: reports_def)
      then show ?thesis using 3 row(1,2) w' by auto
    next
      case False
      with 3 assms obtain d je db j db' where
        d: "durable_result_of r False = Some d" and
        t: "transition_job je db jid (dj_revision cur) Failed (Some (result_value d)) (Some (failure_code_of r))
              (Some ''Agent execution ended without a completed answer.'') = Inr (j, db')" and w': "sw_db w' = db'"
        by (auto simp: finish_once_def durable_ok failure_code_of_def)
      from t obtain row v where row: "find_job db' jid = Some row" "jr_state row = Failed"
        "canon (result_value d) = Some v" "jr_result row = Json v" "jr_failure_code row = Some (failure_code_of r)"
        by (rule transition_reports) auto
      then have "reports r row" using d False by (simp add: reports_def)
      then show ?thesis using 3 row(1,2) w' by auto
    qed
  qed
qed

lemma get_job_row: "get_job e db jid = Inr j \<Longrightarrow> \<exists>row. find_job db jid = Some row \<and> jr_state row = dj_state j"
  unfolding get_job_def by (metis job_in_row)

lemma finish_reports:
  assumes "finish k e jid r w = (Inr u, w')"
  shows "\<exists>row. find_job (sw_db w') jid = Some row \<and> jr_state row \<notin> {Running, Cancelling} \<and>
     (reports r row \<or> (\<exists>n db. sw_db w' = sv_others e n db))"
  using assms unfolding finish_def
proof (induction k arbitrary: w)
  case 0
  then show ?case by (simp add: liftW_def)
next
  case (Suc k)
  from Suc.prems obtain cur w1 where
    g: "repo_read e (\<lambda>je db. get_job je db jid) w = (Inr cur, w1)"
    and c: "on_conflict (finish_once e jid r cur)
        (attempts k (liftW (Inl JobConflict)) e jid (finish_once e jid r)) w1 = (Inr u, w')"
    by (auto simp: bindW_ok)
  from on_conflict_ok [OF c] show ?case
  proof
    assume f: "finish_once e jid r cur w1 = (Inr u, w')"
    from finish_once_reports [OF f] show ?thesis
    proof (elim disjE conjE exE)
      fix row assume row: "find_job (sw_db w') jid = Some row" "reports r row"
      then have "jr_state row \<notin> {Running, Cancelling}" by (auto simp: reports_def)
      with row show ?thesis by blast
    next
      assume ended: "dj_state cur \<notin> {Running, Cancelling}" "w' = w1"
      have "get_job (sv_job e (sw_calls w)) (sw_db w1) jid = Inr cur" using g by (auto simp: repo_read_ok)
      from get_job_row [OF this] obtain row where "find_job (sw_db w1) jid = Some row" "jr_state row = dj_state cur" by blast
      moreover have "\<exists>n db. sw_db w1 = sv_others e n db" using g by (auto simp: repo_read_ok)
      ultimately show ?thesis using ended by metis
    qed
  next
    assume "\<exists>err w2. finish_once e jid r cur w1 = (Inl err, w2) \<and>
        attempts k (liftW (Inl JobConflict)) e jid (finish_once e jid r) w2 = (Inr u, w')"
    then show ?thesis using Suc.IH by blast
  qed
qed

section \<open>Who ends the run\<close>

text \<open>The job is in one of the states \<open>A\<close>, and the other connections keep it there: with
  \<open>A = {Running}\<close> they neither end the job nor ask for its cancellation, with
  \<open>A = {Running, Cancelling}\<close> they may ask for it but leave the end to the service.\<close>

definition job_within :: "job_state set \<Rightarrow> job_db \<Rightarrow> string \<Rightarrow> bool" where
  "job_within A db jid \<longleftrightarrow> (\<exists>row. find_job db jid = Some row \<and> jr_state row \<in> A)"

definition others_keep :: "job_state set \<Rightarrow> 'x store_env_scheme \<Rightarrow> string \<Rightarrow> bool" where
  "others_keep A e jid \<longleftrightarrow> (\<forall>n db. job_within A db jid \<longrightarrow> job_within A (sv_others e n db) jid)"

lemma others_keepD: "others_keep A e jid \<Longrightarrow> job_within A db jid \<Longrightarrow> job_within A (sv_others e n db) jid"
  by (simp add: others_keep_def)

lemma repo_write_err: "repo_write e f w = (Inl err, w') \<Longrightarrow> sw_db w' = sv_others e (sw_calls w) (sw_db w)"
  by (auto simp: repo_write_def Let_def split: sum.splits prod.splits)

lemma bindW_err: "bindW m f w = (Inl err, w') \<Longrightarrow>
    m w = (Inl err, w') \<or> (\<exists>x w1. m w = (Inr x, w1) \<and> f x w1 = (Inl err, w'))"
  by (auto simp: bindW_def split: prod.splits sum.splits)

lemma step_within:
  assumes "transition_step e db jid sid n m t = Inr (j, db')" "job_within A db jid"
  shows "job_within A db' jid"
  using assms(1)
proof (cases rule: transition_step_effect)
  case (1 old ev row)
  have "find_job db' jid = Some (touch_row e old)"
    using committed_find [OF 1(11)] find_job_Some [OF 1(1)] by simp
  with 1(1) assms(2) show ?thesis by (auto simp: job_within_def)
qed

lemma finish_once_retry:
  assumes "finish_once e jid r cur w = (Inl err, w')" "others_keep A e jid" "job_within A (sw_db w) jid"
  shows "job_within A (sw_db w') jid"
proof -
  have failed: "job_within A (sw_db w2) jid"
    if "bindW (repo_write e f) (\<lambda>_. retW ()) w1 = (Inl err, w2)" "job_within A (sw_db w1) jid" for f w1 w2
    using bindW_err [OF that(1)] others_keepD [OF assms(2) that(2)] by (auto simp: retW_def dest!: repo_write_err)
  have lift: "bindW (liftW m) f w = (Inl err, w') \<Longrightarrow> (\<And>x. f x w = (Inl err, w') \<Longrightarrow> job_within A (sw_db w') jid) \<Longrightarrow>
      job_within A (sw_db w') jid" for m :: "job_error + 'b" and f :: "'b \<Rightarrow> unit store_op"
    using assms(3) by (auto dest!: bindW_err simp: liftW_def)
  have step: "job_within A (sw_db w') jid"
    if s: "bindW (repo_write e (\<lambda>je db. transition_step je db jid sid n m SSucceeded)) (\<lambda>cur'. bindW (repo_write e (g cur'))
        (\<lambda>_. retW ())) w = (Inl err, w')" for sid n m and g :: "durable_job \<Rightarrow> job_env \<Rightarrow> job_db \<Rightarrow> job_error + (durable_job \<times> job_db)"
    using bindW_err [OF s]
  proof (elim disjE exE conjE)
    fix x w1 assume a: "repo_write e (\<lambda>je db. transition_step je db jid sid n m SSucceeded) w = (Inr x, w1)"
      "bindW (repo_write e (g x)) (\<lambda>_. retW ()) w1 = (Inl err, w')"
    then have "job_within A (sw_db w1) jid"
      using step_within others_keepD [OF assms(2,3)] by (auto simp: repo_write_ok)
    with a(2) show ?thesis by (rule failed)
  qed (use others_keepD [OF assms(2,3)] in \<open>auto dest!: repo_write_err\<close>)
  show ?thesis
    using assms(1) unfolding finish_once_def
    by (auto simp: retW_def split: if_splits elim!: lift intro: step failed [OF _ assms(3)])
qed

text \<open>If the end is left to the service, it is this service's end.\<close>

lemma finish_ends:
  assumes "finish k e jid r w = (Inr u, w')" "others_keep A e jid" "job_within A (sw_db w) jid" "A \<subseteq> {Running, Cancelling}"
  shows "\<exists>row. find_job (sw_db w') jid = Some row \<and> reports r row \<and>
    (if jr_state row = Cancelled then Cancelling \<in> A else Running \<in> A)"
  using assms(1,3) unfolding finish_def
proof (induction k arbitrary: w)
  case 0
  then show ?case by (simp add: liftW_def)
next
  case (Suc k)
  from Suc.prems(1) obtain cur w1 where
    g: "repo_read e (\<lambda>je db. get_job je db jid) w = (Inr cur, w1)"
    and c: "on_conflict (finish_once e jid r cur)
        (attempts k (liftW (Inl JobConflict)) e jid (finish_once e jid r)) w1 = (Inr u, w')"
    by (auto simp: bindW_ok)
  have w1: "job_within A (sw_db w1) jid"
    using g others_keepD [OF assms(2) Suc.prems(2)] by (auto simp: repo_read_ok)
  have "get_job (sv_job e (sw_calls w)) (sw_db w1) jid = Inr cur" using g by (auto simp: repo_read_ok)
  from get_job_row [OF this] w1 have cur: "dj_state cur \<in> A" by (auto simp: job_within_def)
  from on_conflict_ok [OF c] show ?case
  proof (elim disjE exE conjE)
    assume f: "finish_once e jid r cur w1 = (Inr u, w')"
    from finish_once_reports [OF f] cur assms(4) obtain row where row: "find_job (sw_db w') jid = Some row" "reports r row"
      "jr_state row = Cancelled \<longleftrightarrow> dj_state cur = Cancelling" by auto
    with cur assms(4) show ?thesis by (intro exI [of _ row]) auto
  next
    fix err w2 assume again: "finish_once e jid r cur w1 = (Inl err, w2)"
      "attempts k (liftW (Inl JobConflict)) e jid (finish_once e jid r) w2 = (Inr u, w')"
    from Suc.IH [OF again(2) finish_once_retry [OF again(1) assms(2) w1]] show ?thesis .
  qed
qed

section \<open>Reading it back\<close>

lemma canonical_text_canon: "canon v = Some w \<Longrightarrow> canonical_text w = canonical_text v"
  using canon_idem by (simp add: canonical_text_def)

lemma reports_reads_back:
  assumes "reports r row" "map fst (res_per_tool r) = tool_names" "job_from_row e db row = Inr j"
  shows "stored_result j = Inr (Some (durable_fields r (jr_state row = Cancelled)))"
proof -
  let ?d = "durable_fields r (jr_state row = Cancelled)"
  from assms(1) obtain w where d: "valid_result ?d" "utf8_len (canonical_text (result_value ?d)) \<le> max_agent_result_bytes"
    and w: "canon (result_value ?d) = Some w" "jr_result row = Json w"
    by (auto simp: reports_def durable_result_of_def Let_def check_def split: if_splits)
  have "dr_per_tool ?d = in_key_order (dr_per_tool ?d)"
    using per_tool_in_order [OF assms(2)] by (simp add: durable_fields_def)
  then have "parse_result w = Some ?d"
    using reads_result [OF d(1)] w(1) by (auto elim!: reads_asE)
  moreover have "dj_result j = Some w"
    using job_from_row_ok(17) [OF assms(3)] w(2) by (auto simp: decode_result_def ok_simps dest!: decode_object_ok)
  ultimately show ?thesis
    using d(2) canonical_text_canon [OF w(1)] by (simp add: stored_result_def)
qed

end
