(* ===== verification/Agent_Journal.thy ===== *)
theory Agent_Journal
  imports Agent_Service
begin

text \<open>
  The journal of a run.  While the orchestrator runs, every entry it puts on its trace
  is appended to the job's event log, in order and once; the locale \<open>agent_world\<close> carries
  the correspondence through the run.
\<close>

section \<open>Decision keys\<close>

definition digits_value :: "string \<Rightarrow> nat" where
  "digits_value s = foldl (\<lambda>a c. a * 10 + (ord c - 48)) 0 s"

lemma ord_digit: "n < 10 \<Longrightarrow> ord (char_of (48 + n)) = 48 + n"
  by (simp add: ord_def)

lemma digits_value_dec_nat: "digits_value (dec_nat n) = n"
proof (induction n rule: dec_nat.induct)
  case (1 n)
  show ?case
  proof (cases "n < 10")
    case True
    then show ?thesis by (simp add: dec_nat.simps [of n] digits_value_def ord_digit)
  next
    case False
    then have "digits_value (dec_nat (n div 10) @ [char_of (48 + n mod 10)]) = n div 10 * 10 + n mod 10"
      using "1.IH" ord_digit [of "n mod 10"] by (simp add: digits_value_def)
    then show ?thesis using False by (subst dec_nat.simps) simp
  qed
qed

lemma decision_key_inj [simp]: "decision_key (int m) = decision_key (int n) \<longleftrightarrow> m = n"
proof -
  have "dec_int (int k) = dec_nat k" for k by (simp add: dec_int_def)
  then show ?thesis using digits_value_dec_nat by (simp add: decision_key_def) metis
qed

section \<open>The journal\<close>

text \<open>The payloads of a job's decision events, in the order of the log.\<close>

definition journal :: "job_db \<Rightarrow> string \<Rightarrow> json_col list" where
  "journal db jid = map er_agent_payload (filter (\<lambda>ev. er_agent_key ev \<noteq> None) (events_of db jid))"

text \<open>The payload of an entry: its summary with the counters that go with it, in canonical form.\<close>

definition entry_summary :: "trace_entry \<Rightarrow> event_summary" where
  "entry_summary t = summary_of_entry t (entry_steps t) (entry_tools t)"

definition journalled :: "trace_entry \<Rightarrow> json_col \<Rightarrow> bool" where
  "journalled t col \<longleftrightarrow>
     (\<exists>w. valid_event (entry_summary t) \<and> canon (event_value (entry_summary t)) = Some w \<and> col = Json w)"

lemma journal_length: "length (journal db jid) = agent_event_count db jid"
  by (simp add: journal_def agent_event_count_events_of)

lemma committed_journal:
  assumes "committed db old f g ev db'" "er_agent_key ev \<noteq> None"
  shows "journal db' (jr_id old) = journal db (jr_id old) @ [er_agent_payload ev]"
  using committed_events_of [OF assms(1), of "jr_id old"] assms(2) by (simp add: journal_def)

text \<open>In a database that satisfies the invariant the decision keys of a job are numbered from 1.\<close>

lemma decision_keys_numbered:
  assumes "job_inv S db" "ev \<in> set (db_events db)" "er_job ev = jid" "er_agent_key ev = Some (decision_key (int i))"
  shows "1 \<le> i \<and> i \<le> agent_event_count db jid"
proof -
  obtain r where r: "r \<in> set (db_jobs db)" "jr_id r = jid" using assms(1-3) by (force simp: job_inv_def)
  let ?ks = "filter (\<lambda>k. k \<noteq> None) (map er_agent_key (events_of db jid))"
  have "log_inv r (events_of db jid)" using job_inv_row(1) [OF assms(1) r(1)] r(2) by simp
  then have ks: "?ks = map (\<lambda>i. Some (decision_key (int i))) [1..<Suc (length ?ks)]"
    unfolding log_inv_def Let_def by blast
  have len: "length ?ks = agent_event_count db jid"
    by (simp add: agent_event_count_events_of filter_map o_def)
  have "ev \<in> set (events_of db jid)" using assms(2,3) by (simp add: events_of_def)
  then have "Some (decision_key (int i)) \<in> set ?ks" using assms(4) by force
  then have "Some (decision_key (int i)) \<in> set (map (\<lambda>i. Some (decision_key (int i))) [1..<Suc (agent_event_count db jid)])"
    using ks len by metis
  then show ?thesis by (auto simp del: upt_Suc)
qed

text \<open>The other connections leave the journal of this job alone.\<close>

definition journal_private :: "durable_env \<Rightarrow> string \<Rightarrow> bool" where
  "journal_private e jid \<longleftrightarrow> (\<forall>n db. journal (sv_others e n db) jid = journal db jid)"

definition journal_world :: "string list \<Rightarrow> durable_env \<Rightarrow> string \<Rightarrow> trace_entry list \<Rightarrow> store_world \<Rightarrow> bool" where
  "journal_world S e jid ts w \<longleftrightarrow>
     (host_ok S e \<and> journal_private e jid \<longrightarrow>
        job_inv S (sw_db w) \<and> list_all2 journalled ts (journal (sw_db w) jid))"

lemma journal_world_others:
  "journal_world S e jid ts w \<Longrightarrow> journal_world S e jid ts \<lparr>sw_db = sv_others e n (sw_db w), sw_calls = k\<rparr>"
  by (auto simp: journal_world_def journal_private_def intro: others_inv)

lemma append_journals:
  assumes "append_agent_decision_event je db jid (decision_key (int i)) v m ms = Inr (a, db')"
    and "job_inv (je_secrets je) db" "i = Suc (length (journal db jid))"
  shows "\<exists>w. canon v = Some w \<and> journal db' jid = journal db jid @ [Json w]"
  using assms(1)
proof (cases rule: append_agent_decision_event_effect)
  case (replayed i' w old)
  then have "i \<le> agent_event_count db jid" using decision_keys_numbered [OF assms(2)] by blast
  then show ?thesis using assms(3) by (simp add: journal_length)
next
  case (appended i' w old ev)
  have "canon v = Some w"
    using canonical_object_ok [OF validate_agent_event_ok(9) [OF appended(1)]] by simp
  moreover have "journal db' jid = journal db jid @ [Json w]"
    using committed_journal [OF appended(7)] appended(10,11) find_job_Some [OF appended(4)] by simp
  ultimately show ?thesis by blast
qed

lemma sink_journals:
  assumes "journal_world S e jid ts w" "te_index t = Suc (length ts)"
    and "durable_sink e jid ms t (entry_steps t) (entry_tools t) w = (ok, w')"
  shows "journal_world S e jid (if ok then ts @ [t] else ts) w'"
proof (cases "valid_event (entry_summary t)")
  case False
  then have "\<not> ok" "w' = w" using assms(3)
    by (auto simp: durable_sink_def record_trace_def entry_summary_def bindW_def liftW_def Let_def)
  then show ?thesis using assms(1) by simp
next
  case True
  let ?je = "sv_job e (sw_calls w)" and ?db = "sv_others e (sw_calls w) (sw_db w)"
  let ?m = "append_agent_decision_event ?je ?db jid (decision_key (int (te_index t)))
      (event_value (entry_summary t)) (int (entry_steps t)) (int ms)"
  have s: "durable_sink e jid ms t (entry_steps t) (entry_tools t) w =
      (case ?m of Inl err \<Rightarrow> (False, \<lparr>sw_db = ?db, sw_calls = Suc (sw_calls w)\<rparr>)
       | Inr (x, db') \<Rightarrow> (True, \<lparr>sw_db = db', sw_calls = Suc (sw_calls w)\<rparr>))"
    using True by (simp add: durable_sink_def record_trace_def entry_summary_def bindW_def liftW_def Let_def repo_write_def split: sum.split prod.split)
  show ?thesis
  proof (cases ?m)
    case (Inl err)
    with s assms(3) show ?thesis using journal_world_others [OF assms(1)] by auto
  next
    case (Inr x)
    obtain a db' where x: "x = (a, db')" by (cases x)
    with s assms(3) Inr have w': "ok" "w' = \<lparr>sw_db = db', sw_calls = Suc (sw_calls w)\<rparr>" by auto
    have "job_inv S db' \<and> list_all2 journalled (ts @ [t]) (journal db' jid)"
      if q: "host_ok S e" "journal_private e jid"
    proof -
      have base: "job_inv S ?db" "list_all2 journalled ts (journal ?db jid)" "je_secrets ?je = S"
        using journal_world_others [OF assms(1)] q by (auto simp: journal_world_def host_ok_def)
      have len: "te_index t = Suc (length (journal ?db jid))"
        using assms(2) list_all2_lengthD [OF base(2)] by simp
      obtain v where v: "canon (event_value (entry_summary t)) = Some v" "journal db' jid = journal ?db jid @ [Json v]"
        using append_journals [OF Inr [unfolded x]] base len by auto
      have "job_tx ?je ?db db'" using Inr x by (auto intro: job_tx.decide)
      then have "job_inv S db'" using job_tx_micro base micro_star_inv by blast
      moreover have "journalled t (Json v)" using True v(1) by (auto simp: journalled_def)
      ultimately show ?thesis using v(2) base(2) by (simp add: list_all2_appendI)
    qed
    then show ?thesis using w' by (simp add: journal_world_def)
  qed
qed

lemma cancelled_journals:
  assumes "journal_world S e jid ts w" "durable_cancelled e jid w = (c, w')"
  shows "journal_world S e jid ts w'"
  using assms journal_world_others [OF assms(1)]
  by (auto simp: durable_cancelled_def repo_read_def Let_def split: sum.splits)

interpretation store_journal: agent_world "durable_agent_env e m jid ms" "journal_world S e jid" for e m jid ms S
  by unfold_locales
     (auto simp: durable_agent_env_def dest: cancelled_journals sink_journals)

end
