(* ===== verification/Job_Success.thy ===== *)
theory Job_Success
  imports Job_Invariants
begin

text \<open>
  When a write of the job repository succeeds.  Under the invariant an active job can
  be brought to its end as long as the caller knows its revision, the event identifier
  is a new one and no fault is injected.
\<close>

section \<open>Fresh identifiers\<close>

definition event_id :: "job_env \<Rightarrow> string" where
  "event_id e = ''event'' @ ''_'' @ je_newid e 0"

definition writable :: "job_env \<Rightarrow> job_db \<Rightarrow> bool" where
  "writable e db \<longleftrightarrow> (\<forall>phase jid. \<not> je_inject e phase jid) \<and> opaque_id (event_id e) \<and>
     event_id e \<notin> er_id ` set (db_events db)"

lemma inject_none: "writable e db \<Longrightarrow> inject e phase jid = Inr ()"
  by (simp add: writable_def inject_def)

section \<open>Steps that have been stopped can be read\<close>

lemma sort_key_map_same: "(\<And>x. key (h x) = key x) \<Longrightarrow> sort_key key (map h xs) = map h (sort_key key xs)"
proof (induction xs)
  case (Cons x xs)
  have "insort_key key (h x) (map h ys) = map h (insort_key key x ys)" for ys
    using Cons.prems by (induction ys) simp_all
  then show ?case using Cons by simp
qed simp

lemma enumerate_map: "enumerate n (map h xs) = map (apsnd h) (enumerate n xs)"
  by (induction xs arbitrary: n) auto

lemma mapE_ok_iff: "is_ok (mapE f xs) \<longleftrightarrow> (\<forall>x \<in> set xs. is_ok (f x))"
  by (induction xs) (auto simp: is_ok_iff bindE_ok)

text \<open>A change of state and a higher revision do not matter to the reader.\<close>

definition quiet_change :: "(step_row \<Rightarrow> step_row) \<Rightarrow> bool" where
  "quiet_change h \<longleftrightarrow> (\<forall>r. same_step r (h r) \<and> sr_revision r \<le> sr_revision (h r))"

lemma step_of_row_quiet:
  assumes "quiet_change h" "is_ok (step_of_row x)"
  shows "is_ok (step_of_row (apsnd h x))"
  using assms by (cases x) (auto simp: quiet_change_def same_step_def step_of_row_def Let_def is_ok_iff bindE_ok intro: order_trans)

lemma steps_in_quiet:
  assumes "steps_in db jid = Inr ss" "quiet_change h"
  shows "\<exists>ss'. steps_in (db\<lparr>db_steps := map h (db_steps db)\<rparr>) jid = Inr ss'"
proof -
  let ?key = "\<lambda>r. (sr_ordinal r, sr_id r)"
  have h: "sr_job (h r) = sr_job r" "?key (h r) = ?key r" for r
    using assms(2) by (simp_all add: quiet_change_def same_step_def)
  have "filter (\<lambda>r. sr_job r = jid) (map h (db_steps db)) = map h (filter (\<lambda>r. sr_job r = jid) (db_steps db))"
    by (simp add: filter_map o_def h)
  then have eq: "steps_in (db\<lparr>db_steps := map h (db_steps db)\<rparr>) jid =
      mapE step_of_row (map (apsnd h) (enumerate 0 (sort_key ?key (filter (\<lambda>r. sr_job r = jid) (db_steps db)))))"
    using sort_key_map_same [of ?key h] h by (simp add: steps_in_def enumerate_map)
  have "is_ok (mapE step_of_row (enumerate 0 (sort_key ?key (filter (\<lambda>r. sr_job r = jid) (db_steps db)))))"
    using assms(1) by (simp add: steps_in_def)
  then have "is_ok (steps_in (db\<lparr>db_steps := map h (db_steps db)\<rparr>) jid)"
    unfolding eq mapE_ok_iff using step_of_row_quiet [OF assms(2)] by auto
  then show ?thesis by (simp add: is_ok_iff)
qed

section \<open>Committing\<close>

lemma length_filter_unique:
  assumes "distinct (map k xs)" "x \<in> set xs" "P x" "\<forall>y \<in> set xs. P y \<longrightarrow> k y = k x"
  shows "length (filter P xs) = 1"
proof -
  have "distinct (map k (filter P xs))" using assms(1) by (rule distinct_map_filter)
  then have "length (map k (filter P xs)) = card (set (map k (filter P xs)))" by (rule distinct_card [symmetric])
  moreover have "set (map k (filter P xs)) = {k x}" unfolding set_map set_filter using assms(2-4) by blast
  ultimately show ?thesis by simp
qed

lemma insert_event_succeeds:
  assumes "job_inv S db" "old \<in> set (db_jobs db)" "jr_id old = jid" "writable e db"
    and same: "\<And>r. jr_id (f r) = jr_id r"
  shows "append_event_in e 0 jid ty st rs p (update_jobs P f (update_steps Q g db)) = Inr
     (update_jobs P f (update_steps Q g db)\<lparr>db_events := db_events db @
       [\<lparr>er_id = event_id e, er_job = jid, er_seq = next_sequence db jid, er_type = ty,
         er_state = map_option job_state_name st, er_reason = rs, er_stage = pg_stage p,
         er_current = pg_current p, er_total = pg_total p, er_at = je_now e,
         er_agent_key = None, er_agent_payload = NullCol\<rparr>]\<rparr>)"
proof -
  have fresh: "(jid, next_sequence db jid) \<notin> set (map (\<lambda>x. (er_job x, er_seq x)) (db_events db))"
  proof
    assume "(jid, next_sequence db jid) \<in> set (map (\<lambda>x. (er_job x, er_seq x)) (db_events db))"
    then obtain x where x: "x \<in> set (db_events db)" "er_job x = jid" "er_seq x = next_sequence db jid" by auto
    let ?n = "length (events_of db jid)"
    have "map er_seq (events_of db jid) = [1..<Suc ?n]"
      using job_inv_row(1) [OF assms(1,2)] assms(3) by (simp add: log_inv_def del: upt_Suc)
    then have "next_sequence db jid = Suc ?n" "er_seq x \<in> set [1..<Suc ?n]"
      using next_sequence_log x(1,2) by (blast, metis (mono_tags, lifting) events_of_def image_eqI mem_Collect_eq set_filter set_map)
    with x(3) show False by (simp del: upt_Suc)
  qed
  have ids: "set (map jr_id (db_jobs (update_jobs P f (update_steps Q g db)))) = set (map jr_id (db_jobs db))"
    using same by (force simp: update_jobs_def update_steps_def)
  have "jid \<in> set (map jr_id (db_jobs db))" using assms(2,3) by auto
  then show ?thesis
    using assms(4) fresh ids
    by (simp add: append_event_in_def new_id_def validate_opaque_def writable_def event_id_def [symmetric] insert_event_def Let_def)
      (simp add: event_id_def)
qed

text \<open>
  The common end of a write: the steps are stopped, the row is exchanged, the event is
  appended and the job is read back.
\<close>

lemma commit_succeeds:
  assumes "job_inv S db" "find_job db jid = Some old" "jr_revision old = n" "writable e db" "je_secrets e = S"
    and "job_from_row e db old = Inr j0"
    and "\<And>r. jr_id (f r) = jr_id r"
    and "\<And>db' ss. steps_in db' (jr_id old) = Inr ss \<Longrightarrow> is_ok (job_from_row e db' (f old))"
  shows "\<exists>db2 db3 j. cas_job jid n f (update_steps Q (stop_step (je_now e) st) db) = Inr db2 \<and>
     append_event_in e 0 jid ty t rs p db2 = Inr db3 \<and> job_in e db3 jid = Inr j"
proof -
  have old: "old \<in> set (db_jobs db)" "jr_id old = jid" using find_job_Some [OF assms(2)] by auto
  have dist: "distinct (map jr_id (db_jobs db))" using assms(1) by (simp add: job_inv_def)
  let ?P = "\<lambda>r. jr_id r = jid \<and> jr_revision r = n"
  let ?db1 = "update_steps Q (stop_step (je_now e) st) db"
  let ?db2 = "update_jobs ?P f ?db1"
  have "length (filter ?P (db_jobs db)) = 1"
    by (rule length_filter_unique [OF dist old(1)]) (use old assms(3) in auto)
  then have cas: "cas_job jid n f ?db1 = Inr ?db2" by (simp add: cas_job_def update_steps_def)
  obtain db3 where ev: "append_event_in e 0 jid ty t rs p ?db2 = Inr db3"
    and db3: "\<exists>x. db3 = ?db2\<lparr>db_events := x\<rparr>"
    using insert_event_succeeds [OF assms(1) old assms(4)] assms(7) by blast
  let ?h = "\<lambda>r. if Q r then stop_step (je_now e) st r else r"
  have h: "quiet_change ?h" by (auto simp: quiet_change_def stop_step_def same_step_def)
  have steps0: "steps_in db jid = Inr (dj_steps j0)" using job_from_row_ok(12) [OF assms(6)] old(2) by simp
  have "db_steps db3 = map ?h (db_steps db)" using db3 by (auto simp: update_jobs_def update_steps_def)
  then have "steps_in db3 jid = steps_in (db\<lparr>db_steps := map ?h (db_steps db)\<rparr>) jid" by (simp add: steps_in_def)
  then obtain ss where ss: "steps_in db3 jid = Inr ss" using steps_in_quiet [OF steps0 h] by auto
  have jobs3: "db_jobs db3 = map (\<lambda>r. if ?P r then f r else r) (db_jobs db)"
    using db3 by (auto simp: update_jobs_def update_steps_def)
  have "find (\<lambda>r. jr_id r = jid) (map (\<lambda>r. if ?P r then f r else r) (db_jobs db)) =
      map_option (\<lambda>r. if ?P r then f r else r) (find (\<lambda>r. jr_id r = jid) (db_jobs db))"
    by (rule find_map_same) (use assms(7) in auto)
  then have find3: "find_job db3 jid = Some (f old)"
    using assms(2,3) old(2) by (simp add: find_job_def jobs3)
  have "opaque_id jid" using assms(6) old(2) unfolding job_from_row_def by (auto elim!: bindE_okE)
  moreover obtain j where "job_from_row e db3 (f old) = Inr j"
    using assms(8) [of db3 ss] ss old(2) by (auto simp: is_ok_iff)
  ultimately have "job_in e db3 jid = Inr j" using find3 by (simp add: job_in_def validate_opaque_def)
  with cas ev show ?thesis by blast
qed

section \<open>Ending an active job\<close>

definition message_ok :: "string list \<Rightarrow> string \<Rightarrow> string \<Rightarrow> bool" where
  "message_ok S code msg \<longleftrightarrow> validate_failure S (Some code) (Some msg) = Inr (code, msg)"

lemma ended_row_reads:
  assumes "job_from_row e db r = Inr j" "steps_in db' (jr_id r) = Inr ss" "t \<in> {Failed, Interrupted}"
    and "message_ok (je_secrets e) c m"
  shows "is_ok (job_from_row e db' (transition_row e t started (NullCol, Some c, Some m) r))"
proof -
  let ?r = "transition_row e t started (NullCol, Some c, Some m) r"
  have sel: "jr_id ?r = jr_id r" "jr_namespace ?r = jr_namespace r" "jr_type ?r = jr_type r" "jr_state ?r = t"
    "jr_fingerprint ?r = jr_fingerprint r" "jr_schema ?r = jr_schema r" "jr_failure_code ?r = Some c"
    "jr_failure_message ?r = Some m" "jr_revision ?r = jr_revision r + 1" "jr_payload ?r = jr_payload r"
    "jr_artifacts ?r = jr_artifacts r" "jr_result ?r = NullCol" "jr_stage ?r = jr_stage r"
    "jr_current ?r = jr_current r" "jr_total ?r = jr_total r"
    by (simp_all add: transition_row_def)
  have r1: "1 \<le> jr_revision r + 1" using job_from_row_ok(8) [OF assms(1)] by simp
  have t: "(t = Succeeded) = False" using assms(3) by auto
  have dn: "decode_result NullCol = Inr None" by (simp add: decode_result_def)
  show ?thesis
    using assms(1) unfolding job_from_row_def sel
    by (elim bindE_okE)
       (simp only: ensure_ok r1 t dn assms(2) assms(4) [unfolded message_ok_def] map_err_simps simp_thms bindE_Inr
         ensure_True is_ok_simps option.case option.distinct if_True)
qed

lemma acknowledged_row_reads:
  assumes "job_from_row e db r = Inr j" "steps_in db' (jr_id r) = Inr ss"
  shows "is_ok (job_from_row e db' (acknowledge_row e NullCol r))"
proof -
  let ?r = "acknowledge_row e NullCol r"
  have sel: "jr_id ?r = jr_id r" "jr_namespace ?r = jr_namespace r" "jr_type ?r = jr_type r" "jr_state ?r = Cancelled"
    "jr_fingerprint ?r = jr_fingerprint r" "jr_schema ?r = jr_schema r" "jr_failure_code ?r = jr_failure_code r"
    "jr_failure_message ?r = jr_failure_message r" "jr_revision ?r = jr_revision r + 1" "jr_payload ?r = jr_payload r"
    "jr_artifacts ?r = jr_artifacts r" "jr_result ?r = NullCol" "jr_stage ?r = jr_stage r"
    "jr_current ?r = jr_current r" "jr_total ?r = jr_total r"
    by (simp_all add: acknowledge_row_def)
  have r1: "1 \<le> jr_revision r + 1" using job_from_row_ok(8) [OF assms(1)] by simp
  have dn: "decode_result NullCol = Inr None" by (simp add: decode_result_def)
  show ?thesis
    using assms(1) unfolding job_from_row_def sel
    by (elim bindE_okE)
       (simp only: ensure_ok r1 dn assms(2) simp_thms bindE_Inr ensure_True is_ok_simps option.case job_state.distinct
         insert_iff empty_iff)
qed

lemma inv_reads_row:
  assumes "job_inv S db" "je_secrets e = S" "r \<in> set (db_jobs db)"
  obtains j where "job_in e db (jr_id r) = Inr j" "job_from_row e db r = Inr j" "find_job db (jr_id r) = Some r"
proof -
  obtain j where j: "job_from_row e db r = Inr j"
    using job_inv_row(3) [OF assms(1,3)] assms(2) by (auto simp: reads_iff is_ok_iff)
  then have "opaque_id (jr_id r)" unfolding job_from_row_def by (auto elim!: bindE_okE)
  with that j job_inv_find [OF assms(1,3)] show ?thesis by (simp add: job_in_def validate_opaque_def)
qed

lemma transition_ends:
  assumes "job_inv S db" "je_secrets e = S" "r \<in> set (db_jobs db)" "writable e db"
    and "t \<in> job_transitions (jr_state r)" "t \<in> {Failed, Interrupted}" "message_ok S c m"
  shows "\<exists>j db'. transition_job e db (jr_id r) (jr_revision r) t None (Some c) (Some m) = Inr (j, db')"
proof -
  obtain j0 where j0: "job_in e db (jr_id r) = Inr j0" "job_from_row e db r = Inr j0" "find_job db (jr_id r) = Some r"
    by (rule inv_reads_row [OF assms(1-3)])
  note f = job_from_row_ok [OF j0(2)]
  have cols: "terminal_columns e j0 t None (Some c) (Some m) = Inr (NullCol, Some c, Some m)"
    using assms(2,6,7) by (auto simp: terminal_columns_def message_ok_def)
  let ?f = "transition_row e t (if t = Running then Some (je_now e) else dj_started j0) (NullCol, Some c, Some m)"
  have id: "jr_id (?f x) = jr_id x" for x by (simp add: transition_row_def)
  have rd: "steps_in db' (jr_id r) = Inr ss \<Longrightarrow> is_ok (job_from_row e db' (?f r))" for db' ss
    using ended_row_reads [OF j0(2) _ assms(6)] assms(2,7) by blast
  obtain db2 db3 j where w:
    "cas_job (jr_id r) (jr_revision r) ?f (update_steps (\<lambda>x. sr_job x = jr_id r \<and> sr_state x = SRunning)
       (stop_step (je_now e) (step_state_of t)) db) = Inr db2"
    "append_event_in e 0 (jr_id r) ''state_changed'' (Some t) (Some c) (dj_progress j0) db2 = Inr db3"
    "job_in e db3 (jr_id r) = Inr j"
    using commit_succeeds [where Q = "\<lambda>x. sr_job x = jr_id r \<and> sr_state x = SRunning" and st = "step_state_of t"
        and ty = "''state_changed''" and t = "Some t" and rs = "Some c" and p = "dj_progress j0",
        OF assms(1) j0(3) refl assms(4,2) j0(2) id] rd by blast
  have "transition_job_in e 0 db (jr_id r) (jr_revision r) t None (Some c) (Some m) = Inr (j, db3)"
    using j0(1) f(4,5,8) assms(5,6) cols w
    by (auto simp: transition_job_in_def Let_def assert_revision_def validate_job_transition_def inject_none [OF assms(4)]
        transition_row_def [abs_def])
  then show ?thesis using assms(6) by (auto simp: transition_job_def)
qed

lemma acknowledge_ends:
  assumes "job_inv S db" "je_secrets e = S" "r \<in> set (db_jobs db)" "writable e db" "jr_state r = Cancelling"
  shows "\<exists>j db'. acknowledge_cancellation e db (jr_id r) (jr_revision r) None = Inr (j, db')"
proof -
  obtain j0 where j0: "job_in e db (jr_id r) = Inr j0" "job_from_row e db r = Inr j0" "find_job db (jr_id r) = Some r"
    by (rule inv_reads_row [OF assms(1-3)])
  note f = job_from_row_ok [OF j0(2)]
  let ?f = "acknowledge_row e NullCol"
  have id: "jr_id (?f x) = jr_id x" for x by (simp add: acknowledge_row_def)
  have rd: "steps_in db' (jr_id r) = Inr ss \<Longrightarrow> is_ok (job_from_row e db' (?f r))" for db' ss
    using acknowledged_row_reads [OF j0(2)] by blast
  obtain db2 db3 j where w:
    "cas_job (jr_id r) (jr_revision r) ?f (update_steps (\<lambda>x. sr_job x = jr_id r \<and> sr_state x \<in> {SPending, SRunning})
       (stop_step (je_now e) SCancelled) db) = Inr db2"
    "append_event_in e 0 (jr_id r) ''cancelled'' (Some Cancelled) None (dj_progress j0) db2 = Inr db3"
    "job_in e db3 (jr_id r) = Inr j"
    using commit_succeeds [where Q = "\<lambda>x. sr_job x = jr_id r \<and> sr_state x \<in> {SPending, SRunning}" and st = SCancelled
        and ty = "''cancelled''" and t = "Some Cancelled" and rs = None and p = "dj_progress j0",
        OF assms(1) j0(3) refl assms(4,2) j0(2) id] rd by blast
  then have "acknowledge_cancellation e db (jr_id r) (jr_revision r) None = Inr (j, db3)"
    using j0(1) f(4,5,8) assms(5)
    by (auto simp: acknowledge_cancellation_def Let_def assert_revision_def validate_job_transition_def
        inject_none [OF assms(4)] acknowledge_row_def [abs_def])
  then show ?thesis by blast
qed

section \<open>Requesting cancellation\<close>

lemma update_steps_none: "update_steps (\<lambda>r. False) g db = db"
  by (simp add: update_steps_def)

lemma requested_row_reads:
  assumes "job_from_row e db r = Inr j" "steps_in db' (jr_id r) = Inr ss" "t \<in> {Cancelled, Cancelling}"
  shows "is_ok (job_from_row e db' (request_row e t r))"
proof -
  let ?r = "request_row e t r"
  have sel: "jr_id ?r = jr_id r" "jr_namespace ?r = jr_namespace r" "jr_type ?r = jr_type r" "jr_state ?r = t"
    "jr_fingerprint ?r = jr_fingerprint r" "jr_schema ?r = jr_schema r" "jr_failure_code ?r = jr_failure_code r"
    "jr_failure_message ?r = jr_failure_message r" "jr_revision ?r = jr_revision r + 1" "jr_payload ?r = jr_payload r"
    "jr_artifacts ?r = jr_artifacts r" "jr_result ?r = jr_result r" "jr_stage ?r = jr_stage r"
    "jr_current ?r = jr_current r" "jr_total ?r = jr_total r"
    by (simp_all add: request_row_def)
  have r1: "1 \<le> jr_revision r + 1" using job_from_row_ok(8) [OF assms(1)] by simp
  have t: "(t = Succeeded) = False" "(t \<in> {Failed, Interrupted}) = False" using assms(3) by auto
  show ?thesis
    using assms(1) unfolding job_from_row_def sel
    by (elim bindE_okE)
       (simp only: ensure_ok r1 t assms(2) simp_thms bindE_Inr ensure_True is_ok_simps option.case)
qed

lemma request_succeeds:
  assumes "job_inv S db" "je_secrets e = S" "r \<in> set (db_jobs db)" "writable e db" "jr_state r \<in> {Queued, Running}"
  shows "\<exists>j db'. request_cancellation e db (jr_id r) (jr_revision r) = Inr (j, db')"
proof -
  obtain j0 where j0: "job_in e db (jr_id r) = Inr j0" "job_from_row e db r = Inr j0" "find_job db (jr_id r) = Some r"
    by (rule inv_reads_row [OF assms(1-3)])
  note f = job_from_row_ok [OF j0(2)]
  define t where "t = (if jr_state r = Queued then Cancelled else Cancelling)"
  let ?f = "request_row e t"
  have t: "t \<in> {Cancelled, Cancelling}" by (simp add: t_def)
  have id: "jr_id (?f x) = jr_id x" for x by (simp add: request_row_def)
  have rd: "steps_in db' (jr_id r) = Inr ss \<Longrightarrow> is_ok (job_from_row e db' (?f r))" for db' ss
    using requested_row_reads [OF j0(2) _ t] by blast
  obtain db2 db3 j where w:
    "cas_job (jr_id r) (jr_revision r) ?f (update_steps (\<lambda>x. t = Cancelled \<and> sr_job x = jr_id r \<and> sr_state x = SPending)
       (stop_step (je_now e) SCancelled) db) = Inr db2"
    "append_event_in e 0 (jr_id r) ''cancellation_requested'' (Some t) None (dj_progress j0) db2 = Inr db3"
    "job_in e db3 (jr_id r) = Inr j"
    using commit_succeeds [where Q = "\<lambda>x. t = Cancelled \<and> sr_job x = jr_id r \<and> sr_state x = SPending" and st = SCancelled
        and ty = "''cancellation_requested''" and t = "Some t" and rs = None and p = "dj_progress j0",
        OF assms(1) j0(3) refl assms(4,2) j0(2) id] rd by blast
  have "request_cancellation e db (jr_id r) (jr_revision r) = Inr (j, db3)"
  proof (cases "jr_state r = Queued")
    case True
    then have "t = Cancelled" by (simp add: t_def)
    with w True j0(1) f(4,5,8) show ?thesis
      by (simp add: request_cancellation_def Let_def assert_revision_def validate_job_transition_def
          inject_none [OF assms(4)] request_row_def [abs_def])
  next
    case False
    then have "t = Cancelling" "jr_state r = Running" using assms(5) by (auto simp: t_def)
    with w j0(1) f(4,5,8) show ?thesis
      by (simp add: request_cancellation_def Let_def assert_revision_def validate_job_transition_def
          inject_none [OF assms(4)] request_row_def [abs_def] update_steps_none)
  qed
  then show ?thesis by blast
qed

end
