(* ===== verification/Job_Live.thy ===== *)
theory Job_Live
  imports Job_Success Job_World
begin

text \<open>
  Progress of a client that owns an active job.  The identifiers that a call draws are
  its own (\<open>store_live\<close>), the other connections may request the job's cancellation or
  end it but do not write to it otherwise (\<open>bystanders\<close>).  Then two attempts are enough
  for any action that closes the job (\<open>closer\<close>).
\<close>

section \<open>Where event identifiers come from\<close>

definition own_event :: "job_env \<Rightarrow> string \<Rightarrow> bool" where
  "own_event e i \<longleftrightarrow> (\<exists>k. i = ''event'' @ ''_'' @ je_newid e k)"

lemma own_eventI [simp]:
  "own_event e (CHR ''e'' # CHR ''v'' # CHR ''e'' # CHR ''n'' # CHR ''t'' # CHR ''_'' # je_newid e k)"
  unfolding own_event_def by (rule exI [of _ k]) simp

lemma own_event_id: "own_event e (event_id e)"
  unfolding own_event_def event_id_def by blast

definition adds_own :: "job_env \<Rightarrow> job_db \<Rightarrow> job_db \<Rightarrow> bool" where
  "adds_own e db db' \<longleftrightarrow> (\<forall>x \<in> set (db_events db'). er_id x \<in> er_id ` set (db_events db) \<or> own_event e (er_id x))"

lemma adds_own_same: "db_events db' = db_events db \<Longrightarrow> adds_own e db db'"
  by (simp add: adds_own_def)

lemma adds_own_trans:
  assumes "adds_own e db db1" "adds_own e db1 db2"
  shows "adds_own e db db2"
  unfolding adds_own_def
proof
  fix x assume "x \<in> set (db_events db2)"
  then consider y where "y \<in> set (db_events db1)" "er_id x = er_id y" | "own_event e (er_id x)"
    using assms(2) by (auto simp: adds_own_def)
  then show "er_id x \<in> er_id ` set (db_events db) \<or> own_event e (er_id x)"
    using assms(1) by cases (auto simp: adds_own_def)
qed

lemma append_adds_own:
  assumes "append_event_in e k jid ty st rs p db1 = Inr db2" "db_events db1 = db_events db"
  shows "adds_own e db db2"
  using assms
  by (auto simp: append_event_in_def new_id_def insert_event_def adds_own_def Let_def ok_simps)

lemma cas_events: "cas_job jid n f db = Inr db' \<Longrightarrow> db_events db' = db_events db"
  "cas_step sid jid n g db = Inr db' \<Longrightarrow> db_events db' = db_events db"
  by (auto simp: cas_job_def cas_step_def update_jobs_def update_steps_def Let_def ok_simps)

lemma update_events [simp]:
  "db_events (update_jobs P f db) = db_events db" "db_events (update_steps Q g db) = db_events db"
  by (simp_all add: update_jobs_def update_steps_def)

lemma insert_steps_events: "insert_steps e jid n names db = Inr db' \<Longrightarrow> db_events db' = db_events db"
  by (induction e jid n names db rule: insert_steps.induct) (auto simp: insert_step_def Let_def ok_simps)

lemma insert_job_events: "insert_job r db = Inr db' \<Longrightarrow> db_events db' = db_events db"
  by (auto simp: insert_job_def ok_simps)

lemma transition_adds_own: "transition_job_in e k db jid n t res fc fm = Inr (j, db') \<Longrightarrow> adds_own e db db'"
  unfolding transition_job_in_def Let_def
  by (elim bindE_okE) (auto dest!: cas_events intro: append_adds_own split: if_splits)

lemma recover_adds_own: "recover_all e k jids db = Inr (js, db') \<Longrightarrow> adds_own e db db'"
proof (induction e k jids db arbitrary: js db' rule: recover_all.induct)
  case (2 e k jid jids db)
  from "2.prems" obtain jd jsd where r: "recover_one e k jid db = Inr jd"
    "recover_all e (Suc k) jids (snd jd) = Inr jsd" "db' = snd jsd"
    by (auto simp: ok_simps)
  have "adds_own e db (snd jd)"
    using r(1) unfolding recover_one_def Let_def
    by (elim bindE_okE) (auto dest!: cas_events intro: append_adds_own)
  moreover have "adds_own e (snd jd) db'" using "2.IH" [OF r(1), of "fst jsd" "snd jsd"] r(2,3) by simp
  ultimately show ?case by (rule adds_own_trans)
qed (simp add: adds_own_same)

lemma append_decision_adds_own:
  assumes "append_agent_decision_event e db jid key payload m ms = Inr (v, db')"
  shows "adds_own e db db'"
proof (cases "find (\<lambda>r. er_job r = jid \<and> er_agent_key r = Some key) (db_events db)")
  case None
  then show ?thesis
    using assms unfolding append_agent_decision_event_def Let_def
    by (auto simp: ok_simps insert_event_def new_id_def adds_own_def Let_def dest!: cas_events)
next
  case (Some old)
  then have "db' = db" using assms by (auto simp: append_agent_decision_event_def ok_simps)
  then show ?thesis by (simp add: adds_own_same)
qed

lemma job_tx_adds_own: "job_tx e db db' \<Longrightarrow> adds_own e db db'"
proof (induction rule: job_tx.induct)
  case (create db ns jtype key fp payload artifacts steps j db')
  then show ?case
    unfolding create_job_def Let_def
    by (auto simp: ok_simps split: option.splits if_splits dest!: insert_job_events insert_steps_events intro: append_adds_own adds_own_same)
next
  case (claim db eligible oj db')
  then show ?case
    by (auto simp: claim_next_job_def ok_simps Let_def split: option.splits list.splits intro: adds_own_same dest: transition_adds_own)
next
  case (transition db jid n t res fc fm j db')
  then show ?case by (auto simp: transition_job_def bind_ensure_ok intro: transition_adds_own)
next
  case (progress db jid n stage cur tot j db')
  then show ?case
    unfolding report_progress_def by (elim bindE_okE) (auto dest!: cas_events intro: append_adds_own)
next
  case (step db jid sid n m t' j db')
  then show ?case
    unfolding transition_step_def Let_def by (elim bindE_okE) (auto dest!: cas_events intro: append_adds_own)
next
  case (request db jid n j db')
  then show ?case
    unfolding request_cancellation_def Let_def
    by (elim bindE_okE) (auto dest!: cas_events split: if_splits elim!: bindE_okE intro: append_adds_own adds_own_same)
next
  case (acknowledge db jid n res j db')
  then show ?case
    unfolding acknowledge_cancellation_def Let_def by (elim bindE_okE) (auto dest!: cas_events intro: append_adds_own)
next
  case (recover db lim js db')
  then show ?case by (auto simp: recover_interrupted_jobs_def bind_ensure_ok intro: recover_adds_own)
next
  case (decide db jid key payload m ms v db')
  then show ?case by (rule append_decision_adds_own)
qed

section \<open>A live store\<close>

text \<open>
  No fault is injected, the identifiers of the first \<open>N\<close> calls are well formed, belong to
  one call only and are not used by the other connections.  (An identifier has at most
  128 characters, so not all of infinitely many calls can have fresh ones.)
\<close>

definition store_live :: "nat \<Rightarrow> string list \<Rightarrow> 'x store_env_scheme \<Rightarrow> bool" where
  "store_live N S e \<longleftrightarrow> host_ok S e \<and>
     (\<forall>n phase jid. \<not> je_inject (sv_job e n) phase jid) \<and>
     (\<forall>n < N. opaque_id (event_id (sv_job e n))) \<and>
     (\<forall>m < N. \<forall>n < N. \<forall>i. own_event (sv_job e m) i \<longrightarrow> own_event (sv_job e n) i \<longrightarrow> m = n) \<and>
     (\<forall>m < N. \<forall>n db. \<forall>x \<in> set (db_events (sv_others e n db)).
        own_event (sv_job e m) (er_id x) \<longrightarrow> er_id x \<in> er_id ` set (db_events db))"

text \<open>No event carries an identifier of a call that is still to come.\<close>

definition fresh_world :: "nat \<Rightarrow> 'x store_env_scheme \<Rightarrow> store_world \<Rightarrow> bool" where
  "fresh_world N e w \<longleftrightarrow>
     (\<forall>n. sw_calls w \<le> n \<and> n < N \<longrightarrow> (\<forall>x \<in> set (db_events (sw_db w)). \<not> own_event (sv_job e n) (er_id x)))"

lemma fresh_others:
  assumes "store_live N S e" "fresh_world N e w" "sw_calls w \<le> n" "n < N"
    and "x \<in> set (db_events (sv_others e (sw_calls w) (sw_db w)))"
  shows "\<not> own_event (sv_job e n) (er_id x)"
proof
  assume own: "own_event (sv_job e n) (er_id x)"
  then have "er_id x \<in> er_id ` set (db_events (sw_db w))" using assms(1,4,5) unfolding store_live_def by blast
  then obtain y where "y \<in> set (db_events (sw_db w))" "er_id x = er_id y" by blast
  with own assms(2,3,4) show False by (simp add: fresh_world_def)
qed

lemma fresh_step:
  assumes "store_live N S e" "world_step e w w'" "fresh_world N e w"
  shows "fresh_world N e w'"
  using assms(2)
proof cases
  case looked
  then show ?thesis using fresh_others [OF assms(1,3)] by (simp add: fresh_world_def)
next
  case (wrote db)
  have "\<not> own_event (sv_job e n) (er_id x)" if n: "Suc (sw_calls w) \<le> n" "n < N" and x: "x \<in> set (db_events db)" for n x
  proof
    assume own: "own_event (sv_job e n) (er_id x)"
    have "sw_calls w < N" "n \<noteq> sw_calls w" using n by auto
    then have "\<not> own_event (sv_job e (sw_calls w)) (er_id x)"
      using own n(2) assms(1) unfolding store_live_def by blast
    then have "er_id x \<in> er_id ` set (db_events (sv_others e (sw_calls w) (sw_db w)))"
      using job_tx_adds_own [OF wrote(2)] x unfolding adds_own_def by blast
    then obtain y where "y \<in> set (db_events (sv_others e (sw_calls w) (sw_db w)))" "er_id x = er_id y" by blast
    with own n fresh_others [OF assms(1,3), of n y] show False by simp
  qed
  then show ?thesis using wrote(1) by (simp add: fresh_world_def)
qed

lemma fresh_path: "store_live N S e \<Longrightarrow> world_path e w w' \<Longrightarrow> fresh_world N e w \<Longrightarrow> fresh_world N e w'"
  by (rotate_tac, induction rule: rtranclp_induct) (blast intro: fresh_step)+

lemma writable_next:
  assumes "store_live N S e" "fresh_world N e w" "sw_calls w < N"
  shows "writable (sv_job e (sw_calls w)) (sv_others e (sw_calls w) (sw_db w))"
proof -
  have "event_id (sv_job e (sw_calls w)) \<notin> er_id ` set (db_events (sv_others e (sw_calls w) (sw_db w)))"
    using fresh_others [OF assms(1,2) le_refl assms(3)] own_event_id [of "sv_job e (sw_calls w)"] by auto
  then show ?thesis using assms(1,3) by (simp add: writable_def store_live_def)
qed

lemma path_calls: "world_path e w w' \<Longrightarrow> sw_calls w \<le> sw_calls w'"
  by (induction rule: rtranclp_induct) (auto elim!: world_stepE)

text \<open>The other connections leave an active job alone, ask for its cancellation or end it.\<close>

definition bystanders :: "'x store_env_scheme \<Rightarrow> string \<Rightarrow> bool" where
  "bystanders e jid \<longleftrightarrow> (\<forall>n db r r'. find_job db jid = Some r \<longrightarrow> find_job (sv_others e n db) jid = Some r' \<longrightarrow>
     r' = r \<or> jr_state r \<notin> {Running, Cancelling} \<or> terminal_job (jr_state r') \<or>
     jr_state r = Running \<and> jr_state r' = Cancelling)"

definition ended_in :: "job_db \<Rightarrow> string \<Rightarrow> bool" where
  "ended_in db jid \<longleftrightarrow> (\<exists>r. find_job db jid = Some r \<and> terminal_job (jr_state r))"

lemma find_moves:
  assumes "(micro S)\<^sup>*\<^sup>* db db'" "job_inv S db" "find_job db jid = Some r"
  obtains r' where "find_job db' jid = Some r'" "job_moves db db' r r'"
proof -
  have r: "r \<in> set (db_jobs db)" "jr_id r = jid" using find_job_Some [OF assms(3)] by auto
  obtain r' where r': "r' \<in> set (db_jobs db')" "job_moves db db' r r'"
    using micro_star_moves [OF assms(1,2) r(1)] by blast
  have "jr_id r' = jid" using r' r(2) by (simp add: job_moves_def same_identity_def)
  then show ?thesis using that job_inv_find [OF micro_star_inv [OF assms(1,2)] r'(1)] r'(2) by simp
qed

lemma job_moves_revision:
  assumes "job_moves db db' r r'" "jr_state r' \<noteq> jr_state r"
  shows "jr_revision r < jr_revision r'"
proof -
  obtain evs where "replay_from (jr_state r) evs = Some (jr_state r')" "jr_revision r' = jr_revision r + int (length evs)"
    using assms(1) by (auto simp: job_moves_def)
  then show ?thesis using assms(2) by (cases evs) auto
qed

lemma ended_micro:
  assumes "(micro S)\<^sup>*\<^sup>* db db'" "job_inv S db" "ended_in db jid"
  shows "ended_in db' jid"
proof -
  obtain r where r: "find_job db jid = Some r" "terminal_job (jr_state r)" using assms(3) by (auto simp: ended_in_def)
  then have "r \<in> set (db_jobs db)" "jr_id r = jid" by (auto dest: find_job_Some)
  with r(2) micro_star_terminal_frozen [OF assms(1,2)] have "r \<in> set (db_jobs db')" by blast
  then have "find_job db' jid = Some r"
    using job_inv_find [OF micro_star_inv [OF assms(1,2)]] \<open>jr_id r = jid\<close> by blast
  then show ?thesis using r(2) by (auto simp: ended_in_def)
qed

lemma ended_others: "host_ok S e \<Longrightarrow> job_inv S db \<Longrightarrow> ended_in db jid \<Longrightarrow> ended_in (sv_others e n db) jid"
  unfolding host_ok_def using ended_micro by blast

lemma ended_path:
  "host_ok S e \<Longrightarrow> world_path e w w' \<Longrightarrow> job_inv S (sw_db w) \<Longrightarrow> ended_in (sw_db w) jid \<Longrightarrow> ended_in (sw_db w') jid"
  using ended_micro [OF world_path_micro] by blast

section \<open>Closing a job\<close>

text \<open>The world after a call that wrote nothing.\<close>

definition passed :: "'x store_env_scheme \<Rightarrow> store_world \<Rightarrow> store_world" where
  "passed e w = \<lparr>sw_db = sv_others e (sw_calls w) (sw_db w), sw_calls = Suc (sw_calls w)\<rparr>"

lemma passed_sel [simp]: "sw_db (passed e w) = sv_others e (sw_calls w) (sw_db w)" "sw_calls (passed e w) = Suc (sw_calls w)"
  by (simp_all add: passed_def)

lemma passed_step: "world_step e w (passed e w)"
  unfolding passed_def by (rule world_step.looked) simp

text \<open>What a transition does when the revision is stale, and when it is known.\<close>

lemma transition_stale:
  assumes "get_job e db jid = Inr j" "dj_revision j \<noteq> n" "1 \<le> n" "t \<notin> {Cancelling, Cancelled}"
  shows "transition_job e db jid n t res fc fm = Inl JobConflict"
  using assms by (simp add: transition_job_def transition_job_in_def get_job_def assert_revision_def)

lemma repo_write_Inl:
  "f (sv_job e (sw_calls w)) (sv_others e (sw_calls w) (sw_db w)) = Inl err \<Longrightarrow> repo_write e f w = (Inl err, passed e w)"
  by (simp add: repo_write_def Let_def passed_def)

lemma transition_closes:
  assumes "job_inv S db" "je_secrets e = S" "writable e db" "r \<in> set (db_jobs db)"
    and "jr_state r \<in> {Running, Cancelling}" "t \<in> {Failed, Interrupted}" "t \<in> job_transitions (jr_state r)" "message_ok S c m"
  obtains j db' where "transition_job e db (jr_id r) (jr_revision r) t None (Some c) (Some m) = Inr (j, db')"
    "ended_in db' (jr_id r)"
proof -
  obtain j db' where t: "transition_job e db (jr_id r) (jr_revision r) t None (Some c) (Some m) = Inr (j, db')"
    using transition_ends [OF assms(1,2,4,3,7,6,8)] by blast
  then have "transition_job_in e 0 db (jr_id r) (jr_revision r) t None (Some c) (Some m) = Inr (j, db')"
    by (simp add: transition_job_def bind_ensure_ok)
  then have "ended_in db' (jr_id r)"
  proof (cases rule: transition_job_in_effect)
    case (1 old cols ev j0)
    then have "find_job db' (jr_id r) = Some (transition_row e t (if t = Running then Some (je_now e) else jr_started old) cols old)"
      using committed_find [OF 1(8)] find_job_Some [OF 1(1)] by simp
    then show ?thesis using assms(6) by (auto simp: ended_in_def)
  qed
  with t show ?thesis by (rule that)
qed

text \<open>How often another writer can still be faster.\<close>

fun rank :: "job_state \<Rightarrow> nat" where
  "rank Running = 2"
| "rank Cancelling = 1"
| "rank _ = 0"

lemma rank_bound: "rank s < 3"
  by (cases s) simp_all

text \<open>
  An action that closes an active job when it knows its revision, refuses when it does
  not, and leaves an ended job alone.
\<close>

locale closer =
  fixes act :: "'x store_env_scheme \<Rightarrow> string \<Rightarrow> durable_job \<Rightarrow> unit store_op"
    and allowed :: "string list \<Rightarrow> bool"
  assumes ended: "dj_state cur \<notin> {Running, Cancelling} \<Longrightarrow> act e jid cur = retW ()"
    and stale: "dj_state cur \<in> {Running, Cancelling} \<Longrightarrow>
      get_job (sv_job e (sw_calls w)) (sv_others e (sw_calls w) (sw_db w)) jid = Inr j \<Longrightarrow>
      dj_revision j \<noteq> dj_revision cur \<Longrightarrow> 1 \<le> dj_revision cur \<Longrightarrow> act e jid cur w = (Inl JobConflict, passed e w)"
    and closes: "allowed S \<Longrightarrow> dj_state cur \<in> {Running, Cancelling} \<Longrightarrow>
      job_inv S (sv_others e (sw_calls w) (sw_db w)) \<Longrightarrow> je_secrets (sv_job e (sw_calls w)) = S \<Longrightarrow>
      writable (sv_job e (sw_calls w)) (sv_others e (sw_calls w) (sw_db w)) \<Longrightarrow>
      r \<in> set (db_jobs (sv_others e (sw_calls w) (sw_db w))) \<Longrightarrow>
      jr_revision r = dj_revision cur \<Longrightarrow> jr_state r = dj_state cur \<Longrightarrow>
      \<exists>w'. act e (jr_id r) cur w = (Inr (), w') \<and> world_step e w w' \<and> ended_in (sw_db w') (jr_id r)"
begin

text \<open>Reading the job of a row of the store.\<close>

lemma read_row:
  assumes "host_ok S e" "job_inv S (sw_db w)" "find_job (sw_db (passed e w)) jid = Some r"
  obtains j where "repo_read e (\<lambda>je db. get_job je db jid) w = (Inr j, passed e w)"
    "dj_state j = jr_state r" "dj_revision j = jr_revision r" "1 \<le> dj_revision j"
proof -
  have r: "r \<in> set (db_jobs (sw_db (passed e w)))" "jr_id r = jid" using find_job_Some [OF assms(3)] by auto
  have inv: "job_inv S (sw_db (passed e w))" using others_inv [OF assms(1,2)] by simp
  have sec: "je_secrets (sv_job e (sw_calls w)) = S" using assms(1) by (simp add: host_ok_def)
  obtain j where j: "job_in (sv_job e (sw_calls w)) (sw_db (passed e w)) (jr_id r) = Inr j"
    "job_from_row (sv_job e (sw_calls w)) (sw_db (passed e w)) r = Inr j"
    by (rule inv_reads_row [OF inv sec r(1)])
  have "repo_read e (\<lambda>je db. get_job je db jid) w = (Inr j, passed e w)"
    using j(1) r(2) by (simp add: repo_read_def Let_def get_job_def passed_def)
  then show ?thesis using that job_from_row_ok(4,5,8) [OF j(2)] by simp
qed

lemma attempts_seen_ended:
  assumes "host_ok S e" "job_inv S (sw_db w)" "ended_in (sw_db (passed e w)) jid" "0 < k"
  shows "\<exists>w'. attempts k exh e jid (act e jid) w = (Inr (), w') \<and> ended_in (sw_db w') jid"
proof -
  obtain k' where k: "k = Suc k'" using assms(4) by (cases k) auto
  obtain r where r: "find_job (sw_db (passed e w)) jid = Some r" "terminal_job (jr_state r)"
    using assms(3) by (auto simp: ended_in_def)
  obtain j where j: "repo_read e (\<lambda>je db. get_job je db jid) w = (Inr j, passed e w)" "dj_state j = jr_state r"
    using read_row [OF assms(1,2) r(1)] by metis
  have "dj_state j \<notin> {Running, Cancelling}" using j(2) r(2) by auto
  then have "attempts k exh e jid (act e jid) w = (Inr (), passed e w)"
    using j(1) ended by (simp add: k bindW_def on_conflict_def retW_def)
  then show ?thesis using assms(3) by blast
qed

lemma bystander_move:
  assumes "store_live N S e" "bystanders e jid" "job_inv S db" "find_job db jid = Some r" "jr_state r \<noteq> Queued"
  obtains r' where "find_job (sv_others e n db) jid = Some r'" "jr_state r' \<noteq> Queued"
    "r' = r \<or> rank (jr_state r') < rank (jr_state r) \<and> jr_revision r < jr_revision r'"
proof -
  have host: "host_ok S e" using assms(1) by (simp add: store_live_def)
  have m: "(micro S)\<^sup>*\<^sup>* db (sv_others e n db)" using host by (simp add: host_ok_def)
  obtain r' where r': "find_job (sv_others e n db) jid = Some r'" "job_moves db (sv_others e n db) r r'"
    by (rule find_moves [OF m assms(3,4)])
  have nq: "jr_state r' \<noteq> Queued"
    using r'(2) assms(5) replay_from_never_queued by (fastforce simp: job_moves_def)
  show ?thesis
  proof (cases "terminal_job (jr_state r)")
    case True
    have "r \<in> set (db_jobs db)" "jr_id r = jid" using find_job_Some [OF assms(4)] by auto
    then have "find_job (sv_others e n db) jid = Some r"
      using job_inv_find [OF micro_star_inv [OF m assms(3)]] micro_star_terminal_frozen [OF m assms(3)] True by blast
    then show ?thesis using that assms(5) by blast
  next
    case False
    then have "jr_state r \<in> {Running, Cancelling}" using assms(5) by (cases "jr_state r") auto
    then have "r' = r \<or> terminal_job (jr_state r') \<or> jr_state r = Running \<and> jr_state r' = Cancelling"
      using assms(2) [unfolded bystanders_def, rule_format, OF assms(4) r'(1)] by blast
    then have "r' = r \<or> rank (jr_state r') < rank (jr_state r) \<and> jr_state r' \<noteq> jr_state r"
      using False assms(5) by (cases "jr_state r"; cases "jr_state r'") auto
    then show ?thesis using that [OF r'(1) nq] job_moves_revision [OF r'(2)] by blast
  qed
qed

text \<open>
  Three attempts are enough for a running job: the first two can only lose against a
  cancellation request and against the end of the job.
\<close>

theorem attempts_close:
  assumes "store_live N S e" "bystanders e jid" "allowed S"
    and "job_inv S (sw_db w)" "fresh_world N e w" "find_job (sw_db w) jid = Some r" "jr_state r \<noteq> Queued" "rank (jr_state r) < k" "sw_calls w + 2 * k \<le> N"
  shows "\<exists>w'. attempts k exh e jid (act e jid) w = (Inr (), w') \<and> ended_in (sw_db w') jid"
  using assms(4-)
proof (induction k arbitrary: w r)
  case (Suc k)
  have host: "host_ok S e" using assms(1) by (simp add: store_live_def)
  let ?w1 = "passed e w" and ?w2 = "passed e (passed e w)"
  obtain r1 where r1: "find_job (sw_db ?w1) jid = Some r1" "jr_state r1 \<noteq> Queued"
    "r1 = r \<or> rank (jr_state r1) < rank (jr_state r) \<and> jr_revision r < jr_revision r1"
    using bystander_move [OF assms(1,2) Suc.prems(1,3,4)] by (metis passed_sel(1))
  have inv: "job_inv S (sw_db ?w1)" "job_inv S (sw_db ?w2)" using others_inv [OF host] Suc.prems(1) by simp_all
  have fresh: "fresh_world N e ?w1" "fresh_world N e ?w2"
    using fresh_step [OF assms(1) passed_step] Suc.prems(2) by blast+
  show ?case
  proof (cases "terminal_job (jr_state r1)")
    case True
    then have "ended_in (sw_db ?w1) jid" using r1(1) by (auto simp: ended_in_def)
    from attempts_seen_ended [OF host Suc.prems(1) this] show ?thesis by blast
  next
    case False
    obtain j where j: "repo_read e (\<lambda>je db. get_job je db jid) w = (Inr j, ?w1)" "dj_state j = jr_state r1"
      "dj_revision j = jr_revision r1" "1 \<le> dj_revision j"
      by (rule read_row [OF host Suc.prems(1) r1(1)])
    have act: "dj_state j \<in> {Running, Cancelling}" using j(2) False r1(2) by (cases "jr_state r1") auto
    obtain r2 where r2: "find_job (sw_db ?w2) jid = Some r2" "jr_state r2 \<noteq> Queued"
      "r2 = r1 \<or> rank (jr_state r2) < rank (jr_state r1) \<and> jr_revision r1 < jr_revision r2"
      using bystander_move [OF assms(1,2) inv(1) r1(1,2)] by (metis passed_sel(1))
    have step: "attempts (Suc k) exh e jid (act e jid) w =
        on_conflict (act e jid j) (attempts k exh e jid (act e jid)) ?w1"
      using j(1) by (simp add: bindW_def)
    show ?thesis
    proof (cases "r2 = r1")
      case True
      have r1m: "r1 \<in> set (db_jobs (sw_db ?w2))" "jr_id r1 = jid" using find_job_Some [OF r2(1)] True by auto
      have "\<exists>w'. act e (jr_id r1) j ?w1 = (Inr (), w') \<and> world_step e ?w1 w' \<and> ended_in (sw_db w') (jr_id r1)"
        by (rule closes [OF assms(3) act]) (use inv(2) host writable_next [OF assms(1) fresh(1)] Suc.prems(6) r1m j in \<open>simp_all add: host_ok_def\<close>)
      then obtain w' where "act e jid j ?w1 = (Inr (), w')" "ended_in (sw_db w') jid" using r1m(2) by blast
      moreover from this(1) have "attempts (Suc k) exh e jid (act e jid) w = (Inr (), w')"
        unfolding step by (simp add: on_conflict_def)
      ultimately show ?thesis by blast
    next
      case False
      then have less: "rank (jr_state r2) < rank (jr_state r1)" "dj_revision j \<noteq> jr_revision r2" using r2(3) j(3) by auto
      obtain j2 where j2: "repo_read e (\<lambda>je db. get_job je db jid) ?w1 = (Inr j2, ?w2)" "dj_revision j2 = jr_revision r2"
        using read_row [OF host inv(1) r2(1)] by metis
      have "get_job (sv_job e (sw_calls ?w1)) (sv_others e (sw_calls ?w1) (sw_db ?w1)) jid = Inr j2"
        using j2(1) by (simp add: repo_read_def Let_def)
      then have "act e jid j ?w1 = (Inl JobConflict, ?w2)"
        using stale [OF act, of e ?w1 jid j2] j2(2) less(2) j(4) by metis
      then have "attempts (Suc k) exh e jid (act e jid) w = attempts k exh e jid (act e jid) ?w2"
        unfolding step by (simp add: on_conflict_def)
      moreover have "rank (jr_state r2) < k" using less(1) r1(3) Suc.prems(5) by auto
      ultimately show ?thesis using Suc.IH [OF inv(2) fresh(2) r2(1,2)] Suc.prems(6) by simp
    qed
  qed
qed simp

end

end
