(* ===== verification/Job_Worker.thy ===== *)
theory Job_Worker
  imports Job_Live
begin

text \<open>
  The consumers of the job queue: \<open>src/workspace/executors.py\<close> and
  \<open>src/workspace/worker.py\<close>.  An executor is what runs one claimed job; it is a function
  of the store world that returns, raises or is cancelled with its task.  The
  supervisor's tasks, stop and wake flags are a small state machine of their own; one
  consumer is a loop of iterations, and what happens to it from outside during one
  iteration (its task is cancelled while it claims, the pool is stopped) is a \<open>tick\<close>.
  An exception of the repository inside \<open>_reconcile\<close> is swallowed by the code.
\<close>

section \<open>Executors\<close>

datatype exec_end = ExecReturned | ExecRaised | ExecCancelled

record executor =
  ex_namespace :: namespace
  ex_type :: string
  ex_run :: "durable_job \<Rightarrow> store_world \<Rightarrow> exec_end \<times> store_world"

definition executors_ok :: "executor list \<Rightarrow> bool" where
  "executors_ok xs \<longleftrightarrow> 1 \<le> length xs \<and> length xs \<le> 4 \<and>
     distinct (map (\<lambda>x. (ex_namespace x, ex_type x)) xs) \<and> list_all (\<lambda>x. type_name (ex_type x)) xs"

definition eligible_types :: "executor list \<Rightarrow> (namespace \<times> string) list" where
  "eligible_types xs = map (\<lambda>x. (ex_namespace x, ex_type x)) xs"

definition resolve :: "executor list \<Rightarrow> durable_job \<Rightarrow> job_error + executor" where
  "resolve xs job =
    of_opt ValueErr (find (\<lambda>x. ex_namespace x = dj_namespace job \<and> ex_type x = dj_type job) xs)"

section \<open>Interruption\<close>

definition interrupt_code :: string where "interrupt_code = ''worker_interrupted''"

definition interrupt_message :: string where
  "interrupt_message = ''Worker stopped before terminal execution was committed.''"

definition interrupt_once :: "'x store_env_scheme \<Rightarrow> string \<Rightarrow> durable_job \<Rightarrow> unit store_op" where
  "interrupt_once e jid cur =
    (if dj_state cur \<notin> {Running, Cancelling} then retW ()
     else bindW (repo_write e (\<lambda>je db. transition_job je db jid (dj_revision cur) Interrupted None
            (Some interrupt_code) (Some interrupt_message))) (\<lambda>_. retW ()))"

definition interrupt :: "'x store_env_scheme \<Rightarrow> string \<Rightarrow> unit store_op" where
  "interrupt e jid = attempts 3 (liftW (Inl JobConflict)) e jid (interrupt_once e jid)"

definition reconcile :: "'x store_env_scheme \<Rightarrow> string \<Rightarrow> store_world \<Rightarrow> store_world" where
  "reconcile e jid w = snd (interrupt e jid w)"

section \<open>One consumer\<close>

record worker_state =
  wk_active :: "string set"
  wk_world :: store_world

text \<open>\<open>_execute\<close>: whether the \<open>CancelledError\<close> of the task is raised again.\<close>

definition execute_job :: "'x store_env_scheme \<Rightarrow> executor list \<Rightarrow> durable_job \<Rightarrow> worker_state \<Rightarrow> bool \<times> worker_state" where
  "execute_job e xs job s =
    (let jid = dj_id job;
         s1 = s\<lparr>wk_active := insert jid (wk_active s)\<rparr>;
         (out, w) = (case resolve xs job of
            Inl _ \<Rightarrow> (ExecRaised, wk_world s1)
          | Inr x \<Rightarrow> ex_run x job (wk_world s1));
         s2 = s1\<lparr>wk_world := reconcile e jid w\<rparr>
     in (out = ExecCancelled, s2\<lparr>wk_active := wk_active s2 - {jid}\<rparr>))"

record tick =
  tk_stopped :: bool
  tk_claim_cancelled :: bool
  tk_stop_after_claim :: bool

datatype iteration_end = NoJob | Worked durable_job | IterationCancelled

definition claim :: "'x store_env_scheme \<Rightarrow> executor list \<Rightarrow> durable_job option store_op" where
  "claim e xs = repo_write e (\<lambda>je db. claim_next_job je db (eligible_types xs))"

text \<open>
  \<open>_iteration\<close> with \<open>_claim\<close>.  A claim that raises ends the iteration without a job, also
  when the task was cancelled while it ran: the repository's exception wins.
\<close>

definition iteration :: "'x store_env_scheme \<Rightarrow> executor list \<Rightarrow> tick \<Rightarrow> worker_state \<Rightarrow> iteration_end \<times> worker_state" where
  "iteration e xs t s =
    (case claim e xs (wk_world s) of
       (Inl _, w) \<Rightarrow> (NoJob, s\<lparr>wk_world := w\<rparr>)
     | (Inr None, w) \<Rightarrow> (if tk_claim_cancelled t then IterationCancelled else NoJob, s\<lparr>wk_world := w\<rparr>)
     | (Inr (Some job), w) \<Rightarrow>
         if tk_claim_cancelled t then (IterationCancelled, s\<lparr>wk_world := reconcile e (dj_id job) w\<rparr>)
         else if tk_stop_after_claim t then (Worked job, s\<lparr>wk_world := reconcile e (dj_id job) w\<rparr>)
         else (case execute_job e xs job (s\<lparr>wk_world := w\<rparr>) of
            (cancelled, s') \<Rightarrow> (if cancelled then IterationCancelled else Worked job, s')))"

fun worker :: "'x store_env_scheme \<Rightarrow> executor list \<Rightarrow> tick list \<Rightarrow> worker_state \<Rightarrow> worker_state" where
  "worker e xs [] s = s"
| "worker e xs (t # ts) s =
     (if tk_stopped t then s
      else case iteration e xs t s of
         (IterationCancelled, s') \<Rightarrow> s'
       | (_, s') \<Rightarrow> worker e xs ts s')"

section \<open>The pool\<close>

record worker_config =
  wc_concurrency :: int
  wc_poll_ms :: int
  wc_grace_ms :: int

definition valid_worker_config :: "worker_config \<Rightarrow> bool" where
  "valid_worker_config c \<longleftrightarrow>
     1 \<le> wc_concurrency c \<and> wc_concurrency c \<le> 16 \<and> 100 \<le> wc_poll_ms c \<and> wc_poll_ms c \<le> 5000 \<and>
     100 \<le> wc_grace_ms c \<and> wc_grace_ms c \<le> 60000"

text \<open>The supervisor: for each task whether it is done, the event loop that owns it, its flags.\<close>

record pool =
  po_config :: worker_config
  po_done :: "bool list"
  po_loop :: "nat option"
  po_stop :: bool
  po_wake :: bool
  po_stopping :: bool

definition task_count :: "pool \<Rightarrow> int" where
  "task_count p = int (length (filter (\<lambda>d. \<not> d) (po_done p)))"

definition healthy :: "pool \<Rightarrow> bool" where
  "healthy p \<longleftrightarrow> \<not> po_stop p \<and> task_count p = wc_concurrency (po_config p)"

definition start_pool :: "nat \<Rightarrow> pool \<Rightarrow> pool option" where
  "start_pool loop p =
    (if po_done p \<noteq> [] then None
     else Some (p\<lparr>po_stop := False, po_wake := False, po_loop := Some loop, po_stopping := False,
                  po_done := replicate (nat (wc_concurrency (po_config p))) False\<rparr>))"

text \<open>A task ends, by itself or because it was cancelled; later the callback of \<open>start\<close> runs.\<close>

definition task_ends :: "nat \<Rightarrow> pool \<Rightarrow> pool" where
  "task_ends i p = p\<lparr>po_done := (po_done p)[i := True]\<rparr>"

definition worker_done :: "pool \<Rightarrow> pool" where
  "worker_done p = (if po_stopping p then p else p\<lparr>po_stop := True, po_wake := True\<rparr>)"

text \<open>\<open>notify_work\<close> from a running loop, or from none.\<close>

definition notify_work :: "nat option \<Rightarrow> pool \<Rightarrow> bool \<times> pool" where
  "notify_work running p =
    (if running = None \<or> running \<noteq> po_loop p \<or> po_stopping p \<or> \<not> healthy p then (False, p)
     else (True, p\<lparr>po_wake := True\<rparr>))"

datatype wake_reason = Shutdown | PollTimeout | AdmissionSignal

text \<open>\<open>_idle\<close>, for a wait that ends by its timeout or by the wake flag.\<close>

definition idle :: "bool \<Rightarrow> pool \<Rightarrow> wake_reason \<times> pool" where
  "idle timed_out p =
    (if timed_out then (if po_stop p then Shutdown else PollTimeout, p)
     else (if po_stop p then Shutdown else AdmissionSignal, p\<lparr>po_wake := False\<rparr>))"

text \<open>\<open>stop\<close> raises its flags, waits for the tasks (cancelling the late ones) and forgets them.\<close>

definition begin_stop :: "pool \<Rightarrow> pool" where
  "begin_stop p = p\<lparr>po_stopping := True, po_stop := True, po_wake := True\<rparr>"

definition end_stop :: "pool \<Rightarrow> pool" where
  "end_stop p = p\<lparr>po_done := []\<rparr>"

text \<open>What can happen to the supervisor, in any order.\<close>

datatype pool_event =
  Start nat | TaskEnds nat | Callback | Notify "nat option" | Idled bool | StopBegins | StopEnds

fun pool_step :: "pool \<Rightarrow> pool_event \<Rightarrow> pool" where
  "pool_step p (Start loop) = (case start_pool loop p of None \<Rightarrow> p | Some p' \<Rightarrow> p')"
| "pool_step p (TaskEnds i) = task_ends i p"
| "pool_step p Callback = worker_done p"
| "pool_step p (Notify running) = snd (notify_work running p)"
| "pool_step p (Idled timed_out) = snd (idle timed_out p)"
| "pool_step p StopBegins = begin_stop p"
| "pool_step p StopEnds = end_stop p"

definition new_pool :: "worker_config \<Rightarrow> pool" where
  "new_pool c = \<lparr>po_config = c, po_done = [], po_loop = None, po_stop = False, po_wake = False, po_stopping = False\<rparr>"

definition pool_inv :: "worker_config \<Rightarrow> pool \<Rightarrow> bool" where
  "pool_inv c p \<longleftrightarrow> po_config p = c \<and> (po_done p = [] \<or> length (po_done p) = nat (wc_concurrency c) \<and> po_loop p \<noteq> None) \<and>
     (po_stopping p \<longrightarrow> po_stop p)"

lemma pool_step_inv: "pool_inv c p \<Longrightarrow> pool_inv c (pool_step p ev)"
  by (cases ev)
     (auto simp: pool_inv_def start_pool_def task_ends_def worker_done_def notify_work_def idle_def begin_stop_def end_stop_def)

lemma pool_run_inv: "pool_inv c (foldl pool_step (new_pool c) evs)"
  by (induction evs rule: rev_induct) (auto simp: pool_step_inv, simp add: pool_inv_def new_pool_def)

lemma all_alive: "length (filter (\<lambda>d. \<not> d) ds) = length ds \<Longrightarrow> ds = replicate (length ds) False"
  by (metis (full_types) filter_id_conv length_filter_less nless_le replicate_length_same)

lemma healthy_inv:
  assumes "pool_inv c p" "healthy p" "1 \<le> wc_concurrency c"
  shows "po_done p = replicate (nat (wc_concurrency c)) False \<and> po_loop p \<noteq> None \<and> \<not> po_stopping p \<and> \<not> po_stop p"
proof -
  have n: "length (filter (\<lambda>d. \<not> d) (po_done p)) = nat (wc_concurrency c)" "\<not> po_stop p"
    using assms by (auto simp: healthy_def task_count_def pool_inv_def)
  then have "po_done p \<noteq> []" using assms(3) by auto
  then have "length (po_done p) = nat (wc_concurrency c)" "po_loop p \<noteq> None" using assms(1) by (auto simp: pool_inv_def)
  then show ?thesis using n all_alive [of "po_done p"] assms(1) by (auto simp: pool_inv_def)
qed

section \<open>Interruption closes the job\<close>

definition interrupt_allowed :: "string list \<Rightarrow> bool" where
  "interrupt_allowed S \<longleftrightarrow> message_ok S interrupt_code interrupt_message"

interpretation interrupting: closer interrupt_once interrupt_allowed
proof unfold_locales
  fix cur :: durable_job and e :: "'x store_env_scheme" and jid
  show "dj_state cur \<notin> {Running, Cancelling} \<Longrightarrow> interrupt_once e jid cur = retW ()"
    by (simp add: interrupt_once_def)
next
  fix cur j :: durable_job and e :: "'x store_env_scheme" and jid and w :: store_world
  assume "dj_state cur \<in> {Running, Cancelling}" "1 \<le> dj_revision cur" "dj_revision j \<noteq> dj_revision cur"
    "get_job (sv_job e (sw_calls w)) (sv_others e (sw_calls w) (sw_db w)) jid = Inr j"
  then show "interrupt_once e jid cur w = (Inl JobConflict, passed e w)"
    by (simp add: interrupt_once_def bindW_def repo_write_Inl transition_stale)
next
  fix S and cur :: durable_job and e :: "'x store_env_scheme" and w :: store_world and r
  let ?je = "sv_job e (sw_calls w)" and ?db = "sv_others e (sw_calls w) (sw_db w)"
  assume a: "interrupt_allowed S" "dj_state cur \<in> {Running, Cancelling}" "job_inv S ?db" "je_secrets ?je = S"
    "writable ?je ?db" "r \<in> set (db_jobs ?db)" "jr_revision r = dj_revision cur" "jr_state r = dj_state cur"
  obtain j db' where t: "transition_job ?je ?db (jr_id r) (jr_revision r) Interrupted None
      (Some interrupt_code) (Some interrupt_message) = Inr (j, db')" "ended_in db' (jr_id r)"
    by (rule transition_closes [OF a(3,4,5,6), where t = Interrupted and c = interrupt_code and m = interrupt_message])
       (use a in \<open>auto simp: interrupt_allowed_def\<close>)
  then have "interrupt_once e (jr_id r) cur w = (Inr (), \<lparr>sw_db = db', sw_calls = Suc (sw_calls w)\<rparr>)"
    using a(2,7) by (simp add: interrupt_once_def bindW_def repo_write_def Let_def retW_def)
  moreover have "world_step e w \<lparr>sw_db = db', sw_calls = Suc (sw_calls w)\<rparr>"
    using t(1) by (intro world_step.wrote) (auto intro: job_tx.transition)
  ultimately show "\<exists>w'. interrupt_once e (jr_id r) cur w = (Inr (), w') \<and> world_step e w w' \<and> ended_in (sw_db w') (jr_id r)"
    using t(2) by auto
qed

section \<open>An iteration settles what it claims\<close>

lemma started_path:
  assumes "host_ok S e" "job_inv S (sw_db w)" "world_path e w w'" "find_job (sw_db w) jid = Some r" "jr_state r \<noteq> Queued"
  obtains r' where "find_job (sw_db w') jid = Some r'" "jr_state r' \<noteq> Queued"
proof -
  obtain r' where r': "find_job (sw_db w') jid = Some r'" "job_moves (sw_db w) (sw_db w') r r'"
    by (rule find_moves [OF world_path_micro [OF assms(1,3)] assms(2,4)])
  have "jr_state r' \<noteq> Queued" using r'(2) assms(5) replay_from_never_queued by (fastforce simp: job_moves_def)
  with r'(1) show ?thesis by (rule that)
qed

lemma reconcile_ends:
  assumes "store_live N S e" "interrupt_allowed S" "bystanders e jid" "job_inv S (sw_db w)" "fresh_world N e w"
    and "find_job (sw_db w) jid = Some r" "jr_state r \<noteq> Queued" "sw_calls w + 6 \<le> N"
  shows "ended_in (sw_db (reconcile e jid w)) jid"
  using interrupting.attempts_close [OF assms(1,3,2,4-7) rank_bound, simplified, OF assms(8), of "liftW (Inl JobConflict)"]
  by (auto simp: reconcile_def interrupt_def)

lemma reconcile_path: "world_path e w (reconcile e jid w)"
  unfolding reconcile_def interrupt_def interrupt_once_def by (intro follows_snd follows_intros)

lemma claimed_row:
  assumes "claim e xs w = (Inr (Some job), w1)"
  obtains r where "find_job (sw_db w1) (dj_id job) = Some r" "jr_state r = Running" "world_step e w w1"
proof -
  let ?je = "sv_job e (sw_calls w)" and ?db = "sv_others e (sw_calls w) (sw_db w)"
  from assms obtain db' where c: "claim_next_job ?je ?db (eligible_types xs) = Inr (Some job, db')"
    and w1: "w1 = \<lparr>sw_db = db', sw_calls = Suc (sw_calls w)\<rparr>"
    by (auto simp: claim_def repo_write_ok)
  from c obtain x :: job_row where "transition_job_in ?je 0 ?db (jr_id x) (jr_revision x) Running None None None = Inr (job, db')"
    by (auto simp: claim_next_job_def ok_simps split: list.splits)
  then obtain r where "find_job db' (dj_id job) = Some r" "jr_state r = Running"
  proof (cases rule: transition_job_in_effect)
    case (1 old cols ev j0)
    have "find_job db' (jr_id x) = Some (transition_row ?je Running (if Running = Running then Some (je_now ?je) else jr_started old) cols old)"
      using committed_find [OF 1(8)] find_job_Some [OF 1(1)] by simp
    moreover have "dj_id job = jr_id x" using job_in_row [OF 1(12)] by metis
    ultimately show ?thesis using that by simp
  qed
  moreover have "world_step e w w1" unfolding w1 using c by (intro world_step.wrote) (auto intro: job_tx.claim)
  ultimately show ?thesis using that w1 by simp
qed

text \<open>What an executor may do to the store: follow the path rules.\<close>

definition executors_follow :: "'x store_env_scheme \<Rightarrow> executor list \<Rightarrow> bool" where
  "executors_follow e xs \<longleftrightarrow> (\<forall>x \<in> set xs. \<forall>job w. world_path e w (snd (ex_run x job w)))"

lemma execute_job_world:
  assumes "executors_follow e xs"
  obtains w where "world_path e (wk_world s) w" "wk_world (snd (execute_job e xs job s)) = reconcile e (dj_id job) w"
    "wk_active (snd (execute_job e xs job s)) = wk_active s - {dj_id job}"
proof (cases "resolve xs job")
  case (Inl err)
  show ?thesis by (rule that [of "wk_world s"]) (simp_all add: execute_job_def Let_def Inl)
next
  case (Inr x)
  then have "x \<in> set xs" by (auto simp: resolve_def dest: find_SomeD)
  then have "world_path e (wk_world s) (snd (ex_run x job (wk_world s)))" using assms by (auto simp: executors_follow_def)
  then show ?thesis by (rule that) (simp_all add: execute_job_def Let_def Inr split: prod.split)
qed

lemma iteration_settles:
  assumes "store_live N S e" "interrupt_allowed S" "executors_follow e xs" "job_inv S (sw_db (wk_world s))" "fresh_world N e (wk_world s)"
    and "claim e xs (wk_world s) = (Inr (Some job), w1)" "bystanders e (dj_id job)"
    and "sw_calls (wk_world (snd (iteration e xs t s))) + 6 \<le> N"
  shows "ended_in (sw_db (wk_world (snd (iteration e xs t s)))) (dj_id job)"
proof -
  have host: "host_ok S e" using assms(1) by (simp add: store_live_def)
  obtain r where r: "find_job (sw_db w1) (dj_id job) = Some r" "jr_state r = Running" "world_step e (wk_world s) w1"
    by (rule claimed_row [OF assms(6)])
  then have p1: "world_path e (wk_world s) w1" by blast
  have settle: "ended_in (sw_db (reconcile e (dj_id job) w2)) (dj_id job)"
    if path: "world_path e w1 w2" and calls: "sw_calls w2 + 6 \<le> N" for w2
  proof -
    have inv1: "job_inv S (sw_db w1)" by (rule world_path_inv [OF host p1 assms(4)])
    obtain r2 where "find_job (sw_db w2) (dj_id job) = Some r2" "jr_state r2 \<noteq> Queued"
      by (rule started_path [OF host inv1 path r(1)]) (simp add: r(2))
    moreover have "job_inv S (sw_db w2)" by (rule world_path_inv [OF host path inv1])
    moreover have "fresh_world N e w2" using fresh_path [OF assms(1)] p1 path assms(5) by (metis rtranclp_trans)
    ultimately show ?thesis using reconcile_ends [OF assms(1,2,7)] calls by blast
  qed
  obtain w2 where w2: "world_path e w1 w2"
    "wk_world (snd (execute_job e xs job (s\<lparr>wk_world := w1\<rparr>))) = reconcile e (dj_id job) w2"
    by (rule execute_job_world [OF assms(3), of "s\<lparr>wk_world := w1\<rparr>" job]) simp
  define w3 where "w3 = (if tk_claim_cancelled t \<or> tk_stop_after_claim t then w1 else w2)"
  have w3: "world_path e w1 w3" using w2(1) by (simp add: w3_def)
  have final: "wk_world (snd (iteration e xs t s)) = reconcile e (dj_id job) w3"
    using w2(2) assms(6) by (auto simp: iteration_def w3_def split: prod.split)
  have "sw_calls w3 + 6 \<le> N"
    using path_calls [OF reconcile_path, of w3 e "dj_id job"] assms(8) by (simp add: final)
  then show ?thesis using settle [OF w3] by (simp add: final)
qed

end
