(* ===== verification/Agent_Closing.thy ===== *)
theory Agent_Closing
  imports Agent_Finish Agent_Journal Job_Worker
begin

text \<open>
  The end of a claimed run.  The exception handler of \<open>execute_claimed\<close> is a \<open>closer\<close>, so
  however the run went its job has ended when \<open>execute_claimed\<close> is left; and the agent
  executor of \<open>src/workspace/executors.py\<close> is an executor the worker may run.
\<close>

section \<open>The exception handler closes the job\<close>

definition abort_allowed :: "string list \<Rightarrow> bool" where
  "abort_allowed S \<longleftrightarrow>
     message_ok S ''agent_execution_failed'' ''Agent execution stopped before terminal result commit.''"

lemma acknowledge_stale:
  assumes "get_job e db jid = Inr j" "dj_revision j \<noteq> n" "1 \<le> n"
  shows "acknowledge_cancellation e db jid n res = Inl JobConflict"
  using assms by (simp add: acknowledge_cancellation_def get_job_def assert_revision_def)

lemma acknowledge_closes:
  assumes "job_inv S db" "je_secrets e = S" "r \<in> set (db_jobs db)" "writable e db" "jr_state r = Cancelling"
  obtains j db' where "acknowledge_cancellation e db (jr_id r) (jr_revision r) None = Inr (j, db')" "ended_in db' (jr_id r)"
proof -
  obtain j db' where a: "acknowledge_cancellation e db (jr_id r) (jr_revision r) None = Inr (j, db')"
    using acknowledge_ends [OF assms] by blast
  then have "ended_in db' (jr_id r)"
  proof (cases rule: acknowledge_cancellation_effect)
    case (1 old ev col)
    have "find_job db' (jr_id r) = Some (acknowledge_row e col old)"
      using committed_find [OF 1(5)] find_job_Some [OF 1(1)] by simp
    then show ?thesis by (simp add: ended_in_def acknowledge_row_def)
  qed
  with a show ?thesis by (rule that)
qed

lemma abort_once_closes:
  assumes "abort_allowed S" "dj_state cur \<in> {Running, Cancelling}"
    and inv: "job_inv S (sv_others e (sw_calls w) (sw_db w))" "je_secrets (sv_job e (sw_calls w)) = S"
      "writable (sv_job e (sw_calls w)) (sv_others e (sw_calls w) (sw_db w))"
      "r \<in> set (db_jobs (sv_others e (sw_calls w) (sw_db w)))"
    and row: "jr_revision r = dj_revision cur" "jr_state r = dj_state cur"
  shows "\<exists>w'. abort_once e (jr_id r) cur w = (Inr (), w') \<and> world_step e w w' \<and> ended_in (sw_db w') (jr_id r)"
proof (cases "dj_state cur = Cancelling")
  let ?je = "sv_job e (sw_calls w)" and ?db = "sv_others e (sw_calls w) (sw_db w)"
  case True
  obtain j db' where a: "acknowledge_cancellation ?je ?db (jr_id r) (jr_revision r) None = Inr (j, db')" "ended_in db' (jr_id r)"
    by (rule acknowledge_closes [OF inv(1,2,4,3)]) (simp add: row True)
  then have "abort_once e (jr_id r) cur w = (Inr (), \<lparr>sw_db = db', sw_calls = Suc (sw_calls w)\<rparr>)"
    using True row by (simp add: abort_once_def bindW_def repo_write_def Let_def retW_def)
  moreover have "world_step e w \<lparr>sw_db = db', sw_calls = Suc (sw_calls w)\<rparr>"
    using a(1) by (intro world_step.wrote) (auto intro: job_tx.acknowledge)
  ultimately show ?thesis using a(2) by auto
next
  let ?je = "sv_job e (sw_calls w)" and ?db = "sv_others e (sw_calls w) (sw_db w)"
  case False
  then have run: "dj_state cur = Running" using assms(2) by blast
  obtain j db' where t: "transition_job ?je ?db (jr_id r) (jr_revision r) Failed None
      (Some ''agent_execution_failed'') (Some ''Agent execution stopped before terminal result commit.'') = Inr (j, db')"
      "ended_in db' (jr_id r)"
    by (rule transition_closes [OF inv(1,2,3,4), where t = Failed])
       (use assms(1) run row in \<open>auto simp: abort_allowed_def\<close>)
  then have "abort_once e (jr_id r) cur w = (Inr (), \<lparr>sw_db = db', sw_calls = Suc (sw_calls w)\<rparr>)"
    using run row by (simp add: abort_once_def bindW_def repo_write_def Let_def retW_def)
  moreover have "world_step e w \<lparr>sw_db = db', sw_calls = Suc (sw_calls w)\<rparr>"
    using t(1) by (intro world_step.wrote) (auto intro: job_tx.transition)
  ultimately show ?thesis using t(2) by auto
qed

lemma abort_once_stale:
  assumes "dj_state cur \<in> {Running, Cancelling}" "1 \<le> dj_revision cur" "dj_revision j \<noteq> dj_revision cur"
    and "get_job (sv_job e (sw_calls w)) (sv_others e (sw_calls w) (sw_db w)) jid = Inr j"
  shows "abort_once e jid cur w = (Inl JobConflict, passed e w)"
  using assms by (auto simp: abort_once_def bindW_def repo_write_Inl transition_stale acknowledge_stale)

interpretation aborting: closer "abort_once :: durable_env \<Rightarrow> _" abort_allowed
  using abort_once_stale abort_once_closes by unfold_locales (auto simp: abort_once_def)

section \<open>A claimed run ends\<close>

lemma execute_body_Inr:
  assumes "execute_body e job rid w = (Inr u, w')"
  obtains r :: "store_world agent_result" and w1 where "finish 3 e (dj_id job) r w1 = (Inr u, w')"
proof -
  from assms obtain p :: agent_plan and s :: job_step and j :: durable_job and w1 and tools where
    t: "repo_write e (\<lambda>je db. transition_step je db (dj_id job) (js_id s) (dj_revision job) (js_revision s) SRunning) w = (Inr j, w1)"
    and r: "(case run (durable_orchestrator e p tools) (durable_context e p)
            (durable_agent_env e (durable_model e p) (dj_id j) (al_max_steps (pl_limits p))) (pl_goal p) w1 of
       Inl w' \<Rightarrow> (Inl OtherError, w')
     | Inr r \<Rightarrow> finish 3 e (dj_id j) r (res_world r)) = (Inr u, w')"
    unfolding execute_body_def Let_def by (auto simp: bindW_ok liftW_ok)
  from t obtain db' where "transition_step (sv_job e (sw_calls w)) (sv_others e (sw_calls w) (sw_db w)) (dj_id job) (js_id s)
      (dj_revision job) (js_revision s) SRunning = Inr (j, db')"
    by (auto simp: repo_write_ok)
  then have "dj_id j = dj_id job"
    by (cases rule: transition_step_effect) (metis job_in_row)
  with r show ?thesis by (auto split: sum.splits intro: that)
qed

lemma execute_body_ends:
  assumes "host_ok S e" "job_inv S (sw_db w)" "find_job (sw_db w) (dj_id job) = Some r" "jr_state r \<noteq> Queued"
    and body: "execute_body e job rid w = (Inr u, w')"
  shows "ended_in (sw_db w') (dj_id job)"
proof -
  obtain res :: "store_world agent_result" and w1 where "finish 3 e (dj_id job) res w1 = (Inr u, w')"
    by (rule execute_body_Inr [OF body])
  then obtain row where row: "find_job (sw_db w') (dj_id job) = Some row" "jr_state row \<notin> {Running, Cancelling}"
    using finish_reports by blast
  have "world_path e w w'" using execute_body_follows body by (rule followsD)
  from started_path [OF assms(1,2) this assms(3,4)] obtain row' where
    "find_job (sw_db w') (dj_id job) = Some row'" "jr_state row' \<noteq> Queued" .
  with row show ?thesis by (cases "jr_state row") (auto simp: ended_in_def)
qed

lemma execute_claimed_ends:
  assumes live: "store_live N S e" "abort_allowed S" "bystanders e (dj_id job)"
    and w: "job_inv S (sw_db w)" "fresh_world N e w" "find_job (sw_db w) (dj_id job) = Some r" "jr_state r \<noteq> Queued"
    and job: "dj_namespace job = NsAgent" "dj_type job = agent_job_type" "dj_state job = Running"
      "starts_with ''job_'' (dj_id job)"
    and calls: "sw_calls (snd (execute_claimed e job w)) + 6 \<le> N"
  shows "ended_in (sw_db (snd (execute_claimed e job w))) (dj_id job)"
proof -
  have host: "host_ok S e" using live(1) by (simp add: store_live_def)
  define rid where "rid = ''agent_'' @ drop 4 (dj_id job)"
  obtain out w1 where body: "execute_body e job rid w = (out, w1)" by fastforce
  then have p1: "world_path e w w1" using execute_body_follows by (blast intro: followsD)
  have inv1: "job_inv S (sw_db w1)" by (rule world_path_inv [OF host p1 w(1)])
  show ?thesis
  proof (cases out)
    case (Inr u)
    then have "execute_claimed e job w = get_run e rid w1"
      using job body by (simp add: execute_claimed_def bindW_def liftW_def run_id_of_def rid_def)
    moreover have "ended_in (sw_db w1) (dj_id job)" using execute_body_ends [OF host w(1,3,4)] body Inr by blast
    ultimately show ?thesis using ended_path [OF host follows_snd [OF get_run_follows] inv1] by simp
  next
    case (Inl err)
    then have e1: "execute_claimed e job w = bindW (abort 3 e (dj_id job)) (\<lambda>_. get_run e rid) w1"
      using job body by (simp add: execute_claimed_def bindW_def liftW_def run_id_of_def rid_def)
    have "world_path e w1 (snd (bindW (abort 3 e (dj_id job)) (\<lambda>_. get_run e rid) w1))"
      by (intro follows_snd follows_intros)
    then have "sw_calls w1 + 6 \<le> N" using path_calls calls e1 by fastforce
    moreover obtain r1 where "find_job (sw_db w1) (dj_id job) = Some r1" "jr_state r1 \<noteq> Queued"
      by (rule started_path [OF host w(1) p1 w(3,4)])
    ultimately obtain w2 where w2: "abort 3 e (dj_id job) w1 = (Inr (), w2)" "ended_in (sw_db w2) (dj_id job)"
      using aborting.attempts_close [OF live(1,3,2) inv1 fresh_path [OF live(1) p1 w(2)] _ _ rank_bound, where r = r1 and exh = "retW ()"]
      unfolding abort_def by auto
    have "job_inv S (sw_db w2)" using w2(1) abort_follows inv1 by (blast intro: world_path_inv [OF host] followsD)
    then show ?thesis
      using ended_path [OF host follows_snd [OF get_run_follows] _ w2(2)] w2(1) e1 by (simp add: bindW_def)
  qed
qed

section \<open>The agent executor\<close>

text \<open>\<open>AgentJobExecutor\<close>; \<open>None\<close> is a service factory that raises.\<close>

definition agent_executor :: "durable_env option \<Rightarrow> executor" where
  "agent_executor service =
    \<lparr>ex_namespace = NsAgent, ex_type = agent_job_type,
     ex_run = (\<lambda>job w. case service of None \<Rightarrow> (ExecRaised, w)
       | Some e \<Rightarrow> (case execute_claimed e job w of
            (Inl _, w') \<Rightarrow> (ExecRaised, w') | (Inr _, w') \<Rightarrow> (ExecReturned, w')))\<rparr>"

text \<open>The service shares its store with the worker.\<close>

lemma agent_executor_follows:
  assumes "\<And>w w'. world_path d w w' \<Longrightarrow> world_path e w w'"
  shows "world_path e w (snd (ex_run (agent_executor (Some d)) job w))" "world_path e w (snd (ex_run (agent_executor None) job w))"
  using assms [OF follows_snd [OF execute_claimed_follows, of d w job]]
  by (auto simp: agent_executor_def split: prod.splits sum.splits)

end
