(* ===== verification/Agent_Answer.thy ===== *)
theory Agent_Answer
  imports Agent_Invariants
begin

text \<open>
  Where a result of the orchestrator comes from: a completed one closes with the final
  decision that the model gave in the last round, any other leaves no \<open>completed\<close> entry in
  the trace.  Both are read off the code path alone, without the invariant.
\<close>

section \<open>What an end of a round says\<close>

text \<open>Every entry so far reports an observation, and there is a research summary where there is a session.\<close>

abbreviation orderly :: "'w agent_state \<Rightarrow> bool" where
  "orderly st \<equiv> (\<forall>t \<in> set (st_trace st). te_outcome t = ''observed'') \<and>
     (st_session st = None \<longleftrightarrow> st_summary st = None)"

definition fair :: "('w agent_result \<Rightarrow> bool) \<Rightarrow> 'w round_end \<Rightarrow> bool" where
  "fair A out \<longleftrightarrow> (case out of
     Inr st \<Rightarrow> orderly st
   | Inl r \<Rightarrow> if res_status r = Completed then A r else \<forall>t \<in> set (res_trace r). te_outcome t \<noteq> ''completed'')"

lemma fair_go: "orderly st \<Longrightarrow> fair A (Inr st)"
  by (simp add: fair_def)

lemma fair_failed: "orderly st \<Longrightarrow> status \<noteq> Completed \<Longrightarrow> fair A (Inl (failed st status dmn code))"
  by (auto simp: fair_def failed_def result_of_def)

lemma recorded_trace:
  assumes "record_entry env t st = Inr st'"
  shows "st_trace st' = st_trace st @ [t]" "st_decisions st' = st_decisions st" "st_observations st' = st_observations st"
    "final_failure oc st' a refs u = final_failure oc st a refs u" "st_session st' = st_session st" "st_summary st' = st_summary st"
proof -
  obtain w where "st' = st\<lparr>st_trace := st_trace st @ [t], st_world := w\<rparr>" using record_entry_ok [OF assms] by blast
  then show "st_trace st' = st_trace st @ [t]" "st_decisions st' = st_decisions st"
    "st_observations st' = st_observations st" "final_failure oc st' a refs u = final_failure oc st a refs u"
    "st_session st' = st_session st" "st_summary st' = st_summary st" by simp_all
qed

lemma fair_recorded:
  assumes "record_entry env t st = Inr st'" "orderly st" "te_outcome t \<noteq> ''completed''" "status \<noteq> Completed"
  shows "fair A (Inl (failed st' status dmn code))"
  using recorded_trace(1) [OF assms(1)] assms(2-4) by (simp add: fair_def failed_def result_of_def ball_Un)

lemma fair_observed:
  assumes "record_entry env t st = Inr st'" "orderly st" "te_outcome t = ''observed''"
  shows "fair A (Inr st')"
  using recorded_trace [OF assms(1)] assms(2,3) by (simp add: fair_def ball_Un)

section \<open>The tool call\<close>

lemma refresh_orderly:
  assumes "refresh_research st = Inr st'" "\<forall>t \<in> set (st_trace st). te_outcome t = ''observed''"
    and "st_session st = None \<longrightarrow> st_summary st = None"
  shows "orderly st'"
  using assms by (auto simp: refresh_research_def bindE_ok split: option.splits)

lemma take_observation_orderly: "take_observation oc obj t body ob st = Inr st' \<Longrightarrow> orderly st \<Longrightarrow> orderly st'"
  by (auto simp: take_observation_def Let_def bindE_ok dest!: refresh_orderly split: option.splits)

lemma run_tool_fair:
  assumes "run_tool oc cx env obj args t body st = Inr out" "orderly st"
  shows "fair A out"
proof -
  from assms(1) obtain st1 where st1: "refresh_research (charge oc obj t body st) = Inr st1"
    unfolding run_tool_def by (elim bindE_okE)
  have o1: "orderly st1"
    by (rule refresh_orderly [OF st1]) (use assms(2) in \<open>auto simp: charge_def split: option.splits\<close>)
  show ?thesis
  proof (cases "invoke oc cx env (st_tool_calls st1) (at_name t) args")
    case (Inl code)
    with assms(1) st1 show ?thesis
      by (auto simp: run_tool_def bindE_ok Let_def tool_error_codes intro!: fair_recorded [OF _ o1])
  next
    case (Inr d)
    show ?thesis
    proof (cases "project_checked oc st1 (at_name t) d")
      case (Inl err)
      with Inr assms(1) st1 show ?thesis
        by (cases err) (auto simp: run_tool_def bindE_ok Let_def intro!: fair_recorded [OF _ o1])
    next
      case pc: (Inr ob)
      from assms(1) st1 Inr pc obtain st2 st3 where r:
        "take_observation oc obj t body ob st1 = Inr st2"
        "record_entry env (entry st2 ''tool'' (Some (at_name t)) obj (sort (map fst args)) ''observed'' (trace_refs ob) None) st2 = Inr st3"
        "out = Inr st3"
        by (auto simp: run_tool_def bindE_ok Let_def)
      show ?thesis unfolding r(3)
        by (rule fair_observed [OF r(2)]) (use take_observation_orderly [OF r(1) o1] in simp_all)
    qed
  qed
qed

lemma poll_trace: "poll env k st = Inr (c, st') \<Longrightarrow> st_trace st' = st_trace st \<and> st_decisions st' = st_decisions st \<and>
    st_observations st' = st_observations st \<and> st_session st' = st_session st \<and> st_summary st' = st_summary st"
  by (auto simp: poll_def split: prod.splits option.splits)

lemma handle_tool_fair:
  assumes "handle_tool oc cx env name args obj st = Inr out" "orderly st"
  shows "fair A out"
proof (cases "admit oc cx st name args obj")
  case (Inl rj)
  obtain status dmn code where rj: "rj = (status, dmn, code)" by (cases rj)
  from assms(1) Inl rj obtain st' where r:
    "record_entry env (entry st ''tool'' (Some name) obj (sort (map fst args)) ''rejected'' [] (Some code)) st = Inr st'"
    "out = Inl (failed st' status dmn code)"
    by (auto simp: handle_tool_def bindE_ok)
  show ?thesis unfolding r(2)
    by (rule fair_recorded [OF r(1) assms(2)]) (use admit_codes [OF Inl [unfolded rj]] in simp_all)
next
  case (Inr tb)
  obtain t body where tb: "tb = (t, body)" by (cases tb)
  with assms(1) Inr obtain c st' where c: "poll env 2 st = Inr (c, st')"
    "(if c then Inr (Inl (failed st' AgentCancelled DomSystem ''cancelled''))
      else run_tool oc cx env obj args t body st') = Inr out"
    by (auto simp: handle_tool_def bindE_ok)
  have o: "orderly st'" using poll_trace [OF c(1)] assms(2) by simp
  show ?thesis
  proof (cases c)
    case True
    with c(2) show ?thesis by (auto intro!: fair_failed [OF o])
  next
    case False
    with c(2) show ?thesis using run_tool_fair [OF _ o] by simp
  qed
qed

section \<open>The final decision\<close>

text \<open>The result closes state \<open>st\<close> with the answer of a final decision that passed every test.\<close>

definition closes :: "orchestrator \<Rightarrow> exec_context \<Rightarrow> 'w agent_state \<Rightarrow> pyval \<Rightarrow> 'w agent_result \<Rightarrow> bool" where
  "closes oc cx st raw r \<longleftrightarrow>
     (\<exists>st' a u. r = result_of st' Completed None (Some (final_answer cx st' a)) (res_refs r) \<and>
        parse_decision raw = Some (FinalDecision a (res_refs r) u) \<and>
        final_failure oc st' a (res_refs r) u = None \<and> (st_session st' = None \<longleftrightarrow> st_summary st' = None) \<and>
        st_decisions st' = st_decisions st \<and> st_observations st' = st_observations st)"

lemma handle_decision_fair:
  assumes "handle_decision oc cx env raw st = Inr out" "orderly st"
  shows "fair (closes oc cx st raw) out"
proof (cases "parse_decision raw")
  case None
  with assms(1) show ?thesis
    by (auto simp: handle_decision_def bindE_ok intro!: fair_recorded [OF _ assms(2)])
next
  case (Some d)
  let ?st = "st\<lparr>st_steps := st_steps st + 1\<rparr>"
  have o: "orderly ?st" using assms(2) by simp
  show ?thesis
  proof (cases d)
    case (ToolDecision name args obj)
    with assms(1) Some have "handle_tool oc cx env name args obj ?st = Inr out" by (simp add: handle_decision_def)
    then show ?thesis using o by (rule handle_tool_fair)
  next
    case (FinalDecision a refs u)
    from assms(1) Some FinalDecision obtain r where r: "handle_final oc cx env a refs u ?st = Inr r" "out = Inl r"
      by (auto simp: handle_decision_def bindE_ok)
    show ?thesis
    proof (cases "st_session ?st = None \<and> u \<noteq> [] \<or> final_failure oc ?st a refs u \<noteq> None")
      case True
      with r show ?thesis
        by (auto simp: handle_final_def bindE_ok split: if_splits intro!: fair_recorded [OF _ o])
    next
      case False
      with r(1) obtain st' where st':
        "record_entry env (entry ?st ''final'' None None [] ''completed'' refs None) ?st = Inr st'"
        "r = result_of st' Completed None (Some (final_answer cx st' a)) refs"
        by (auto simp: handle_final_def bindE_ok)
      have "closes oc cx st raw r"
        unfolding closes_def using st'(2) recorded_trace(2-6) [OF st'(1)] o False Some FinalDecision
        by (intro exI [of _ st'] exI [of _ a] exI [of _ u]) (auto simp: result_of_def)
      then show ?thesis by (simp add: fair_def r(2) st'(2) result_of_def)
    qed
  qed
qed

section \<open>The round and the run\<close>

text \<open>A completed result closes with what the model answered in the last round.\<close>

definition answered :: "orchestrator \<Rightarrow> exec_context \<Rightarrow> 'w agent_env \<Rightarrow> 'w agent_result \<Rightarrow> bool" where
  "answered oc cx env r \<longleftrightarrow>
     (\<exists>st raw. closes oc cx st raw r \<and> ev_decide env (st_decisions st) (request_of oc cx st) = Answered raw)"

lemma fair_mono: "fair A out \<Longrightarrow> (\<And>r. A r \<Longrightarrow> B r) \<Longrightarrow> fair B out"
  by (auto simp: fair_def split: sum.splits if_splits)

lemma agent_round_fair:
  assumes "agent_round oc cx env st = Inr out" "orderly st"
  shows "fair (answered oc cx env) out"
proof -
  from assms(1) obtain c0 st0 where c0: "poll env 0 st = Inr (c0, st0)"
    unfolding agent_round_def by (elim bindE_okE) auto
  let ?st = "st0\<lparr>st_decisions := Suc (st_decisions st0)\<rparr>"
  have o: "orderly st0" "orderly ?st" using poll_trace [OF c0] assms(2) by simp_all
  show ?thesis
  proof (cases c0)
    case True
    with assms(1) c0 show ?thesis by (auto simp: agent_round_def intro!: fair_failed [OF o(1)])
  next
    case False
    let ?ans = "ev_decide env (st_decisions ?st) (request_of oc cx ?st)"
    show ?thesis
    proof (cases ?ans)
      case (Answered raw)
      with assms(1) c0 False obtain c1 st1 where c1: "poll env 1 ?st = Inr (c1, st1)"
        "(if c1 then Inr (Inl (failed st1 AgentCancelled DomSystem ''cancelled''))
          else handle_decision oc cx env raw st1) = Inr out"
        by (auto simp: agent_round_def bindE_ok)
      note p1 = poll_trace [OF c1(1)]
      have o1: "orderly st1" using p1 o(2) by simp
      show ?thesis
      proof (cases c1)
        case True
        with c1(2) show ?thesis by (auto intro!: fair_failed [OF o1])
      next
        case False
        with c1(2) have "fair (closes oc cx st1 raw) out" using handle_decision_fair [OF _ o1] by simp
        moreover have "answered oc cx env r" if "closes oc cx st1 raw r" for r
          using that p1 Answered unfolding answered_def
          by (intro exI [of _ ?st] exI [of _ raw]) (auto simp: closes_def)
        ultimately show ?thesis by (rule fair_mono)
      qed
    next
      case (ProviderFailed code)
      with assms(1) c0 False show ?thesis
        by (auto simp: agent_round_def bindE_ok Let_def split: if_splits intro!: fair_recorded [OF _ o(2)] fair_failed [OF o(2)])
    qed (use assms(1) c0 False in \<open>auto simp: agent_round_def intro!: fair_failed [OF o(2)]\<close>)
  qed
qed

lemma rounds_fair:
  assumes "rounds k oc cx env st = Inr r" "orderly st"
  shows "fair (answered oc cx env) (Inl r)"
  using assms
proof (induction k arbitrary: st)
  case 0
  then show ?case by (auto intro!: fair_failed)
next
  case (Suc k)
  from Suc.prems(1) obtain out where out: "agent_round oc cx env st = Inr out"
    "(case out of Inl r \<Rightarrow> Inr r | Inr st' \<Rightarrow> rounds k oc cx env st') = Inr r"
    by (auto simp: bindE_ok)
  note f = agent_round_fair [OF out(1) Suc.prems(2)]
  show ?case
  proof (cases out)
    case (Inr st')
    with f have "orderly st'" by (simp add: fair_def)
    with Suc.IH out(2) Inr show ?thesis by simp
  qed (use f out(2) in simp)
qed

lemma run_fair:
  assumes "run oc cx env goal w = Inr r"
  shows "fair (answered oc cx env) (Inl r)"
proof (cases "contains_protected_value (PStr goal) (oc_protected oc)")
  case True
  with assms show ?thesis
    by (auto simp: run_def bindE_ok initial_state_def fair_def failed_def result_of_def)
next
  case False
  with assms obtain g s st where st: "refresh_research (initial_state g s w) = Inr st"
    "(if oc_requires_provider oc \<and> \<not> rp_allow_decision_provider (oc_policy oc)
      then Inr (failed st PolicyDenied DomPolicy ''decision_provider_required'')
      else rounds (al_max_steps (oc_limits oc)) oc cx env st) = Inr r"
    by (auto simp: run_def bindE_ok)
  have o: "orderly st" by (rule refresh_orderly [OF st(1)]) (simp_all add: initial_state_def)
  show ?thesis using st(2) rounds_fair [OF _ o] fair_failed [OF o] by (auto split: if_splits)
qed

end
