(* ===== verification/Agent_Properties.thy ===== *)
theory Agent_Properties
  imports Agent_Answer
begin

text \<open>
  The properties of the bounded agent: budgets, grounding of final answers, the
  operational trace, tool policy, research coverage, projection bounds and totality.
  The witnesses run the orchestrator on a scripted model that reads one document and
  then answers.
\<close>

section \<open>A scripted run\<close>

definition demo_tool :: "string \<Rightarrow> bool \<Rightarrow> agent_tool" where
  "demo_tool name provider =
    \<lparr>at_name = name, at_provider = provider,
     at_validate = (\<lambda>args. let body = PDict (map (\<lambda>kv. (KStr (fst kv), snd kv)) args) in
        case arg_str body ''query'' of None \<Rightarrow> Some body | Some q \<Rightarrow> if length q \<le> 200 then Some body else None)\<rparr>"

definition demo_sha :: "string \<Rightarrow> string" where
  "demo_sha s = replicate 64 (CHR ''0'')"

definition demo_oc :: "research_config option \<Rightarrow> orchestrator" where
  "demo_oc research =
    \<lparr>oc_registry = [demo_tool ''search_documents'' False, demo_tool ''inspect_retrieval'' False,
                    demo_tool ''read_document'' False, demo_tool ''ask_rag'' True],
     oc_requires_provider = False, oc_limits = default_limits,
     oc_policy = \<lparr>rp_allow_decision_provider = False, rp_require_observation = True, rp_reject_duplicates = True\<rparr>,
     oc_research = research, oc_protected = [], oc_sha = demo_sha\<rparr>"

definition demo_cx :: exec_context where
  "demo_cx = \<lparr>cx_allowed = [''read_document''], cx_provider = False, cx_texts = english_texts\<rparr>"

definition demo_call :: "string option \<Rightarrow> pyval" where
  "demo_call obj = field_dict ([(''kind'', PStr ''tool''), (''tool_name'', PStr ''read_document''),
     (''arguments'', field_dict [(''document_id'', PStr ''AAPL:1'')])] @
     (case obj of None \<Rightarrow> [] | Some s \<Rightarrow> [(''objective_id'', PStr s)]))"

definition demo_final :: pyval where
  "demo_final = field_dict [(''kind'', PStr ''final''), (''answer'', PStr ''Revenue grew.''),
     (''evidence_refs'', PList [field_dict [(''kind'', PStr ''chunk_id''), (''value'', PStr ''c1'')]])]"

definition demo_agent :: "string option \<Rightarrow> unit agent_env" where
  "demo_agent obj =
    \<lparr>ev_decide = (\<lambda>n _. Answered (if n = 1 then demo_call obj else demo_final)),
     ev_execute = (\<lambda>_ _ _. Inr (DocumentData ''AAPL:1'' 1 [\<lparr>dc_chunk = Some ''c1'', dc_text = ''Net sales''\<rparr>])),
     ev_cancelled = (\<lambda>_ _ w. (Some False, w)), ev_sink = (\<lambda>_ _ _ w. (True, w))\<rparr>"

definition demo_research :: research_config where
  "demo_research = \<lparr>rc_objectives = [\<lparr>ro_id = ''growth'', ro_question = ''Did sales grow'', ro_ticker = Some ''AAPL''\<rparr>],
     rc_max_evidence = 6, rc_max_searches = 2, rc_min_evidence = 1\<rparr>"

definition demo_run :: "unit + unit agent_result" where
  "demo_run = run (demo_oc None) demo_cx (demo_agent None) ''Summarize sales'' ()"

definition demo_research_run :: "unit + unit agent_result" where
  "demo_research_run = run (demo_oc (Some demo_research)) demo_cx (demo_agent (Some ''growth'')) ''Summarize sales'' ()"

lemma demo_run_ok: "is_ok demo_run \<and> res_status (projr demo_run) = Completed"
  by code_simp

lemma demo_research_run_ok: "is_ok demo_research_run \<and> res_status (projr demo_research_run) = Completed"
  by code_simp

lemma demo_oc_ok: "orchestrator_ok (demo_oc None)" "orchestrator_ok (demo_oc (Some demo_research))"
  by code_simp+

lemma demo_goal: "\<not> contains_protected_value (PStr ''Summarize sales'') (oc_protected (demo_oc x))"
  by (simp add: demo_oc_def)

lemma demo_run_eq:
  "run (demo_oc None) demo_cx (demo_agent None) ''Summarize sales'' () = Inr (projr demo_run)"
  "run (demo_oc (Some demo_research)) demo_cx (demo_agent (Some ''growth'')) ''Summarize sales'' () =
     Inr (projr demo_research_run)"
  using demo_run_ok demo_research_run_ok unfolding demo_run_def demo_research_run_def
  by (auto simp: is_ok_iff)

section \<open>Budgets\<close>

text \<open>C13. Budgets: whatever the model answers and the tools return, a result never reports more
  steps, decisions, tool calls, calls of one tool or observations than the limits allow, the counters
  per tool add up to the tool calls, every retained observation fits its byte limit and all of them
  together fit the total.\<close>

theorem run_within_budgets:
  assumes "orchestrator_ok oc" "run oc cx env goal w = Inr r"
  shows "res_decisions r \<le> al_max_steps (oc_limits oc) \<and> res_steps r \<le> res_decisions r \<and>
    res_tool_calls r \<le> res_steps r \<and> res_tool_calls r \<le> al_max_tool_calls (oc_limits oc) \<and>
    (\<forall>n. count_at (res_per_tool r) n \<le> count_at (al_per_tool (oc_limits oc)) n) \<and>
    sum_list (map snd (res_per_tool r)) = res_tool_calls r \<and>
    length (res_observations r) \<le> al_max_observations (oc_limits oc) \<and>
    (\<forall>ob \<in> set (res_observations r). int (observation_bytes ob) \<le> al_max_observation_bytes (oc_limits oc)) \<and>
    int (sum_list (map observation_bytes (res_observations r))) \<le> al_max_total_bytes (oc_limits oc)"
  using assms
proof (cases rule: run_cases)
  case (refused sm)
  have "count_at (map (\<lambda>n. (n, 0)) tool_names) m = 0" "sum_list (map snd (map (\<lambda>n. (n, 0::nat)) tool_names)) = 0"
    "0 \<le> al_max_total_bytes (oc_limits oc)" for m
    using assms(1) by (auto simp: count_at_def tool_names_def orchestrator_ok_def valid_limits_def)
  then show ?thesis by (simp add: refused(1) failed_def result_of_def initial_state_def o_def)
next
  case ran
  then show ?thesis
    by (auto simp: result_of_def st_ok_def budgets_ok_def observations_ok_def)
qed

theorem run_within_budgets_witness:
  "res_tool_calls (projr demo_run) \<le> 5 \<and> length (res_observations (projr demo_run)) \<le> 5"
  using run_within_budgets [OF demo_oc_ok(1) demo_run_eq(1)] by (simp add: demo_oc_def default_limits_def)

section \<open>Grounding\<close>

lemma parse_decision_final:
  assumes "parse_decision raw = Some (FinalDecision a refs u)"
  shows "length a \<le> 4000 \<and> length refs \<le> 20 \<and> distinct refs"
proof -
  have "parse_final raw = Some (FinalDecision a refs u)"
    using assms by (auto simp: parse_decision_def parse_tool_def Option.bind_eq_Some_conv
        split: pyval.splits option.splits if_splits)
  then show ?thesis by (auto elim: parse_final_ok)
qed

lemma run_research:
  assumes "orchestrator_ok oc" "run oc cx env goal w = Inr r" "res_status r = Completed"
  shows "res_research r = None \<longleftrightarrow> oc_research oc = None"
  using assms(1,2)
proof (cases rule: run_cases)
  case refused
  with assms(3) show ?thesis by (simp add: failed_def result_of_def)
next
  case (ran st status failure answer refs)
  then show ?thesis by (auto simp: result_of_def session_ok_def split: option.splits)
qed

text \<open>C14. A completed answer is the model's and is grounded.  In the last round the model, asked with
  the observations of the result, gave a final decision with the result's evidence references and an
  answer \<open>a\<close>; without research the published answer is \<open>a\<close>, unchanged; with research it is \<open>a\<close>, or the
  fixed notice when no evidence was collected, followed by the open objectives if there are any.  The
  references, at most twenty and distinct, are among the identities that the run's observations
  contain, every \<open>[Source n]\<close> label in \<open>a\<close> names exactly one observed source that is also cited, every
  search, document or chunk identity in \<open>a\<close> is cited, and, if the policy asks for it, something was
  observed.\<close>

theorem completed_answers_are_grounded:
  assumes "orchestrator_ok oc" "run oc cx env goal w = Inr r" "res_status r = Completed"
  shows "\<exists>a u raw dq. ev_decide env (res_decisions r) dq = Answered raw \<and> dq_observations dq = res_observations r \<and>
      parse_decision raw = Some (FinalDecision a (res_refs r) u) \<and>
      (res_research r = None \<longleftrightarrow> oc_research oc = None) \<and>
      res_answer r = Some (case res_research r of None \<Rightarrow> a
        | Some sm \<Rightarrow> (if rs_evidence sm = [] then fst (cx_texts cx) else a) @
            (if rs_gaps sm = [] then []
             else [CHR 0x0A, CHR 0x0A] @ snd (cx_texts cx) @ '': '' @ gap_text (rs_gaps sm) @ ''.'')) \<and>
      set (res_refs r) \<subseteq> set (observed_refs (res_observations r)) \<and>
      length (res_refs r) \<le> 20 \<and> distinct (res_refs r) \<and>
      (rp_require_observation (oc_policy oc) \<longrightarrow> res_observations r \<noteq> []) \<and>
      (\<forall>l \<in> set (findall source_label_rx a). label_ok (res_observations r) (res_refs r) l) \<and>
      ids_cited (res_refs r) a \<and> length a \<le> 4000"
proof -
  obtain st raw where c: "closes oc cx st raw r" "ev_decide env (st_decisions st) (request_of oc cx st) = Answered raw"
    using run_fair [OF assms(2)] assms(3) by (auto simp: fair_def answered_def)
  from c(1) obtain st' a u where r: "r = result_of st' Completed None (Some (final_answer cx st' a)) (res_refs r)"
    and p: "parse_decision raw = Some (FinalDecision a (res_refs r) u)" "final_failure oc st' a (res_refs r) u = None"
      "st_session st' = None \<longleftrightarrow> st_summary st' = None" "st_decisions st' = st_decisions st"
      "st_observations st' = st_observations st"
    by (auto simp: closes_def)
  have sel: "res_decisions r = st_decisions st'" "res_observations r = st_observations st'"
    "res_research r = st_summary st'" "res_answer r = Some (final_answer cx st' a)"
    by (subst r, simp add: result_of_def)+
  have v: "validate_final (oc_policy oc) (st_observations st') a (res_refs r) = None"
    using p(2) by (auto simp: final_failure_def split: option.splits)
  have sz: "length a \<le> 4000" "length (res_refs r) \<le> 20" "distinct (res_refs r)"
    using parse_decision_final [OF p(1)] by blast+
  have res: "res_research r = None \<longleftrightarrow> oc_research oc = None"
    using run_research [OF assms] .
  have "final_answer cx st' a = (case res_research r of None \<Rightarrow> a
        | Some sm \<Rightarrow> (if rs_evidence sm = [] then fst (cx_texts cx) else a) @
            (if rs_gaps sm = [] then []
             else [CHR 0x0A, CHR 0x0A] @ snd (cx_texts cx) @ '': '' @ gap_text (rs_gaps sm) @ ''.''))"
    using p(3) by (auto simp: sel(3) final_answer_def Let_def split: option.splits)
  with c(2) p v sz res sel show ?thesis
    by (intro exI [of _ a] exI [of _ u] exI [of _ raw] exI [of _ "request_of oc cx st"])
       (auto simp: validate_final_def list_all_iff request_of_def split: if_splits)
qed

theorem completed_answers_are_grounded_witness:
  "(\<exists>a u. parse_decision demo_final = Some (FinalDecision a (res_refs (projr demo_run)) u) \<and>
      res_answer (projr demo_run) = Some a) \<and>
   set (res_refs (projr demo_run)) \<subseteq> set (observed_refs (res_observations (projr demo_run)))"
proof -
  have "res_status (projr demo_run) = Completed" using demo_run_ok by blast
  from completed_answers_are_grounded [OF demo_oc_ok(1) demo_run_eq(1) this] obtain a u raw dq where
    d: "ev_decide (demo_agent None) (res_decisions (projr demo_run)) dq = Answered raw"
    and p: "parse_decision raw = Some (FinalDecision a (res_refs (projr demo_run)) u)"
      "res_research (projr demo_run) = None \<longleftrightarrow> oc_research (demo_oc None) = None"
      "res_answer (projr demo_run) = Some (case res_research (projr demo_run) of None \<Rightarrow> a
        | Some sm \<Rightarrow> (if rs_evidence sm = [] then fst (cx_texts demo_cx) else a) @
            (if rs_gaps sm = [] then []
             else [CHR 0x0A, CHR 0x0A] @ snd (cx_texts demo_cx) @ '': '' @ gap_text (rs_gaps sm) @ ''.''))"
      "set (res_refs (projr demo_run)) \<subseteq> set (observed_refs (res_observations (projr demo_run)))"
    by (elim exE conjE) (rule that; assumption)
  have "res_decisions (projr demo_run) = 2" by code_simp
  with d have "raw = demo_final" by (simp add: demo_agent_def)
  with p show ?thesis by (auto simp: demo_oc_def)
qed

text \<open>C15. The operational trace is a faithful numbering: its entries carry the decision indices
  1, 2, ... without gap, there are no more of them than decisions, every entry but the last reports
  an observation, and a run is completed exactly if its last entry says so.\<close>

theorem trace_is_numbered:
  assumes "orchestrator_ok oc" "run oc cx env goal w = Inr r"
  shows "map te_index (res_trace r) = [1..<Suc (length (res_trace r))] \<and>
    length (res_trace r) \<le> res_decisions r \<and>
    (\<forall>t \<in> set (butlast (res_trace r)). te_outcome t = ''observed'') \<and>
    (res_status r = Completed \<longleftrightarrow> res_trace r \<noteq> [] \<and> te_outcome (last (res_trace r)) = ''completed'')"
proof -
  have "te_outcome t \<noteq> ''completed''" if "res_status r \<noteq> Completed" "t \<in> set (res_trace r)" for t
    using run_fair [OF assms(2)] that by (auto simp: fair_def)
  then have conv: "res_status r = Completed" if "res_trace r \<noteq> []" "te_outcome (last (res_trace r)) = ''completed''"
    using that last_in_set by blast
  have "map te_index (res_trace r) = [1..<Suc (length (res_trace r))] \<and>
    length (res_trace r) \<le> res_decisions r \<and>
    (\<forall>t \<in> set (butlast (res_trace r)). te_outcome t = ''observed'') \<and>
    (res_status r = Completed \<longrightarrow> res_trace r \<noteq> [] \<and> te_outcome (last (res_trace r)) = ''completed'')"
    using assms
  proof (cases rule: run_cases)
    case refused
    then show ?thesis by (simp add: failed_def result_of_def initial_state_def)
  next
    case ran
    then show ?thesis
      by (auto simp: result_of_def st_ok_def trace_ok_def verdict_def simp del: upt_Suc)
  qed
  with conv show ?thesis by blast
qed

theorem trace_is_numbered_witness:
  "map te_index (res_trace (projr demo_run)) = [1..<Suc (length (res_trace (projr demo_run)))] \<and>
   te_outcome (last (res_trace (projr demo_run))) = ''completed''"
  using trace_is_numbered [OF demo_oc_ok(1) demo_run_eq(1)] demo_run_ok by blast

text \<open>C16. A result is coherent: it is completed exactly if it has an answer and no failure; any
  other result has no answer, no evidence references and a failure whose code is one of the
  declared failure codes.\<close>

theorem result_is_coherent:
  assumes "orchestrator_ok oc" "run oc cx env goal w = Inr r"
  shows "case res_failure r of
      None \<Rightarrow> res_status r = Completed \<and> res_answer r \<noteq> None
    | Some (d, c) \<Rightarrow> res_status r \<noteq> Completed \<and> res_answer r = None \<and> res_refs r = [] \<and> c \<in> set failure_codes"
  using assms
proof (cases rule: run_cases)
  case refused
  then show ?thesis by (simp add: failed_def result_of_def failure_codes_def)
next
  case ran
  then show ?thesis
    by (auto simp: result_of_def verdict_def split: if_splits)
qed

theorem result_is_coherent_witness: "res_answer (projr demo_run) \<noteq> None"
  using result_is_coherent [OF demo_oc_ok(1) demo_run_eq(1)] demo_run_ok
  by (auto split: option.splits)

section \<open>Tool policy\<close>

lemma invoke_offered:
  assumes "\<And>n name body. name \<in> set (offered oc cx) \<Longrightarrow> ex n name body = ev_execute env n name body"
  shows "invoke oc cx (env\<lparr>ev_execute := ex\<rparr>) n name args = invoke oc cx env n name args"
proof (cases "find_tool (oc_registry oc) name")
  case (Some t)
  note ft = find_tool_ok [OF Some]
  show ?thesis
  proof (cases "name \<in> set (cx_allowed cx) \<and> \<not> (at_provider t \<and> \<not> cx_provider cx)")
    case True
    then have "name \<in> set (offered oc cx)" using ft by (auto simp: offered_def)
    then show ?thesis using Some assms by (simp add: invoke_def)
  next
    case False
    then show ?thesis using Some by (auto simp: invoke_def ensure_def)
  qed
qed (simp add: invoke_def)

lemma record_entry_execute [simp]: "record_entry (env\<lparr>ev_execute := ex\<rparr>) t st = record_entry env t st"
  by (simp add: record_entry_def)

lemma agent_round_offered:
  assumes "\<And>n name body. name \<in> set (offered oc cx) \<Longrightarrow> ex n name body = ev_execute env n name body"
  shows "agent_round oc cx (env\<lparr>ev_execute := ex\<rparr>) st = agent_round oc cx env st"
proof -
  have inv: "invoke oc cx (env\<lparr>ev_execute := ex\<rparr>) n name a = invoke oc cx env n name a" for n name a
    by (rule invoke_offered) (rule assms)
  have can: "poll (env\<lparr>ev_execute := ex\<rparr>) = poll env"
    "ev_decide (env\<lparr>ev_execute := ex\<rparr>) = ev_decide env" by (simp_all add: poll_def [abs_def])
  have rt: "run_tool oc cx (env\<lparr>ev_execute := ex\<rparr>) obj args t body s = run_tool oc cx env obj args t body s" for obj args t body s
    unfolding run_tool_def inv record_entry_execute ..
  have ht: "handle_tool oc cx (env\<lparr>ev_execute := ex\<rparr>) name args obj s = handle_tool oc cx env name args obj s" for name args obj s
    unfolding handle_tool_def rt record_entry_execute can ..
  have hf: "handle_final oc cx (env\<lparr>ev_execute := ex\<rparr>) a refs u s = handle_final oc cx env a refs u s" for a refs u s
    unfolding handle_final_def record_entry_execute ..
  have hd: "handle_decision oc cx (env\<lparr>ev_execute := ex\<rparr>) raw s = handle_decision oc cx env raw s" for raw s
    unfolding handle_decision_def ht hf record_entry_execute ..
  show ?thesis unfolding agent_round_def hd record_entry_execute can ..
qed

text \<open>C17. A tool outside the policy is never executed: if two worlds agree on what the tools answer
  that are registered, allow-listed and, unless provider execution is allowed, need no provider,
  then the run is the same in both, whatever the other tools would do.\<close>

theorem only_permitted_tools_run:
  assumes "\<forall>n name body. name \<in> set (offered oc cx) \<longrightarrow> ex n name body = ev_execute env n name body"
  shows "run oc cx (env\<lparr>ev_execute := ex\<rparr>) goal w = run oc cx env goal w"
proof -
  have rnd: "agent_round oc cx (env\<lparr>ev_execute := ex\<rparr>) st = agent_round oc cx env st" for st
    by (rule agent_round_offered) (use assms in blast)
  have rds: "rounds k oc cx (env\<lparr>ev_execute := ex\<rparr>) st = rounds k oc cx env st" for k st
  proof (induction k arbitrary: st)
    case (Suc k)
    have rds: "rounds k oc cx (env\<lparr>ev_execute := ex\<rparr>) = rounds k oc cx env" by (rule ext) (rule Suc.IH)
    then show ?case by (simp only: rounds.simps rnd)
  qed simp
  show ?thesis unfolding run_def rds ..
qed

theorem only_permitted_tools_run_witness:
  "run (demo_oc None) demo_cx ((demo_agent None)\<lparr>ev_execute :=
      (\<lambda>n name body. if name = ''ask_rag'' then Inl ''execution_failed'' else ev_execute (demo_agent None) n name body)\<rparr>)
      ''Summarize sales'' () = demo_run"
proof -
  have "''ask_rag'' \<notin> set (offered (demo_oc None) demo_cx)" by code_simp
  then show ?thesis unfolding demo_run_def by (intro only_permitted_tools_run) auto
qed

end
