(* ===== verification/Service_Demo.thy ===== *)
theory Service_Demo
  imports Agent_Closing Agent_Properties
begin

text \<open>
  A concrete service for the witnesses: an in-memory store with no other connection, a
  scripted decision model and the four registered tools.  Call \<open>n\<close> draws the identifiers
  \<open>nx0\<close>, \<open>nx1\<close>, and so on, and the clock shows \<open>t\<close>.
\<close>

definition demo_job_env :: "nat \<Rightarrow> job_env" where
  "demo_job_env n = \<lparr>je_now = ''t'', je_newid = (\<lambda>k. dec_nat n @ ''x'' @ dec_nat k), je_secrets = [],
     je_inject = (\<lambda>_ _. False), je_sha256 = demo_sha\<rparr>"

definition demo_model :: decision_model where
  "demo_model = \<lparr>dm_requires_provider = False, dm_protected = [],
     dm_decide = (\<lambda>n _. Answered (if n = 1 then demo_call None else demo_final))\<rparr>"

definition demo_service :: durable_env where
  "demo_service =
    \<lparr>sv_job = demo_job_env, sv_others = (\<lambda>_ db. db), de_sha = demo_sha, de_protected = [], de_model_id = ''scripted'',
     de_provider = None, de_registry = Some (oc_registry (demo_oc None)), de_model = (\<lambda>_. Some demo_model),
     de_execute = ev_execute (demo_agent None), de_other_texts = english_texts\<rparr>"

definition demo_request :: run_request where
  "demo_request =
    \<lparr>rq_goal = ''Summarize sales'', rq_locale = ''en'', rq_tools = [''read_document''], rq_provider_tools = False,
     rq_provider_decisions = False, rq_require_observation = True, rq_reject_duplicates = True,
     rq_limits = default_limits, rq_research = None\<rparr>"

definition demo_world :: store_world where
  "demo_world = \<lparr>sw_db = empty_db, sw_calls = 0\<rparr>"

text \<open>The plan of the request as it is stored, and the row, the step and the event of the new job.\<close>

definition demo_payload_value :: pyval where
  "demo_payload_value = PDict
    [(KStr ''allow_decision_provider_execution'', PBool False), (KStr ''allow_provider_tool_execution'', PBool False),
     (KStr ''allowed_tools'', PList [PStr ''read_document'']), (KStr ''decision_model_id'', PStr ''scripted''),
     (KStr ''goal'', PStr ''Summarize sales''),
     (KStr ''limits'', PDict
        [(KStr ''max_evidence_per_observation'', PInt 8), (KStr ''max_excerpt_chars'', PInt 160),
         (KStr ''max_observation_bytes'', PInt 4096), (KStr ''max_observations'', PInt 5), (KStr ''max_steps'', PInt 8),
         (KStr ''max_tool_calls'', PInt 5), (KStr ''max_total_observation_bytes'', PInt 16384),
         (KStr ''per_tool_calls'', PDict [(KStr ''ask_rag'', PInt 1), (KStr ''inspect_retrieval'', PInt 2),
            (KStr ''read_document'', PInt 3), (KStr ''search_documents'', PInt 2)])]),
     (KStr ''locale'', PStr ''en''), (KStr ''protocol'', PStr ''bounded_single_agent''),
     (KStr ''reject_duplicate_calls'', PBool True), (KStr ''require_observation_for_final'', PBool True),
     (KStr ''schema_version'', PInt 1)]"

definition demo_row :: job_row where
  "demo_row =
    \<lparr>jr_id = ''job_0x0'', jr_namespace = NsAgent, jr_type = ''bounded_agent_run'', jr_state = Queued,
     jr_fingerprint = demo_sha [], jr_failure_code = None, jr_revision = 1, jr_created = ''t'', jr_updated = ''t'',
     jr_started = None, jr_finished = None, jr_schema = Some 1, jr_key_hash = Some (demo_sha []),
     jr_payload = Json demo_payload_value, jr_artifacts = Json (PList []), jr_stage = None, jr_current = None,
     jr_total = None, jr_result = NullCol, jr_failure_message = None, jr_cancel_requested = None\<rparr>"

definition demo_step :: step_row where
  "demo_step = \<lparr>sr_id = ''step_0x1'', sr_job = ''job_0x0'', sr_ordinal = 0, sr_name = ''execute_agent'',
     sr_state = SPending, sr_revision = 1, sr_started = None, sr_finished = None\<rparr>"

definition demo_event :: event_row where
  "demo_event = \<lparr>er_id = ''event_0x2'', er_job = ''job_0x0'', er_seq = 1, er_type = ''created'',
     er_state = Some ''queued'', er_reason = None, er_stage = None, er_current = None, er_total = None,
     er_at = ''t'', er_agent_key = None, er_agent_payload = NullCol\<rparr>"

definition demo_queued :: store_world where
  "demo_queued = \<lparr>sw_db = \<lparr>db_jobs = [demo_row], db_steps = [demo_step], db_events = [demo_event]\<rparr>, sw_calls = 1\<rparr>"

definition demo_created :: "(job_error + run_view) \<times> store_world" where
  "demo_created = create_run demo_service demo_request ''k1'' demo_world"

lemma demo_created_eq:
  "is_ok (fst demo_created) \<and> rv_run (projr (fst demo_created)) = ''agent_0x0'' \<and> snd demo_created = demo_queued"
  by code_simp

section \<open>Claimed and executed\<close>

definition demo_job :: durable_job where
  "demo_job =
    \<lparr>dj_id = ''job_0x0'', dj_namespace = NsAgent, dj_type = ''bounded_agent_run'', dj_state = Running, dj_revision = 2,
     dj_fingerprint = demo_sha [], dj_payload = demo_payload_value, dj_artifacts = [],
     dj_progress = \<lparr>pg_stage = None, pg_current = None, pg_total = None\<rparr>, dj_result = None, dj_failure_code = None,
     dj_failure_message = None, dj_created = ''t'', dj_updated = ''t'', dj_started = Some ''t'', dj_finished = None,
     dj_cancel_requested = None,
     dj_steps = [\<lparr>js_id = ''step_0x1'', js_job = ''job_0x0'', js_ordinal = 0, js_name = ''execute_agent'',
       js_state = SPending, js_revision = 1, js_started = None, js_finished = None\<rparr>]\<rparr>"

definition demo_running :: store_world where
  "demo_running =
    \<lparr>sw_db = \<lparr>db_jobs = [demo_row\<lparr>jr_state := Running, jr_revision := 2, jr_started := Some ''t''\<rparr>], db_steps = [demo_step],
       db_events = [demo_event, demo_event\<lparr>er_id := ''event_1x0'', er_seq := 2, er_type := ''state_changed'',
         er_state := Some ''running''\<rparr>]\<rparr>, sw_calls = 2\<rparr>"

definition demo_executors :: "executor list" where
  "demo_executors = [agent_executor (Some demo_service)]"

lemma demo_claim_eq: "claim demo_service demo_executors demo_queued = (Inr (Some demo_job), demo_running)"
  by code_simp

text \<open>The whole run: thirteen calls of the store, and the worker finds nothing to interrupt.\<close>

definition demo_executed :: "(job_error + run_view) \<times> store_world" where
  "demo_executed = execute_claimed demo_service demo_job demo_running"

lemma demo_executed_case:
  "case demo_executed of (out, w) \<Rightarrow>
     is_ok out \<and> rv_state (projr out) = Succeeded \<and> sw_calls w = 14 \<and>
     sw_calls (reconcile demo_service ''job_0x0'' w) = 15"
  by code_simp

end
