(* ===== verification/Service_Demo_Live.thy ===== *)
theory Service_Demo_Live
  imports Service_Demo
begin

text \<open>
  The demonstration service satisfies the hypotheses on a live store, and what its
  recorded run establishes.
\<close>

section \<open>The demonstration service is live\<close>

lemma dec_nat_separated: "dec_nat m @ CHR ''x'' # r = dec_nat n @ CHR ''x'' # r' \<Longrightarrow> m = n"
proof -
  have digits: "list_all is_digit (dec_nat k)" for k
  proof (induction k rule: dec_nat.induct)
    case (1 k)
    then show ?case
      by (subst dec_nat.simps) (auto simp: is_digit_def [abs_def] ord_digit)
  qed
  have not_digit: "\<not> is_digit CHR ''x''" by code_simp
  have tw: "takeWhile is_digit (dec_nat k @ CHR ''x'' # s) = dec_nat k" for k s
    using digits [of k] not_digit by (subst takeWhile_append2) (auto simp: list_all_iff)
  assume "dec_nat m @ CHR ''x'' # r = dec_nat n @ CHR ''x'' # r'"
  then have "dec_nat m = dec_nat n" using tw by metis
  then show "m = n" using digits_value_dec_nat by metis
qed

lemma demo_event_ids: "list_all (\<lambda>n. opaque_id (event_id (demo_job_env n))) [0..<100]"
  by code_simp

lemma demo_own: "own_event (demo_job_env m) i \<Longrightarrow> own_event (demo_job_env n) i \<Longrightarrow> m = n"
  by (auto simp: own_event_def demo_job_env_def dest: dec_nat_separated)

lemma demo_sel [simp]: "sv_job demo_service n = demo_job_env n" "sv_others demo_service n db = db"
  "je_secrets (demo_job_env n) = []" "je_inject (demo_job_env n) phase jid = False" "de_sha demo_service = demo_sha"
  by (simp_all add: demo_service_def demo_job_env_def)

lemma demo_host: "host_ok [] demo_service"
  by (simp add: host_ok_def)

lemma demo_live: "store_live 100 [] demo_service"
  using demo_event_ids demo_own by (auto simp: store_live_def demo_host list_all_iff)

lemma demo_bystanders: "bystanders demo_service jid"
  by (simp add: bystanders_def)

lemma demo_world_inv: "job_inv [] (sw_db demo_world)" "fresh_world 100 demo_service demo_world"
  using reachable_inv [OF reachable_db.start] by (simp_all add: demo_world_def fresh_world_def empty_db_def)

lemma demo_queued_path: "world_path demo_service demo_world demo_queued"
  using serve_follows [of demo_service demo_world "CreateRun demo_request ''k1''"] demo_created_eq
  by (simp add: demo_created_def)

lemma demo_running_path: "world_path demo_service demo_queued demo_running"
  using claimed_row [OF demo_claim_eq] by blast

lemma demo_queued_inv: "job_inv [] (sw_db demo_queued)" "fresh_world 100 demo_service demo_queued"
  using world_path_inv [OF demo_host demo_queued_path] fresh_path [OF demo_live demo_queued_path] demo_world_inv by blast+

lemma demo_running_inv: "job_inv [] (sw_db demo_running)" "fresh_world 100 demo_service demo_running"
  using world_path_inv [OF demo_host demo_running_path] fresh_path [OF demo_live demo_running_path] demo_queued_inv by blast+

section \<open>The recorded run\<close>

lemma demo_executed_facts:
  "rv_state (projr (fst demo_executed)) = Succeeded" "sw_calls (snd demo_executed) = 14"
  "sw_calls (reconcile demo_service ''job_0x0'' (snd demo_executed)) = 15"
  using demo_executed_case by (auto simp: case_prod_beta)

lemma demo_job_sel [simp]: "dj_id demo_job = ''job_0x0''" "dj_namespace demo_job = NsAgent" "dj_type demo_job = agent_job_type"
  "dj_state demo_job = Running"
  by (simp_all add: demo_job_def agent_job_type_def)

lemma demo_running_row: "\<exists>r. find_job (sw_db demo_running) ''job_0x0'' = Some r \<and> jr_state r = Running"
  by (simp add: demo_running_def find_job_def demo_row_def)

lemma demo_allowed: "abort_allowed []" "interrupt_allowed []"
  by code_simp+

end
