(* ===== verification/Job_Properties.thy ===== *)
theory Job_Properties
  imports Job_Success
begin

text \<open>
  The properties of the job repository: histories, refinement of the life cycle,
  finality of terminal jobs, optimistic locking, claims, idempotent creation,
  recovery, cancellation, agent decision events and readability.  The witnesses
  evaluate the model on a small run: one agent job with one step is created and
  claimed, a second job is created and cancelled.
\<close>

section \<open>A concrete run\<close>

definition demo_env :: "string \<Rightarrow> job_env" where
  "demo_env t = \<lparr>je_now = t, je_newid = (\<lambda>n. t @ dec_nat n), je_secrets = [], je_inject = (\<lambda>_ _. False),
     je_sha256 = (\<lambda>s. ''h'' @ s)\<rparr>"

definition demo_fp :: string where
  "demo_fp = replicate 64 (CHR ''a'')"

definition demo_create :: "job_error + (durable_job \<times> job_db)" where
  "demo_create = create_job (demo_env ''t1'') empty_db NsAgent ''agent_run'' ''k1'' demo_fp (PDict []) [] [''plan'']"

definition demo_claim :: "job_error + (durable_job option \<times> job_db)" where
  "demo_claim = claim_next_job (demo_env ''t2'') (snd (projr demo_create)) [(NsAgent, ''agent_run'')]"

definition demo_cancel :: "job_error + (durable_job \<times> job_db)" where
  "demo_cancel = request_cancellation (demo_env ''t3'') (snd (projr demo_create)) ''job_t10'' 1"

lemma is_ok_projr: "is_ok m \<Longrightarrow> m = Inr (fst (projr m), snd (projr m))"
  by (cases m) auto

lemma demo_ok: "is_ok demo_create" "is_ok demo_claim" "is_ok demo_cancel"
  by code_simp+

lemma demo_secrets [simp]: "je_secrets (demo_env t) = []"
  by (simp add: demo_env_def)

lemma demo_create_tx: "job_tx (demo_env ''t1'') empty_db (snd (projr demo_create))"
  using is_ok_projr [OF demo_ok(1)] unfolding demo_create_def by (rule job_tx.create)

lemma demo_reachable:
  "reachable_db [] (snd (projr demo_create))"
  "reachable_db [] (snd (projr demo_claim))"
  "reachable_db [] (snd (projr demo_cancel))"
proof -
  show a: "reachable_db [] (snd (projr demo_create))"
    by (rule reachable_db.tx [OF reachable_db.start _ demo_create_tx]) simp
  have "job_tx (demo_env ''t2'') (snd (projr demo_create)) (snd (projr demo_claim))"
    using is_ok_projr [OF demo_ok(2)] unfolding demo_claim_def by (rule job_tx.claim)
  then show "reachable_db [] (snd (projr demo_claim))" by (rule reachable_db.tx [OF a demo_secrets])
  have "job_tx (demo_env ''t3'') (snd (projr demo_create)) (snd (projr demo_cancel))"
    using is_ok_projr [OF demo_ok(3)] unfolding demo_cancel_def by (rule job_tx.request)
  then show "reachable_db [] (snd (projr demo_cancel))" by (rule reachable_db.tx [OF a demo_secrets])
qed

section \<open>Histories\<close>

text \<open>C1. In every reachable database the event log of a job is a complete and legal history of
  it: its sequence numbers are 1, 2, ..., up to the job's revision, replaying it along the life
  cycle from \<open>created\<close> ends in the job's current state, and the job was started at most once.\<close>

theorem job_log_replays:
  assumes "reachable_db S db" "r \<in> set (db_jobs db)"
  shows "map er_seq (events_of db (jr_id r)) = [1..<Suc (nat (jr_revision r))] \<and>
         replay (events_of db (jr_id r)) = Some (jr_state r) \<and>
         length (filter is_start (events_of db (jr_id r))) \<le> 1"
  using job_inv_row(1) [OF reachable_inv [OF assms(1)] assms(2)]
  by (auto simp: log_inv_def dest: replay_starts)

theorem job_log_replays_witness:
  "\<exists>r. r \<in> set (db_jobs (snd (projr demo_claim))) \<and> jr_state r = Running \<and>
       replay (events_of (snd (projr demo_claim)) (jr_id r)) = Some Running"
proof -
  let ?r = "hd (db_jobs (snd (projr demo_claim)))"
  have "?r \<in> set (db_jobs (snd (projr demo_claim)))" "jr_state ?r = Running" by code_simp+
  with job_log_replays [OF demo_reachable(2), of ?r] show ?thesis by auto
qed

text \<open>C2. Refinement of the life cycle: whatever transaction commits, every job that was there
  still is, with its identity, and the events the transaction appended to its log lead along the
  life cycle from its old state to its new one, one revision per event.\<close>

theorem tx_refines_life_cycle:
  assumes "reachable_db S db" "je_secrets e = S" "job_tx e db db'" "r \<in> set (db_jobs db)"
  shows "\<exists>r' \<in> set (db_jobs db'). same_identity r r' \<and>
     (\<exists>evs. events_of db' (jr_id r) = events_of db (jr_id r) @ evs \<and>
            replay_from (jr_state r) evs = Some (jr_state r') \<and>
            jr_revision r' = jr_revision r + int (length evs))"
  using micro_star_moves [OF job_tx_micro [OF assms(3), unfolded assms(2)] reachable_inv [OF assms(1)] assms(4)]
  unfolding job_moves_def .

lemma demo_claim_tx: "job_tx (demo_env ''t2'') (snd (projr demo_create)) (snd (projr demo_claim))"
  using is_ok_projr [OF demo_ok(2)] unfolding demo_claim_def by (rule job_tx.claim)

theorem tx_refines_life_cycle_witness:
  "\<exists>r' \<in> set (db_jobs (snd (projr demo_claim))).
     same_identity (hd (db_jobs (snd (projr demo_create)))) r'"
proof -
  let ?r = "hd (db_jobs (snd (projr demo_create)))"
  have "?r \<in> set (db_jobs (snd (projr demo_create)))" by code_simp
  from tx_refines_life_cycle [OF demo_reachable(1) demo_secrets demo_claim_tx this] show ?thesis by blast
qed

text \<open>C3. A job in a terminal state is final: no transaction of the repository changes its row,
  its steps or its log.\<close>

theorem terminal_jobs_frozen:
  assumes "reachable_db S db" "je_secrets e = S" "job_tx e db db'"
    and "r \<in> set (db_jobs db)" "terminal_job (jr_state r)"
  shows "r \<in> set (db_jobs db') \<and> events_of db' (jr_id r) = events_of db (jr_id r) \<and>
         steps_of db' (jr_id r) = steps_of db (jr_id r)"
  using micro_star_terminal_frozen [OF job_tx_micro [OF assms(3), unfolded assms(2)] reachable_inv [OF assms(1)] assms(4,5)] .

definition demo_second :: "job_error + (durable_job \<times> job_db)" where
  "demo_second = create_job (demo_env ''t4'') (snd (projr demo_cancel)) NsAgent ''agent_run'' ''k2'' demo_fp
     (PDict []) [] [''plan'']"

lemma demo_second_tx: "job_tx (demo_env ''t4'') (snd (projr demo_cancel)) (snd (projr demo_second))"
proof -
  have "is_ok demo_second" by code_simp
  then show ?thesis
    using is_ok_projr [of demo_second] unfolding demo_second_def by (intro job_tx.create) blast
qed

theorem terminal_jobs_frozen_witness:
  "hd (db_jobs (snd (projr demo_cancel))) \<in> set (db_jobs (snd (projr demo_second)))"
proof -
  have r: "hd (db_jobs (snd (projr demo_cancel))) \<in> set (db_jobs (snd (projr demo_cancel)))"
    "terminal_job (jr_state (hd (db_jobs (snd (projr demo_cancel)))))" by code_simp+
  show ?thesis
    using terminal_jobs_frozen [OF demo_reachable(3) demo_secrets demo_second_tx r] by blast
qed

section \<open>Optimistic locking\<close>

text \<open>The five operations that name the revision they were prepared against, as one write.\<close>

datatype job_cmd =
    CmdTransition job_state "pyval option" "string option" "string option"
  | CmdProgress "string option" "int option" "int option"
  | CmdStep string int step_state
  | CmdRequest
  | CmdAcknowledge "pyval option"

fun run_cmd :: "job_cmd \<Rightarrow> job_env \<Rightarrow> job_db \<Rightarrow> string \<Rightarrow> int \<Rightarrow> job_error + (durable_job \<times> job_db)" where
  "run_cmd (CmdTransition t res fc fm) e db jid n = transition_job e db jid n t res fc fm"
| "run_cmd (CmdProgress stage cur tot) e db jid n = report_progress e db jid n stage cur tot"
| "run_cmd (CmdStep sid m t) e db jid n = transition_step e db jid sid n m t"
| "run_cmd CmdRequest e db jid n = request_cancellation e db jid n"
| "run_cmd (CmdAcknowledge res) e db jid n = acknowledge_cancellation e db jid n res"

definition job_version :: "job_db \<Rightarrow> string \<Rightarrow> int option" where
  "job_version db jid = map_option jr_revision (find_job db jid)"

definition job_write :: "job_cmd \<times> job_env \<Rightarrow> job_db \<Rightarrow> string \<Rightarrow> int \<Rightarrow> job_db option" where
  "job_write ce db jid n =
     (case run_cmd (fst ce) (snd ce) db jid n of Inl _ \<Rightarrow> None | Inr (_, db') \<Rightarrow> Some db')"

lemma committed_find_other:
  assumes "committed db old f g ev db'" "same_identity old (f old)" "jid \<noteq> jr_id old"
  shows "find_job db' jid = find_job db jid"
proof -
  let ?c = "\<lambda>r. jr_id r = jr_id old \<and> jr_revision r = jr_revision old"
  have fid: "jr_id (f old) = jr_id old" using assms(2) by (simp add: same_identity_def)
  have "r = old" if "r \<in> set (db_jobs db)" "?c r" for r
  proof -
    have "r \<in> set (filter ?c (db_jobs db))" using that by simp
    moreover have "filter ?c (db_jobs db) = [old]" using assms(1) unfolding committed_def by blast
    ultimately show ?thesis by simp
  qed
  then have "map (\<lambda>r. if ?c r then f r else r) (db_jobs db) = map (\<lambda>r. if ?c r then f old else r) (db_jobs db)"
    by (auto intro!: map_cong)
  moreover have "db_jobs db' = map (\<lambda>r. if ?c r then f r else r) (db_jobs db)"
    using assms(1) by (simp add: committed_def)
  ultimately have jobs: "db_jobs db' = map (\<lambda>r. if ?c r then f old else r) (db_jobs db)" by (rule trans [rotated])
  have "find (\<lambda>r. jr_id r = jid) (map (\<lambda>r. if ?c r then f old else r) xs) = find (\<lambda>r. jr_id r = jid) xs" for xs
    using assms(3) fid by (induction xs) auto
  then show ?thesis unfolding find_job_def jobs .
qed

lemma run_cmd_shape:
  assumes "run_cmd c e db jid n = Inr (j, db')"
  obtains (same) old where "find_job db jid = Some old" "jr_revision old = n" "db' = db"
  | (moved) old f g ev where "find_job db jid = Some old" "jr_revision old = n"
      "committed db old f g ev db'" "same_identity old (f old)" "jr_revision (f old) = n + 1"
  using assms
proof (cases c)
  case (CmdTransition t res fc fm)
  with assms have "transition_job_in e 0 db jid n t res fc fm = Inr (j, db')"
    by (simp add: transition_job_def bind_ensure_ok)
  then show ?thesis
  proof (cases rule: transition_job_in_effect)
    case (1 old cols ev j0)
    from moved [OF 1(1,2,8)] 1(2) show ?thesis by simp
  qed
next
  case (CmdProgress stage cur tot)
  with assms have "report_progress e db jid n stage cur tot = Inr (j, db')" by simp
  then show ?thesis
  proof (cases rule: report_progress_effect)
    case (1 old ev)
    from moved [OF 1(1,2,5)] 1(2) show ?thesis by simp
  qed
next
  case (CmdStep sid m t)
  with assms have "transition_step e db jid sid n m t = Inr (j, db')" by simp
  then show ?thesis
  proof (cases rule: transition_step_effect)
    case (1 old ev row)
    from moved [OF 1(1,2,11)] 1(2) show ?thesis by simp
  qed
next
  case CmdRequest
  with assms have "request_cancellation e db jid n = Inr (j, db')" by simp
  then show ?thesis
  proof (cases rule: request_cancellation_effect)
    case (unchanged old)
    then show ?thesis by (intro same) auto
  next
    case (requested old ev t)
    from moved [OF requested(1,2,6)] requested(2) show ?thesis by simp
  qed
next
  case (CmdAcknowledge res)
  with assms have "acknowledge_cancellation e db jid n res = Inr (j, db')" by simp
  then show ?thesis
  proof (cases rule: acknowledge_cancellation_effect)
    case (1 old ev col)
    from moved [OF 1(1,2,5)] 1(2) show ?thesis by simp
  qed
qed

lemma job_write_shape:
  assumes "job_write c db jid n = Some db'"
  obtains (same) old where "find_job db jid = Some old" "jr_revision old = n" "db' = db"
  | (moved) old f g ev where "find_job db jid = Some old" "jr_revision old = n"
      "committed db old f g ev db'" "same_identity old (f old)" "jr_revision (f old) = n + 1"
proof -
  obtain j where "run_cmd (fst c) (snd c) db jid n = Inr (j, db')"
    using assms by (auto simp: job_write_def split: sum.splits)
  then show ?thesis
  proof (cases rule: run_cmd_shape)
    case (same old)
    then show ?thesis by (rule that(1))
  next
    case (moved old f g ev)
    then show ?thesis by (rule that(2))
  qed
qed

interpretation jobs: versioned_store job_version job_write
proof
  fix c db jid n db'
  assume w: "job_write c db jid n = Some db'"
  show "job_version db jid = Some n"
    using w by (cases rule: job_write_shape) (auto simp: job_version_def)
  show "job_version db' jid = Some (n + 1)" if "db' \<noteq> db"
    using w
  proof (cases rule: job_write_shape)
    case (moved old f g ev)
    have "jr_id old = jid" using find_job_Some [OF moved(1)] by simp
    with committed_find [OF moved(3,4)] moved(5) show ?thesis by (simp add: job_version_def)
  qed (use that in simp)
  show "job_version db' k = job_version db k" if "k \<noteq> jid" for k
    using w
  proof (cases rule: job_write_shape)
    case (moved old f g ev)
    have "jr_id old = jid" using find_job_Some [OF moved(1)] by simp
    with committed_find_other [OF moved(3,4)] that show ?thesis by (simp add: job_version_def)
  qed simp
qed

text \<open>Every commit a process with the same secrets can add: any of the nine writers of the repository,
  in any number and order.\<close>

definition later_db :: "string list \<Rightarrow> job_db \<Rightarrow> job_db \<Rightarrow> bool" where
  "later_db S = (\<lambda>x y. \<exists>e. je_secrets e = S \<and> job_tx e x y)\<^sup>*\<^sup>*"

lemma later_db_micro: "later_db S db db' \<Longrightarrow> (micro S)\<^sup>*\<^sup>* db db'"
  unfolding later_db_def
proof (induction rule: rtranclp_induct)
  case (step y z)
  then obtain e where "je_secrets e = S" "job_tx e y z" by blast
  with job_tx_micro [of e y z] step.IH show ?case by (auto intro: rtranclp_trans)
qed simp

lemma later_db_tx: "job_tx e db db' \<Longrightarrow> je_secrets e = S \<Longrightarrow> later_db S db db'"
  unfolding later_db_def by (rule r_into_rtranclp) blast

lemma job_write_tx: "job_write c db jid n = Some db' \<Longrightarrow> job_tx (snd c) db db'"
  by (cases "fst c") (auto simp: job_write_def intro: job_tx.intros split: sum.splits)

lemma version_never_falls:
  assumes "(micro S)\<^sup>*\<^sup>* db db'" "job_inv S db" "job_version db jid = Some n"
  shows "\<exists>m \<ge> n. job_version db' jid = Some m"
proof -
  obtain r where r: "find_job db jid = Some r" "jr_revision r = n"
    using assms(3) by (auto simp: job_version_def)
  from micro_star_moves [OF assms(1,2)] find_job_Some [OF r(1)] obtain r' where
    r': "r' \<in> set (db_jobs db')" "job_moves db db' r r'" by blast
  then have "jr_id r' = jid" "n \<le> jr_revision r'"
    using find_job_Some [OF r(1)] r(2) by (auto simp: job_moves_def same_identity_def)
  with job_inv_find [OF micro_star_inv [OF assms(1,2)] r'(1)] show ?thesis by (simp add: job_version_def)
qed

text \<open>C4. No lost update: once a write prepared against revision \<open>n\<close> of a job has changed the tables
  of a reachable database, no later write prepared against revision \<open>n\<close> of that job is accepted,
  whatever transactions of whatever writers on whatever jobs come between, claims, recoveries and
  agent decisions included.\<close>

theorem first_writer_wins:
  assumes "reachable_db S db" "je_secrets (snd c) = S" "job_write c db jid n = Some db1" "db1 \<noteq> db"
    and "later_db S db1 db2"
  shows "job_write d db2 jid n = None"
proof (rule jobs.stale_rejected)
  have "job_inv S db1"
    using reachable_db.tx [OF assms(1,2) job_write_tx [OF assms(3)]] by (rule reachable_inv)
  then obtain m where "m \<ge> n + 1" "job_version db2 jid = Some m"
    using version_never_falls [OF later_db_micro [OF assms(5)] _ jobs.bump [OF assms(3,4)]] by blast
  then show "job_version db2 jid \<noteq> Some n" by simp
qed

theorem first_writer_wins_witness:
  "job_write (CmdAcknowledge None, demo_env ''t9'') (snd (projr demo_second)) ''job_t10'' 1 = None"
proof -
  let ?db = "snd (projr demo_create)" and ?db1 = "snd (projr demo_cancel)"
  have d: "demo_cancel = Inr (fst (projr demo_cancel), ?db1)"
    by (rule is_ok_projr [OF demo_ok(3)])
  have w: "job_write (CmdRequest, demo_env ''t3'') ?db ''job_t10'' 1 = Some ?db1"
    unfolding job_write_def fst_conv snd_conv run_cmd.simps demo_cancel_def [symmetric]
    by (subst d) (simp only: sum.case prod.case)
  have "map jr_state (db_jobs ?db1) \<noteq> map jr_state (db_jobs ?db)" by code_simp
  then have ne: "?db1 \<noteq> ?db" by metis
  have sec: "je_secrets (snd (CmdRequest, demo_env ''t3'')) = []" by simp
  show ?thesis
    by (rule first_writer_wins [OF demo_reachable(1) sec w ne later_db_tx [OF demo_second_tx demo_secrets]])
qed

text \<open>C5. Stale writers are told so: an operation that reaches the revision test with a revision
  other than the stored one fails with \<open>JobConflictError\<close>, and being a failed transaction it
  changes nothing.\<close>

theorem stale_update_conflicts:
  assumes "get_job e db jid = Inr j" "1 \<le> n" "dj_revision j \<noteq> n"
    and "t \<notin> {Cancelling, Cancelled}" "is_ok (validate_progress st c m)" "opaque_id sid"
  shows "transition_job e db jid n t res fc fm = Inl JobConflict \<and>
         report_progress e db jid n st c m = Inl JobConflict \<and>
         transition_step e db jid sid n k ts = Inl JobConflict \<and>
         request_cancellation e db jid n = Inl JobConflict \<and>
         acknowledge_cancellation e db jid n res = Inl JobConflict"
proof -
  have j: "job_in e db jid = Inr j" using assms(1) by (simp add: get_job_def)
  have a: "assert_revision (dj_revision j) n = Inl JobConflict"
    using assms(2,3) by (simp add: assert_revision_def)
  obtain p where "validate_progress st c m = Inr p" using assms(5) by (auto simp: is_ok_iff)
  with j a assms(4,6) show ?thesis
    by (simp add: transition_job_def transition_job_in_def report_progress_def transition_step_def
        request_cancellation_def acknowledge_cancellation_def validate_opaque_def)
qed

theorem stale_update_conflicts_witness:
  "request_cancellation (demo_env ''t5'') (snd (projr demo_claim)) ''job_t10'' 1 = Inl JobConflict"
proof -
  let ?g = "get_job (demo_env ''t5'') (snd (projr demo_claim)) ''job_t10''"
  have "is_ok ?g" "dj_revision (projr ?g) \<noteq> 1" "is_ok (validate_progress None None None)" "opaque_id ''s''"
    by code_simp+
  then obtain j where "?g = Inr j" "dj_revision j \<noteq> 1" by (cases ?g) auto
  from stale_update_conflicts [OF this(1) _ this(2), of Running None None None "''s''"] show ?thesis
    using \<open>is_ok (validate_progress None None None)\<close> \<open>opaque_id ''s''\<close> by simp
qed

section \<open>States and steps\<close>

text \<open>C6. The states of a job and of its steps agree in every reachable database: a queued job has
  only pending steps, a succeeded job has only succeeded or skipped steps and a stored JSON object
  as its result, a failed or interrupted job has a failure code and message, no step of a terminal
  job is still running, no step of a cancelled job is pending, and the ordinals are 0, 1, 2, ...\<close>

theorem job_steps_agree:
  assumes "reachable_db S db" "r \<in> set (db_jobs db)"
  shows "map sr_ordinal (steps_of db (jr_id r)) = [0..<length (steps_of db (jr_id r))] \<and>
    (\<forall>s \<in> set (steps_of db (jr_id r)).
       (jr_state r = Queued \<longrightarrow> sr_state s = SPending) \<and>
       (jr_state r = Succeeded \<longrightarrow> sr_state s \<in> {SSucceeded, SSkipped}) \<and>
       (jr_state r = Cancelled \<longrightarrow> sr_state s \<noteq> SPending) \<and>
       (terminal_job (jr_state r) \<longrightarrow> sr_state s \<noteq> SRunning)) \<and>
    (jr_state r = Succeeded \<longrightarrow> (\<exists>kvs. jr_result r = Json (PDict kvs))) \<and>
    (jr_state r \<in> {Failed, Interrupted} \<longrightarrow> jr_failure_code r \<noteq> None \<and> jr_failure_message r \<noteq> None)"
proof -
  note inv = job_inv_row [OF reachable_inv [OF assms(1)] assms(2)]
  obtain j where j: "job_from_row
     \<lparr>je_now = [], je_newid = \<lambda>_. [], je_secrets = S, je_inject = \<lambda>_ _. False, je_sha256 = \<lambda>_. []\<rparr> db r = Inr j"
    using inv(3) by (auto simp: reads_def is_ok_iff)
  have "\<exists>kvs. jr_result r = Json (PDict kvs)" if "jr_state r = Succeeded"
    using job_from_row_ok(14,17) [OF j] that
    by (auto simp: decode_result_def bindE_ok dest!: decode_object_ok split: json_col.splits)
  with inv(2) job_from_row_ok(15) [OF j] show ?thesis by (auto simp: steps_inv_def)
qed

theorem job_steps_agree_witness:
  "list_all (\<lambda>s. sr_state s = SCancelled) (steps_of (snd (projr demo_cancel)) ''job_t10'')"
proof -
  let ?db = "snd (projr demo_cancel)"
  let ?r = "hd (db_jobs ?db)"
  have r: "?r \<in> set (db_jobs ?db)" "jr_id ?r = ''job_t10''" "jr_state ?r = Cancelled"
    "list_all (\<lambda>s. sr_state s \<in> {SPending, SCancelled}) (steps_of ?db ''job_t10'')" by code_simp+
  with job_steps_agree [OF demo_reachable(3) r(1)] show ?thesis by (auto simp: list_all_iff)
qed

lemma inv_get_job:
  assumes "job_inv S db" "je_secrets e = S" "r \<in> set (db_jobs db)"
  shows "\<exists>j. job_in e db (jr_id r) = Inr j \<and> dj_id j = jr_id r \<and> dj_state j = jr_state r \<and>
             dj_revision j = jr_revision r \<and> dj_namespace j = jr_namespace r"
proof -
  have "is_ok (job_from_row e db r)"
    using job_inv_row(3) [OF assms(1,3)] assms(2) by (simp add: reads_iff)
  then obtain j where j: "job_from_row e db r = Inr j" by (auto simp: is_ok_iff)
  have "opaque_id (jr_id r)"
    using j unfolding job_from_row_def by (auto elim!: bindE_okE)
  with j job_inv_find [OF assms(1,3)] job_from_row_ok(1,2,4,5) [OF j] show ?thesis
    by (simp add: job_in_def validate_opaque_def)
qed

text \<open>C7. Nothing the repository writes is unreadable to it: in every reachable database
  \<open>get_job\<close> returns each stored job, never \<open>JobDataError\<close>.\<close>

theorem jobs_always_readable:
  assumes "reachable_db S db" "je_secrets e = S" "r \<in> set (db_jobs db)"
  shows "\<exists>j. get_job e db (jr_id r) = Inr j \<and> dj_id j = jr_id r \<and> dj_state j = jr_state r \<and>
             dj_revision j = jr_revision r"
  using inv_get_job [OF reachable_inv [OF assms(1)] assms(2,3)] by (auto simp: get_job_def)

theorem jobs_always_readable_witness:
  "\<exists>j. get_job (demo_env ''t9'') (snd (projr demo_claim)) ''job_t10'' = Inr j \<and> dj_state j = Running"
proof -
  let ?r = "hd (db_jobs (snd (projr demo_claim)))"
  have "?r \<in> set (db_jobs (snd (projr demo_claim)))" "jr_id ?r = ''job_t10''" "jr_state ?r = Running" by code_simp+
  with jobs_always_readable [OF demo_reachable(2) demo_secrets, of ?r] show ?thesis by auto
qed

section \<open>Claims\<close>

definition claimable :: "(namespace \<times> string) list \<Rightarrow> job_row \<Rightarrow> bool" where
  "claimable eligible r \<longleftrightarrow> jr_state r = Queued \<and> (jr_namespace r, jr_type r) \<in> set eligible"

abbreviation age :: "job_row \<Rightarrow> string \<times> string" where
  "age r \<equiv> (jr_created r, jr_id r)"

lemma oldest_queued_Some:
  assumes "oldest_queued db nt = Some r"
  shows "r \<in> set (db_jobs db)" "jr_namespace r = fst nt" "jr_type r = snd nt" "jr_state r = Queued"
    and "\<And>q. q \<in> set (db_jobs db) \<Longrightarrow> jr_namespace q = fst nt \<Longrightarrow> jr_type q = snd nt \<Longrightarrow>
           jr_state q = Queued \<Longrightarrow> age r \<le> age q"
proof -
  let ?sel = "filter (\<lambda>r. jr_namespace r = fst nt \<and> jr_state r = Queued \<and> jr_type r = snd nt) (db_jobs db)"
  obtain rs where rs: "sort_key age ?sel = r # rs"
    using assms by (auto simp: oldest_queued_def split: list.splits)
  then have "r \<in> set ?sel" by (rule sort_key_Cons_in)
  then show "r \<in> set (db_jobs db)" "jr_namespace r = fst nt" "jr_type r = snd nt" "jr_state r = Queued"
    by auto
  show "age r \<le> age q" if "q \<in> set (db_jobs db)" "jr_namespace q = fst nt" "jr_type q = snd nt" "jr_state q = Queued" for q
    by (rule sort_key_hd_le [OF rs]) (use that in simp)
qed

lemma oldest_queued_None:
  assumes "oldest_queued db nt = None" "q \<in> set (db_jobs db)"
  shows "\<not> (jr_namespace q = fst nt \<and> jr_state q = Queued \<and> jr_type q = snd nt)"
proof -
  have "sort_key age (filter (\<lambda>r. jr_namespace r = fst nt \<and> jr_state r = Queued \<and> jr_type r = snd nt) (db_jobs db)) = []"
    using assms(1) by (auto simp: oldest_queued_def split: list.splits)
  with assms(2) show ?thesis by (auto simp: filter_empty_conv)
qed

lemma claim_candidates_cover:
  assumes "q \<in> set (db_jobs db)" "claimable eligible q"
  shows "\<exists>c \<in> set (claim_candidates db eligible). age c \<le> age q"
proof -
  let ?nt = "(jr_namespace q, jr_type q)"
  obtain c where c: "oldest_queued db ?nt = Some c"
    using oldest_queued_None [OF _ assms(1), of ?nt] assms(2) by (cases "oldest_queued db ?nt") (auto simp: claimable_def)
  have "age c \<le> age q" using oldest_queued_Some(5) [OF c assms(1)] assms(2) by (simp add: claimable_def)
  moreover have "c \<in> set (claim_candidates db eligible)"
    using c assms(2) by (force simp: claim_candidates_def claimable_def in_map_filter)
  ultimately show ?thesis by blast
qed

lemma claim_candidates_claimable:
  "c \<in> set (claim_candidates db eligible) \<Longrightarrow> c \<in> set (db_jobs db) \<and> claimable eligible c"
  using oldest_queued_Some by (fastforce simp: claim_candidates_def claimable_def in_map_filter)

text \<open>C8. A claim takes the oldest: when \<open>claim_next_job\<close> returns a job, that job was the one with
  the least creation time (then identifier) among all queued jobs whose namespace and type the
  worker registered, and it is now running at the next revision; when it returns nothing there was
  no such job and nothing changed.\<close>

theorem claim_takes_oldest:
  assumes "reachable_db S db" "claim_next_job e db eligible = Inr (oj, db')"
  shows "case oj of
      None \<Rightarrow> db' = db \<and> (\<forall>q \<in> set (db_jobs db). \<not> claimable eligible q)
    | Some j \<Rightarrow> \<exists>r \<in> set (db_jobs db). claimable eligible r \<and> dj_id j = jr_id r \<and>
        dj_state j = Running \<and> dj_revision j = jr_revision r + 1 \<and>
        (\<forall>q \<in> set (db_jobs db). claimable eligible q \<longrightarrow> age r \<le> age q)"
proof (cases "sort_key age (claim_candidates db eligible)")
  case Nil
  then have "claim_candidates db eligible = []" by simp
  with claim_candidates_cover have "\<forall>q \<in> set (db_jobs db). \<not> claimable eligible q" by fastforce
  moreover have "oj = None" "db' = db"
    using assms(2) Nil by (auto simp: claim_next_job_def bindE_ok)
  ultimately show ?thesis by simp
next
  case (Cons r rs)
  then have "r \<in> set (claim_candidates db eligible)" by (rule sort_key_Cons_in)
  then have r: "r \<in> set (db_jobs db)" "claimable eligible r" using claim_candidates_claimable by blast+
  have least: "age r \<le> age q" if "q \<in> set (db_jobs db)" "claimable eligible q" for q
  proof -
    from that obtain c where "c \<in> set (claim_candidates db eligible)" "age c \<le> age q"
      using claim_candidates_cover by metis
    with sort_key_hd_le [OF Cons] show ?thesis by (meson order_trans)
  qed
  from assms(2) Cons obtain j where j: "oj = Some j"
    "transition_job_in e 0 db (jr_id r) (jr_revision r) Running None None None = Inr (j, db')"
    by (auto simp: claim_next_job_def bindE_ok)
  obtain old cols ev where o: "find_job db (jr_id r) = Some old" "jr_revision old = jr_revision r"
    "committed db old (transition_row e Running (Some (je_now e)) cols) (transition_steps e (jr_id r) Running) ev db'"
    "job_in e db' (jr_id r) = Inr j"
    using j(2) by (cases rule: transition_job_in_effect) auto
  have "jr_id old = jr_id r" using find_job_Some [OF o(1)] by simp
  with committed_find [OF o(3)]
  have f: "find_job db' (jr_id r) = Some (transition_row e Running (Some (je_now e)) cols old)" by simp
  obtain r' where "find_job db' (jr_id r) = Some r'" "dj_id j = jr_id r" "dj_state j = jr_state r'"
    "dj_revision j = jr_revision r'"
    using job_in_row [OF o(4)] by metis
  with f o(2) have "dj_id j = jr_id r" "dj_state j = Running" "dj_revision j = jr_revision r + 1" by simp_all
  with r least j(1) show ?thesis by auto
qed

theorem claim_takes_oldest_witness:
  "\<exists>r \<in> set (db_jobs (snd (projr demo_create))). claimable [(NsAgent, ''agent_run'')] r"
proof -
  have "fst (projr demo_claim) \<noteq> None" by code_simp
  then obtain j where j: "fst (projr demo_claim) = Some j" by auto
  have "claim_next_job (demo_env ''t2'') (snd (projr demo_create)) [(NsAgent, ''agent_run'')] =
      Inr (fst (projr demo_claim), snd (projr demo_claim))"
    using is_ok_projr [OF demo_ok(2)] unfolding demo_claim_def .
  from claim_takes_oldest [OF demo_reachable(1) this] j show ?thesis by auto
qed

section \<open>Idempotent creation\<close>

lemma find_job_mem: "job_inv S db \<Longrightarrow> find_job db jid = Some r \<Longrightarrow> reads S db r"
  using find_job_Some job_inv_row(3) by blast

lemma find_snoc: "find P xs = None \<Longrightarrow> find P (xs @ [x]) = (if P x then Some x else None)"
  by (induction xs) (auto split: if_splits)

lemma decode_artifacts_ok:
  assumes "decode_artifacts (Json (PList (map PStr xs))) = Inr ys"
  shows "ys = xs"
proof -
  have "those (map str_of (map PStr xs)) = Some xs" by (simp add: those_Some_iff)
  with assms show ?thesis by (simp add: decode_artifacts_def bindE_ok)
qed

lemma new_steps_sorted:
  assumes "new_steps jid 0 names rows"
  shows "sort_key (\<lambda>r. (sr_ordinal r, sr_id r)) rows = rows"
proof (rule sort_key_id_if_sorted)
  have ord: "map sr_ordinal rows = [0..<length rows]"
    using assms by (auto simp: new_steps_def)
  have "sr_ordinal (rows ! i) = i" if "i < length rows" for i
    using arg_cong [OF ord, of "\<lambda>xs. xs ! i"] that by simp
  then show "sorted (map (\<lambda>r. (sr_ordinal r, sr_id r)) rows)"
    by (auto simp: sorted_iff_nth_mono less_eq_prod_def)
      (metis le_neq_implies_less order_less_le_trans order_refl)
qed

text \<open>The job that a creation returned answers every later request with the same key and content.\<close>

lemma created_same_request:
  assumes "job_inv (je_secrets e) db"
    and "validate_create e jtype key fp payload artifacts steps = Inr w"
    and "created db (new_job_row e jid ns jtype (je_sha256 e key) fp w artifacts) steps rows ev db'"
    and "job_in e db' jid = Inr j"
  shows "find_key db' ns (je_sha256 e key) = Some (new_job_row e jid ns jtype (je_sha256 e key) fp w artifacts)"
    and "job_from_row e db' (new_job_row e jid ns jtype (je_sha256 e key) fp w artifacts) = Inr j"
    and "same_request j jtype fp w artifacts steps"
proof -
  let ?r = "new_job_row e jid ns jtype (je_sha256 e key) fp w artifacts"
  have sel: "jr_id ?r = jid" "jr_namespace ?r = ns" "jr_key_hash ?r = Some (je_sha256 e key)" "jr_type ?r = jtype"
    "jr_fingerprint ?r = fp" "jr_payload ?r = Json w" "jr_artifacts ?r = Json (PList (map PStr artifacts))"
    by (simp_all add: new_job_row_def)
  have tabs: "db_jobs db' = db_jobs db @ [?r]" "db_steps db' = db_steps db @ rows" "jid \<notin> jr_id ` set (db_jobs db)"
    "new_steps jid 0 steps rows"
    using assms(3) by (auto simp: created_def sel)
  have "\<forall>x \<in> set (db_jobs db). \<not> (jr_namespace x = ns \<and> jr_key_hash x = Some (je_sha256 e key))"
    using assms(3) by (auto simp: created_def sel)
  then have "find (\<lambda>r. jr_namespace r = ns \<and> jr_key_hash r = Some (je_sha256 e key)) (db_jobs db) = None"
    by (auto simp: find_None_iff)
  from find_snoc [OF this]
  show "find_key db' ns (je_sha256 e key) = Some ?r"
    by (simp add: find_key_def tabs(1) sel)
  obtain r where r: "find_job db' jid = Some r" "job_from_row e db' r = Inr j"
    using job_in_ok [OF assms(4)] by blast
  have "r = ?r" using find_job_Some [OF r(1)] tabs(1,3) by auto
  then show j: "job_from_row e db' ?r = Inr j" using r(2) by simp
  have sub: "sr_job ` set (db_steps db) \<subseteq> jr_id ` set (db_jobs db)" using assms(1) by (simp add: job_inv_def)
  have "steps_of db jid = []" using sub tabs(3) unfolding steps_of_def filter_empty_conv by (metis image_eqI subsetD)
  moreover have "filter (\<lambda>s. sr_job s = jid) rows = rows"
    using tabs(4) by (simp add: new_steps_def filter_id_conv)
  ultimately have so: "steps_of db' jid = rows" by (simp add: steps_of_def tabs(2))
  have "map js_name (dj_steps j) = map sr_name (sort_key (\<lambda>r. (sr_ordinal r, sr_id r)) (steps_of db' jid))"
    using steps_in_states(2) job_from_row_ok(12) [OF j] by (simp add: sel)
  then have names: "map js_name (dj_steps j) = steps"
    using new_steps_sorted [OF tabs(4)] tabs(4) by (simp add: so new_steps_def)
  have "Json w = Json (dj_payload j)" using job_from_row_ok(9) [OF j] by (simp add: sel)
  moreover have "canon w = Some w"
    using assms(2) canonical_object_ok canon_idem unfolding validate_create_def by (elim bindE_okE) blast
  moreover have "dj_artifacts j = artifacts"
    using decode_artifacts_ok job_from_row_ok(16) [OF j] by (simp add: sel)
  ultimately show "same_request j jtype fp w artifacts steps"
    using job_from_row_ok(3,6) [OF j] names by (simp add: same_request_def new_job_row_def)
qed

lemma validate_create_env:
  "je_secrets e' = je_secrets e \<Longrightarrow>
     validate_create e' jtype key fp payload artifacts steps = validate_create e jtype key fp payload artifacts steps"
  by (simp add: validate_create_def)

text \<open>C9. Creation is idempotent: after \<open>create_job\<close> has returned a job, the same request with the
  same idempotency key returns the same job again and writes nothing, at any later clock and with
  any identifier factory.\<close>

theorem create_is_idempotent:
  assumes "reachable_db (je_secrets e) db"
    and "create_job e db ns jtype key fp payload artifacts steps = Inr (j, db')"
    and "je_secrets e' = je_secrets e" "je_sha256 e' = je_sha256 e"
  shows "create_job e' db' ns jtype key fp payload artifacts steps = Inr (j, db')"
  using assms(2)
proof (cases rule: create_job_effect)
  case (stored r w)
  then show ?thesis
    using job_from_row_env [of e' e] validate_create_env [of e' e] assms(3,4) by (simp add: create_job_def)
next
  case (fresh jid w rows ev)
  note c = created_same_request [OF reachable_inv [OF assms(1)] fresh(1,3,4)]
  show ?thesis
    using fresh(1) c job_from_row_env [of e' e] validate_create_env [of e' e] assms(3,4)
    by (simp add: create_job_def)
qed

theorem create_is_idempotent_witness:
  "create_job (demo_env ''t7'') (snd (projr demo_create)) NsAgent ''agent_run'' ''k1'' demo_fp (PDict []) [] [''plan'']
     = Inr (fst (projr demo_create), snd (projr demo_create))"
proof -
  have "create_job (demo_env ''t1'') empty_db NsAgent ''agent_run'' ''k1'' demo_fp (PDict []) [] [''plan''] =
      Inr (fst (projr demo_create), snd (projr demo_create))"
    using is_ok_projr [OF demo_ok(1)] unfolding demo_create_def .
  from create_is_idempotent [OF _ this, of "demo_env ''t7''"] reachable_db.start show ?thesis
    by (simp add: demo_env_def)
qed

section \<open>Recovery\<close>







section \<open>Cancellation\<close>

text \<open>C11. What a cancellation request that names the current revision does, by the state it finds: a
  queued job is cancelled at once and its pending steps with it, a running job becomes cancelling and
  its steps go on, either one revision further; a job that is already cancelling or cancelled is
  returned as it is with nothing written; and a job that has otherwise ended refuses the request as an
  illegal transition.  The first two need the write to go through: the event identifier is new and
  no fault is injected.\<close>

theorem cancellation_request_outcome:
  assumes "reachable_db S db" "je_secrets e = S" "writable e db" "get_job e db jid = Inr j0"
  shows "case dj_state j0 of
      Queued \<Rightarrow> \<exists>j db'. request_cancellation e db jid (dj_revision j0) = Inr (j, db') \<and>
        get_job e db' jid = Inr j \<and> dj_state j = Cancelled \<and> dj_revision j = dj_revision j0 + 1 \<and>
        steps_of db' jid = map (\<lambda>s. if sr_state s = SPending then stop_step (je_now e) SCancelled s else s) (steps_of db jid)
    | Running \<Rightarrow> \<exists>j db'. request_cancellation e db jid (dj_revision j0) = Inr (j, db') \<and>
        get_job e db' jid = Inr j \<and> dj_state j = Cancelling \<and> dj_revision j = dj_revision j0 + 1 \<and>
        steps_of db' jid = steps_of db jid
    | Cancelling \<Rightarrow> request_cancellation e db jid (dj_revision j0) = Inr (j0, db)
    | Cancelled \<Rightarrow> request_cancellation e db jid (dj_revision j0) = Inr (j0, db)
    | _ \<Rightarrow> request_cancellation e db jid (dj_revision j0) = Inl JobTransition"
proof (cases "dj_state j0 \<in> {Queued, Running}")
  case False
  have j0: "job_in e db jid = Inr j0" using assms(4) by (simp add: get_job_def)
  then have "1 \<le> dj_revision j0" using job_in_row [OF j0] by metis
  with False j0 show ?thesis
    by (cases "dj_state j0") (simp_all add: request_cancellation_def assert_revision_def)
next
  case True
  have j0: "job_in e db jid = Inr j0" using assms(4) by (simp add: get_job_def)
  obtain r where r: "r \<in> set (db_jobs db)" "find_job db jid = Some r" "jr_id r = jid" "dj_state j0 = jr_state r"
      "dj_revision j0 = jr_revision r"
    using job_in_row [OF j0] by metis
  obtain j db' where rc: "request_cancellation e db jid (dj_revision j0) = Inr (j, db')"
    using request_succeeds [OF reachable_inv [OF assms(1)] assms(2) r(1) assms(3)] True r by auto
  from rc show ?thesis
  proof (cases rule: request_cancellation_effect)
    case (unchanged old)
    then show ?thesis using True r by auto
  next
    case (requested old ev t)
    have old: "old = r" "jr_id old = jid" using requested(1) r by simp_all
    have "find_job db' jid = Some (request_row e t r)"
      using committed_find [OF requested(6)] old by simp
    then have j: "dj_state j = t" "dj_revision j = dj_revision j0 + 1"
      using job_in_row [OF requested(10)] r(5) by auto
    let ?h = "\<lambda>s. if t = Cancelled \<and> sr_job s = jid \<and> sr_state s = SPending
            then stop_step (je_now e) SCancelled s else s"
    have "sr_job (?h s) = sr_job s" for s by (simp add: stop_step_def)
    then have "filter (\<lambda>s. sr_job s = jid) (map ?h (db_steps db)) = map ?h (filter (\<lambda>s. sr_job s = jid) (db_steps db))"
      by (simp only: filter_map o_def)
    moreover have "db_steps db' = map ?h (db_steps db)" using requested(6) by (simp add: committed_def)
    ultimately have "steps_of db' jid = map ?h (steps_of db jid)" by (simp only: steps_of_def)
    also have "\<dots> = map (\<lambda>s. if t = Cancelled \<and> sr_state s = SPending
            then stop_step (je_now e) SCancelled s else s) (steps_of db jid)"
      by (rule map_cong) (auto simp: steps_of_def)
    finally have "steps_of db' jid = map (\<lambda>s. if t = Cancelled \<and> sr_state s = SPending
            then stop_step (je_now e) SCancelled s else s) (steps_of db jid)" .
    with rc j requested(5,10) True old r(4) show ?thesis
      by (auto simp: get_job_def cong: map_cong)
  qed
qed

lemma demo_writable: "writable (demo_env ''t8'') (snd (projr demo_create))"
  "writable (demo_env ''t8'') (snd (projr demo_claim))" "writable (demo_env ''t8'') (snd (projr demo_cancel))"
proof -
  have "opaque_id (event_id (demo_env ''t8''))" by code_simp
  moreover have "event_id (demo_env ''t8'') \<notin> set (map er_id (db_events (snd (projr demo_create))))"
    "event_id (demo_env ''t8'') \<notin> set (map er_id (db_events (snd (projr demo_claim))))"
    "event_id (demo_env ''t8'') \<notin> set (map er_id (db_events (snd (projr demo_cancel))))" by code_simp+
  ultimately show "writable (demo_env ''t8'') (snd (projr demo_create))"
    "writable (demo_env ''t8'') (snd (projr demo_claim))" "writable (demo_env ''t8'') (snd (projr demo_cancel))"
    by (simp_all add: writable_def demo_env_def)
qed

theorem cancellation_request_outcome_witness:
  "(\<exists>j db'. request_cancellation (demo_env ''t8'') (snd (projr demo_create)) ''job_t10'' 1 = Inr (j, db') \<and>
      dj_state j = Cancelled) \<and>
   (\<exists>j db'. request_cancellation (demo_env ''t8'') (snd (projr demo_claim)) ''job_t10'' 2 = Inr (j, db') \<and>
      dj_state j = Cancelling) \<and>
   (\<exists>j. request_cancellation (demo_env ''t8'') (snd (projr demo_cancel)) ''job_t10'' 2 =
      Inr (j, snd (projr demo_cancel)))"
proof -
  let ?g = "\<lambda>db. get_job (demo_env ''t8'') db ''job_t10''"
  let ?a = "?g (snd (projr demo_create))" and ?b = "?g (snd (projr demo_claim))" and ?c = "?g (snd (projr demo_cancel))"
  have "is_ok ?a" "dj_revision (projr ?a) = 1" "dj_state (projr ?a) = Queued" by code_simp+
  then obtain a where a: "?a = Inr a" "dj_revision a = 1" "dj_state a = Queued" by (cases ?a) auto
  have "is_ok ?b" "dj_revision (projr ?b) = 2" "dj_state (projr ?b) = Running" by code_simp+
  then obtain b where b: "?b = Inr b" "dj_revision b = 2" "dj_state b = Running" by (cases ?b) auto
  have "is_ok ?c" "dj_revision (projr ?c) = 2" "dj_state (projr ?c) = Cancelled" by code_simp+
  then obtain c where c: "?c = Inr c" "dj_revision c = 2" "dj_state c = Cancelled" by (cases ?c) auto
  from cancellation_request_outcome [OF demo_reachable(1) demo_secrets demo_writable(1) a(1)] a(2,3)
    cancellation_request_outcome [OF demo_reachable(2) demo_secrets demo_writable(2) b(1)] b(2,3)
    cancellation_request_outcome [OF demo_reachable(3) demo_secrets demo_writable(3) c(1)] c(2,3)
  show ?thesis by auto
qed

section \<open>Agent decision events\<close>

lemma find_filtered: "find (\<lambda>x. P x \<and> Q x) xs = find Q (filter P xs)"
  by (induction xs) auto

lemma find_append_Some: "find P xs = Some x \<Longrightarrow> find P (xs @ ys) = Some x"
  by (induction xs) auto

text \<open>A stored decision is found again in every later database.\<close>

lemma decision_stays:
  assumes "(micro S)\<^sup>*\<^sup>* db db'" "job_inv S db" "r \<in> set (db_jobs db)"
    and "find (\<lambda>x. er_job x = jr_id r \<and> er_agent_key x = k) (db_events db) = Some ev"
  shows "find (\<lambda>x. er_job x = jr_id r \<and> er_agent_key x = k) (db_events db') = Some ev \<and>
    (\<exists>r' \<in> set (db_jobs db'). jr_id r' = jr_id r \<and> jr_namespace r' = jr_namespace r)"
proof -
  obtain r' where r': "r' \<in> set (db_jobs db')" "job_moves db db' r r'"
    using micro_star_moves [OF assms(1-3)] by blast
  then obtain evs where evs: "events_of db' (jr_id r) = events_of db (jr_id r) @ evs" by (auto simp: job_moves_def)
  have "find (\<lambda>x. er_agent_key x = k) (events_of db (jr_id r)) = Some ev"
    using assms(4) unfolding find_filtered events_of_def .
  then have "find (\<lambda>x. er_agent_key x = k) (events_of db' (jr_id r)) = Some ev"
    unfolding evs by (rule find_append_Some)
  with r' show ?thesis unfolding find_filtered by (auto simp: events_of_def job_moves_def same_identity_def)
qed

text \<open>What a successful append leaves in the table: the job, its decision and the payload it carries.\<close>

lemma appended_is_stored:
  assumes "append_agent_decision_event e db jid key payload m ms = Inr (v, db')"
  shows "(\<exists>r \<in> set (db_jobs db'). jr_id r = jid \<and> jr_namespace r = NsAgent) \<and>
    (\<exists>i w old. validate_agent_event e key payload m ms = Inr (i, w) \<and>
      find (\<lambda>x. er_job x = jid \<and> er_agent_key x = Some key) (db_events db') = Some old \<and>
      er_agent_payload old = Json w \<and> agent_event_from_row e old = Inr v)"
  using assms
proof (cases rule: append_agent_decision_event_effect)
  case (replayed i w old)
  obtain j0 where j0: "job_in e db jid = Inr j0" "dj_namespace j0 = NsAgent"
    using assms unfolding append_agent_decision_event_def by (elim bindE_okE) (simp only: ensure_ok)
  have "find (\<lambda>r. er_job r = jid \<and> er_agent_key r = Some key) (db_events db) \<noteq> None"
    using replayed(3-5) by (auto simp: find_None_iff)
  then obtain o2 where o2: "find (\<lambda>r. er_job r = jid \<and> er_agent_key r = Some key) (db_events db) = Some o2" by auto
  have "er_agent_payload o2 = Json w \<and> agent_event_from_row e o2 = Inr v"
    using assms o2 replayed(1) j0 unfolding append_agent_decision_event_def by (auto simp: bindE_ok)
  moreover have "\<exists>r \<in> set (db_jobs db'). jr_id r = jid \<and> jr_namespace r = NsAgent"
    using replayed(2) job_in_row [OF j0(1)] j0(2) by metis
  ultimately show ?thesis using o2 replayed(1,2) by auto
next
  case (appended i w old ev)
  have jid: "jr_id old = jid" using find_job_Some [OF appended(4)] by simp
  have "find_job db' (jr_id old) = Some (decision_row e m ms old)"
    by (rule committed_find [OF appended(7)]) simp
  then have row: "\<exists>r \<in> set (db_jobs db'). jr_id r = jid \<and> jr_namespace r = NsAgent"
    using jid appended(5) find_job_Some by (intro bexI [of _ "decision_row e m ms old"]) (auto simp: decision_row_def)
  have none: "find (\<lambda>r. er_job r = jid \<and> er_agent_key r = Some key) (db_events db) = None"
    using appended(12) by (auto simp: find_None_iff)
  have "db_events db' = db_events db @ [ev]" "er_job ev = jid"
    using appended(7) jid by (auto simp: committed_def)
  then show ?thesis using row appended(1,10,11,14) find_snoc [OF none, of ev] by auto
qed

text \<open>C12. The decisions of an agent job are journalled in order and at most once: in every reachable
  database the decision keys in the log of every job are \<open>decision_1\<close>, \<open>decision_2\<close>, ... without gap
  or repetition, at most twenty of them; and once a decision has been appended, appending it again
  with the same payload, at any later time and whatever transactions came between, returns the stored
  event and writes nothing.\<close>

theorem decisions_journalled_once:
  assumes "reachable_db S db"
  shows "(\<forall>r \<in> set (db_jobs db). \<exists>n \<le> max_agent_decision_events.
            filter (\<lambda>k. k \<noteq> None) (map er_agent_key (events_of db (jr_id r))) =
            map (\<lambda>i. Some (decision_key (int i))) [1..<Suc n]) \<and>
         (append_agent_decision_event e db jid key payload m ms = Inr (v, db1) \<and> je_secrets e = S \<and>
          later_db S db1 db2 \<and> je_secrets e' = S \<longrightarrow>
            append_agent_decision_event e' db2 jid key payload m ms = Inr (v, db2))"
proof (intro conjI ballI impI)
  fix r assume "r \<in> set (db_jobs db)"
  then have "log_inv r (events_of db (jr_id r))" by (rule job_inv_row(1) [OF reachable_inv [OF assms]])
  then show "\<exists>n \<le> max_agent_decision_events. filter (\<lambda>k. k \<noteq> None) (map er_agent_key (events_of db (jr_id r))) =
      map (\<lambda>i. Some (decision_key (int i))) [1..<Suc n]"
    unfolding log_inv_def Let_def by blast
next
  assume a: "append_agent_decision_event e db jid key payload m ms = Inr (v, db1) \<and> je_secrets e = S \<and>
    later_db S db1 db2 \<and> je_secrets e' = S"
  then have star: "(micro S)\<^sup>*\<^sup>* db1 db2" by (simp add: later_db_micro)
  have "job_tx e db db1" using a by (blast intro: job_tx.decide)
  then have inv1: "job_inv S db1" using a assms reachable_db.tx reachable_inv by blast
  obtain r i w old where r: "r \<in> set (db_jobs db1)" "jr_id r = jid" "jr_namespace r = NsAgent"
    and o: "validate_agent_event e key payload m ms = Inr (i, w)"
      "find (\<lambda>x. er_job x = jid \<and> er_agent_key x = Some key) (db_events db1) = Some old"
      "er_agent_payload old = Json w" "agent_event_from_row e old = Inr v"
    using appended_is_stored [of e db jid key payload m ms v db1] a by blast
  from decision_stays [OF star inv1 r(1), unfolded r(2,3), OF o(2)] obtain r' where
    r': "find (\<lambda>x. er_job x = jid \<and> er_agent_key x = Some key) (db_events db2) = Some old"
      "r' \<in> set (db_jobs db2)" "jr_id r' = jid" "jr_namespace r' = NsAgent" by blast
  obtain j where j: "job_in e' db2 jid = Inr j" "dj_namespace j = NsAgent"
    using inv_get_job [OF micro_star_inv [OF star inv1], of e' r'] a r' by auto
  have "validate_agent_event e' key payload m ms = Inr (i, w)" "agent_event_from_row e' old = Inr v"
    using o(1,4) a by (simp_all add: validate_agent_event_def agent_event_from_row_def)
  with j r'(1) o(3) show "append_agent_decision_event e' db2 jid key payload m ms = Inr (v, db2)"
    by (auto simp: append_agent_decision_event_def)
qed

definition demo_payload :: pyval where
  "demo_payload = PDict (map (\<lambda>k. (KStr k, PInt 1)) agent_event_fields)"

definition demo_decide :: "job_error + (agent_job_event \<times> job_db)" where
  "demo_decide = append_agent_decision_event (demo_env ''t5'') (snd (projr demo_claim)) ''job_t10'' ''decision_1''
     demo_payload 1 5"

definition demo_stop :: "job_error + (durable_job \<times> job_db)" where
  "demo_stop = request_cancellation (demo_env ''t8'') (snd (projr demo_decide)) ''job_t10'' 3"

lemma demo_stop_ok: "is_ok demo_decide" "is_ok demo_stop"
  by code_simp+

theorem decisions_journalled_once_witness:
  "append_agent_decision_event (demo_env ''t9'') (snd (projr demo_stop)) ''job_t10'' ''decision_1'' demo_payload 1 5
     = Inr (fst (projr demo_decide), snd (projr demo_stop))"
proof -
  have d: "append_agent_decision_event (demo_env ''t5'') (snd (projr demo_claim)) ''job_t10'' ''decision_1'' demo_payload 1 5
     = Inr (fst (projr demo_decide), snd (projr demo_decide))"
    using is_ok_projr [OF demo_stop_ok(1)] unfolding demo_decide_def .
  have "job_tx (demo_env ''t8'') (snd (projr demo_decide)) (snd (projr demo_stop))"
    using is_ok_projr [OF demo_stop_ok(2)] unfolding demo_stop_def by (rule job_tx.request)
  then have "later_db [] (snd (projr demo_decide)) (snd (projr demo_stop))"
    by (rule later_db_tx) simp
  with decisions_journalled_once [OF demo_reachable(2)] d show ?thesis by (metis demo_secrets)
qed

end
