(* ===== verification/Worker_Properties.thy ===== *)
theory Worker_Properties
  imports Service_Demo_Live Job_Properties
begin

text \<open>
  The properties of the worker: claimed jobs end, interruption needs no more than its
  three attempts, and the supervisor reports its health truthfully.
\<close>

section \<open>Claimed runs end\<close>

text \<open>C27. A claimed run ends: whatever the plan, the model, the tools and the trace do, when
  \<open>execute_claimed\<close> is left (by return or by exception) the job is in a final state.  The store is
  live for the calls it takes: identifiers are fresh and no fault is injected, and the other
  connections may only request the job's cancellation or end it.\<close>

theorem claimed_run_ends:
  assumes "store_live N S e" "abort_allowed S" "bystanders e (dj_id job)" "job_inv S (sw_db w)" "fresh_world N e w"
    and "find_job (sw_db w) (dj_id job) = Some r" "jr_state r = Running"
    and "dj_namespace job = NsAgent" "dj_type job = agent_job_type" "dj_state job = Running" "starts_with ''job_'' (dj_id job)"
    and "sw_calls (snd (execute_claimed e job w)) + 6 \<le> N"
  shows "\<exists>r'. find_job (sw_db (snd (execute_claimed e job w))) (dj_id job) = Some r' \<and> terminal_job (jr_state r')"
  using execute_claimed_ends [OF assms(1-6) _ assms(8-12)] assms(7) by (simp add: ended_in_def)

theorem claimed_run_ends_witness:
  "\<exists>r'. find_job (sw_db (snd demo_executed)) ''job_0x0'' = Some r' \<and> terminal_job (jr_state r')"
proof -
  have "starts_with ''job_'' ''job_0x0''" by code_simp
  with claimed_run_ends [OF demo_live demo_allowed(1) demo_bystanders demo_running_inv, of demo_job] demo_running_row
    demo_executed_facts(2)
  show ?thesis by (auto simp: demo_executed_def)
qed

section \<open>One iteration of a consumer\<close>

lemma claim_eligible:
  assumes "claim e xs w = (Inr (Some job), w1)" "host_ok S e" "job_inv S (sw_db w)"
  shows "(dj_namespace job, dj_type job) \<in> set (eligible_types xs)"
proof -
  let ?je = "sv_job e (sw_calls w)" and ?db = "sv_others e (sw_calls w) (sw_db w)"
  have inv: "job_inv S ?db" by (rule others_inv [OF assms(2,3)])
  from assms(1) obtain db' where c: "claim_next_job ?je ?db (eligible_types xs) = Inr (Some job, db')"
    by (auto simp: claim_def repo_write_ok)
  then obtain x rs where s: "sort_key age (claim_candidates ?db (eligible_types xs)) = x # rs"
    and t: "transition_job_in ?je 0 ?db (jr_id x) (jr_revision x) Running None None None = Inr (job, db')"
    by (auto simp: claim_next_job_def ok_simps split: list.splits)
  have x: "x \<in> set (db_jobs ?db)" "claimable (eligible_types xs) x"
    using claim_candidates_claimable [OF sort_key_Cons_in [OF s]] by auto
  from t have "dj_namespace job = jr_namespace x \<and> dj_type job = jr_type x"
  proof (cases rule: transition_job_in_effect)
    case (1 old cols ev j0)
    let ?row = "transition_row ?je Running (if Running = Running then Some (je_now ?je) else jr_started old) cols old"
    have "old = x" using job_inv_find [OF inv x(1)] 1(1) by simp
    moreover have "find_job db' (jr_id x) = Some ?row" using committed_find [OF 1(8)] find_job_Some [OF 1(1)] by simp
    moreover obtain r0 where r0: "find_job db' (jr_id x) = Some r0" "job_from_row ?je db' r0 = Inr job"
      using job_in_ok [OF 1(12)] by blast
    ultimately have "r0 = transition_row ?je Running (Some (je_now ?je)) cols x" by simp
    then show ?thesis using job_from_row_ok(2,3) [OF r0(2)] by (simp add: transition_row_def)
  qed
  then show ?thesis using x(2) by (simp add: claimable_def)
qed

lemma eligible_resolves:
  assumes "(dj_namespace job, dj_type job) \<in> set (eligible_types xs)"
  shows "\<exists>x. resolve xs job = Inr x"
proof -
  have "\<exists>x \<in> set xs. ex_namespace x = dj_namespace job \<and> ex_type x = dj_type job"
    using assms by (auto simp: eligible_types_def)
  then have "find (\<lambda>x. ex_namespace x = dj_namespace job \<and> ex_type x = dj_type job) xs \<noteq> None"
    by (auto simp: find_None_iff)
  then show ?thesis by (auto simp: resolve_def)
qed

lemma iteration_active:
  assumes "executors_follow e xs" "claim e xs (wk_world s) = (Inr (Some job), w1)" "dj_id job \<notin> wk_active s"
  shows "wk_active (snd (iteration e xs t s)) = wk_active s"
proof -
  have "wk_active (snd (execute_job e xs job (s\<lparr>wk_world := w1\<rparr>))) = wk_active s - {dj_id job}"
    by (rule execute_job_world [OF assms(1), of "s\<lparr>wk_world := w1\<rparr>" job]) simp
  then show ?thesis using assms(2,3) by (simp add: iteration_def case_prod_beta)
qed

text \<open>C28. An iteration settles what it claims.  Let the store be live for the calls it takes (identifiers are
  new and no fault is injected), the interruption's reason and message be storable under the configured
  secrets, the executors reach the store only through transactions of the repository, and the other
  connections do no more to the claimed job than request its cancellation or end it.  Then, whatever
  the executor does, whether the claim or the execution is cancelled, and whether the pool stops
  meanwhile, a job that the iteration claimed has ended when the iteration is over, an executor is
  registered for it, and the set of active jobs is again what it was.  The last condition leaves out a
  write that a cancelled executor still has under way in its thread: three such writes, one before each
  attempt, could defeat the interruption.\<close>

theorem iteration_settles_claim:
  assumes "store_live N S e" "interrupt_allowed S" "executors_follow e xs" "job_inv S (sw_db (wk_world s))" "fresh_world N e (wk_world s)"
    and "claim e xs (wk_world s) = (Inr (Some job), w1)" "bystanders e (dj_id job)" "dj_id job \<notin> wk_active s"
    and "sw_calls (wk_world (snd (iteration e xs t s))) + 6 \<le> N"
  shows "(\<exists>r. find_job (sw_db (wk_world (snd (iteration e xs t s)))) (dj_id job) = Some r \<and> terminal_job (jr_state r)) \<and>
    (\<exists>x. resolve xs job = Inr x) \<and> wk_active (snd (iteration e xs t s)) = wk_active s"
proof -
  have "host_ok S e" using assms(1) by (simp add: store_live_def)
  then have "\<exists>x. resolve xs job = Inr x" using claim_eligible [OF assms(6)] assms(4) eligible_resolves by blast
  moreover note iteration_settles [OF assms(1-7,9)] iteration_active [OF assms(3,6,8)]
  ultimately show ?thesis by (simp add: ended_in_def)
qed

definition demo_tick :: tick where
  "demo_tick = \<lparr>tk_stopped = False, tk_claim_cancelled = False, tk_stop_after_claim = False\<rparr>"

definition demo_worker :: worker_state where
  "demo_worker = \<lparr>wk_active = {}, wk_world = demo_queued\<rparr>"

lemma demo_executors_follow: "executors_follow demo_service demo_executors"
  using agent_executor_follows(1) [of demo_service demo_service] by (simp add: executors_follow_def demo_executors_def)

lemma demo_iteration_calls: "sw_calls (wk_world (snd (iteration demo_service demo_executors demo_tick demo_worker))) = 15"
proof -
  have "resolve demo_executors demo_job = Inr (agent_executor (Some demo_service))"
    by (simp add: resolve_def demo_executors_def agent_executor_def)
  then have "wk_world (snd (execute_job demo_service demo_executors demo_job (demo_worker\<lparr>wk_world := demo_running\<rparr>))) =
      reconcile demo_service ''job_0x0'' (snd demo_executed)"
    by (simp add: execute_job_def agent_executor_def demo_executed_def Let_def case_prod_beta split: sum.split)
  then show ?thesis
    using demo_executed_facts(3) demo_claim_eq
    by (simp add: iteration_def demo_worker_def demo_tick_def case_prod_beta)
qed

theorem iteration_settles_claim_witness:
  "\<exists>r. find_job (sw_db (wk_world (snd (iteration demo_service demo_executors demo_tick demo_worker)))) ''job_0x0'' = Some r \<and>
     terminal_job (jr_state r)"
  using iteration_settles_claim [OF demo_live demo_allowed(2) demo_executors_follow, of demo_worker demo_job demo_running demo_tick]
    demo_queued_inv demo_claim_eq demo_bystanders demo_iteration_calls
  by (simp add: demo_worker_def)

text \<open>C29. Three attempts are enough: interrupting a job that has been started returns
  normally and leaves the job ended, since the other connections can be faster at most twice (by a
  cancellation request and by the end of the job).\<close>

theorem interruption_succeeds:
  assumes "store_live N S e" "interrupt_allowed S" "bystanders e jid" "job_inv S (sw_db w)" "fresh_world N e w"
    and "find_job (sw_db w) jid = Some r" "jr_state r \<noteq> Queued" "sw_calls w + 6 \<le> N"
  shows "\<exists>w' r'. interrupt e jid w = (Inr (), w') \<and> find_job (sw_db w') jid = Some r' \<and> terminal_job (jr_state r')"
  using interrupting.attempts_close [OF assms(1,3,2,4-7) rank_bound, simplified, OF assms(8), of "liftW (Inl JobConflict)"]
  by (auto simp: interrupt_def ended_in_def)

theorem interruption_succeeds_witness: "\<exists>w'. interrupt demo_service ''job_0x0'' demo_running = (Inr (), w')"
proof -
  obtain r where "find_job (sw_db demo_running) ''job_0x0'' = Some r" "jr_state r \<noteq> Queued" using demo_running_row by auto
  from interruption_succeeds [OF demo_live demo_allowed(2) demo_bystanders demo_running_inv this] show ?thesis
    by (auto simp: demo_running_def)
qed

section \<open>The pool\<close>

text \<open>C30. The pool is truthful: after any events, if the supervisor calls itself healthy then every one
  of its consumers is alive, it has an owning loop and it is not stopping; and a wake-up hint is taken
  exactly when the pool is healthy and the hint comes from the owning loop.\<close>

theorem healthy_pool_is_complete:
  assumes "valid_worker_config c" "p = foldl pool_step (new_pool c) evs"
  shows "(healthy p \<longrightarrow> po_done p = replicate (nat (wc_concurrency c)) False \<and> po_loop p \<noteq> None \<and> \<not> po_stopping p) \<and>
    (fst (notify_work running p) \<longleftrightarrow> healthy p \<and> running \<noteq> None \<and> running = po_loop p)"
proof -
  have inv: "pool_inv c p" unfolding assms(2) by (rule pool_run_inv)
  have n: "1 \<le> wc_concurrency c" using assms(1) by (simp add: valid_worker_config_def)
  show ?thesis using healthy_inv [OF inv _ n] by (auto simp: notify_work_def)
qed

definition demo_config :: worker_config where
  "demo_config = \<lparr>wc_concurrency = 2, wc_poll_ms = 500, wc_grace_ms = 5000\<rparr>"

theorem healthy_pool_is_complete_witness:
  "po_done (foldl pool_step (new_pool demo_config) [Start 1]) = [False, False]"
proof -
  have "valid_worker_config demo_config" "healthy (foldl pool_step (new_pool demo_config) [Start 1])"
    "replicate (nat (wc_concurrency demo_config)) False = [False, False]" by code_simp+
  with healthy_pool_is_complete [OF _ refl, of demo_config "[Start 1]"] show ?thesis by metis
qed

end
