(* ===== verification/Agent_Source.thy ===== *)
theory Agent_Source
  imports Agent_Observation
begin

text \<open>
  What a tool's answer offers to the projection of \<open>src/agent/observation.py\<close>, written
  directly over the answer: every hit, candidate, chunk or source with its identities,
  label, score kind, scores, citation and text, and every stage.  \<open>extract_source\<close> compares
  the records that \<open>_extract\<close> makes with it.
\<close>

section \<open>The items of an answer\<close>

type_synonym item_head =
  "(string option \<times> string option) \<times> string option \<times> string option \<times> (string \<times> string option) list"

type_synonym source_item = "item_head \<times> string option \<times> string"

definition rank_label :: "int option \<Rightarrow> string option" where
  "rank_label r = (case r of None \<Rightarrow> None | Some n \<Rightarrow> if 0 < n then Some (''[Source '' @ dec_int n @ '']'') else None)"

definition hit_item :: "string \<Rightarrow> disc_hit \<Rightarrow> source_item" where
  "hit_item engine h =
    (((Some (hit_document h), Some (hit_chunk h)), None, Some engine, [(''score'', Some (hit_score h))]), None, hit_text h)"

definition candidate_item :: "candidate \<Rightarrow> source_item" where
  "candidate_item c =
    (((cd_document c, Some (cd_chunk c)), None, None, [(''bm25_score'', cd_bm25 c), (''dense_score'', cd_dense c),
        (''rrf_score'', cd_rrf c), (''cross_encoder_score'', cd_cross c)]), cd_citation c, cd_text c)"

definition chunk_item :: "string \<Rightarrow> doc_chunk \<Rightarrow> source_item" where
  "chunk_item d c = (((Some d, dc_chunk c), None, None, []), None, dc_text c)"

definition query_item :: "query_source \<Rightarrow> source_item" where
  "query_item s =
    (((qs_document s, qs_chunk s), rank_label (qs_rank s), qs_kind s,
       [(''score'', Some (qs_score s)), (''reranker_score'', qs_reranker s)]), Some (qs_citation s), qs_text s)"

text \<open>A document without chunks stands for itself.\<close>

fun source_items :: "tool_data \<Rightarrow> source_item list" where
  "source_items (Discovery sid tot items engine) = map (hit_item engine) (concat (map item_hits items))"
| "source_items (Retrieval n cands stages) = map candidate_item cands"
| "source_items (DocumentData d tot chunks) =
     (if chunks = [] then [(((Some d, None), None, None, []), None, [])] else map (chunk_item d) chunks)"
| "source_items (QueryData n srcs) = map query_item srcs"

fun source_stages :: "tool_data \<Rightarrow> stage_fact list" where
  "source_stages (Retrieval n cands stages) = stages"
| "source_stages _ = []"

fun source_search :: "tool_data \<Rightarrow> string option" where
  "source_search (Discovery sid tot items engine) = Some sid"
| "source_search _ = None"

fun source_count :: "tool_data \<Rightarrow> int" where
  "source_count (Discovery sid tot items engine) = tot"
| "source_count (Retrieval n cands stages) = n"
| "source_count (DocumentData d tot chunks) = tot"
| "source_count (QueryData n srcs) = n"

section \<open>A record and its item\<close>

definition record_head :: "evidence_record \<Rightarrow> item_head" where
  "record_head r = ((evd_document r, evd_chunk r), evd_label r, evd_score_kind r, evd_scores r)"

text \<open>The citation as it is shown: redacted, at most 256 characters, none if nothing is left.\<close>

definition shown_citation :: "string option \<Rightarrow> string option" where
  "shown_citation c = (let t = fst (safe_text c 256) in if t = [] then None else Some t)"

definition whole_citation :: "string option \<Rightarrow> string option" where
  "whole_citation c = (if c = Some [] then None else c)"

definition shown :: "source_item \<Rightarrow> item_head \<times> string option" where
  "shown x = (fst x, shown_citation (fst (snd x)))"

definition whole :: "source_item \<Rightarrow> item_head \<times> string option \<times> string" where
  "whole x = (fst x, whole_citation (fst (snd x)), snd (snd x))"

definition head_of :: "evidence_record \<Rightarrow> item_head \<times> string option" where
  "head_of r = (record_head r, evd_citation r)"

definition content_of :: "evidence_record \<Rightarrow> item_head \<times> string option \<times> string" where
  "content_of r = (record_head r, evd_citation r, evd_excerpt r)"

lemma safe_text_whole: "\<not> snd (safe_text v n) \<Longrightarrow> fst (safe_text v n) = (case v of None \<Rightarrow> [] | Some x \<Rightarrow> x)"
  by (simp add: safe_text_def Let_def) (metis not_less)

lemma redact_nil: "redact [] = []"
  by code_simp

definition made_from :: "evidence_record \<times> bool \<Rightarrow> source_item \<Rightarrow> bool" where
  "made_from rt x \<longleftrightarrow> head_of (fst rt) = shown x \<and> (snd rt \<or> content_of (fst rt) = whole x)"

lemma make_record_source:
  assumes "make_record d c label cit kind scores ex limit = Inr rt"
  shows "made_from rt (((d, c), label, kind, scores), cit, ex)"
proof -
  obtain r t where rt: "rt = (r, t)" by (cases rt)
  note ok = make_record_ok [OF assms [unfolded rt]]
  have "evd_citation r = shown_citation cit" "evd_score_kind r = kind"
    "evd_excerpt r = fst (safe_text (Some ex) limit)" "t = (snd (safe_text (Some ex) limit) \<or> snd (safe_text cit 256))"
    using assms unfolding rt make_record_def Let_def shown_citation_def by (auto elim!: bindE_okE)
  then show ?thesis
    using ok safe_text_whole [of "Some ex" limit] safe_text_whole [of cit 256]
    by (auto simp: made_from_def head_of_def content_of_def record_head_def shown_def whole_def rt
        shown_citation_def whole_citation_def Let_def split: option.splits)
qed

lemma records_source:
  "hit_record l engine h = Inr rt \<Longrightarrow> made_from rt (hit_item engine h)"
  "candidate_record l c = Inr rt \<Longrightarrow> made_from rt (candidate_item c)"
  "doc_record l d k = Inr rt \<Longrightarrow> made_from rt (chunk_item d k)"
  "source_record l s = Inr rt \<Longrightarrow> made_from rt (query_item s)"
  by (auto simp: hit_record_def candidate_record_def doc_record_def source_record_def bindE_ok check_scores_def Let_def
      hit_item_def candidate_item_def chunk_item_def query_item_def rank_label_def dest!: make_record_source)

lemma mapE_source:
  assumes "mapE f (take n xs) = Inr rs" "\<And>x rt. f x = Inr rt \<Longrightarrow> made_from rt (g x)"
  shows "prefix (map head_of (map fst rs)) (map shown (map g xs))"
    "list_ex snd rs \<or> n < length xs \<or> map content_of (map fst rs) = map whole (map g xs)"
proof -
  have a: "list_all2 (\<lambda>x rt. made_from rt (g x)) (take n xs) rs"
    using assms(1) unfolding mapE_ok_all2 by (rule list_all2_mono) (rule assms(2))
  then have "map head_of (map fst rs) = map shown (map g (take n xs))"
    by (induction rule: list_all2_induct) (auto simp: made_from_def)
  also have "prefix \<dots> (map shown (map g xs))" by (simp add: take_map [symmetric] take_is_prefix)
  finally show "prefix (map head_of (map fst rs)) (map shown (map g xs))" .
  have "list_ex snd rs \<or> map content_of (map fst rs) = map whole (map g (take n xs))"
    using a by (induction rule: list_all2_induct) (auto simp: made_from_def)
  then show "list_ex snd rs \<or> n < length xs \<or> map content_of (map fst rs) = map whole (map g xs)"
    by (cases "n < length xs") auto
qed

section \<open>The extraction\<close>

lemma check_canonical_ok: "check_canonical k v = Inr v' \<Longrightarrow> v' = v"
  by (auto simp: check_canonical_def bindE_ok split: option.splits)

lemma extract_source:
  assumes "extract_data l d = Inr (sid, records, stages, reported, trunc)"
  shows "sid = source_search d" "reported = source_count d"
    "prefix (map head_of records) (map shown (source_items d))" "prefix stages (source_stages d)"
    "trunc \<or> map content_of records = map whole (source_items d) \<and> stages = source_stages d"
proof -
  have all: "sid = source_search d \<and> reported = source_count d \<and>
    prefix (map head_of records) (map shown (source_items d)) \<and> prefix stages (source_stages d) \<and>
    (trunc \<or> map content_of records = map whole (source_items d) \<and> stages = source_stages d)"
  proof (cases d)
    case (Discovery s tot items engine)
    with assms obtain rs where a: "check_canonical ''search_id'' (Some s) = Inr sid"
      "mapE (hit_record l engine) (take (al_max_evidence l) (concat (map item_hits items))) = Inr rs"
      "records = map fst rs" "stages = []" "reported = tot"
      "trunc = (list_ex snd rs \<or> al_max_evidence l < length (concat (map item_hits items)))"
      by (auto simp: bindE_ok Let_def)
    with Discovery mapE_source [OF a(2), of "hit_item engine", OF records_source(1)] check_canonical_ok [OF a(1)]
    show ?thesis by auto
  next
    case (Retrieval n cands ss)
    with assms obtain rs where a: "mapE (candidate_record l) (take (al_max_evidence l) cands) = Inr rs"
      "records = map fst rs" "stages = take 8 ss" "reported = n" "sid = None"
      "trunc = (list_ex snd rs \<or> al_max_evidence l < length cands \<or> 8 < length ss)"
      by (auto simp: bindE_ok Let_def)
    with Retrieval mapE_source [OF a(1), of candidate_item, OF records_source(2)]
    show ?thesis by (auto simp: take_is_prefix)
  next
    case (DocumentData did tot chunks)
    show ?thesis
    proof (cases "chunks = []")
      case True
      with DocumentData assms have "check_canonical ''document_id'' (Some did) = Inr (Some did)"
        "records = [\<lparr>evd_document = Some did, evd_chunk = None, evd_label = None, evd_citation = None,
                      evd_score_kind = None, evd_scores = [], evd_excerpt = []\<rparr>]"
        "stages = []" "reported = tot" "sid = None"
        by (auto simp: bindE_ok Let_def dest: check_canonical_ok)
      with True DocumentData show ?thesis
        by (simp add: head_of_def content_of_def record_head_def shown_def whole_def shown_citation_def
            whole_citation_def safe_text_def redact_nil)
    next
      case False
      with DocumentData assms obtain rs where a: "mapE (doc_record l did) (take (al_max_evidence l) chunks) = Inr rs"
        "records = map fst rs" "stages = []" "reported = tot" "sid = None"
        "trunc = (list_ex snd rs \<or> al_max_evidence l < length chunks)"
        by (auto simp: bindE_ok Let_def)
      with DocumentData False mapE_source [OF a(1), of "chunk_item did", OF records_source(3)]
      show ?thesis by auto
    qed
  next
    case (QueryData n srcs)
    with assms obtain rs where a: "mapE (source_record l) (take (al_max_evidence l) srcs) = Inr rs"
      "records = map fst rs" "stages = []" "reported = n" "sid = None"
      "trunc = (list_ex snd rs \<or> al_max_evidence l < length srcs)"
      by (auto simp: bindE_ok Let_def)
    with QueryData mapE_source [OF a(1), of query_item, OF records_source(4)]
    show ?thesis by auto
  qed
  then show "sid = source_search d" "reported = source_count d"
    "prefix (map head_of records) (map shown (source_items d))" "prefix stages (source_stages d)"
    "trunc \<or> map content_of records = map whole (source_items d) \<and> stages = source_stages d" by blast+
qed

lemma make_record_err: "make_record d c label cit kind scores ex limit = Inl err \<Longrightarrow> err = ObsIntegrity"
  unfolding make_record_def Let_def
  by (elim bindE_errE) (auto simp: check_canonical_def ensure_def split: option.splits if_splits)

lemma mapE_err: "mapE f xs = Inl err \<Longrightarrow> (\<And>x e. f x = Inl e \<Longrightarrow> e = c) \<Longrightarrow> err = c"
  by (induction xs) (auto elim!: bindE_errE)

lemma extract_err:
  assumes "extract_data l d = Inl err"
  shows "err = ObsIntegrity"
proof -
  have e: "hit_record l engine h = Inl x \<Longrightarrow> x = ObsIntegrity" "candidate_record l c = Inl x \<Longrightarrow> x = ObsIntegrity"
    "doc_record l did k = Inl x \<Longrightarrow> x = ObsIntegrity" "source_record l s = Inl x \<Longrightarrow> x = ObsIntegrity"
    for engine h c did k s x
    by (auto simp: hit_record_def candidate_record_def doc_record_def source_record_def check_scores_def Let_def
        ensure_def elim!: bindE_errE dest: make_record_err split: if_splits)
  show ?thesis
    using assms mapE_err [OF _ e(1)] mapE_err [OF _ e(2)] mapE_err [OF _ e(3)] mapE_err [OF _ e(4)]
    by (cases d) (auto simp: check_canonical_def ensure_def Let_def elim!: bindE_errE split: option.splits if_splits)
qed

end
