(* ===== verification/Agent_Total.thy ===== *)
theory Agent_Total
  imports Agent_Invariants
begin

text \<open>
  Totality of the run.  If the polls answer and the trace sink takes every entry, no
  exception leaves \<open>AgentOrchestrator.run\<close>: the evidence ledger, its summary and its view
  always validate, whatever the decision model answers and the tools return.
\<close>

section \<open>The hypotheses on the surroundings\<close>

text \<open>The cancellation signal and the trace sink do not raise.\<close>

definition responsive :: "'w agent_env \<Rightarrow> bool" where
  "responsive env \<longleftrightarrow> (\<forall>n k w. fst (ev_cancelled env n k w) \<noteq> None) \<and> (\<forall>t i j w. fst (ev_sink env t i j w))"

text \<open>
  A digest is 64 hexadecimal digits; a validated search has a query of at most 200
  characters (\<open>SearchRequest\<close> of \<open>src/api/schemas.py\<close>).
\<close>

definition digests :: "(string \<Rightarrow> string) \<Rightarrow> bool" where
  "digests sha \<longleftrightarrow> (\<forall>x. length (sha x) = 64 \<and> list_all is_hex (sha x))"

definition short_queries :: "agent_tool list \<Rightarrow> bool" where
  "short_queries ts \<longleftrightarrow> (\<forall>t \<in> set ts. at_name t = ''search_documents'' \<longrightarrow>
     (\<forall>args body q. at_validate t args = Some body \<longrightarrow> arg_str body ''query'' = Some q \<longrightarrow> length q \<le> 200))"

section \<open>No step raises\<close>

lemma is_ok_bind: "is_ok m \<Longrightarrow> (\<And>x. m = Inr x \<Longrightarrow> is_ok (f x)) \<Longrightarrow> is_ok (bindE m f)"
  by (cases m) auto

lemma poll_total:
  assumes "responsive env"
  shows "is_ok (poll env k st)"
proof -
  obtain c w where cw: "ev_cancelled env (st_decisions st) k (st_world st) = (c, w)" by fastforce
  have "fst (ev_cancelled env (st_decisions st) k (st_world st)) \<noteq> None" using assms unfolding responsive_def by blast
  then show ?thesis unfolding poll_def cw by auto
qed

lemma record_total:
  assumes "responsive env"
  shows "is_ok (record_entry env t st)"
proof -
  obtain ok w where ow: "ev_sink env t (st_steps st) (st_tool_calls st) (st_world st) = (ok, w)" by fastforce
  have "fst (ev_sink env t (st_steps st) (st_tool_calls st) (st_world st))" using assms unfolding responsive_def by blast
  then show ?thesis unfolding record_entry_def ow by simp
qed

lemma refresh_total:
  "case st_session st of None \<Rightarrow> True | Some s \<Rightarrow> session_inv s \<and> length (se_actions s) \<le> 10 \<Longrightarrow> is_ok (refresh_research st)"
  by (auto simp: refresh_research_def summary_total view_total split: option.splits)

lemma charge_total:
  assumes "mid_ok oc st" "orchestrator_ok oc" "admit oc cx st name args obj = Inr (t, body)"
  shows "is_ok (refresh_research (charge oc obj t body st))"
proof (rule refresh_total, cases "st_session st")
  case None
  then show "case st_session (charge oc obj t body st) of None \<Rightarrow> True | Some s \<Rightarrow> session_inv s \<and> length (se_actions s) \<le> 10"
    by (simp add: charge_def)
next
  case (Some s)
  then have bt: "before_tool (oc_sha oc) s obj (at_name t) body = None" using admit_ok(6) [OF assms(3)] by simp
  then obtain oid where oid: "obj = Some oid"
    by (cases obj) (auto simp: before_tool_def find_objective_def find_None_iff split: option.splits dest!: find_SomeD)
  have s: "session_inv s" "length (se_actions s) \<le> st_tool_calls st" "st_tool_calls st \<le> 10"
    using assms(1,2) Some by (auto simp: mid_ok_def session_ok_def st_ok_def budgets_ok_def orchestrator_ok_def valid_limits_def)
  have "session_inv (start_tool (oc_sha oc) oid (at_name t) body s)" using start_tool_inv bt s(1) oid by blast
  then show "case st_session (charge oc obj t body st) of None \<Rightarrow> True | Some s \<Rightarrow> session_inv s \<and> length (se_actions s) \<le> 10"
    using Some oid s(2,3) by (simp add: charge_def start_tool_def)
qed

lemma take_total:
  assumes "orchestrator_ok oc" "digests (oc_sha oc)" "mid_ok oc st"
    and "project_checked oc st (at_name t) d = Inr ob" "at_name t \<in> set tool_names" "1 \<le> st_steps st" "st_steps st \<le> 20"
    and "case st_session st of None \<Rightarrow> True | Some s \<Rightarrow> length (se_actions s) < st_tool_calls st \<and> find_objective s obj \<noteq> None"
    and query: "case arg_str body ''query'' of None \<Rightarrow> True | Some q \<Rightarrow> at_name t = ''search_documents'' \<longrightarrow> length q \<le> 200"
  shows "is_ok (take_observation oc obj t body ob st)"
proof (cases "st_session st")
  case None
  then show ?thesis by (simp add: take_observation_def Let_def)
next
  case (Some s)
  then have inv: "session_inv s" using assms(3) by (simp add: mid_ok_def session_ok_def)
  obtain ob' oid where ob': "find_objective s (Some oid) = Some ob'" "obj = Some oid"
    using assms(8) Some find_objective_Some [of s obj] by fastforce
  obtain s' where s': "observed (oc_sha oc) oid (at_name t) body ob (st_steps st) s = Some s'" "session_inv s'"
    "length (se_actions s') = Suc (length (se_actions s))"
    using observed_inv [OF inv ob'(1) assms(5,6,7) project_checked_ok(3) [OF assms(4)] _ _ query, of "oc_sha oc"] assms(2)
    unfolding digests_def by blast
  have "length (se_actions s') \<le> 10"
    using assms(1,3,8) Some s'(3) by (auto simp: mid_ok_def st_ok_def budgets_ok_def orchestrator_ok_def valid_limits_def)
  then show ?thesis
    using Some ob'(2) s'(1,2) by (auto simp: take_observation_def Let_def intro!: refresh_total)
qed

lemma admitted_objective:
  assumes "admit oc cx st name args obj = Inr (t, body)" "st_session st = Some s"
  shows "find_objective s obj \<noteq> None"
  using admit_ok(6) [OF assms(1)] assms(2) by (auto simp: before_tool_def split: option.splits)

lemma charged_objective:
  assumes "admit oc cx st name args obj = Inr (t, body)" "st_session (charge oc obj t body st) = Some s'"
  shows "find_objective s' obj \<noteq> None"
proof -
  obtain s where s: "st_session st = Some s" using assms(2) by (auto simp: charge_def split: option.splits)
  have "se_config s' = se_config s" using assms(2) s by (auto simp: charge_def start_tool_def split: option.splits)
  then show ?thesis using admitted_objective [OF assms(1) s] by (simp add: find_objective_def)
qed

lemma run_tool_total:
  assumes "orchestrator_ok oc" "digests (oc_sha oc)" "short_queries (oc_registry oc)" "responsive env"
    and "mid_ok oc st" "admit oc cx st name args obj = Inr (t, body)"
    and "st_tool_calls st < st_steps st" "st_steps st \<le> 20"
  shows "is_ok (run_tool oc cx env obj args t body st)"
  unfolding run_tool_def
proof (rule is_ok_bind)
  show "is_ok (refresh_research (charge oc obj t body st))" by (rule charge_total [OF assms(5,1,6)])
next
  fix st1 assume st1: "refresh_research (charge oc obj t body st) = Inr st1"
  note ch = charge_ok [OF assms(5,1,6,7) st1] and ad = admit_ok [OF assms(6)]
  have objs: "case st_session st1 of None \<Rightarrow> True | Some s \<Rightarrow> length (se_actions s) < st_tool_calls st1 \<and> find_objective s obj \<noteq> None"
    using ch(6,10) charged_objective [OF assms(6)] by (auto split: option.splits)
  have query: "case arg_str body ''query'' of None \<Rightarrow> True | Some q \<Rightarrow> at_name t = ''search_documents'' \<longrightarrow> length q \<le> 200"
    using assms(3) ad(4) find_tool_ok [OF ad(1)] unfolding short_queries_def by (auto split: option.splits)
  have take: "is_ok (take_observation oc obj t body ob st1)" if "project_checked oc st1 (at_name t) d = Inr ob" for ob d
    by (rule take_total [OF assms(1,2) ch(1) that _ _ _ objs query]) (use ch assms(7,8) in simp_all)
  show "is_ok (let names = sort (map fst args); tool = Some (at_name t) in
    (case invoke oc cx env (st_tool_calls st1) (at_name t) args of
       Inl code \<Rightarrow>
         bindE (record_entry env (entry st1 ''tool'' tool obj names ''failed'' []
                                   (Some (snd (snd (tool_error code))))) st1) (\<lambda>st2.
         Inr (Inl (failed st2 (fst (tool_error code)) (fst (snd (tool_error code))) (snd (snd (tool_error code))))))
     | Inr d \<Rightarrow>
         (case project_checked oc st1 (at_name t) d of
            Inl ObsLimit \<Rightarrow>
              bindE (record_entry env (entry st1 ''tool'' tool obj [] ''failed'' [] (Some ''observation_bytes'')) st1) (\<lambda>st2.
              Inr (Inl (failed st2 BudgetExhausted DomPolicy ''observation_bytes'')))
          | Inl ObsIntegrity \<Rightarrow>
              bindE (record_entry env (entry st1 ''tool'' tool obj [] ''failed'' [] (Some ''invalid_observation'')) st1) (\<lambda>st2.
              Inr (Inl (failed st2 AgentFailed DomTool ''invalid_observation'')))
          | Inr ob \<Rightarrow>
              bindE (take_observation oc obj t body ob st1) (\<lambda>st2.
              bindE (record_entry env (entry st2 ''tool'' tool obj names ''observed'' (trace_refs ob) None) st2) (\<lambda>st3.
              Inr (Inr st3))))))"
    using take record_total [OF assms(4)]
    by (auto simp: Let_def split: sum.split obs_error.split intro!: is_ok_bind)
qed

lemma handle_tool_total:
  assumes "orchestrator_ok oc" "digests (oc_sha oc)" "short_queries (oc_registry oc)" "responsive env"
    and "mid_ok oc st" "st_tool_calls st < st_steps st" "st_steps st \<le> 20"
  shows "is_ok (handle_tool oc cx env name args obj st)"
proof (cases "admit oc cx st name args obj")
  case (Inl rj)
  then show ?thesis
    using record_total [OF assms(4)] by (auto simp: handle_tool_def split: prod.split intro!: is_ok_bind)
next
  case (Inr tb)
  obtain t body where tb: "tb = (t, body)" by (cases tb)
  have "is_ok (run_tool oc cx env obj args t body st')" if p: "poll env 2 st = Inr (c, st')" for c st'
  proof -
    obtain w where "st' = st\<lparr>st_world := w\<rparr>" using poll_ok [OF p] by blast
    then show ?thesis using Inr tb assms by (intro run_tool_total [where name = name]) simp_all
  qed
  then show ?thesis
    using Inr tb poll_total [OF assms(4)] by (auto simp: handle_tool_def intro!: is_ok_bind)
qed

lemma handle_final_total: "responsive env \<Longrightarrow> is_ok (handle_final oc cx env a refs u st)"
  using record_total by (auto simp: handle_final_def split: option.split intro!: is_ok_bind)

lemma handle_decision_total:
  assumes "orchestrator_ok oc" "digests (oc_sha oc)" "short_queries (oc_registry oc)" "responsive env"
    and "mid_ok oc st" "Suc (st_steps st) = st_decisions st" "st_decisions st \<le> 20"
  shows "is_ok (handle_decision oc cx env raw st)"
proof -
  let ?st = "st\<lparr>st_steps := st_steps st + 1\<rparr>"
  have "mid_ok oc ?st" by (rule mid_ok_step [OF assms(5)]) (use assms(6) in simp)
  moreover have "st_tool_calls ?st < st_steps ?st" using assms(5) by (simp add: mid_ok_def st_ok_def budgets_ok_def)
  ultimately have "is_ok (handle_tool oc cx env name args obj ?st)" for name args obj
    using assms by (intro handle_tool_total) simp_all
  then show ?thesis
    using handle_final_total [OF assms(4)] record_total [OF assms(4)]
    by (auto simp: handle_decision_def split: option.split decision.split intro!: is_ok_bind)
qed

lemma agent_round_total:
  assumes "orchestrator_ok oc" "digests (oc_sha oc)" "short_queries (oc_registry oc)" "responsive env"
    and "head_ok oc st" "st_decisions st < 20"
  shows "is_ok (agent_round oc cx env st)"
proof -
  have decide: "is_ok (handle_decision oc cx env raw st2)"
    if c0: "poll env 0 st = Inr (c0, st0)" and c1: "poll env 1 (st0\<lparr>st_decisions := Suc (st_decisions st0)\<rparr>) = Inr (c1, st2)"
    for raw st2 c0 c1 st0
  proof -
    obtain w0 where st0: "st0 = st\<lparr>st_world := w0\<rparr>" using poll_ok [OF c0] by blast
    let ?st = "st0\<lparr>st_decisions := Suc (st_decisions st0)\<rparr>"
    obtain w1 where st2: "st2 = ?st\<lparr>st_world := w1\<rparr>" using poll_ok [OF c1] by blast
    have "mid_ok oc ?st" using mid_ok_decide [of oc st0] assms(5) by (simp add: st0)
    then have "mid_ok oc st2" unfolding st2 mid_ok_world .
    moreover have "st_steps st = st_decisions st" using assms(5) by (simp add: head_ok_def)
    ultimately show ?thesis using assms(1-4,6) by (intro handle_decision_total) (simp_all add: st2 st0)
  qed
  show ?thesis
    unfolding agent_round_def
    using decide poll_total [OF assms(4)] record_total [OF assms(4)]
    by (intro is_ok_bind) (auto simp: Let_def split: model_answer.split intro!: is_ok_bind)
qed

lemma rounds_total:
  assumes "orchestrator_ok oc" "digests (oc_sha oc)" "short_queries (oc_registry oc)" "responsive env"
  shows "head_ok oc st \<Longrightarrow> st_decisions st + k \<le> 20 \<Longrightarrow> is_ok (rounds k oc cx env st)"
proof (induction k arbitrary: st)
  case (Suc k)
  have r: "is_ok (agent_round oc cx env st)" using Suc.prems by (intro agent_round_total [OF assms]) simp_all
  have "is_ok (case out of Inl r' \<Rightarrow> Inr r' | Inr st' \<Rightarrow> rounds k oc cx env st')" if "agent_round oc cx env st = Inr out" for out
  proof (cases out)
    case (Inr st')
    have "round_ok oc cx (Suc (st_decisions st)) out"
      by (rule agent_round_ok [OF assms(1) Suc.prems(1) _ that]) (use Suc.prems(2) in simp)
    then show ?thesis using Inr Suc.IH [of st'] Suc.prems(2) by (simp add: round_ok_def)
  qed simp
  with r show ?case by (auto intro: is_ok_bind)
qed simp

lemma open_session_total: "orchestrator_ok oc \<Longrightarrow> is_ok (open_session oc w)"
  by (auto simp: open_session_def orchestrator_ok_def new_session_def split: option.splits)

lemma run_total:
  assumes "orchestrator_ok oc" "digests (oc_sha oc)" "short_queries (oc_registry oc)" "responsive env" "agent_goal goal \<noteq> None"
  shows "is_ok (run oc cx env goal w)"
proof -
  have session: "case s of None \<Rightarrow> True | Some s' \<Rightarrow> session_inv s' \<and> se_actions s' = []" if "open_session oc w = Inr s" for s
    using open_session_ok [OF assms(1) that] by (auto split: option.splits)
  have refresh: "is_ok (refresh_research (initial_state g s w))" if "open_session oc w = Inr s" for g s
    by (rule refresh_total) (use session [OF that] in \<open>auto simp: initial_state_def split: option.splits\<close>)
  have steps: "al_max_steps (oc_limits oc) \<le> 20" using assms(1) by (simp add: orchestrator_ok_def valid_limits_def)
  have go: "is_ok (rounds (al_max_steps (oc_limits oc)) oc cx env st)"
    if "open_session oc w = Inr s" "refresh_research (initial_state g s w) = Inr st" for g s st
    using rounds_total [OF assms(1-4)] initial_head_ok [OF assms(1) that] steps by simp
  obtain g where g: "agent_goal goal = Some g" using assms(5) by blast
  show ?thesis
    unfolding run_def
    using open_session_total [OF assms(1), of w] session refresh go
    by (auto simp: g summary_total simp del: contains_protected_value.simps split: option.splits intro!: is_ok_bind)
qed

end
