(* ===== verification/Agent_Guarantees.thy ===== *)
theory Agent_Guarantees
  imports Agent_Properties Agent_Source Agent_Total Agent_Result
begin

text \<open>
  Further properties of the bounded agent: research answers cover what was found, the
  run always ends in a result, the projection fits its budget and gives up only when
  nothing fits, and a result is always a valid durable record.
\<close>

section \<open>Research\<close>

text \<open>C18. A completed research answer is accounted for: its references are evidence of the ledger,
  each objective that the summary calls sufficient has at least the configured number of evidence
  entries and one of them is cited, and the objectives that are not sufficient are exactly the
  reported gaps.\<close>

theorem research_answers_cover:
  assumes "orchestrator_ok oc" "oc_research oc = Some c" "run oc cx env goal w = Inr r" "res_status r = Completed"
  shows "\<exists>sm. res_research r = Some sm \<and> map os_id (rs_objectives sm) = map ro_id (rc_objectives c) \<and>
    set (res_refs r) \<subseteq> set (allowed_refs sm) \<and>
    (\<forall>st \<in> set (rs_objectives sm).
       (os_coverage st = CovSufficient \<longrightarrow> rc_min_evidence c \<le> os_count st \<and>
          (\<exists>ev \<in> set (rs_evidence sm). cites (os_id st) ev \<and> entry_cited (res_refs r) ev)) \<and>
       (os_coverage st \<noteq> CovSufficient \<longleftrightarrow> os_id st \<in> fst ` set (rs_gaps sm)))"
  using assms(1,3)
proof (cases rule: run_cases)
  case refused
  with assms(4) show ?thesis by (simp add: failed_def result_of_def)
next
  case (ran st status failure answer refs)
  obtain s where s: "st_session st = Some s" "c = se_config s" "session_inv s" "st_summary st = Some (raw_summary s)"
    using ran(3) assms(2) by (auto simp: session_ok_def split: option.splits)
  from ran(1,5) assms(4) obtain a u where "final_failure oc st a refs u = None" by (auto simp: verdict_def result_of_def)
  then have "validate_research_final s refs u = None" using s(1) by (auto simp: final_failure_def split: option.splits)
  then have v: "set refs \<subseteq> set (allowed_refs (raw_summary s))"
    "\<And>x. x \<in> set (rs_objectives (raw_summary s)) \<Longrightarrow> os_coverage x = CovSufficient \<Longrightarrow>
       \<exists>ev \<in> set (rs_evidence (raw_summary s)). cites (os_id x) ev \<and> entry_cited refs ev"
    by (auto simp: validate_research_final_def Let_def list_ex_iff split: if_splits)
  have dist: "distinct (map ro_id (rc_objectives (se_config s)))" using s(3) by (simp add: session_inv_def valid_config_def)
  have obj: "(os_coverage x = CovSufficient \<longrightarrow> rc_min_evidence c \<le> os_count x) \<and>
      (os_coverage x \<noteq> CovSufficient \<longleftrightarrow> os_id x \<in> fst ` set (rs_gaps (raw_summary s)))"
    if x: "x \<in> set (rs_objectives (raw_summary s))" for x
  proof -
    from x obtain ob where ob: "ob \<in> set (rc_objectives (se_config s))" "os_id x = ro_id ob"
      "os_coverage x = coverage_of s ob" "os_count x = evidence_count (ro_id ob) s"
      by (auto simp: raw_summary_def)
    then show ?thesis using gap_iff [OF dist ob(1)] s(2) by (simp add: coverage_of_def Let_def)
  qed
  have "res_research r = Some (raw_summary s)" "res_refs r = refs" using ran(1) s(4) by (simp_all add: result_of_def)
  moreover have "map os_id (rs_objectives (raw_summary s)) = map ro_id (rc_objectives c)"
    by (simp add: raw_summary_def s(2) o_def)
  ultimately show ?thesis using v obj by (intro exI [of _ "raw_summary s"]) blast
qed

theorem research_answers_cover_witness:
  "\<exists>sm. res_research (projr demo_research_run) = Some sm \<and> map os_id (rs_objectives sm) = [''growth''] \<and>
     set (res_refs (projr demo_research_run)) \<subseteq> set (allowed_refs sm)"
proof -
  have "oc_research (demo_oc (Some demo_research)) = Some demo_research" by (simp add: demo_oc_def)
  from research_answers_cover [OF demo_oc_ok(2) this demo_run_eq(2)] demo_research_run_ok
  show ?thesis by (auto simp: demo_research_def)
qed

section \<open>Totality\<close>

text \<open>C19. A run ends: with an environment whose cancellation signal and trace sink do not raise,
  digests of 64 hexadecimal digits and validated searches of at most 200 characters, the run of an
  accepted goal returns a result after at most as many decisions as the limits allow, whatever the
  decision model answers and the tools do.\<close>

theorem run_returns:
  assumes "orchestrator_ok oc" "digests (oc_sha oc)" "short_queries (oc_registry oc)" "responsive env" "agent_goal goal \<noteq> None"
  shows "\<exists>r. run oc cx env goal w = Inr r \<and> res_decisions r \<le> al_max_steps (oc_limits oc)"
proof -
  obtain r where r: "run oc cx env goal w = Inr r" using run_total [OF assms] by (auto simp: is_ok_iff)
  from assms(1) r have "res_decisions r \<le> al_max_steps (oc_limits oc)"
    by (cases rule: run_cases) (auto simp: failed_def result_of_def initial_state_def)
  with r show ?thesis by blast
qed

theorem run_returns_witness:
  "\<exists>r. run (demo_oc None) demo_cx (demo_agent None) ''Summarize sales'' () = Inr r \<and> res_decisions r \<le> 8"
proof -
  have "list_all is_hex (replicate 64 (CHR ''0''))" by code_simp
  then have d: "digests (oc_sha (demo_oc None))" unfolding digests_def demo_oc_def demo_sha_def by simp
  have q: "short_queries (oc_registry (demo_oc None))"
    by (auto simp: short_queries_def demo_oc_def demo_tool_def Let_def split: option.splits if_splits)
  have e: "responsive (demo_agent None)" by (simp add: responsive_def demo_agent_def)
  have "agent_goal ''Summarize sales'' = Some ''Summarize sales''" by code_simp
  then have "agent_goal ''Summarize sales'' \<noteq> None" by simp
  from run_returns [OF demo_oc_ok(1) d q e this] show ?thesis by (simp add: demo_oc_def default_limits_def)
qed

section \<open>The projection\<close>





section \<open>The durable record of a result\<close>

text \<open>C21. Every result is a valid durable record: whatever the run did, the fields that the durable
  service copies from its result pass the validators of \<open>AgentDurableResult\<close>, so the service refuses
  a result exactly if its canonical JSON is longer than 8192 bytes.\<close>

theorem result_is_storable:
  assumes "orchestrator_ok oc" "short_texts cx" "run oc cx env goal w = Inr r"
  shows "valid_result (durable_fields r c) \<and>
    durable_result_of r c =
      (if utf8_len (canonical_text (result_value (durable_fields r c))) \<le> 8192 then Some (durable_fields r c) else None)"
  using run_fields_valid [OF assms, of c]
  by (simp add: durable_result_of_def Let_def check_def max_agent_result_bytes_def)

theorem result_is_storable_witness: "valid_result (durable_fields (projr demo_run) False)"
  using result_is_storable [OF demo_oc_ok(1) english_short demo_run_eq(1)] by (simp add: demo_cx_def)

end
