(* ===== verification/Service_Properties.thy ===== *)
theory Service_Properties
  imports Service_Demo_Live Agent_Guarantees Job_Properties
begin

text \<open>
  The properties of the durable service, and of the agent inside it.
  The witnesses run on the service of \<open>Service_Demo\<close>.
\<close>

section \<open>The frozen plan\<close>

text \<open>C22. A frozen plan survives its storage: the canonical JSON of a valid plan is read back by the
  validators as the same plan, with its per-tool limits in key order, and the plan that was read has
  the same fingerprint.\<close>

theorem plan_round_trip:
  assumes "valid_plan (de_sha e) p"
  shows "\<exists>v. canon (plan_value p) = Some v \<and> parse_plan (de_sha e) v = Some (ordered_plan p) \<and>
    plan_fingerprint e (ordered_plan p) = plan_fingerprint e p"
proof -
  obtain v where "canon (plan_value p) = Some v" "parse_plan (de_sha e) v = Some (ordered_plan p)"
    using reads_plan [OF assms] by (rule reads_asE)
  then show ?thesis
    by (simp add: plan_fingerprint_def canonical_text_def canon_ordered_plan)
qed

lemma demo_plan_ok: "valid_plan demo_sha (plan_fields_of demo_service demo_request)"
  by code_simp

theorem plan_round_trip_witness:
  "\<exists>v. canon (plan_value (plan_fields_of demo_service demo_request)) = Some v \<and>
     parse_plan demo_sha v = Some (ordered_plan (plan_fields_of demo_service demo_request))"
  using plan_round_trip [of demo_service "plan_fields_of demo_service demo_request"] demo_plan_ok by auto

section \<open>Creation\<close>

lemma job_in_env: "je_secrets e = je_secrets e' \<Longrightarrow> job_in e db jid = job_in e' db jid"
  using job_from_row_env [of e e'] by (simp add: job_in_def)

lemma view_of_sel:
  assumes "view_of e j = Inr v"
  shows "frozen e j = Inr (rv_frozen v)" "run_id_of (dj_id j) = Inr (rv_run v)" "rv_state v = dj_state j"
    "rv_revision v = dj_revision j" "rv_fingerprint v = dj_fingerprint j"
  using assms by (auto simp: view_of_def bindE_ok)

lemma run_ids:
  assumes "run_id_of jid = Inr rid" "job_id_of rid = Inr jid'"
  shows "jid' = jid"
proof -
  from assms(1) obtain s where s: "jid = ''job_'' @ s" "rid = ''agent_'' @ s"
    by (auto simp: run_id_of_def starts_with_iff split: if_splits)
  then show ?thesis using assms(2) by (auto simp: job_id_of_def Let_def split: if_splits)
qed

lemma created_job:
  assumes "create_job je db NsAgent agent_job_type key fp p [] steps = Inr (j, db')" "find_key db NsAgent (je_sha256 je key) = None"
    and "job_inv (je_secrets je) db" "canon p = Some v"
  shows "job_in je db' (dj_id j) = Inr j \<and> dj_state j = Queued \<and> dj_revision j = 1 \<and> dj_namespace j = NsAgent \<and>
    dj_type j = agent_job_type \<and> dj_fingerprint j = fp \<and> dj_payload j = v \<and> map js_name (dj_steps j) = steps"
  using assms(1)
proof (cases rule: create_job_effect)
  case (stored r w)
  then show ?thesis using assms(2) by simp
next
  case (fresh jid w rows ev)
  note row = created_same_request [OF assms(3) fresh(1,3,4)]
  have "canonical_object (je_secrets je) max_job_payload_bytes p = Inr w"
    using fresh(1) unfolding validate_create_def by (elim bindE_okE) auto
  then have "w = v" using canonical_object_ok assms(4) by fastforce
  moreover have "dj_id j = jid" using job_in_row [OF fresh(4)] by metis
  ultimately show ?thesis
    using fresh(4) row(3) job_from_row_ok [OF row(2)] by (simp add: new_job_row_def same_request_def)
qed

text \<open>C23. A created run is what was asked for and can be read: when \<open>create\<close> returns for a new
  idempotency key, the run is queued at revision 1, its frozen plan is the plan of the request under
  the fingerprint of that plan, and, as long as no other connection writes, \<open>get\<close> returns the same
  view.\<close>

theorem created_run_is_readable:
  assumes "host_ok S e" "job_inv S (sw_db w)" "create_run e q key w = (Inr v, w')"
    and "find_key (sv_others e (sw_calls w) (sw_db w)) NsAgent (je_sha256 (sv_job e (sw_calls w)) key) = None"
    and "is_ok (job_id_of (rv_run v))" "sv_others e (sw_calls w') (sw_db w') = sw_db w'"
  shows "rv_state v = Queued \<and> rv_revision v = 1 \<and> rv_frozen v = ordered_plan (plan_fields_of e q) \<and>
    rv_fingerprint v = plan_fingerprint e (plan_fields_of e q) \<and> fst (get_run e (rv_run v) w') = Inr v"
proof -
  let ?je = "sv_job e (sw_calls w)" and ?db = "sv_others e (sw_calls w) (sw_db w)"
  from assms(3) obtain p j db' where m: "make_plan e q = Some p"
    and c: "create_job ?je ?db NsAgent agent_job_type key (plan_fingerprint e p) (plan_value p) [] [agent_step_name] = Inr (j, db')"
    and v: "view_of e j = Inr v" and w': "w' = \<lparr>sw_db = db', sw_calls = Suc (sw_calls w)\<rparr>"
    by (auto simp: create_run_def durable_ok)
  have p: "p = plan_fields_of e q" "valid_plan (de_sha e) p"
    using m by (auto simp: make_plan_def Let_def check_def split: if_splits)
  have sec: "je_secrets (sv_job e n) = S" for n using assms(1) by (simp add: host_ok_def)
  have inv: "job_inv (je_secrets ?je) ?db" unfolding sec by (rule others_inv [OF assms(1,2)])
  obtain x where x: "canon (plan_value p) = Some x" "parse_plan (de_sha e) x = Some (ordered_plan p)"
    using reads_plan [OF p(2)] by (rule reads_asE)
  note j = created_job [OF c assms(4) inv x(1)] and vs = view_of_sel [OF v]
  have "frozen e j = Inr (ordered_plan p)" using vs(1) x(2) j by (auto simp: frozen_def ok_simps)
  moreover obtain jid where "job_id_of (rv_run v) = Inr jid" using assms(5) by (auto simp: is_ok_iff)
  then have "job_id_of (rv_run v) = Inr (dj_id j)" using run_ids [OF vs(2)] by simp
  moreover have "job_in (sv_job e (sw_calls w')) db' (dj_id j) = Inr j"
    using j job_in_env [of ?je "sv_job e (sw_calls w')"] sec by simp
  ultimately show ?thesis
    using j vs v p(1) assms(6) w'
    by (simp add: get_run_def owned_job_def bindW_def liftW_def retW_def repo_read_def Let_def get_job_def)
qed

lemma demo_create: "create_run demo_service demo_request ''k1'' demo_world = (Inr (projr (fst demo_created)), demo_queued)"
  using demo_created_eq unfolding demo_created_def by (metis is_ok_iff prod.collapse sum.sel(2))

theorem created_run_is_readable_witness:
  "fst (get_run demo_service ''agent_0x0'' demo_queued) = Inr (projr (fst demo_created)) \<and>
   rv_frozen (projr (fst demo_created)) = ordered_plan (plan_fields_of demo_service demo_request)"
proof -
  have "is_ok (job_id_of ''agent_0x0'')" by code_simp
  moreover have "find_key (sw_db demo_world) NsAgent h = None" for h by (simp add: demo_world_def empty_db_def find_key_def)
  ultimately show ?thesis
    using created_run_is_readable [OF demo_host demo_world_inv(1) demo_create] demo_created_eq by simp
qed

section \<open>The journal\<close>

text \<open>C25. The event log is the trace: if no other connection touches the decision log of the job and it
  holds no decision yet, then after a run inside the service it holds exactly one decision event for
  each entry of the trace, in the same order, and each is read back as the summary of its entry, with
  the step and tool call counters of the moment the entry was recorded: the entry's decision index, one
  less for the steps if the decision was malformed and one less for the tool calls unless this decision's
  tool call ran.\<close>

theorem journal_is_trace:
  assumes "host_ok S e" "journal_private e jid" "job_inv S (sw_db w)" "journal (sw_db w) jid = []"
    and "run oc cx (durable_agent_env e m jid ms) goal w = Inr r"
  shows "list_all2 (\<lambda>t col. \<exists>v. col = Json v \<and> parse_event v = Some (summary_of_entry t
        (if te_kind t = ''invalid'' then te_index t - 1 else te_index t)
        (if te_outcome t = ''observed'' \<or> te_outcome t = ''failed'' then te_index t else te_index t - 1)))
    (res_trace r) (journal (sw_db (res_world r)) jid)"
proof -
  have "journal_world S e jid [] w" using assms(3,4) by (simp add: journal_world_def)
  from store_journal.run_post [OF this, of oc cx m ms goal] assms(5)
  have "journal_world S e jid (res_trace r) (res_world r)" by (simp add: store_journal.at_end_def)
  then have "list_all2 journalled (res_trace r) (journal (sw_db (res_world r)) jid)"
    using assms(1,2) by (simp add: journal_world_def)
  then have "list_all2 (\<lambda>t col. \<exists>v. col = Json v \<and> parse_event v = Some (entry_summary t))
    (res_trace r) (journal (sw_db (res_world r)) jid)"
  proof (rule list_all2_mono)
    fix t col assume "journalled t col"
    then obtain v where v: "valid_event (entry_summary t)" "canon (event_value (entry_summary t)) = Some v" "col = Json v"
      by (auto simp: journalled_def)
    have "parse_event v = Some (entry_summary t)" using reads_event [OF v(1)] v(2) by (auto elim: reads_asE)
    with v(3) show "\<exists>v. col = Json v \<and> parse_event v = Some (entry_summary t)" by blast
  qed
  then show ?thesis by (simp add: entry_summary_def entry_steps_def entry_tools_def)
qed

text \<open>A model whose first answer is malformed: the trace has one entry.\<close>

definition demo_noise :: decision_model where
  "demo_noise = \<lparr>dm_requires_provider = False, dm_protected = [], dm_decide = (\<lambda>n _. Answered (PInt 1))\<rparr>"

definition demo_noise_run :: "store_world + store_world agent_result" where
  "demo_noise_run = run (demo_oc None) demo_cx (durable_agent_env demo_service demo_noise ''job_0x0'' 8) ''Summarize sales'' demo_running"

lemma demo_noise_ok: "case demo_noise_run of Inl _ \<Rightarrow> False | Inr r \<Rightarrow> map te_outcome (res_trace r) = [''rejected'']"
  by code_simp

theorem journal_is_trace_witness: "length (journal (sw_db (res_world (projr demo_noise_run))) ''job_0x0'') = 1"
proof -
  obtain r where r: "demo_noise_run = Inr r" "map te_outcome (res_trace r) = [''rejected'']"
    using demo_noise_ok by (auto split: sum.splits)
  have "journal (sw_db demo_running) ''job_0x0'' = []" by code_simp
  from journal_is_trace [OF demo_host _ demo_running_inv(1) this r(1) [unfolded demo_noise_run_def]]
  have "length (res_trace r) = length (journal (sw_db (res_world r)) ''job_0x0'')"
    by (auto simp: journal_private_def dest: list_all2_lengthD)
  moreover have "length (res_trace r) = 1" using r(2) by auto
  ultimately show ?thesis unfolding r(1) by simp
qed

section \<open>Finishing\<close>

text \<open>C26. A finished run is on record.  Let the job be in one of the states \<open>A\<close>, running or cancelling, and
  let the other connections keep it in \<open>A\<close> (with both states in \<open>A\<close> they may request its cancellation
  but do not end it).  When \<open>_finish\<close> returns, the row carries the end that the result calls for:
  succeeded exactly for a completed result, failed with the result's failure code for any other, and
  cancelled only if the job could be cancelling; and whoever reads the job then gets that state and
  the durable result of this very run.\<close>

theorem finish_is_on_record:
  assumes "orchestrator_ok oc" "short_texts cx" "run oc cx env goal w0 = Inr r"
    and "host_ok S e" "job_inv S (sw_db w)" "finish k e jid r w = (Inr u, w')"
    and "A \<subseteq> {Running, Cancelling}" "job_within A (sw_db w) jid" "others_keep A e jid"
  shows "\<exists>row. find_job (sw_db w') jid = Some row \<and>
    (jr_state row = Succeeded \<and> res_status r = Completed \<and> jr_failure_code row = None \<and> Running \<in> A \<or>
     jr_state row = Failed \<and> res_status r \<noteq> Completed \<and> jr_failure_code row = Some (failure_code_of r) \<and> Running \<in> A \<or>
     jr_state row = Cancelled \<and> Cancelling \<in> A) \<and>
    (\<forall>je. je_secrets je = S \<longrightarrow> (\<exists>j. get_job je (sw_db w') jid = Inr j \<and> dj_state j = jr_state row \<and>
       stored_result j = Inr (Some (durable_fields r (jr_state row = Cancelled)))))"
proof -
  have keys: "map fst (res_per_tool r) = tool_names" using run_fields_valid [OF assms(1-3)] by blast
  obtain row where row: "find_job (sw_db w') jid = Some row" "reports r row"
    "if jr_state row = Cancelled then Cancelling \<in> A else Running \<in> A"
    using finish_ends [OF assms(6,9,8,7)] by blast
  have inv: "job_inv S (sw_db w')"
    using world_path_inv [OF assms(4) _ assms(5)] followsD [OF finish_follows assms(6)] by blast
  have "\<exists>j. get_job je (sw_db w') jid = Inr j \<and> dj_state j = jr_state row \<and>
       stored_result j = Inr (Some (durable_fields r (jr_state row = Cancelled)))" if "je_secrets je = S" for je
  proof -
    note r = find_job_Some [OF row(1)]
    have "row \<in> set (db_jobs (sw_db w'))" "jr_id row = jid" using r by auto
    with inv_reads_row [OF inv that, of row] obtain j where
      j: "job_in je (sw_db w') jid = Inr j" "job_from_row je (sw_db w') row = Inr j" by blast
    have "dj_state j = jr_state row" using job_in_row [OF j(1)] row(1) by (metis option.inject)
    with j reports_reads_back [OF row(2) keys j(2)] show ?thesis by (simp add: get_job_def)
  qed
  with row show ?thesis by (intro exI [of _ row]) (auto simp: reports_def)
qed

text \<open>The failed result of a run on a model that is not available.\<close>

definition demo_silent :: "unit agent_env" where
  "demo_silent = (demo_agent None)\<lparr>ev_decide := \<lambda>_ _. ModelUnavailable\<rparr>"

definition demo_failed :: "unit agent_result" where
  "demo_failed = projr (run (demo_oc None) demo_cx demo_silent ''Summarize sales'' ())"

definition demo_finish :: "(job_error + unit) \<times> store_world" where
  "demo_finish = finish 3 demo_service ''job_0x0'' demo_failed demo_running"

lemma demo_failed_run: "run (demo_oc None) demo_cx demo_silent ''Summarize sales'' () = Inr demo_failed"
proof -
  have "is_ok (run (demo_oc None) demo_cx demo_silent ''Summarize sales'' ())" by code_simp
  then show ?thesis by (auto simp: demo_failed_def is_ok_iff)
qed

lemma demo_finish_ok: "is_ok (fst demo_finish)"
  by code_simp

theorem finish_is_on_record_witness:
  "\<exists>row. find_job (sw_db (snd demo_finish)) ''job_0x0'' = Some row \<and> jr_state row = Failed \<and>
     jr_failure_code row = Some ''decision_provider_unavailable''"
proof -
  have f: "finish 3 demo_service ''job_0x0'' demo_failed demo_running = (Inr (), snd demo_finish)"
    using demo_finish_ok unfolding demo_finish_def by (cases "finish 3 demo_service ''job_0x0'' demo_failed demo_running") (auto simp: is_ok_iff)
  have "map_option jr_state (find_job (sw_db demo_running) ''job_0x0'') = Some Running" by code_simp
  then have now: "job_within {Running} (sw_db demo_running) ''job_0x0''" by (auto simp: job_within_def)
  have keep: "others_keep {Running} demo_service ''job_0x0''" by (simp add: others_keep_def)
  have st: "res_status demo_failed \<noteq> Completed" "failure_code_of demo_failed = ''decision_provider_unavailable''" by code_simp+
  have short: "short_texts demo_cx" using english_short by (simp add: demo_cx_def)
  from finish_is_on_record [OF demo_oc_ok(1) short demo_failed_run demo_host demo_running_inv(1) f _ now keep] st
  show ?thesis by auto
qed

end
