(* ===== verification/Py_Dynamic.thy ===== *)
theory Py_Dynamic
  imports Py_Value
begin

text \<open>
  What Python does with values whose type is only known at run time: equality, truth,
  \<open>dict.get\<close>, \<open>str\<close>, \<open>repr\<close>, iteration and the \<open>dict\<close> constructor.

  \<^item> A row is the association list of a JSON object with string keys.
  \<^item> A float equals an integer when its text ends in \<open>.0\<close>; the larger floats that Python
    prints with an exponent are never compared with integers that large.
\<close>

section \<open>Equality and truth\<close>

type_synonym row = "(pykey \<times> pyval) list"

fun digits :: "nat \<Rightarrow> string \<Rightarrow> nat option" where
  "digits n [] = Some n"
| "digits n (c # s) = (if is_digit c then digits (10 * n + (ord c - 48)) s else None)"

definition float_int :: "string \<Rightarrow> int option" where
  "float_int s =
    (if 2 < length s \<and> ends_with ''.0'' s then
       (let t = take (length s - 2) s
        in if starts_with ''-'' t then map_option (\<lambda>n. - int n) (digits 0 (tl t))
           else map_option int (digits 0 t))
     else None)"

fun norm_py :: "pyval \<Rightarrow> pyval" where
  "norm_py (PBool b) = PInt (if b then 1 else 0)"
| "norm_py (PFloat s) = (case float_int s of None \<Rightarrow> PFloat s | Some i \<Rightarrow> PInt i)"
| "norm_py (PList vs) = PList (map norm_py vs)"
| "norm_py (PTuple vs) = PTuple (map norm_py vs)"
| "norm_py (PDict kvs) =
     PDict (sort_key (\<lambda>kv. key_str (fst kv)) (map (\<lambda>kv. (fst kv, norm_py (snd kv))) kvs))"
| "norm_py v = v"

definition py_eq :: "pyval \<Rightarrow> pyval \<Rightarrow> bool" where
  "py_eq v w \<longleftrightarrow> norm_py v = norm_py w"

fun hashable :: "pyval \<Rightarrow> bool" where
  "hashable (PList vs) = False"
| "hashable (PDict kvs) = False"
| "hashable (PTuple vs) = (\<forall>v \<in> set vs. hashable v)"
| "hashable v = True"

fun py_truth :: "pyval \<Rightarrow> bool" where
  "py_truth PNone = False"
| "py_truth (PBool b) = b"
| "py_truth (PInt i) = (i \<noteq> 0)"
| "py_truth (PFloat s) = (s \<noteq> ''0.0'' \<and> s \<noteq> ''-0.0'')"
| "py_truth (PStr s) = (s \<noteq> [])"
| "py_truth (PList vs) = (vs \<noteq> [])"
| "py_truth (PTuple vs) = (vs \<noteq> [])"
| "py_truth (PDict kvs) = (kvs \<noteq> [])"
| "py_truth POther = True"

fun is_str :: "pyval \<Rightarrow> bool" where
  "is_str (PStr s) = True"
| "is_str v = False"

text \<open>\<open>row.get(key)\<close>.\<close>

definition fetch :: "row \<Rightarrow> string \<Rightarrow> pyval" where
  "fetch r k = (case dict_get r k of None \<Rightarrow> PNone | Some v \<Rightarrow> v)"

lemma norm_py_str [simp]: "norm_py v = PStr s \<longleftrightarrow> v = PStr s"
  by (cases v) (auto split: option.splits)

lemma py_eq_str [simp]: "py_eq v (PStr s) \<longleftrightarrow> v = PStr s" "py_eq (PStr s) v \<longleftrightarrow> v = PStr s"
  by (auto simp: py_eq_def) (metis norm_py_str)

lemma py_eq_refl [simp]: "py_eq v v"
  by (simp add: py_eq_def)

lemma py_eq_int [simp]: "py_eq (PInt i) (PInt j) \<longleftrightarrow> i = j"
  by (simp add: py_eq_def)

lemma is_str_iff: "is_str v \<longleftrightarrow> (\<exists>s. v = PStr s)"
  by (cases v) auto

section \<open>Text and conversions\<close>

text \<open>
  \<open>repr\<close> of a string: double quotes only when the text has an apostrophe and no double
  quote; a backslash, the quote and every unprintable character are escaped.
\<close>

definition unprintable :: "char \<Rightarrow> bool" where
  "unprintable c \<longleftrightarrow> ord c < 32 \<or> (127 \<le> ord c \<and> ord c \<le> 160) \<or> ord c = 173"

definition repr_char :: "char \<Rightarrow> char \<Rightarrow> string" where
  "repr_char q c =
    (if c = q \<or> ord c = 92 then [CHR 0x5C, c]
     else if ord c = 9 then [CHR 0x5C, CHR ''t'']
     else if ord c = 10 then [CHR 0x5C, CHR ''n'']
     else if ord c = 13 then [CHR 0x5C, CHR ''r'']
     else if unprintable c then [CHR 0x5C, CHR ''x'', hex_digit (ord c div 16), hex_digit (ord c mod 16)]
     else [c])"

definition repr_str :: "string \<Rightarrow> string" where
  "repr_str s =
    (let q = (if CHR 0x27 \<in> set s \<and> CHR 0x22 \<notin> set s then CHR 0x22 else CHR 0x27)
     in [q] @ concat (map (repr_char q) s) @ [q])"

text \<open>The values met here come from JSON, so keys are strings and \<open>POther\<close> does not occur.\<close>

fun py_repr :: "pyval \<Rightarrow> string" where
  "py_repr PNone = ''None''"
| "py_repr (PBool b) = (if b then ''True'' else ''False'')"
| "py_repr (PInt i) = dec_int i"
| "py_repr (PFloat s) = s"
| "py_repr (PStr s) = repr_str s"
| "py_repr (PList vs) = ''['' @ join '', '' (map py_repr vs) @ '']''"
| "py_repr (PTuple vs) = ''('' @ join '', '' (map py_repr vs) @ (if length vs = 1 then '','' else []) @ '')''"
| "py_repr (PDict kvs) =
     ''{'' @ join '', '' (map (\<lambda>kv. repr_str (key_str (fst kv)) @ '': '' @ py_repr (snd kv)) kvs) @ ''}''"
| "py_repr POther = []"

fun py_str :: "pyval \<Rightarrow> string" where
  "py_str (PStr s) = s"
| "py_str v = py_repr v"

text \<open>\<open>v or w\<close>.\<close>

definition py_or :: "pyval \<Rightarrow> pyval \<Rightarrow> pyval" where
  "py_or v w = (if py_truth v then v else w)"

text \<open>The elements an iteration yields; \<open>None\<close> is the \<open>TypeError\<close> of a value that has none.\<close>

fun py_iter :: "pyval \<Rightarrow> pyval list option" where
  "py_iter (PList vs) = Some vs"
| "py_iter (PTuple vs) = Some vs"
| "py_iter (PStr s) = Some (map (\<lambda>c. PStr [c]) s)"
| "py_iter (PDict kvs) = Some (map (\<lambda>kv. case fst kv of KStr s \<Rightarrow> PStr s | KOther \<Rightarrow> POther) kvs)"
| "py_iter v = None"

text \<open>\<open>dict(v)\<close>: a mapping is copied, anything else is iterated as pairs; \<open>None\<close> is the exception.\<close>

definition as_key :: "pyval \<Rightarrow> pykey option" where
  "as_key v = (case v of PStr s \<Rightarrow> Some (KStr s) | _ \<Rightarrow> if hashable v then Some KOther else None)"

definition as_pair :: "pyval \<Rightarrow> (pykey \<times> pyval) option" where
  "as_pair v = (case py_iter v of
       Some [k, w] \<Rightarrow> map_option (\<lambda>key. (key, w)) (as_key k)
     | _ \<Rightarrow> None)"

definition put_key :: "row \<Rightarrow> pykey \<times> pyval \<Rightarrow> row" where
  "put_key r kv =
    (if fst kv \<in> fst ` set r then map (\<lambda>p. if fst p = fst kv then kv else p) r else r @ [kv])"

definition py_dict :: "pyval \<Rightarrow> row option" where
  "py_dict v = (case v of
       PDict kvs \<Rightarrow> Some kvs
     | _ \<Rightarrow> (case py_iter v of
          None \<Rightarrow> None
        | Some vs \<Rightarrow> map_option (foldl put_key []) (those (map as_pair vs))))"

lemma fetch_Cons [simp]: "fetch ((KStr k, v) # r) k' = (if k = k' then v else fetch r k')"
  by (simp add: fetch_def dict_get_def)

lemma fetch_Nil [simp]: "fetch [] k = PNone"
  by (simp add: fetch_def dict_get_def)

section \<open>Reading what was encoded\<close>

lemma map_of_sort_key: "distinct (map fst xs) \<Longrightarrow> map_of (sort_key f xs) = map_of xs"
proof
  fix k
  assume "distinct (map fst xs)"
  moreover from this have "distinct (map fst (sort_key f xs))" by (simp add: distinct_map)
  ultimately have "map_of (sort_key f xs) k = Some v \<longleftrightarrow> map_of xs k = Some v" for v by simp
  then show "map_of (sort_key f xs) k = map_of xs k" by (metis not_Some_eq)
qed

text \<open>Encoding and decoding an object encodes and decodes each of its values.\<close>

lemma coded_fetch:
  assumes "those (map (\<lambda>kv. case fst kv of KStr s \<Rightarrow> map_option (\<lambda>w. (KStr s, w)) (c (snd kv)) | KOther \<Rightarrow> None) kvs) = Some xs"
    "distinct (map fst kvs)" "c PNone = Some PNone"
  shows "c (fetch kvs s) = Some (fetch (sort_key (\<lambda>kv. key_str (fst kv)) xs) s)"
proof -
  let ?f = "\<lambda>kv. case fst kv of KStr s \<Rightarrow> map_option (\<lambda>w. (KStr s, w)) (c (snd kv)) | KOther \<Rightarrow> None"
  from assms(1) have "map ?f kvs = map Some xs" by (simp add: those_Some_iff)
  then have "map fst kvs = map fst xs \<and> c (fetch kvs s) = Some (fetch xs s)"
  proof (induction kvs arbitrary: xs)
    case (Cons kv kvs)
    then obtain k w ys where "xs = (KStr k, w) # ys" "fst kv = KStr k" "c (snd kv) = Some w" "map ?f kvs = map Some ys"
      by (cases xs) (auto split: pykey.splits)
    with Cons.IH [of ys] show ?case by (cases kv) auto
  qed (simp add: assms(3))
  moreover from this assms(2) have "map_of (sort_key (\<lambda>kv. key_str (fst kv)) xs) = map_of xs"
    by (intro map_of_sort_key) simp
  ultimately show ?thesis by (simp add: fetch_def dict_get_def)
qed

lemma canon_fetch:
  assumes "canon (PDict kvs) = Some (PDict kvs')" "distinct (map fst kvs)"
  shows "canon (fetch kvs s) = Some (fetch kvs' s)"
  using assms(1) by (auto intro: coded_fetch [OF _ assms(2)])

lemma canon_fetch_dict:
  assumes "canon (PDict kvs) = Some (PDict kvs')" "distinct (map fst kvs)" "fetch kvs s = PDict data"
  obtains data' where "fetch kvs' s = PDict data'" "canon (PDict data) = Some (PDict data')"
proof -
  have c: "canon (PDict data) = Some (fetch kvs' s)"
    using canon_fetch [OF assms(1,2), of s] unfolding assms(3) .
  then obtain data' where "PDict data' = fetch kvs' s" by auto
  then have d: "fetch kvs' s = PDict data'" by simp
  show thesis by (rule that [OF d]) (use c in \<open>simp only: d\<close>)
qed

end
