(* ===== verification/Ledger_Store.thy ===== *)
theory Ledger_Store
  imports Py_Dynamic "HOL-Library.AList"
begin

text \<open>
  What the two request ledgers of \<open>src/evaluation/\<close> share: rows as JSON objects,
  membership in them, the ledger file with its torn endings and its
  lock file, and programs that may die between any two effects.

  \<^item> An object whose keys are not strings does not occur (\<open>send\<close> is annotated
    \<open>dict[str, Any]\<close>); \<open>dumped\<close> refuses one.
  \<^item> The directory exists and the file system carries out what it is asked; what may happen
    at any time is that the process dies.
\<close>

text \<open>
  \<open>json.loads(json.dumps(v, ensure_ascii=False, allow_nan=False))\<close>; \<open>None\<close> is the
  \<open>TypeError\<close> or \<open>ValueError\<close> of \<open>json.dumps\<close>.
\<close>

fun dumped :: "pyval \<Rightarrow> pyval option" where
  "dumped PNone = Some PNone"
| "dumped (PBool b) = Some (PBool b)"
| "dumped (PInt i) = Some (PInt i)"
| "dumped (PFloat s) = (if finite_float s then Some (PFloat s) else None)"
| "dumped (PStr s) = Some (PStr s)"
| "dumped (PList vs) = map_option PList (those (map dumped vs))"
| "dumped (PTuple vs) = map_option PList (those (map dumped vs))"
| "dumped (PDict kvs) =
     map_option PDict
       (those (map (\<lambda>kv. case fst kv of
                            KStr s \<Rightarrow> map_option (\<lambda>w. (KStr s, w)) (dumped (snd kv))
                          | KOther \<Rightarrow> None) kvs))"
| "dumped POther = None"

definition dumped_row :: "row \<Rightarrow> row option" where
  "dumped_row r =
     those (map (\<lambda>kv. case fst kv of
                         KStr s \<Rightarrow> map_option (\<lambda>w. (KStr s, w)) (dumped (snd kv))
                       | KOther \<Rightarrow> None) r)"

lemma dumped_dict: "dumped (PDict r) = map_option PDict (dumped_row r)"
  by (simp add: dumped_row_def)

lemma dumped_row_Nil [simp]: "dumped_row [] = Some []"
  by (simp add: dumped_row_def)

lemma dumped_row_Cons [simp]:
  "dumped_row ((KStr k, v) # r) =
     (case dumped v of None \<Rightarrow> None | Some w \<Rightarrow> map_option ((#) (KStr k, w)) (dumped_row r))"
  by (simp add: dumped_row_def split: option.splits)

lemma dumped_row_fetch:
  "dumped_row r = Some r' \<Longrightarrow> dumped (fetch r k) = Some (fetch r' k)"
proof (induction r arbitrary: r')
  case Nil
  then show ?case by (simp add: fetch_def dict_get_def)
next
  case (Cons kv r)
  obtain q v where kv: "kv = (q, v)" by (cases kv)
  show ?case
  proof (cases q)
    case (KStr s)
    with Cons.prems kv obtain w r'' where w: "dumped v = Some w" "dumped_row r = Some r''"
      "r' = (KStr s, w) # r''" by (auto split: option.splits)
    then show ?thesis using Cons.IH [OF w(2)] kv KStr by (simp add: fetch_def dict_get_def)
  next
    case KOther
    with Cons.prems kv show ?thesis by (simp add: dumped_row_def)
  qed
qed

text \<open>A record is one line: \<open>str.splitlines\<close> also breaks at U+0085, which \<open>json.dumps\<close> does not escape.\<close>

definition line_text :: "string \<Rightarrow> bool" where
  "line_text s \<longleftrightarrow> list_all (\<lambda>c. c \<noteq> CHR 0x85) s"

fun line_value :: "pyval \<Rightarrow> bool" where
  "line_value (PStr s) = line_text s"
| "line_value (PList vs) = list_all line_value vs"
| "line_value (PTuple vs) = list_all line_value vs"
| "line_value (PDict kvs) = list_all (\<lambda>kv. line_text (key_str (fst kv)) \<and> line_value (snd kv)) kvs"
| "line_value v = True"

definition one_line :: "row \<Rightarrow> bool" where
  "one_line r \<longleftrightarrow> line_value (PDict r)"

section \<open>The ledger file and the process that writes it\<close>

text \<open>
  \<open>Unterminated\<close>: the newline of the last record is missing; the next record lands on the
  same line.  \<open>Torn\<close>: some line is no JSON object.
\<close>

datatype line_end = Clean | Unterminated | Torn

text \<open>What a process that dies while it appends leaves behind.\<close>

datatype tear = Untouched | Partial | Whole

text \<open>An exception as far as the ledgers look at it; \<open>None\<close> is an absent attribute.\<close>

record provider_exn =
  exn_name :: string
  exn_text :: string
  exn_transport :: bool
  exn_operation :: bool
  exn_status :: "pyval option"
  exn_retryable :: "pyval option"
  exn_type :: "pyval option"
  exn_metadata :: "pyval option"

datatype ledger_error =
    Incomplete string
  | Bad_value string
  | Type_error
  | Key_error
  | Unserializable
  | Provider_failure provider_exn
  | Interrupt

datatype 'a fate = Done 'a | Raised ledger_error | Died

text \<open>
  \<open>outside\<close> is whatever the provider call changes; \<open>life\<close> is the number of effects the
  process still performs before it dies, \<open>None\<close> when it does not die.
\<close>

record 'w machine =
  rows :: "row list"
  ending :: line_end
  locked :: bool
  outside :: 'w
  life :: "nat option"
  tearing :: tear

type_synonym ('w, 'a) proc = "'w machine \<Rightarrow> 'a fate \<times> 'w machine"

definition returnP :: "'a \<Rightarrow> ('w, 'a) proc" where
  "returnP x = (\<lambda>s. (Done x, s))"

definition raiseP :: "ledger_error \<Rightarrow> ('w, 'a) proc" where
  "raiseP e = (\<lambda>s. (Raised e, s))"

definition bindP :: "('w, 'a) proc \<Rightarrow> ('a \<Rightarrow> ('w, 'b) proc) \<Rightarrow> ('w, 'b) proc" where
  "bindP m f = (\<lambda>s. case m s of
       (Done x, t) \<Rightarrow> f x t
     | (Raised e, t) \<Rightarrow> (Raised e, t)
     | (Died, t) \<Rightarrow> (Died, t))"

definition liftP :: "ledger_error + 'a \<Rightarrow> ('w, 'a) proc" where
  "liftP m = (case m of Inl e \<Rightarrow> raiseP e | Inr x \<Rightarrow> returnP x)"

text \<open>\<open>try: m finally: c\<close>; a process that died runs no \<open>finally\<close>.\<close>

definition finallyP :: "('w, 'a) proc \<Rightarrow> ('w, unit) proc \<Rightarrow> ('w, 'a) proc" where
  "finallyP m c = (\<lambda>s. case m s of
       (Died, t) \<Rightarrow> (Died, t)
     | (r, t) \<Rightarrow> (case c t of
           (Done _, u) \<Rightarrow> (r, u)
         | (Raised e, u) \<Rightarrow> (Raised e, u)
         | (Died, u) \<Rightarrow> (Died, u)))"

definition alive :: "'w machine \<Rightarrow> bool" where
  "alive s \<longleftrightarrow> life s \<noteq> Some 0"

definition spend :: "'w machine \<Rightarrow> 'w machine" where
  "spend s = s\<lparr>life := map_option (\<lambda>n. n - 1) (life s)\<rparr>"

definition effect :: "('w machine \<Rightarrow> 'w machine) \<Rightarrow> ('w, unit) proc" where
  "effect f = (\<lambda>s. if alive s then (Done (), f (spend s)) else (Died, s))"

definition put_line :: "row \<Rightarrow> line_end \<Rightarrow> 'w machine \<Rightarrow> 'w machine" where
  "put_line r e s = s\<lparr>rows := rows s @ [r], ending := (if ending s = Clean then e else Torn)\<rparr>"

definition torn_line :: "row \<Rightarrow> 'w machine \<Rightarrow> 'w machine" where
  "torn_line r s = (case tearing s of
       Untouched \<Rightarrow> s
     | Partial \<Rightarrow> s\<lparr>ending := Torn\<rparr>
     | Whole \<Rightarrow> put_line r Unterminated s)"

definition append_record :: "row \<Rightarrow> ('w, unit) proc" where
  "append_record r = (\<lambda>s. case dumped_row r of
       None \<Rightarrow> (Raised Unserializable, s)
     | Some r' \<Rightarrow> if alive s then (Done (), put_line r' Clean (spend s)) else (Died, torn_line r' s))"

definition read_records :: "'w machine \<Rightarrow> row list option" where
  "read_records s = (if ending s \<noteq> Torn \<and> list_all one_line (rows s) then Some (rows s) else None)"

definition take_lock :: "string \<Rightarrow> ('w, unit) proc" where
  "take_lock msg = (\<lambda>s.
     if alive s then
       (if locked s then (Raised (Incomplete msg), spend s) else (Done (), (spend s)\<lparr>locked := True\<rparr>))
     else (Died, s))"

definition with_lock :: "string \<Rightarrow> ('w, 'a) proc \<Rightarrow> ('w, 'a) proc" where
  "with_lock msg m =
     bindP (take_lock msg) (\<lambda>_. finallyP m (effect (\<lambda>s. s\<lparr>locked := False\<rparr>)))"

section \<open>The provider call\<close>

datatype sent = Response pyval | Failed provider_exn | Interrupted

definition sendP :: "('w \<Rightarrow> sent \<times> 'w) \<Rightarrow> ('w, sent) proc" where
  "sendP send = (\<lambda>s.
     if alive s then (case send (outside s) of (o', w) \<Rightarrow> (Done o', (spend s)\<lparr>outside := w\<rparr>))
     else (Died, s))"

text \<open>A provider call that also notes the key of the operation it is made for.\<close>

definition noting :: "'k \<Rightarrow> ('w \<Rightarrow> sent \<times> 'w) \<Rightarrow> 'k list \<times> 'w \<Rightarrow> sent \<times> 'k list \<times> 'w" where
  "noting k send = (\<lambda>(ks, w). case send w of (o', w') \<Rightarrow> (o', k # ks, w'))"

lemma noting_keys: "noting k send x = (o', w) \<Longrightarrow> fst w = k # fst x"
  by (auto simp: noting_def split: prod.splits)

section \<open>Triples\<close>

text \<open>\<open>E\<close> holds when the program raises or the process dies.\<close>

definition triple ::
  "('w machine \<Rightarrow> bool) \<Rightarrow> ('w, 'a) proc \<Rightarrow> ('a \<Rightarrow> 'w machine \<Rightarrow> bool) \<Rightarrow> ('w machine \<Rightarrow> bool) \<Rightarrow> bool" where
  "triple P m Q E \<longleftrightarrow> (\<forall>s. P s \<longrightarrow> (case m s of (Done x, t) \<Rightarrow> Q x t | (_, t) \<Rightarrow> E t))"

named_theorems triples \<open>rules for the programs of the ledgers\<close>

lemma triple_return [triples]: "(\<And>s. P s \<Longrightarrow> Q x s) \<Longrightarrow> triple P (returnP x) Q E"
  by (simp add: triple_def returnP_def)

lemma triple_raise [triples]: "(\<And>s. P s \<Longrightarrow> E s) \<Longrightarrow> triple P (raiseP e) Q E"
  by (simp add: triple_def raiseP_def)

lemma triple_bind:
  "triple P m R E \<Longrightarrow> (\<And>x. triple (R x) (f x) Q E) \<Longrightarrow> triple P (bindP m f) Q E"
  by (fastforce simp: triple_def bindP_def split: prod.splits fate.splits)

lemma triple_weaken: "triple P m Q E \<Longrightarrow> (\<And>s. P' s \<Longrightarrow> P s) \<Longrightarrow> triple P' m Q E"
  by (simp add: triple_def)

lemma tripleI:
  assumes "\<And>s r t. P s \<Longrightarrow> m s = (r, t) \<Longrightarrow> (case r of Done x \<Rightarrow> Q x t | _ \<Rightarrow> E t)"
  shows "triple P m Q E"
  unfolding triple_def
proof (intro allI impI)
  fix s assume "P s"
  obtain r t where "m s = (r, t)" by (cases "m s")
  with assms [OF \<open>P s\<close>] show "case m s of (Done x, t) \<Rightarrow> Q x t | (_, t) \<Rightarrow> E t" by (cases r) auto
qed

lemma tripleE:
  assumes "triple P m Q E" "P s" "m s = (r, t)"
  shows "case r of Done x \<Rightarrow> Q x t | _ \<Rightarrow> E t"
  using assms unfolding triple_def by (cases r) fastforce+

lemma triple_conseq:
  assumes "triple P m Q E" "\<And>s. P' s \<Longrightarrow> P s" "\<And>x s. Q x s \<Longrightarrow> Q' x s" "\<And>s. E s \<Longrightarrow> E' s"
  shows "triple P' m Q' E'"
proof (rule tripleI)
  fix s r t assume "P' s" "m s = (r, t)"
  then have "case r of Done x \<Rightarrow> Q x t | _ \<Rightarrow> E t" using tripleE [OF assms(1)] assms(2) by blast
  then show "case r of Done x \<Rightarrow> Q' x t | _ \<Rightarrow> E' t" using assms(3, 4) by (cases r) auto
qed

lemma triple_False: "(\<And>s. \<not> P s) \<Longrightarrow> triple P m Q E"
  by (simp add: triple_def)

lemma triple_conj:
  assumes "triple P m Q E" "triple P m Q' E'"
  shows "triple P m (\<lambda>x s. Q x s \<and> Q' x s) (\<lambda>s. E s \<and> E' s)"
proof (rule tripleI)
  fix s r t assume "P s" "m s = (r, t)"
  with tripleE [OF assms(1)] tripleE [OF assms(2)]
  show "case r of Done x \<Rightarrow> Q x t \<and> Q' x t | _ \<Rightarrow> E t \<and> E' t" by (cases r) fastforce+
qed

lemma triple_finally:
  assumes m: "triple P m R E" and c: "\<And>x. triple (R x) c (\<lambda>_. Q x) E" "triple E c (\<lambda>_. E) E"
  shows "triple P (finallyP m c) Q E"
proof (rule tripleI)
  fix s r t assume "P s" and r: "finallyP m c s = (r, t)"
  obtain r1 t1 where m1: "m s = (r1, t1)" by (cases "m s")
  obtain r2 t2 where c2: "c t1 = (r2, t2)" by (cases "c t1")
  note post = tripleE [OF m \<open>P s\<close> m1]
  show "case r of Done x \<Rightarrow> Q x t | _ \<Rightarrow> E t"
  proof (cases r1)
    case (Done x)
    with post tripleE [OF c(1) _ c2, of x] m1 c2 r show ?thesis
      by (cases r2) (auto simp: finallyP_def)
  next
    case (Raised e)
    with post tripleE [OF c(2) _ c2] m1 c2 r show ?thesis
      by (cases r2) (auto simp: finallyP_def)
  next
    case Died
    with post m1 r show ?thesis by (auto simp: finallyP_def)
  qed
qed

lemma triple_lift: "(\<And>s x. P s \<Longrightarrow> m = Inr x \<Longrightarrow> Q x s) \<Longrightarrow> (\<And>s. P s \<Longrightarrow> E s) \<Longrightarrow> triple P (liftP m) Q E"
  by (cases m) (auto simp: liftP_def triple_def returnP_def raiseP_def)

lemma triple_effect:
  "(\<And>s. P s \<Longrightarrow> Q () (f (spend s))) \<Longrightarrow> (\<And>s. P s \<Longrightarrow> E s) \<Longrightarrow> triple P (effect f) Q E"
  by (simp add: triple_def effect_def)

lemma triple_append:
  assumes "\<And>s r'. P s \<Longrightarrow> dumped_row r = Some r' \<Longrightarrow> Q () (put_line r' Clean (spend s))"
    and "\<And>s. P s \<Longrightarrow> E s"
    and "\<And>s r'. P s \<Longrightarrow> dumped_row r = Some r' \<Longrightarrow> E (torn_line r' s)"
  shows "triple P (append_record r) Q E"
  using assms by (auto simp: triple_def append_record_def split: option.splits)

lemma triple_send:
  assumes "\<And>s o' w. P s \<Longrightarrow> send (outside s) = (o', w) \<Longrightarrow> Q o' ((spend s)\<lparr>outside := w\<rparr>)"
    and "\<And>s. P s \<Longrightarrow> E s"
  shows "triple P (sendP send) Q E"
  using assms by (auto simp: triple_def sendP_def split: prod.splits)

lemma triple_take_lock:
  assumes "\<And>s. P s \<Longrightarrow> Q () ((spend s)\<lparr>locked := True\<rparr>)" "\<And>s. P s \<Longrightarrow> E s" "\<And>s. P s \<Longrightarrow> E (spend s)"
  shows "triple P (take_lock msg) Q E"
  using assms by (auto simp: triple_def take_lock_def)

text \<open>A property that does not look at the lock or at the remaining effects.\<close>

definition lockless :: "('w machine \<Rightarrow> bool) \<Rightarrow> bool" where
  "lockless P \<longleftrightarrow> (\<forall>s. P (spend s) = P s) \<and> (\<forall>s b. P (s\<lparr>locked := b\<rparr>) = P s)"

lemma locklessD: "lockless P \<Longrightarrow> P (spend s) = P s" "lockless P \<Longrightarrow> P (s\<lparr>locked := b\<rparr>) = P s"
  by (auto simp: lockless_def)

lemma lockless_True [simp]: "lockless (\<lambda>_. True)"
  by (simp add: lockless_def)

lemma triple_with_lock:
  assumes "triple P m Q E" "lockless P" "lockless E" "\<And>x. lockless (Q x)" "\<And>s. P s \<Longrightarrow> E s"
    "\<And>x s. Q x s \<Longrightarrow> E s"
  shows "triple P (with_lock msg m) Q E"
  unfolding with_lock_def
proof (rule triple_bind [OF triple_take_lock [where Q = "\<lambda>_. P"]])
  fix u :: unit
  show "triple P (finallyP m (effect (\<lambda>s. s\<lparr>locked := False\<rparr>))) Q E"
    by (rule triple_finally [OF assms(1)]) (auto intro!: triple_effect simp: locklessD assms)
qed (auto simp: locklessD assms)

lemma tripleD:
  assumes "triple P m Q E" "P s" "\<And>x t. Q x t \<Longrightarrow> E t"
  shows "E (snd (m s))"
proof -
  obtain r t where m: "m s = (r, t)" by (cases "m s")
  from tripleE [OF assms(1, 2) m] assms(3) m show ?thesis by (cases r) auto
qed

lemma spend_simps [simp]:
  "rows (spend s) = rows s" "ending (spend s) = ending s" "locked (spend s) = locked s"
  "outside (spend s) = outside s" "tearing (spend s) = tearing s"
  by (simp_all add: spend_def)

lemma put_line_simps [simp]:
  "rows (put_line r e s) = rows s @ [r]" "outside (put_line r e s) = outside s"
  "locked (put_line r e s) = locked s" "life (put_line r e s) = life s"
  "ending (put_line r e s) = (if ending s = Clean then e else Torn)"
  by (simp_all add: put_line_def)

lemma torn_line_outside [simp]: "outside (torn_line r s) = outside s"
  by (simp add: torn_line_def split: tear.splits)

lemma torn_line_rows: "rows (torn_line r s) \<in> {rows s, rows s @ [r]}"
  by (simp add: torn_line_def split: tear.splits)

lemma read_records_locked [simp]: "read_records (s\<lparr>locked := b\<rparr>) = read_records s"
  by (simp add: read_records_def)

lemma alive_immortal [simp]: "life s = None \<Longrightarrow> alive s"
  by (simp add: alive_def)

lemma spend_immortal [simp]: "life s = None \<Longrightarrow> spend s = s"
  by (simp add: spend_def)

end
