(* ===== verification/Ledger_Rows.thy ===== *)
theory Ledger_Rows
  imports Ledger_Store
begin

text \<open>
  The validation both ledgers of \<open>src/evaluation/\<close> make of their rows before they use
  them: consecutive slots, one outcome per slot, outcomes that repeat the identity of
  their reservation.  The locale states what a ledger that is only ever extended by
  reservations of the next slot and by outcomes of open slots may rely on.
\<close>

section \<open>Checks\<close>

definition reserved :: "row \<Rightarrow> bool" where
  "reserved r \<longleftrightarrow> fetch r ''event'' = PStr ''reserved''"

definition reserves_of :: "row list \<Rightarrow> row list" where
  "reserves_of rs = filter reserved rs"

definition slots_ok :: "row list \<Rightarrow> bool" where
  "slots_ok res = list_all2 (\<lambda>r n. py_eq (fetch r ''slot'') (PInt (int n))) res [1..<Suc (length res)]"

text \<open>\<open>v in {...}\<close>, which hashes \<open>v\<close> first.\<close>

definition in_set :: "pyval \<Rightarrow> pyval list \<Rightarrow> ledger_error + bool" where
  "in_set v vs = (if hashable v then Inr (list_ex (py_eq v) vs) else Inl Type_error)"

definition ledger_events :: "pyval list" where
  "ledger_events = [PStr ''reserved'', PStr ''completed'', PStr ''error'']"

text \<open>
  The loop over the rows: \<open>good\<close> is what it requires of a reservation, \<open>keys\<close> the identity
  an outcome must share with the reservation of its slot, \<open>seen\<close> the slots that have an outcome.
\<close>

fun check_rows ::
  "string \<Rightarrow> string list \<Rightarrow> (row \<Rightarrow> ledger_error + unit) \<Rightarrow> row list \<Rightarrow> int list \<Rightarrow> row list \<Rightarrow> ledger_error + unit"
where
  "check_rows name keys good res seen [] = Inr ()"
| "check_rows name keys good res seen (r # rs) =
     bindE (in_set (fetch r ''event'') ledger_events) (\<lambda>known.
     bindE (ensure known (Incomplete (''invalid '' @ name @ '' event''))) (\<lambda>_.
     if reserved r then bindE (good r) (\<lambda>_. check_rows name keys good res seen rs)
     else (case fetch r ''slot'' of
         PInt n \<Rightarrow>
           if n < 1 \<or> int (length res) < n \<or> n \<in> set seen
           then Inl (Incomplete (''invalid '' @ name @ '' completion''))
           else if list_ex (\<lambda>k. \<not> py_eq (fetch r k) (fetch (res ! nat (n - 1)) k)) keys
           then Inl (Incomplete (name @ '' completion identity mismatch''))
           else check_rows name keys good res (n # seen) rs
       | _ \<Rightarrow> Inl (Incomplete (''invalid '' @ name @ '' completion'')))))"

section \<open>Logs that grow by reservations and outcomes\<close>

text \<open>\<open>slot_of\<close> is the slot of a row whose slot is an integer, 0 otherwise.\<close>

definition slot_of :: "row \<Rightarrow> int" where
  "slot_of r = (case fetch r ''slot'' of PInt n \<Rightarrow> n | _ \<Rightarrow> 0)"

definition outcome_row :: "row \<Rightarrow> bool" where
  "outcome_row r \<longleftrightarrow> fetch r ''event'' = PStr ''completed'' \<or> fetch r ''event'' = PStr ''error''"

definition outcome_slots :: "row list \<Rightarrow> int list" where
  "outcome_slots rs = map slot_of (filter (\<lambda>r. \<not> reserved r) rs)"

definition next_reserve :: "row list \<Rightarrow> row \<Rightarrow> bool" where
  "next_reserve rs r \<longleftrightarrow> reserved r \<and> fetch r ''slot'' = PInt (int (length (reserves_of rs)) + 1)"

definition next_outcome :: "string list \<Rightarrow> row list \<Rightarrow> row \<Rightarrow> bool" where
  "next_outcome keys rs r \<longleftrightarrow> outcome_row r \<and>
     (\<exists>q \<in> set (reserves_of rs). fetch r ''slot'' = fetch q ''slot'' \<and>
        slot_of q \<notin> set (outcome_slots rs) \<and> (\<forall>k \<in> set keys. fetch r k = fetch q k))"

inductive grown :: "(row \<Rightarrow> bool) \<Rightarrow> string list \<Rightarrow> nat \<Rightarrow> row list \<Rightarrow> bool"
  for own :: "row \<Rightarrow> bool" and keys :: "string list" and limit :: nat
where
  grown_empty: "grown own keys limit []"
| grown_reserve: "grown own keys limit rs \<Longrightarrow> own r \<Longrightarrow> length (reserves_of rs) < limit
    \<Longrightarrow> next_reserve rs r \<Longrightarrow> grown own keys limit (rs @ [r])"
| grown_outcome: "grown own keys limit rs \<Longrightarrow> own r \<Longrightarrow> next_outcome keys rs r
    \<Longrightarrow> grown own keys limit (rs @ [r])"

lemma outcome_not_reserved: "outcome_row r \<Longrightarrow> \<not> reserved r"
  by (auto simp: outcome_row_def reserved_def)

lemma reserves_of_append [simp]: "reserves_of (rs @ qs) = reserves_of rs @ reserves_of qs"
  by (simp add: reserves_of_def)

lemma reserves_of_Nil [simp]: "reserves_of [] = []"
  by (simp add: reserves_of_def)

lemma reserves_of_single [simp]: "reserves_of [r] = (if reserved r then [r] else [])"
  by (simp add: reserves_of_def)

lemma outcome_slots_append [simp]: "outcome_slots (rs @ qs) = outcome_slots rs @ outcome_slots qs"
  by (simp add: outcome_slots_def)

lemma outcome_slots_single [simp]: "outcome_slots [r] = (if reserved r then [] else [slot_of r])"
  by (simp add: outcome_slots_def)

lemma next_outcome_not_reserved: "next_outcome keys rs r \<Longrightarrow> \<not> reserved r"
  by (simp add: next_outcome_def outcome_not_reserved)

lemma grown_length: "grown own keys limit rs \<Longrightarrow> length (reserves_of rs) \<le> limit"
  by (induction rule: grown.induct) (auto simp: next_outcome_not_reserved)

lemma grown_own: "grown own keys limit rs \<Longrightarrow> r \<in> set rs \<Longrightarrow> own r"
  by (induction rule: grown.induct) auto

lemma grown_prefix: "grown own keys limit (rs @ qs) \<Longrightarrow> grown own keys limit rs"
proof (induction qs rule: rev_induct)
  case (snoc q qs)
  from snoc.prems have "grown own keys limit (rs @ qs)"
    by (cases rule: grown.cases) (simp_all flip: append_assoc)
  then show ?case by (rule snoc.IH)
qed simp

text \<open>The \<open>n\<close>th reservation has slot \<open>n + 1\<close>.\<close>

lemma grown_slots:
  assumes "grown own keys limit rs" "n < length (reserves_of rs)"
  shows "fetch (reserves_of rs ! n) ''slot'' = PInt (int n + 1)"
  using assms
proof (induction arbitrary: n rule: grown.induct)
  case (grown_reserve rs r)
  then show ?case
    by (cases "n < length (reserves_of rs)") (auto simp: next_reserve_def nth_append less_Suc_eq)
next
  case (grown_outcome rs r)
  then show ?case by (simp add: next_outcome_not_reserved)
qed (simp add: reserves_of_def)

lemma grown_slot_index:
  assumes "grown own keys limit rs" "q \<in> set (reserves_of rs)"
  shows "fetch q ''slot'' = PInt (slot_of q) \<and> 1 \<le> slot_of q \<and> slot_of q \<le> int (length (reserves_of rs))
    \<and> reserves_of rs ! nat (slot_of q - 1) = q"
proof -
  obtain n where n: "n < length (reserves_of rs)" "reserves_of rs ! n = q"
    using assms(2) by (auto simp: in_set_conv_nth)
  with grown_slots [OF assms(1) n(1)] show ?thesis by (simp add: slot_of_def)
qed

lemma grown_slots_ok: "grown own keys limit rs \<Longrightarrow> slots_ok (reserves_of rs)"
  by (auto simp: slots_ok_def list_all2_conv_all_nth grown_slots simp del: upt_Suc)

section \<open>A log that grew is accepted\<close>

text \<open>What \<open>check_rows\<close> needs of a row, given the rows before it.\<close>

definition row_ok :: "string list \<Rightarrow> (row \<Rightarrow> ledger_error + unit) \<Rightarrow> row list \<Rightarrow> int list \<Rightarrow> row \<Rightarrow> bool" where
  "row_ok keys good res seen r \<longleftrightarrow>
     (if reserved r then good r = Inr ()
      else outcome_row r \<and> fetch r ''slot'' = PInt (slot_of r) \<and> 1 \<le> slot_of r \<and> slot_of r \<le> int (length res)
        \<and> slot_of r \<notin> set seen \<and> (\<forall>k \<in> set keys. py_eq (fetch r k) (fetch (res ! nat (slot_of r - 1)) k)))"

lemma known_event: "reserved r \<or> outcome_row r \<Longrightarrow> in_set (fetch r ''event'') ledger_events = Inr True"
  by (auto simp: in_set_def ledger_events_def reserved_def outcome_row_def)

lemma check_rows_Cons_ok:
  "row_ok keys good res seen r \<Longrightarrow>
   check_rows name keys good res seen (r # rs) =
     check_rows name keys good res (if reserved r then seen else slot_of r # seen) rs"
  by (auto simp: row_ok_def known_event ensure_def list_ex_iff)

lemma check_rows_snoc:
  assumes "check_rows name keys good res seen rs = Inr ()"
    and "row_ok keys good res (seen @ outcome_slots rs) r"
  shows "check_rows name keys good res seen (rs @ [r]) = Inr ()"
  using assms
proof (induction rs arbitrary: seen)
  case Nil
  then have "row_ok keys good res seen r" by (simp add: outcome_slots_def)
  from check_rows_Cons_ok [OF this] show ?case by simp
next
  case (Cons q rs)
  have IH: "check_rows name keys good res seen' (rs @ [r]) = Inr ()"
    if "check_rows name keys good res seen' rs = Inr ()" "set seen' = set (seen @ outcome_slots [q])" for seen'
  proof (rule Cons.IH [OF that(1)])
    show "row_ok keys good res (seen' @ outcome_slots rs) r"
      using Cons.prems(2) that(2) by (auto simp: row_ok_def outcome_slots_def split: if_splits)
  qed
  from Cons.prems(1) obtain known where known: "in_set (fetch q ''event'') ledger_events = Inr known" "known"
    by (auto simp: bindE_ok)
  show ?case
  proof (cases "reserved q")
    case True
    with Cons.prems(1) known show ?thesis by (auto simp: bindE_ok intro: IH)
  next
    case False
    with Cons.prems(1) known obtain n where n: "fetch q ''slot'' = PInt n"
      by (auto simp: bindE_ok split: pyval.splits)
    have "set (n # seen) = set (seen @ outcome_slots [q])"
      using False n by (simp add: slot_of_def)
    from IH [OF _ this] Cons.prems(1) known False n show ?thesis
      by (auto simp: ensure_def split: if_splits)
  qed
qed

text \<open>Reservations only at the end: earlier outcomes keep their reservation.\<close>

lemma row_ok_more: "row_ok keys good res seen r \<Longrightarrow> row_ok keys good (res @ qs) seen r"
  by (auto simp: row_ok_def nth_append)

lemma check_rows_more:
  assumes "check_rows name keys good res seen rs = Inr ()"
  shows "check_rows name keys good (res @ qs) seen rs = Inr ()"
  using assms
proof (induction rs arbitrary: seen)
  case (Cons r rs)
  from Cons.prems obtain known where known: "in_set (fetch r ''event'') ledger_events = Inr known" "known"
    by (auto simp: bindE_ok)
  show ?case
  proof (cases "reserved r")
    case True
    with Cons.prems known show ?thesis by (auto simp: bindE_ok intro: Cons.IH)
  next
    case False
    with Cons.prems known obtain n where n: "fetch r ''slot'' = PInt n"
      by (auto simp: bindE_ok split: pyval.splits)
    with Cons.prems known False have "check_rows name keys good res (n # seen) rs = Inr ()"
      "\<not> n < 1" "n \<le> int (length res)" "n \<notin> set seen"
      "\<not> list_ex (\<lambda>k. \<not> py_eq (fetch r k) (fetch (res ! nat (n - 1)) k)) keys"
      by (auto simp: ensure_def split: if_splits)
    with Cons.IH known False n show ?thesis by (auto simp: ensure_def nth_append)
  qed
qed simp

lemma grown_checked:
  assumes "grown own keys limit rs" "\<And>r. own r \<Longrightarrow> reserved r \<Longrightarrow> good r = Inr ()"
  shows "check_rows name keys good (reserves_of rs) [] rs = Inr ()"
  using assms(1)
proof (induction rule: grown.induct)
  case (grown_reserve rs r)
  then have r: "reserved r" by (simp add: next_reserve_def)
  have "row_ok keys good (reserves_of rs @ [r]) ([] @ outcome_slots rs) r"
    using r assms(2) grown_reserve.hyps(2) by (simp add: row_ok_def)
  from check_rows_snoc [OF check_rows_more [OF grown_reserve.IH] this] r show ?case by simp
next
  case (grown_outcome rs r)
  then obtain q where q: "outcome_row r" "q \<in> set (reserves_of rs)" "fetch r ''slot'' = fetch q ''slot''"
    "slot_of q \<notin> set (outcome_slots rs)" "\<forall>k \<in> set keys. fetch r k = fetch q k"
    by (auto simp: next_outcome_def)
  have nr: "\<not> reserved r" using q(1) by (rule outcome_not_reserved)
  have "slot_of r = slot_of q" using q(3) by (simp add: slot_of_def)
  with q nr grown_slot_index [OF grown_outcome.hyps(1) q(2)]
  have "row_ok keys good (reserves_of rs) ([] @ outcome_slots rs) r" by (simp add: row_ok_def)
  from check_rows_snoc [OF grown_outcome.IH this] nr show ?case by simp
qed (simp add: reserves_of_def)

section \<open>The interface of a slot ledger\<close>

text \<open>
  \<open>read\<close> is the validating read of a ledger; \<open>own\<close> says that a row carries the ledger's own
  identity and, if it is a reservation, is one the ledger accepts.
\<close>

locale slot_ledger =
  fixes read :: "row list option \<Rightarrow> ledger_error + row list"
    and own :: "row \<Rightarrow> bool"
    and keys :: "string list"
    and limit :: nat
  assumes unreadable: "\<not> is_ok (read None)"
    and read_rows: "read (Some rs) = Inr rs' \<Longrightarrow> rs' = rs \<and> length (reserves_of rs) \<le> limit"
    and read_grown: "grown own keys limit rs \<Longrightarrow> read (Some rs) = Inr rs"
begin

lemma read_within: "read v = Inr rs \<Longrightarrow> length (reserves_of rs) \<le> limit"
  using read_rows unreadable by (cases v) auto

lemma read_is: "read v = Inr rs \<Longrightarrow> v = Some rs"
  using read_rows unreadable by (cases v) auto

lemma prefix_read: "grown own keys limit (rs @ qs) \<Longrightarrow> read (Some rs) = Inr rs"
  by (rule read_grown [OF grown_prefix])

text \<open>The read of a machine's file.\<close>

lemma machine_read:
  assumes "read (read_records s) = Inr rs"
  shows "rs = rows s" "length (reserves_of (rows s)) \<le> limit" "ending s \<noteq> Torn" "list_all one_line (rows s)"
  using read_is [OF assms] read_within [OF assms] by (auto simp: read_records_def split: if_splits)

lemma machine_read_grown:
  assumes "grown own keys limit (rows s)" "ending s \<noteq> Torn" "list_all one_line (rows s)"
  shows "read (read_records s) = Inr (rows s)"
  using assms read_grown by (simp add: read_records_def)

end

end
