(* ===== verification/Request_Ledger.thy ===== *)
theory Request_Ledger
  imports Ledger_Rows
begin

text \<open>
  \<open>RequestLedger\<close> of \<open>src/evaluation/request_ledger.py\<close>: one row per reservation and per
  outcome of a provider attempt, at most two attempts per operation, and never a refund.

  The world \<open>'w\<close> is what the caller's \<open>send\<close> reads and changes; a call may raise an
  exception (\<open>Failed\<close>), be interrupted by one that \<open>except Exception\<close> lets pass
  (\<open>Interrupted\<close>), or die at any effect.  The ledger holds its lock file around all of it.
\<close>

section \<open>Provider errors\<close>

definition metadata_keys :: "pykey set" where
  "metadata_keys = KStr ` {''key_alias'', ''pool_size'', ''transport_attempt'', ''status'',
     ''status_code'', ''retry_after'', ''provider_error_type''}"

fun scalar :: "pyval \<Rightarrow> bool" where
  "scalar (PStr s) = True"
| "scalar (PInt i) = True"
| "scalar (PFloat s) = True"
| "scalar (PBool b) = True"
| "scalar PNone = True"
| "scalar v = False"

definition safe_metadata :: "row \<Rightarrow> row" where
  "safe_metadata m = filter (\<lambda>kv. fst kv \<in> metadata_keys \<and> scalar (snd kv)) m"

definition provider_operation_error ::
  "string \<Rightarrow> int option \<Rightarrow> row option \<Rightarrow> bool option \<Rightarrow> provider_exn" where
  "provider_operation_error error_type status metadata retryable =
    \<lparr>exn_name = ''ProviderOperationError'',
     exn_text = ''provider operation failed: '' @ error_type,
     exn_transport = False,
     exn_operation = True,
     exn_status = Some (case status of None \<Rightarrow> PNone | Some n \<Rightarrow> PInt n),
     exn_retryable = Some (case retryable of None \<Rightarrow> PNone | Some b \<Rightarrow> PBool b),
     exn_type = Some (PStr error_type),
     exn_metadata = Some (PDict (AList.update (KStr ''provider_error_type'') (PStr error_type)
       (safe_metadata (case metadata of None \<Rightarrow> [] | Some m \<Rightarrow> m))))\<rparr>"

definition attribute :: "pyval option \<Rightarrow> pyval \<Rightarrow> pyval" where
  "attribute a d = (case a of None \<Rightarrow> d | Some v \<Rightarrow> v)"

text \<open>Whether the attempt may be repeated, from the exception's own word or from its kind.\<close>

definition retry_verdict :: "provider_exn \<Rightarrow> ledger_error + pyval" where
  "retry_verdict x =
    (if attribute (exn_retryable x) PNone \<noteq> PNone then Inr (attribute (exn_retryable x) PNone)
     else bindE (in_set (attribute (exn_status x) PNone)
                   [PInt 408, PInt 429, PInt 500, PInt 502, PInt 503, PInt 504]) (\<lambda>known.
       Inr (PBool (known \<or> exn_transport x \<or>
                   exn_name x \<in> {''APITimeoutError'', ''APIConnectionError''}))))"

section \<open>Reading\<close>

record ledger_config =
  campaign :: string
  slots :: nat

definition request_keys :: "string list" where
  "request_keys = [''operation'', ''run_id'', ''request_sha256'', ''attempt'']"

definition check_reserve :: "row \<Rightarrow> ledger_error + unit" where
  "check_reserve r =
     bindE (ensure (is_str (fetch r ''operation'') \<and> is_str (fetch r ''run_id'') \<and>
                    is_str (fetch r ''request_sha256'')) (Incomplete ''invalid request reservation identity'')) (\<lambda>_.
     bindE (in_set (fetch r ''attempt'') [PInt 1, PInt 2]) (\<lambda>known.
     ensure known (Incomplete ''invalid request reservation identity'')))"

definition request_read :: "ledger_config \<Rightarrow> row list option \<Rightarrow> ledger_error + row list" where
  "request_read c v =
     bindE (of_opt (Incomplete ''invalid request ledger'') v) (\<lambda>rs.
     bindE (ensure (\<not> list_ex (\<lambda>r. \<not> py_eq (fetch r ''campaign_id'') (PStr (campaign c)) \<or>
                                    \<not> py_eq (fetch r ''limit'') (PInt (int (slots c)))) rs)
              (Incomplete ''ledger belongs to another campaign or budget'')) (\<lambda>_.
     bindE (ensure (slots_ok (reserves_of rs) \<and> length (reserves_of rs) \<le> slots c)
              (Incomplete ''invalid ledger slot sequence'')) (\<lambda>_.
     bindE (mapE check_reserve (reserves_of rs)) (\<lambda>_.
     bindE (check_rows ''ledger'' request_keys (\<lambda>_. Inr ()) (reserves_of rs) [] rs) (\<lambda>_.
     Inr rs)))))"

definition read_ledger :: "ledger_config \<Rightarrow> ('w, row list) proc" where
  "read_ledger c = (\<lambda>s. liftP (request_read c (read_records s)) s)"

definition used :: "ledger_config \<Rightarrow> ('w, int) proc" where
  "used c = bindP (read_ledger c) (\<lambda>rs. returnP (int (length (filter reserved rs))))"

text \<open>The constructor: a limit that is an integer from 1 to 60, and a ledger that reads.\<close>

definition new_request_ledger :: "string \<Rightarrow> pyval \<Rightarrow> ('w, ledger_config) proc" where
  "new_request_ledger campaign_id limit = (case limit of
       PInt n \<Rightarrow>
         if 1 \<le> n \<and> n \<le> 60
         then bindP (read_ledger \<lparr>campaign = campaign_id, slots = nat n\<rparr>) (\<lambda>_.
                returnP \<lparr>campaign = campaign_id, slots = nat n\<rparr>)
         else raiseP (Bad_value ''request limit must be an integer in [1, 60]'')
     | _ \<Rightarrow> raiseP (Bad_value ''request limit must be an integer in [1, 60]''))"

section \<open>Calling the provider\<close>

definition identity_row :: "ledger_config \<Rightarrow> string \<Rightarrow> string \<Rightarrow> string \<Rightarrow> int \<Rightarrow> nat \<Rightarrow> row" where
  "identity_row c operation run_id sha slot attempt =
     [(KStr ''campaign_id'', PStr (campaign c)), (KStr ''limit'', PInt (int (slots c))),
      (KStr ''operation'', PStr operation), (KStr ''run_id'', PStr run_id),
      (KStr ''request_sha256'', PStr sha), (KStr ''slot'', PInt slot),
      (KStr ''attempt'', PInt (int attempt))]"

definition error_row :: "row \<Rightarrow> provider_exn \<Rightarrow> pyval \<Rightarrow> row" where
  "error_row identity x retryable =
     identity @
     [(KStr ''event'', PStr ''error''),
      (KStr ''error_type'', attribute (exn_type x) (PStr (exn_name x))),
      (KStr ''status_code'', attribute (exn_status x) PNone),
      (KStr ''retryable'', retryable)] @
     (case exn_metadata x of
        Some (PDict m) \<Rightarrow> [(KStr ''provider'', PDict (safe_metadata m))]
      | _ \<Rightarrow> [])"

text \<open>The \<open>except\<close> branch: record the error; \<open>True\<close> when another attempt may follow.\<close>

definition record_failure :: "row \<Rightarrow> provider_exn \<Rightarrow> nat \<Rightarrow> ('w, unit) proc" where
  "record_failure identity x attempt =
     bindP (liftP (retry_verdict x)) (\<lambda>retryable.
     bindP (append_record (error_row identity x retryable)) (\<lambda>_.
     if \<not> py_truth retryable \<or> attempt = 2
     then raiseP (Incomplete (if exn_operation x then exn_text x
                              else ''provider operation failed: '' @ exn_name x))
     else returnP ()))"

fun attempt_loop ::
  "ledger_config \<Rightarrow> string \<Rightarrow> string \<Rightarrow> string \<Rightarrow> ('w \<Rightarrow> sent \<times> 'w) \<Rightarrow> nat list \<Rightarrow> ('w, pyval) proc"
where
  "attempt_loop c operation run_id sha send [] =
     raiseP (Incomplete ''operation exhausted its retry protocol'')"
| "attempt_loop c operation run_id sha send (attempt # rest) =
     bindP (used c) (\<lambda>n.
     if int (slots c) \<le> n then raiseP (Incomplete ''campaign request budget exhausted'')
     else bindP (used c) (\<lambda>m.
       let identity = identity_row c operation run_id sha (m + 1) attempt in
       bindP (append_record (identity @ [(KStr ''event'', PStr ''reserved'')])) (\<lambda>_.
       bindP (sendP send) (\<lambda>outcome. case outcome of
           Failed x \<Rightarrow> bindP (record_failure identity x attempt) (\<lambda>_.
                         attempt_loop c operation run_id sha send rest)
         | Interrupted \<Rightarrow> raiseP Interrupt
         | Response v \<Rightarrow>
             bindP (append_record (identity @ [(KStr ''event'', PStr ''completed''), (KStr ''response'', v)]))
               (\<lambda>_. returnP v)))))"

definition matching :: "string \<Rightarrow> row list \<Rightarrow> row list" where
  "matching operation rs = filter (\<lambda>r. py_eq (fetch r ''operation'') (PStr operation)) rs"

definition with_event :: "string \<Rightarrow> row list \<Rightarrow> row list" where
  "with_event e rs = filter (\<lambda>r. py_eq (fetch r ''event'') (PStr e)) rs"

text \<open>What the recorded attempts of an operation say: a response, a refusal, or the next attempt.\<close>

datatype standing = Answered pyval | Refused ledger_error | Open nat

definition standing_of :: "string \<Rightarrow> string \<Rightarrow> row list \<Rightarrow> standing" where
  "standing_of run_id sha ms =
    (if list_ex (\<lambda>r. \<not> py_eq (fetch r ''run_id'') (PStr run_id) \<or>
                     \<not> py_eq (fetch r ''request_sha256'') (PStr sha)) ms
     then Refused (Incomplete ''operation inputs changed; refusing resume'')
     else if with_event ''completed'' ms \<noteq> []
     then (case dict_get (last (with_event ''completed'' ms)) ''response'' of
             Some v \<Rightarrow> Answered v | None \<Rightarrow> Refused Key_error)
     else if length (with_event ''reserved'' ms) \<noteq> length (with_event ''error'' ms)
     then Refused (Incomplete ''request outcome is unknown; reserved slot retained'')
     else if with_event ''error'' ms \<noteq> [] \<and>
             (\<not> py_truth (fetch (last (with_event ''error'' ms)) ''retryable'') \<or>
              2 \<le> length (with_event ''error'' ms))
     then Refused (Incomplete ''operation exhausted its retry protocol'')
     else Open (length (with_event ''reserved'' ms)))"

definition call_locked ::
  "ledger_config \<Rightarrow> string \<Rightarrow> string \<Rightarrow> string \<Rightarrow> ('w \<Rightarrow> sent \<times> 'w) \<Rightarrow> ('w, pyval) proc" where
  "call_locked c operation run_id sha send =
     bindP (read_ledger c) (\<lambda>rs.
     case standing_of run_id sha (matching operation rs) of
       Answered v \<Rightarrow> returnP v
     | Refused e \<Rightarrow> raiseP e
     | Open n \<Rightarrow> attempt_loop c operation run_id sha send [n + 1 ..< 3])"

definition request_call ::
  "ledger_config \<Rightarrow> string \<Rightarrow> string \<Rightarrow> string \<Rightarrow> ('w \<Rightarrow> sent \<times> 'w) \<Rightarrow> ('w, pyval) proc" where
  "request_call c operation run_id sha send =
     with_lock ''ledger is locked; inspect the previous writer before resuming''
       (call_locked c operation run_id sha send)"

section \<open>The interface\<close>

definition request_own :: "ledger_config \<Rightarrow> row \<Rightarrow> bool" where
  "request_own c r \<longleftrightarrow> fetch r ''campaign_id'' = PStr (campaign c) \<and> fetch r ''limit'' = PInt (int (slots c)) \<and>
     (reserved r \<longrightarrow> check_reserve r = Inr ())"

lemma mapE_unit: "(\<And>x. x \<in> set xs \<Longrightarrow> f x = Inr ()) \<Longrightarrow> is_ok (mapE f xs)"
  by (induction xs) (auto simp: is_ok_iff)

interpretation rl: slot_ledger "request_read c" "request_own c" request_keys "slots c" for c
proof unfold_locales
  show "\<not> is_ok (request_read c None)" by (simp add: request_read_def)
next
  fix rs rs' assume "request_read c (Some rs) = Inr rs'"
  then show "rs' = rs \<and> length (reserves_of rs) \<le> slots c"
    by (auto simp: request_read_def bindE_ok)
next
  fix rs assume g: "grown (request_own c) request_keys (slots c) rs"
  have own: "request_own c r" if "r \<in> set rs" for r using grown_own [OF g that] .
  have "is_ok (mapE check_reserve (reserves_of rs))"
    by (rule mapE_unit) (use own in \<open>auto simp: reserves_of_def request_own_def\<close>)
  moreover have "check_rows ''ledger'' request_keys (\<lambda>_. Inr ()) (reserves_of rs) [] rs = Inr ()"
    by (rule grown_checked [OF g]) simp
  ultimately show "request_read c (Some rs) = Inr rs"
    using own grown_slots_ok [OF g] grown_length [OF g]
    by (auto simp: request_read_def is_ok_iff request_own_def list_ex_iff ensure_def)
qed

end
