(* ===== verification/Ledger_Account.thy ===== *)
theory Ledger_Account
  imports Ledger_Rows
begin

text \<open>
  The account both ledgers keep: every provider call made for a key is covered by a
  reservation for that key.  The world of the machine carries the keys of the calls made.
\<close>

text \<open>
  \<open>is_for k r\<close> says that row \<open>r\<close> is about key \<open>k\<close>; \<open>d\<close> is 1 between a reservation for
  \<open>k\<close> and its provider call, 0 elsewhere.
\<close>

definition covered :: "('k \<Rightarrow> row \<Rightarrow> bool) \<Rightarrow> nat \<Rightarrow> 'k \<Rightarrow> ('k list \<times> 'w) machine \<Rightarrow> bool" where
  "covered is_for d k s \<longleftrightarrow>
     length (fst (outside s)) + d \<le> length (reserves_of (rows s)) \<and>
     (\<forall>j. count_list (fst (outside s)) j + (if j = k then d else 0)
            \<le> length (filter (is_for j) (reserves_of (rows s))))"

lemma covered_lockless: "lockless (covered is_for d k)"
  by (simp add: lockless_def covered_def)

lemma covered_drop: "covered is_for d k s \<Longrightarrow> covered is_for 0 k' s"
  unfolding covered_def by (metis add_0_right add_leD1 if_cancel)

lemma covered_cong:
  assumes "outside t = outside s" "reserves_of (rows t) = reserves_of (rows s)"
  shows "covered is_for d k t = covered is_for d k s"
  by (simp add: covered_def assms split del: if_split)

lemma covered_sent:
  assumes "covered is_for 1 k s" "outside s = (ks, w)"
  shows "covered is_for 0 k' (s\<lparr>outside := (k # ks, w')\<rparr>)"
proof -
  have "count_list (k # ks) j \<le> length (filter (is_for j) (reserves_of (rows s)))" for j
    using assms by (auto simp: covered_def split: if_splits dest: spec [where x = j])
  then show ?thesis using assms by (simp add: covered_def)
qed

lemma covered_noted:
  assumes "covered is_for 1 k s" "noting k send (outside s) = (o', w)"
  shows "covered is_for 0 k' ((spend s)\<lparr>outside := w\<rparr>)"
proof -
  obtain ks w0 where w0: "outside s = (ks, w0)" by (cases "outside s")
  with assms(2) obtain w1 where "w = (k # ks, w1)" by (auto simp: noting_def split: prod.splits)
  with covered_sent [of is_for k "spend s" ks w0 k'] assms(1) w0 show ?thesis
    by (simp add: locklessD [OF covered_lockless])
qed

lemma covered_outcome:
  assumes "covered is_for d k s" "\<not> reserved r"
  shows "covered is_for d k (put_line r e s)" "covered is_for d k (torn_line r s)"
proof -
  show put: "covered is_for d k (put_line r e s)" for e
    using covered_cong [of "put_line r e s" s] assms by simp
  show "covered is_for d k (torn_line r s)"
    using assms(1) put covered_cong [of "s\<lparr>ending := Torn\<rparr>" s]
    by (simp add: torn_line_def split: tear.splits)
qed

lemma covered_reserve:
  assumes "covered is_for 0 k' s" "reserved r" "is_for k r"
  shows "covered is_for 1 k (put_line r e s)" "covered is_for 0 k (torn_line r s)"
proof -
  have "count_list (fst (outside s)) j \<le> length (filter (is_for j) (reserves_of (rows s)))" for j
    using assms(1) by (simp add: covered_def)
  then show put: "covered is_for 1 k (put_line r e s)" for e
    using assms by (auto simp: covered_def le_SucI)
  show "covered is_for 0 k (torn_line r s)"
    using covered_drop [OF assms(1)] covered_drop [OF put] covered_cong [of "s\<lparr>ending := Torn\<rparr>" s]
    by (simp add: torn_line_def split: tear.splits)
qed

lemma triple_sent_noted:
  assumes "\<And>s t. P s \<Longrightarrow> rows t = rows s \<Longrightarrow> P t"
  shows "triple (\<lambda>s. covered is_for 1 k s \<and> P s) (sendP (noting k send))
     (\<lambda>_ s. covered is_for 0 k s \<and> P s) (covered is_for 0 k)"
proof (rule triple_send)
  fix s :: "('a list \<times> 'b) machine" and o' w
  assume s: "covered is_for 1 k s \<and> P s" and w: "noting k send (outside s) = (o', w)"
  have "P ((spend s)\<lparr>outside := w\<rparr>)" using assms [of s "(spend s)\<lparr>outside := w\<rparr>"] s by simp
  with s covered_noted [OF _ w] show "covered is_for 0 k ((spend s)\<lparr>outside := w\<rparr>) \<and> P ((spend s)\<lparr>outside := w\<rparr>)"
    by blast
qed (blast intro: covered_drop)

lemma covered_total: "covered is_for d k s \<Longrightarrow> length (fst (outside s)) \<le> length (reserves_of (rows s))"
  by (simp add: covered_def)

lemma covered_count:
  "covered is_for d k s \<Longrightarrow> count_list (fst (outside s)) j \<le> length (filter (is_for j) (reserves_of (rows s)))"
  unfolding covered_def by (meson add_leD1)

section \<open>Logs on file\<close>

text \<open>A machine whose rows are a well-formed log.\<close>

definition logged :: "(row \<Rightarrow> bool) \<Rightarrow> string list \<Rightarrow> nat \<Rightarrow> 'w machine \<Rightarrow> bool" where
  "logged own keys limit s \<longleftrightarrow> grown own keys limit (rows s)"

lemma logged_lockless: "lockless (logged own keys limit)"
  by (simp add: lockless_def logged_def)

lemma logged_torn:
  "logged own keys limit s \<Longrightarrow> logged own keys limit (put_line r Unterminated s)
    \<Longrightarrow> logged own keys limit (torn_line r s)"
  by (simp add: torn_line_def logged_def split: tear.splits)

lemma grown_outcome_slot:
  "grown own keys limit rs \<Longrightarrow> n \<in> set (outcome_slots rs) \<Longrightarrow> n \<le> int (length (reserves_of rs))"
proof (induction rule: grown.induct)
  case (grown_reserve rs r)
  then show ?case by (auto simp: next_reserve_def)
next
  case (grown_outcome rs r)
  then obtain q where "q \<in> set (reserves_of rs)" "slot_of r = slot_of q"
    by (auto simp: next_outcome_def slot_of_def)
  with grown_slot_index [OF grown_outcome.hyps(1)] grown_outcome show ?case
    by (auto simp: next_outcome_not_reserved)
qed (simp add: outcome_slots_def)

lemma logged_next_outcome:
  assumes "logged own keys limit s" "own r" "outcome_row r" "q \<in> set (reserves_of (rows s))"
    "fetch r ''slot'' = PInt n" "fetch q ''slot'' = PInt n" "n \<notin> set (outcome_slots (rows s))"
    "\<forall>k \<in> set keys. fetch r k = fetch q k"
  shows "logged own keys limit (put_line r e s)"
proof -
  have "next_outcome keys (rows s) r"
    using assms unfolding next_outcome_def by (auto simp: slot_of_def intro!: bexI [of _ q])
  with assms(1, 2) show ?thesis by (auto simp: logged_def intro: grown_outcome)
qed

end
