(* ===== verification/Request_Campaign.thy ===== *)
theory Request_Campaign
  imports Request_Ledger Ledger_Account
begin

text \<open>
  A campaign over one request ledger: calls of any operations by processes that may die at
  any effect, with the operator removing the lock file a dead process left behind.  The
  invariant relates the provider calls made to the reservations on file.
\<close>

section \<open>Campaigns\<close>

datatype 'w campaign_action =
    Call string string string "'w \<Rightarrow> sent \<times> 'w" "nat option" tear
  | Remove_lock

type_synonym 'w noted = "(string list \<times> 'w) machine"

fun campaign_step :: "ledger_config \<Rightarrow> 'w campaign_action \<Rightarrow> 'w noted \<Rightarrow> 'w noted" where
  "campaign_step c (Call operation run_id sha send l t) s =
     snd (request_call c operation run_id sha (noting operation send) (s\<lparr>life := l, tearing := t\<rparr>))"
| "campaign_step c Remove_lock s = s\<lparr>locked := False\<rparr>"

definition run_campaign :: "ledger_config \<Rightarrow> 'w campaign_action list \<Rightarrow> 'w noted \<Rightarrow> 'w noted" where
  "run_campaign c = fold (campaign_step c)"

definition no_file :: "'w \<Rightarrow> 'w noted" where
  "no_file w = \<lparr>rows = [], ending = Clean, locked = False, outside = ([], w), life = None, tearing = Untouched\<rparr>"

section \<open>Sends and reservations\<close>

definition reserved_for :: "string \<Rightarrow> row list \<Rightarrow> nat" where
  "reserved_for operation rs = length (with_event ''reserved'' (matching operation rs))"

lemma reserved_for_snoc [simp]:
  "reserved_for operation (rs @ [r]) =
     reserved_for operation rs + (if reserved r \<and> fetch r ''operation'' = PStr operation then 1 else 0)"
  by (simp add: reserved_for_def with_event_def matching_def reserved_def)

lemma reserved_for_Nil [simp]: "reserved_for operation [] = 0"
  by (simp add: reserved_for_def with_event_def matching_def)

definition is_operation :: "string \<Rightarrow> row \<Rightarrow> bool" where
  "is_operation operation r \<longleftrightarrow> fetch r ''operation'' = PStr operation"

lemma reserved_for_filter: "reserved_for operation rs = length (filter (is_operation operation) (reserves_of rs))"
  by (simp add: reserved_for_def with_event_def matching_def reserves_of_def reserved_def is_operation_def conj_commute)

text \<open>\<open>d\<close> is 1 between a reservation for \<open>operation\<close> and its provider call, 0 elsewhere.\<close>

definition accounted :: "nat \<Rightarrow> nat \<Rightarrow> string \<Rightarrow> 'w noted \<Rightarrow> bool" where
  "accounted limit d operation s \<longleftrightarrow> covered is_operation d operation s \<and>
     length (reserves_of (rows s)) \<le> limit \<and> (\<forall>k. reserved_for k (rows s) \<le> 2)"

lemma accounted_lockless: "lockless (accounted limit d operation)"
  by (simp add: lockless_def accounted_def locklessD [OF covered_lockless])

lemma accounted_drop: "accounted limit d operation s \<Longrightarrow> accounted limit 0 operation' s"
  unfolding accounted_def by (blast intro: covered_drop)

lemma accounted_outcome:
  assumes "accounted limit d operation s" "\<not> reserved r"
  shows "accounted limit d operation (put_line r e s)" "accounted limit d operation (torn_line r s)"
proof -
  show "accounted limit d operation (put_line r e s)"
    using assms by (simp add: accounted_def covered_outcome)
  show "accounted limit d operation (torn_line r s)"
    using assms covered_outcome(2) [of is_operation d operation s r]
    by (simp add: accounted_def torn_line_def split: tear.splits)
qed

lemma accounted_reserve:
  assumes "accounted limit 0 operation' s" "reserved r" "fetch r ''operation'' = PStr operation"
    "length (reserves_of (rows s)) < limit" "reserved_for operation (rows s) < 2"
  shows "accounted limit 1 operation (put_line r e s)" "accounted limit 0 operation (torn_line r s)"
proof -
  have c: "covered is_operation 1 operation (put_line r e s)" "covered is_operation 0 operation (torn_line r s)"
    by (rule covered_reserve [of _ operation']; use assms in \<open>simp add: accounted_def is_operation_def\<close>)+
  then show "accounted limit 1 operation (put_line r e s)" "accounted limit 0 operation (torn_line r s)"
    using assms by (auto simp: accounted_def torn_line_def split: tear.splits)
qed

section \<open>Rows that the ledger writes\<close>

lemma dumped_identity:
  assumes "dumped_row (identity_row c operation run_id sha n a @ extra) = Some r"
  shows "fetch r ''campaign_id'' = PStr (campaign c)" "fetch r ''limit'' = PInt (int (slots c))"
    "fetch r ''operation'' = PStr operation" "fetch r ''run_id'' = PStr run_id"
    "fetch r ''request_sha256'' = PStr sha" "fetch r ''slot'' = PInt n" "fetch r ''attempt'' = PInt (int a)"
  using dumped_row_fetch [OF assms, of "''campaign_id''"] dumped_row_fetch [OF assms, of "''limit''"]
    dumped_row_fetch [OF assms, of "''operation''"] dumped_row_fetch [OF assms, of "''run_id''"]
    dumped_row_fetch [OF assms, of "''request_sha256''"] dumped_row_fetch [OF assms, of "''slot''"]
    dumped_row_fetch [OF assms, of "''attempt''"]
  by (simp_all add: identity_row_def)

lemma dumped_event:
  assumes "dumped_row (identity_row c operation run_id sha n a @ (KStr ''event'', PStr e) # extra) = Some r"
  shows "fetch r ''event'' = PStr e"
  using dumped_row_fetch [OF assms, of "''event''"] by (simp add: identity_row_def)

section \<open>The calls keep the account\<close>

lemma triple_read_ledger:
  assumes "\<And>s. P s \<Longrightarrow> E s"
  shows "triple P (read_ledger c) (\<lambda>rs s. P s \<and> rs = rows s \<and> length (reserves_of (rows s)) \<le> slots c) E"
proof (rule tripleI)
  fix s r t assume s: "P s" and r: "read_ledger c s = (r, t)"
  show "case r of Done rs \<Rightarrow> P t \<and> rs = rows t \<and> length (reserves_of (rows t)) \<le> slots c | _ \<Rightarrow> E t"
  proof (cases "request_read c (read_records s)")
    case (Inr rs)
    with rl.machine_read(1, 2) [OF Inr] s r show ?thesis
      by (auto simp: read_ledger_def liftP_def returnP_def)
  qed (use s r assms in \<open>auto simp: read_ledger_def liftP_def raiseP_def\<close>)
qed

lemma triple_used:
  assumes "\<And>s. P s \<Longrightarrow> E s"
  shows "triple P (used c) (\<lambda>n s. P s \<and> n = int (length (reserves_of (rows s)))) E"
  unfolding used_def
  by (rule triple_bind [OF triple_read_ledger [OF assms]])
    (auto intro!: triple_return simp: reserves_of_def)

lemma triple_record_failure:
  assumes "identity = identity_row c operation run_id sha n a"
  shows "triple (\<lambda>s. accounted l 0 k s \<and> R (reserved_for operation (rows s))) (record_failure identity x a')
    (\<lambda>_ s. accounted l 0 k s \<and> R (reserved_for operation (rows s))) (accounted l 0 k)"
proof -
  have nr: "\<not> reserved r" if "dumped_row (error_row identity x v) = Some r" for r v
    using dumped_event [of c operation run_id sha n a "''error''"] that
    by (simp add: error_row_def assms reserved_def)
  let ?P = "\<lambda>s. accounted l 0 k s \<and> R (reserved_for operation (rows s))"
  show ?thesis
    unfolding record_failure_def
    by (rule triple_bind [OF triple_lift [where Q = "\<lambda>_. ?P"] triple_bind [OF triple_append [where Q = "\<lambda>_. ?P"]]])
      (auto intro!: triple_return triple_raise simp: accounted_outcome nr locklessD [OF accounted_lockless])
qed

lemma triple_outcome:
  assumes "triple (\<lambda>s. accounted l 0 operation s \<and> reserved_for operation (rows s) = a)
             (attempt_loop c operation run_id sha send rest) (\<lambda>_. accounted l 0 operation) (accounted l 0 operation)"
    and "identity = identity_row c operation run_id sha n a"
  shows "triple (\<lambda>s. accounted l 0 operation s \<and> reserved_for operation (rows s) = a)
     (case outcome of
         Failed x \<Rightarrow> bindP (record_failure identity x a) (\<lambda>_. attempt_loop c operation run_id sha send rest)
       | Interrupted \<Rightarrow> raiseP Interrupt
       | Response v \<Rightarrow>
           bindP (append_record (identity @ [(KStr ''event'', PStr ''completed''), (KStr ''response'', v)]))
             (\<lambda>_. returnP v))
     (\<lambda>_. accounted l 0 operation) (accounted l 0 operation)"
proof (cases outcome)
  case (Response v)
  have nr: "\<not> reserved r"
    if "dumped_row (identity @ [(KStr ''event'', PStr ''completed''), (KStr ''response'', v)]) = Some r" for r
    using dumped_event [of c operation run_id sha n a "''completed''"] that by (simp add: assms reserved_def)
  show ?thesis
    unfolding Response sent.case
    by (rule triple_bind [OF triple_append [where Q = "\<lambda>_. accounted l 0 operation"]])
      (auto intro!: triple_return simp: accounted_outcome nr locklessD [OF accounted_lockless])
next
  case (Failed x)
  show ?thesis
    unfolding Failed sent.case
    by (rule triple_bind [OF triple_record_failure [OF assms(2), of l operation "\<lambda>k. k = a"]]) (rule assms(1))
qed (auto intro: triple_raise)

lemma triple_attempt_loop:
  "triple (\<lambda>s. accounted (slots c) 0 operation s \<and> reserved_for operation (rows s) + 1 = a)
     (attempt_loop c operation run_id sha (noting operation send) [a ..< 3])
     (\<lambda>_. accounted (slots c) 0 operation) (accounted (slots c) 0 operation)"
proof (induction "3 - a" arbitrary: a)
  case 0
  then show ?case by (auto intro: triple_raise)
next
  case (Suc d)
  then have upt: "[a ..< 3] = a # [Suc a ..< 3]" and a: "a < 3" by (simp_all add: upt_conv_Cons)
  let ?A = "accounted (slots c)"
  let ?P = "\<lambda>s. ?A 0 operation s \<and> reserved_for operation (rows s) + 1 = a"
  let ?I = "\<lambda>m. identity_row c operation run_id sha (m + 1) a"
  have next': "triple (\<lambda>s. ?A 0 operation s \<and> reserved_for operation (rows s) = a)
      (attempt_loop c operation run_id sha (noting operation send) [Suc a ..< 3])
      (\<lambda>_. ?A 0 operation) (?A 0 operation)"
    using Suc.hyps(1) [of "Suc a"] Suc.hyps(2) by simp
  have append: "triple (\<lambda>s :: 'a noted. ?P s \<and> length (reserves_of (rows s)) < slots c)
      (append_record (?I m @ [(KStr ''event'', PStr ''reserved'')]))
      (\<lambda>_ s. ?A 1 operation s \<and> reserved_for operation (rows s) = a) (?A 0 operation)" for m
  proof (rule triple_append)
    fix s :: "'a noted" and r
    assume s: "?P s \<and> length (reserves_of (rows s)) < slots c"
      and r: "dumped_row (?I m @ [(KStr ''event'', PStr ''reserved'')]) = Some r"
    have "reserved r" "fetch r ''operation'' = PStr operation"
      using dumped_event [OF r] dumped_identity [OF r] by (simp_all add: reserved_def)
    note new = accounted_reserve [OF _ this]
    from s a have ready: "?A 0 operation s" "?A 0 operation (spend s)"
      "length (reserves_of (rows s)) < slots c" "reserved_for operation (rows s) < 2"
      by (auto simp: locklessD [OF accounted_lockless])
    show "?A 0 operation (torn_line r s)" by (rule new(2) [OF ready(1, 3, 4)])
    have "?A 1 operation (put_line r Clean (spend s))"
      by (rule new(1) [OF ready(2)]) (simp_all add: ready)
    with s \<open>reserved r\<close> \<open>fetch r ''operation'' = PStr operation\<close>
    show "?A 1 operation (put_line r Clean (spend s)) \<and>
        reserved_for operation (rows (put_line r Clean (spend s))) = a" by simp
  qed auto
  have send: "triple (\<lambda>s :: 'a noted. ?A 1 operation s \<and> reserved_for operation (rows s) = a)
      (sendP (noting operation send))
      (\<lambda>_ s. ?A 0 operation s \<and> reserved_for operation (rows s) = a) (?A 0 operation)"
    by (rule triple_send) (auto simp: accounted_def intro: covered_noted covered_drop)
  show ?case
    unfolding upt attempt_loop.simps
  proof (rule triple_bind [OF triple_used])
    fix n
    show "triple (\<lambda>s. ?P s \<and> n = int (length (reserves_of (rows s))))
        (if int (slots c) \<le> n then raiseP (Incomplete ''campaign request budget exhausted'')
         else bindP (used c) (\<lambda>m. let identity = ?I m in
           bindP (append_record (identity @ [(KStr ''event'', PStr ''reserved'')])) (\<lambda>_.
           bindP (sendP (noting operation send)) (\<lambda>outcome. case outcome of
               Failed x \<Rightarrow> bindP (record_failure identity x a) (\<lambda>_.
                 attempt_loop c operation run_id sha (noting operation send) [Suc a ..< 3])
             | Interrupted \<Rightarrow> raiseP Interrupt
             | Response v \<Rightarrow>
                 bindP (append_record (identity @ [(KStr ''event'', PStr ''completed''), (KStr ''response'', v)]))
                   (\<lambda>_. returnP v)))))
        (\<lambda>_. ?A 0 operation) (?A 0 operation)"
    proof (cases "int (slots c) \<le> n")
      case True
      then show ?thesis by (auto intro: triple_raise)
    next
      case False
      show ?thesis
        unfolding if_not_P [OF False] Let_def
        by (rule triple_bind [OF triple_used triple_bind [OF triple_weaken [OF append]
              triple_bind [OF send triple_outcome [OF next' refl]]]])
          (use False in auto)
    qed
  qed auto
qed

lemma triple_call_locked:
  "triple (accounted (slots c) 0 operation) (call_locked c operation run_id sha (noting operation send))
     (\<lambda>_. accounted (slots c) 0 operation) (accounted (slots c) 0 operation)"
  unfolding call_locked_def
proof (rule triple_bind [OF triple_read_ledger])
  fix rs
  let ?P = "\<lambda>s. accounted (slots c) 0 operation s \<and> rs = rows s \<and> length (reserves_of (rows s)) \<le> slots c"
  show "triple ?P (case standing_of run_id sha (matching operation rs) of
        Answered v \<Rightarrow> returnP v | Refused e \<Rightarrow> raiseP e
      | Open n \<Rightarrow> attempt_loop c operation run_id sha (noting operation send) [n + 1 ..< 3])
      (\<lambda>_. accounted (slots c) 0 operation) (accounted (slots c) 0 operation)"
  proof (cases "standing_of run_id sha (matching operation rs)")
    case (Open n)
    then have "n = reserved_for operation rs"
      by (auto simp: standing_of_def reserved_for_def split: if_splits option.splits)
    then show ?thesis
      unfolding Open standing.case by (intro triple_weaken [OF triple_attempt_loop]) auto
  qed (auto intro: triple_return triple_raise)
qed auto

lemma request_call_accounted:
  assumes "accounted (slots c) 0 k s"
  shows "accounted (slots c) 0 k' (snd (request_call c operation run_id sha (noting operation send) s))"
proof -
  have "triple (accounted (slots c) 0 operation) (request_call c operation run_id sha (noting operation send))
     (\<lambda>_. accounted (slots c) 0 operation) (accounted (slots c) 0 operation)"
    unfolding request_call_def
    by (rule triple_with_lock [OF triple_call_locked]) (auto simp: accounted_lockless)
  from tripleD [OF this accounted_drop [OF assms]] show ?thesis by (blast intro: accounted_drop)
qed

lemma accounted_settings: "accounted l d k (s\<lparr>life := n, tearing := t\<rparr>) = accounted l d k s"
  by (simp add: accounted_def covered_def)

lemma campaign_step_accounted:
  "accounted (slots c) 0 k s \<Longrightarrow> accounted (slots c) 0 k (campaign_step c a s)"
  by (cases a) (auto simp: accounted_settings locklessD [OF accounted_lockless] intro: request_call_accounted)

lemma run_campaign_accounted:
  "accounted (slots c) 0 k s \<Longrightarrow> accounted (slots c) 0 k (run_campaign c as s)"
  unfolding run_campaign_def by (induction as arbitrary: s) (auto intro: campaign_step_accounted)

lemma accounted_no_file: "accounted l 0 k (no_file w)"
  by (simp add: accounted_def covered_def no_file_def)

end
