(* ===== verification/Request_Records.thy ===== *)
theory Request_Records
  imports Request_Campaign
begin

text \<open>
  What stays on file: the rows of a request ledger only ever grow by reservations of the
  next slot and by outcomes of open slots, so every prefix of them is a ledger the code
  accepts; and an operation that was answered or left open is never attempted again.
\<close>

section \<open>The rows stay well formed\<close>

abbreviation request_log :: "ledger_config \<Rightarrow> row list \<Rightarrow> bool" where
  "request_log c \<equiv> grown (request_own c) request_keys (slots c)"

abbreviation request_logged :: "ledger_config \<Rightarrow> 'w machine \<Rightarrow> bool" where
  "request_logged c \<equiv> logged (request_own c) request_keys (slots c)"

text \<open>The last slot is open and was reserved with this identity.\<close>

definition slot_open :: "ledger_config \<Rightarrow> string \<Rightarrow> string \<Rightarrow> string \<Rightarrow> int \<Rightarrow> nat \<Rightarrow> 'w machine \<Rightarrow> bool" where
  "slot_open c operation run_id sha n a s \<longleftrightarrow> request_log c (rows s) \<and>
     (\<exists>q \<in> set (reserves_of (rows s)). fetch q ''slot'' = PInt n \<and> n \<notin> set (outcome_slots (rows s)) \<and>
        fetch q ''operation'' = PStr operation \<and> fetch q ''run_id'' = PStr run_id \<and>
        fetch q ''request_sha256'' = PStr sha \<and> fetch q ''attempt'' = PInt (int a))"

lemma slot_open_lockless: "lockless (slot_open c operation run_id sha n a)"
  by (simp add: lockless_def slot_open_def)

lemma slot_open_logged: "slot_open c operation run_id sha n a s \<Longrightarrow> request_logged c s"
  by (simp add: slot_open_def logged_def)

lemma logged_reserve:
  assumes "request_logged c s" "length (reserves_of (rows s)) < slots c" "a \<in> {1, 2}"
    and r: "dumped_row (identity_row c operation run_id sha (int (length (reserves_of (rows s))) + 1) a
              @ [(KStr ''event'', PStr ''reserved'')]) = Some r"
  shows "slot_open c operation run_id sha (int (length (reserves_of (rows s))) + 1) a (put_line r e s)"
proof -
  note f = dumped_identity [OF r] dumped_event [OF r]
  have res: "reserved r" using f by (simp add: reserved_def)
  have own: "request_own c r"
    using f assms(3) by (auto simp: request_own_def check_reserve_def in_set_def)
  have "request_log c (rows s @ [r])"
    using assms(1, 2) own res f by (intro grown_reserve) (auto simp: next_reserve_def logged_def)
  moreover have "int (length (reserves_of (rows s))) + 1 \<notin> set (outcome_slots (rows s))"
    using grown_outcome_slot assms(1) unfolding logged_def by fastforce
  ultimately show ?thesis using f res by (simp add: slot_open_def)
qed

lemma logged_outcome:
  assumes "slot_open c operation run_id sha n a s" "e = ''completed'' \<or> e = ''error''"
    and r: "dumped_row (identity_row c operation run_id sha n a @ (KStr ''event'', PStr e) # extra) = Some r"
  shows "request_logged c (put_line r k s)"
proof -
  note f = dumped_identity [OF r] dumped_event [OF r]
  have out: "outcome_row r" "\<not> reserved r"
    using f assms(2) by (auto simp: outcome_row_def reserved_def)
  have own: "request_own c r" using f out by (simp add: request_own_def)
  obtain q where q: "q \<in> set (reserves_of (rows s))" "fetch q ''slot'' = PInt n"
    "n \<notin> set (outcome_slots (rows s))" "\<forall>k \<in> set request_keys. fetch r k = fetch q k"
    using assms(1) f by (auto simp: slot_open_def request_keys_def)
  show ?thesis
    by (rule logged_next_outcome [OF slot_open_logged [OF assms(1)] own out(1) q(1) f(6) q(2-4)])
qed

lemma triple_failure_logged:
  "triple (slot_open c operation run_id sha n a)
     (record_failure (identity_row c operation run_id sha n a) x a') (\<lambda>_. request_logged c) (request_logged c)"
proof -
  let ?O = "slot_open c operation run_id sha n a"
  have append: "triple (?O :: 'a machine \<Rightarrow> bool) (append_record (error_row (identity_row c operation run_id sha n a) x v))
      (\<lambda>_. request_logged c) (request_logged c)" for v
  proof (rule triple_append)
    fix s :: "'a machine" and r
    assume s: "?O s" and r: "dumped_row (error_row (identity_row c operation run_id sha n a) x v) = Some r"
    have "request_logged c (put_line r k t)" if "?O t" for k and t :: "'a machine"
      using logged_outcome [OF that, of "''error''"] r by (simp add: error_row_def)
    with s show "request_logged c (put_line r Clean (spend s))" "request_logged c (torn_line r s)"
      by (auto simp: locklessD [OF slot_open_lockless] intro: logged_torn slot_open_logged)
  qed (rule slot_open_logged)
  show ?thesis
    unfolding record_failure_def
    by (rule triple_bind [OF triple_lift [where Q = "\<lambda>_. ?O"] triple_bind [OF append]])
      (auto intro: triple_return triple_raise slot_open_logged)
qed

lemma triple_loop_logged:
  "set ks \<subseteq> {1, 2} \<Longrightarrow>
   triple (request_logged c) (attempt_loop c operation run_id sha send ks) (\<lambda>_. request_logged c) (request_logged c)"
proof (induction ks)
  case (Cons a ks)
  let ?I = "\<lambda>m. identity_row c operation run_id sha (m + 1) a"
  let ?O = "\<lambda>m. slot_open c operation run_id sha (m + 1) a"
  have reserve: "triple (\<lambda>s :: 'a machine. request_logged c s \<and> length (reserves_of (rows s)) < slots c \<and>
        m = int (length (reserves_of (rows s))))
      (append_record (?I m @ [(KStr ''event'', PStr ''reserved'')])) (\<lambda>_. ?O m) (request_logged c)" for m
  proof (rule triple_append)
    fix s :: "'a machine" and r
    assume s: "request_logged c s \<and> length (reserves_of (rows s)) < slots c \<and> m = int (length (reserves_of (rows s)))"
      and r: "dumped_row (?I m @ [(KStr ''event'', PStr ''reserved'')]) = Some r"
    have a: "a \<in> {1, 2}" using Cons.prems by simp
    have "?O m (put_line r k t)" if "rows t = rows s" for k and t :: "'a machine"
      using logged_reserve [of c t a operation run_id sha r k] that s r a by (simp add: logged_def)
    then show "?O m (put_line r Clean (spend s))" "request_logged c (torn_line r s)"
      using s by (auto intro: logged_torn slot_open_logged)
  qed auto
  have send: "triple (?O m) (sendP send) (\<lambda>_. ?O m) (request_logged c)" for m
    by (rule triple_send) (auto simp: slot_open_def logged_def)
  have outcome: "triple (?O m)
      (case outcome of
          Failed x \<Rightarrow> bindP (record_failure (?I m) x a) (\<lambda>_. attempt_loop c operation run_id sha send ks)
        | Interrupted \<Rightarrow> raiseP Interrupt
        | Response v \<Rightarrow>
            bindP (append_record (?I m @ [(KStr ''event'', PStr ''completed''), (KStr ''response'', v)]))
              (\<lambda>_. returnP v))
      (\<lambda>_. request_logged c) (request_logged c)" for m outcome
  proof (cases outcome)
    case (Response v)
    have "triple (?O m) (append_record (?I m @ [(KStr ''event'', PStr ''completed''), (KStr ''response'', v)]))
        (\<lambda>_. request_logged c :: 'a machine \<Rightarrow> bool) (request_logged c)"
    proof (rule triple_append)
      fix s :: "'a machine" and r
      assume s: "?O m s"
        and r: "dumped_row (?I m @ [(KStr ''event'', PStr ''completed''), (KStr ''response'', v)]) = Some r"
      from s show "request_logged c (put_line r Clean (spend s))" "request_logged c (torn_line r s)"
        using logged_outcome [OF _ _ r, of s] logged_outcome [OF _ _ r, of "spend s"]
        by (auto simp: locklessD [OF slot_open_lockless] intro: logged_torn slot_open_logged)
    qed (rule slot_open_logged)
    then show ?thesis unfolding Response sent.case
      by (rule triple_bind) (auto intro: triple_return)
  next
    case (Failed x)
    show ?thesis unfolding Failed sent.case
      by (rule triple_bind [OF triple_failure_logged Cons.IH]) (use Cons.prems in auto)
  qed (auto intro: triple_raise slot_open_logged)
  show ?case
    unfolding attempt_loop.simps
  proof (rule triple_bind [OF triple_used])
    fix n
    let ?P = "\<lambda>s. request_logged c s \<and> n = int (length (reserves_of (rows s)))"
    show "triple ?P
        (if int (slots c) \<le> n then raiseP (Incomplete ''campaign request budget exhausted'')
         else bindP (used c) (\<lambda>m. let identity = ?I m in
           bindP (append_record (identity @ [(KStr ''event'', PStr ''reserved'')])) (\<lambda>_.
           bindP (sendP send) (\<lambda>outcome. case outcome of
               Failed x \<Rightarrow> bindP (record_failure identity x a) (\<lambda>_. attempt_loop c operation run_id sha send ks)
             | Interrupted \<Rightarrow> raiseP Interrupt
             | Response v \<Rightarrow>
                 bindP (append_record (identity @ [(KStr ''event'', PStr ''completed''), (KStr ''response'', v)]))
                   (\<lambda>_. returnP v)))))
        (\<lambda>_. request_logged c) (request_logged c)"
    proof (cases "int (slots c) \<le> n")
      case False
      show ?thesis
        unfolding if_not_P [OF False] Let_def
        by (rule triple_bind [OF triple_used triple_bind [OF triple_weaken [OF reserve]
              triple_bind [OF send outcome]]]) (use False in auto)
    qed (auto intro: triple_raise)
  qed
qed (auto intro: triple_raise)

lemma triple_call_logged:
  "triple (request_logged c) (call_locked c operation run_id sha send) (\<lambda>_. request_logged c) (request_logged c)"
  unfolding call_locked_def
proof (rule triple_bind [OF triple_read_ledger])
  fix rs
  show "triple (\<lambda>s. request_logged c s \<and> rs = rows s \<and> length (reserves_of (rows s)) \<le> slots c)
      (case standing_of run_id sha (matching operation rs) of
        Answered v \<Rightarrow> returnP v | Refused e \<Rightarrow> raiseP e
      | Open n \<Rightarrow> attempt_loop c operation run_id sha send [n + 1 ..< 3]) (\<lambda>_. request_logged c) (request_logged c)"
    by (cases "standing_of run_id sha (matching operation rs)")
      (auto intro!: triple_return triple_raise triple_weaken [OF triple_loop_logged])
qed

lemma request_call_logged:
  assumes "request_logged c s"
  shows "request_logged c (snd (request_call c operation run_id sha send s))"
proof -
  have "triple (request_logged c) (request_call c operation run_id sha send) (\<lambda>_. request_logged c) (request_logged c)"
    unfolding request_call_def
    by (rule triple_with_lock [OF triple_call_logged]) (auto simp: logged_lockless)
  from tripleD [OF this assms] show ?thesis by blast
qed

lemma run_campaign_logged:
  assumes "request_logged c s"
  shows "request_logged c (run_campaign c as s)"
proof -
  have "request_logged c (campaign_step c a s)" if "request_logged c s" for a s
  proof (cases a)
    case (Call x1 x2 x3 x4 x5 x6)
    with that show ?thesis by (auto intro!: request_call_logged) (simp add: logged_def)
  qed (use that in \<open>simp add: logged_def\<close>)
  with assms show ?thesis
    unfolding run_campaign_def by (induction as arbitrary: s) auto
qed

lemma logged_no_file: "request_logged c (no_file w)"
  by (simp add: logged_def no_file_def grown_empty)

end
