(* ===== verification/Request_Replay.thy ===== *)
theory Request_Replay
  imports Request_Records
begin

text \<open>
  The rows of one operation: only calls of that operation extend them, and once a response
  or an unknown outcome is on file nothing does.
\<close>

section \<open>Rows of other operations\<close>

text \<open>A property that survives every row of one operation, however it reaches the file.\<close>

definition only_rows_of :: "string \<Rightarrow> ('w machine \<Rightarrow> bool) \<Rightarrow> bool" where
  "only_rows_of operation P \<longleftrightarrow>
     (\<forall>s t. rows t = rows s \<longrightarrow> P t = P s) \<and>
     (\<forall>s r e. P s \<longrightarrow> fetch r ''operation'' = PStr operation \<longrightarrow> P (put_line r e s))"

lemma only_rows_lockless: "only_rows_of operation P \<Longrightarrow> lockless P"
  unfolding only_rows_of_def lockless_def by (metis machine.select_convs(1) machine.surjective
      machine.update_convs(3) spend_simps(1))

lemma only_rows_same: "only_rows_of operation P \<Longrightarrow> P s \<Longrightarrow> rows t = rows s \<Longrightarrow> P t"
  unfolding only_rows_of_def by blast

lemma only_rows_put:
  assumes "only_rows_of operation P" "P s" "fetch r ''operation'' = PStr operation" "rows t = rows s"
  shows "P (put_line r e t)" "P (torn_line r t)"
proof -
  have same: "P t' = P s'" if "rows t' = rows s'" for t' s'
    using assms(1) that unfolding only_rows_of_def by blast
  show put: "P (put_line r e t)" for e
    using assms(1, 2, 3) same [OF assms(4)] unfolding only_rows_of_def by blast
  show "P (torn_line r t)"
    using put assms(2) same [OF assms(4)] same [of "t\<lparr>ending := Torn\<rparr>" t]
    by (simp add: torn_line_def split: tear.splits)
qed

lemma triple_append_only:
  assumes "only_rows_of operation P"
  shows "triple P (append_record (identity_row c operation run_id sha n a @ extra)) (\<lambda>_. P) P"
proof (rule triple_append)
  fix s :: "'a machine" and r
  assume s: "P s" and r: "dumped_row (identity_row c operation run_id sha n a @ extra) = Some r"
  note f = only_rows_put [OF assms s dumped_identity(3) [OF r]]
  show "P (put_line r Clean (spend s))" "P (torn_line r s)" by (rule f, simp)+
qed auto

lemma triple_loop_only:
  assumes "only_rows_of operation P"
  shows "triple P (attempt_loop c operation run_id sha send ks) (\<lambda>_. P) P"
proof (induction ks)
  case (Cons a ks)
  have send: "triple P (sendP send) (\<lambda>_. P) P"
    by (rule triple_send) (erule only_rows_same [OF assms], simp)
  have used: "triple P (used c) (\<lambda>_. P) P"
    by (rule triple_conseq [OF triple_used]) auto
  have fail: "triple P (record_failure (identity_row c operation run_id sha n a) x a) (\<lambda>_. P) P" for n x
    unfolding record_failure_def error_row_def
    by (rule triple_bind [OF triple_lift triple_bind [OF triple_append_only [OF assms]]])
      (auto intro: triple_return triple_raise)
  have outcome: "triple P
      (case outcome of
          Failed x \<Rightarrow> bindP (record_failure (identity_row c operation run_id sha n a) x a)
            (\<lambda>_. attempt_loop c operation run_id sha send ks)
        | Interrupted \<Rightarrow> raiseP Interrupt
        | Response v \<Rightarrow> bindP (append_record (identity_row c operation run_id sha n a @
              [(KStr ''event'', PStr ''completed''), (KStr ''response'', v)])) (\<lambda>_. returnP v))
      (\<lambda>_. P) P" for outcome n
    by (cases outcome) (auto intro!: triple_raise triple_return triple_bind [OF fail Cons.IH]
        triple_bind [OF triple_append_only [OF assms]])
  show ?case
    unfolding attempt_loop.simps Let_def
  proof (rule triple_bind [OF used])
    fix n
    show "triple P (if int (slots c) \<le> n then raiseP (Incomplete ''campaign request budget exhausted'')
         else bindP (used c) (\<lambda>m.
           bindP (append_record (identity_row c operation run_id sha (m + 1) a @ [(KStr ''event'', PStr ''reserved'')])) (\<lambda>_.
           bindP (sendP send) (\<lambda>outcome. case outcome of
               Failed x \<Rightarrow> bindP (record_failure (identity_row c operation run_id sha (m + 1) a) x a)
                 (\<lambda>_. attempt_loop c operation run_id sha send ks)
             | Interrupted \<Rightarrow> raiseP Interrupt
             | Response v \<Rightarrow> bindP (append_record (identity_row c operation run_id sha (m + 1) a @
                 [(KStr ''event'', PStr ''completed''), (KStr ''response'', v)])) (\<lambda>_. returnP v))))) (\<lambda>_. P) P"
      by (auto intro!: triple_raise
          triple_bind [OF used triple_bind [OF triple_append_only [OF assms] triple_bind [OF send outcome]]])
  qed
qed (auto intro: triple_raise)

section \<open>Settled operations\<close>

text \<open>A response is on file, or a reservation has no outcome.\<close>

definition settled :: "row list \<Rightarrow> bool" where
  "settled ms \<longleftrightarrow> with_event ''completed'' ms \<noteq> [] \<or>
     length (with_event ''reserved'' ms) \<noteq> length (with_event ''error'' ms)"

lemma settled_not_open: "settled ms \<Longrightarrow> standing_of run_id sha ms \<noteq> Open n"
  by (auto simp: standing_of_def settled_def split: option.splits)

definition with_rows_of :: "string \<Rightarrow> row list \<Rightarrow> 'w machine \<Rightarrow> bool" where
  "with_rows_of k ms s \<longleftrightarrow> matching k (rows s) = ms"

lemma with_rows_only: "operation \<noteq> k \<Longrightarrow> only_rows_of operation (with_rows_of k ms)"
  by (auto simp: only_rows_of_def with_rows_of_def matching_def)

lemma with_rows_lockless: "lockless (with_rows_of k ms)"
  by (simp add: lockless_def with_rows_of_def)

lemma request_call_settled:
  assumes "settled ms" "with_rows_of k ms s"
  shows "with_rows_of k ms (snd (request_call c operation run_id sha send s))"
proof -
  let ?P = "with_rows_of k ms :: 'a machine \<Rightarrow> bool"
  have "triple ?P (call_locked c operation run_id sha send) (\<lambda>_. ?P) ?P"
    unfolding call_locked_def
  proof (rule triple_bind [OF triple_read_ledger])
    fix rs
    show "triple (\<lambda>s. ?P s \<and> rs = rows s \<and> length (reserves_of (rows s)) \<le> slots c)
        (case standing_of run_id sha (matching operation rs) of
          Answered v \<Rightarrow> returnP v | Refused e \<Rightarrow> raiseP e
        | Open n \<Rightarrow> attempt_loop c operation run_id sha send [n + 1 ..< 3]) (\<lambda>_. ?P) ?P"
    proof (cases "standing_of run_id sha (matching operation rs)")
      case (Open n)
      show ?thesis
      proof (cases "operation = k")
        case True
        with settled_not_open [OF assms(1), of run_id sha n] Open show ?thesis
          by (auto simp: triple_def with_rows_of_def)
      next
        case False
        show ?thesis unfolding Open standing.case
          by (rule triple_weaken [OF triple_loop_only [OF with_rows_only [OF False]]]) auto
      qed
    qed (auto intro!: triple_return triple_raise)
  qed auto
  then have "triple ?P (request_call c operation run_id sha send) (\<lambda>_. ?P) ?P"
    unfolding request_call_def by (rule triple_with_lock) (auto simp: with_rows_lockless)
  from tripleD [OF this assms(2)] show ?thesis by blast
qed

lemma run_campaign_settled:
  assumes "settled (matching k (rows s))"
  shows "matching k (rows (run_campaign c as s)) = matching k (rows s)"
proof -
  let ?P = "with_rows_of k (matching k (rows s))"
  have step: "?P (campaign_step c a t)" if "?P t" for a t
  proof (cases a)
    case (Call x1 x2 x3 x4 x5 x6)
    have "?P (t\<lparr>life := x5, tearing := x6\<rparr>)" using that by (simp add: with_rows_of_def)
    with Call request_call_settled [OF assms this] show ?thesis by simp
  qed (use that in \<open>simp add: with_rows_of_def\<close>)
  have "?P (run_campaign c as t)" if "?P t" for t
    using that unfolding run_campaign_def by (induction as arbitrary: t) (auto intro: step)
  from this [of s] show ?thesis by (simp add: with_rows_of_def)
qed

section \<open>What a returned call leaves on file\<close>

lemma dumped_row_get:
  "dumped_row r = Some r' \<Longrightarrow> dict_get r k = Some v \<Longrightarrow> \<exists>w. dumped v = Some w \<and> dict_get r' k = Some w"
proof (induction r arbitrary: r')
  case (Cons kv r)
  obtain q u where kv: "kv = (q, u)" by (cases kv)
  show ?case
  proof (cases q)
    case (KStr s)
    with Cons.prems(1) kv obtain w r'' where "dumped u = Some w" "dumped_row r = Some r''"
      "r' = (KStr s, w) # r''" by (auto split: option.splits)
    then show ?thesis using Cons.IH Cons.prems(2) kv KStr by (auto simp: dict_get_def split: if_splits)
  qed (use Cons.prems(1) kv in \<open>simp add: dumped_row_def\<close>)
qed (simp add: dict_get_def)

text \<open>Every row of the operation repeats these inputs, and none is a response.\<close>

definition consistent :: "string \<Rightarrow> string \<Rightarrow> row list \<Rightarrow> bool" where
  "consistent run_id sha ms \<longleftrightarrow> (\<forall>r \<in> set ms. fetch r ''run_id'' = PStr run_id \<and> fetch r ''request_sha256'' = PStr sha)"

definition unanswered :: "string \<Rightarrow> string \<Rightarrow> string \<Rightarrow> 'w machine \<Rightarrow> bool" where
  "unanswered operation run_id sha s \<longleftrightarrow> consistent run_id sha (matching operation (rows s)) \<and>
     with_event ''completed'' (matching operation (rows s)) = []"

definition answer_on_file :: "string \<Rightarrow> string \<Rightarrow> string \<Rightarrow> pyval \<Rightarrow> 'w machine \<Rightarrow> bool" where
  "answer_on_file operation run_id sha v s \<longleftrightarrow>
     (\<exists>v'. (v' = v \<or> dumped v = Some v') \<and> standing_of run_id sha (matching operation (rows s)) = Answered v')"

lemma answer_lockless: "lockless (answer_on_file operation run_id sha v)"
  by (simp add: lockless_def answer_on_file_def)

lemma consistent_standing:
  "consistent run_id sha ms \<longleftrightarrow> \<not> list_ex (\<lambda>r. \<not> py_eq (fetch r ''run_id'') (PStr run_id) \<or>
     \<not> py_eq (fetch r ''request_sha256'') (PStr sha)) ms"
  by (auto simp: consistent_def list_ex_iff)

lemma matching_snoc:
  "matching operation (rs @ [r]) = matching operation rs @ (if fetch r ''operation'' = PStr operation then [r] else [])"
  by (simp add: matching_def)

lemma unanswered_put:
  assumes "unanswered operation run_id sha s" "rows t = rows s" "e \<noteq> ''completed''"
    and r: "dumped_row (identity_row c operation run_id sha n a @ (KStr ''event'', PStr e) # extra) = Some r"
  shows "unanswered operation run_id sha (put_line r k t)"
  using assms(1, 2, 3) dumped_identity [OF r] dumped_event [OF r]
  by (auto simp: unanswered_def consistent_def matching_snoc with_event_def)

lemma answered_put:
  assumes "unanswered operation run_id sha s" "rows t = rows s"
    and r: "dumped_row (identity_row c operation run_id sha n a @
              [(KStr ''event'', PStr ''completed''), (KStr ''response'', v)]) = Some r"
  shows "answer_on_file operation run_id sha v (put_line r k t)"
proof -
  note f = dumped_identity [OF r] dumped_event [OF r]
  have "dict_get (identity_row c operation run_id sha n a @
      [(KStr ''event'', PStr ''completed''), (KStr ''response'', v)]) ''response'' = Some v"
    by (simp add: identity_row_def dict_get_def)
  from dumped_row_get [OF r this] obtain w where w: "dumped v = Some w" "dict_get r ''response'' = Some w" by blast
  let ?ms = "matching operation (rows s) @ [r]"
  have "consistent run_id sha ?ms" using assms(1) f by (simp add: unanswered_def consistent_def)
  moreover have "with_event ''completed'' ?ms = [r]" using assms(1) f by (simp add: unanswered_def with_event_def)
  ultimately have "standing_of run_id sha ?ms = Answered w"
    using w(2) unfolding consistent_standing by (simp add: standing_of_def)
  with assms(2) f w(1) show ?thesis by (auto simp: answer_on_file_def matching_snoc)
qed

lemma unanswered_rows: "unanswered operation run_id sha s \<Longrightarrow> rows t = rows s \<Longrightarrow> unanswered operation run_id sha t"
  by (simp add: unanswered_def)

lemma triple_loop_answer:
  "triple (unanswered operation run_id sha) (attempt_loop c operation run_id sha send ks)
     (answer_on_file operation run_id sha) (\<lambda>_. True)"
proof (induction ks)
  case (Cons a ks)
  let ?U = "unanswered operation run_id sha :: 'a machine \<Rightarrow> bool"
  let ?A = "answer_on_file operation run_id sha"
  let ?I = "\<lambda>n. identity_row c operation run_id sha n a"
  have append: "triple ?U (append_record (?I n @ (KStr ''event'', PStr e) # extra)) (\<lambda>_. ?U) (\<lambda>_. True)"
    if "e \<noteq> ''completed''" for n e extra
    by (rule triple_append) (auto intro: unanswered_put [OF _ _ that])
  have used: "triple ?U (used c) (\<lambda>_. ?U) (\<lambda>_. True)"
    by (rule triple_conseq [OF triple_used [where E = "\<lambda>_. True"]]) auto
  have send: "triple ?U (sendP send) (\<lambda>_. ?U) (\<lambda>_. True)"
    by (rule triple_send) (auto intro: unanswered_rows)
  have fail: "triple ?U (record_failure (?I n) x a) (\<lambda>_. ?U) (\<lambda>_. True)" for n x
    unfolding record_failure_def error_row_def append_Cons
    by (rule triple_bind [OF triple_lift triple_bind [OF append]]) (auto intro: triple_return triple_raise)
  have answer: "triple ?U (append_record (?I n @ [(KStr ''event'', PStr ''completed''), (KStr ''response'', v)]))
      (\<lambda>_. ?A v) (\<lambda>_. True)" for n v
    by (rule triple_append) (auto intro: answered_put)
  have outcome: "triple ?U
      (case outcome of
          Failed x \<Rightarrow> bindP (record_failure (?I n) x a) (\<lambda>_. attempt_loop c operation run_id sha send ks)
        | Interrupted \<Rightarrow> raiseP Interrupt
        | Response v \<Rightarrow> bindP (append_record (?I n @ [(KStr ''event'', PStr ''completed''), (KStr ''response'', v)]))
            (\<lambda>_. returnP v)) ?A (\<lambda>_. True)" for outcome n
    by (cases outcome) (auto intro!: triple_raise triple_return triple_bind [OF fail Cons.IH] triple_bind [OF answer])
  have "triple ?U (if int (slots c) \<le> n then raiseP (Incomplete ''campaign request budget exhausted'')
         else bindP (used c) (\<lambda>m.
           bindP (append_record (?I (m + 1) @ [(KStr ''event'', PStr ''reserved'')])) (\<lambda>_.
           bindP (sendP send) (\<lambda>outcome. case outcome of
               Failed x \<Rightarrow> bindP (record_failure (?I (m + 1)) x a) (\<lambda>_. attempt_loop c operation run_id sha send ks)
             | Interrupted \<Rightarrow> raiseP Interrupt
             | Response v \<Rightarrow> bindP (append_record (?I (m + 1) @
                 [(KStr ''event'', PStr ''completed''), (KStr ''response'', v)])) (\<lambda>_. returnP v))))) ?A (\<lambda>_. True)" for n
    by (auto intro!: triple_raise triple_bind [OF used triple_bind [OF append triple_bind [OF send outcome]]])
  then show ?case
    unfolding attempt_loop.simps Let_def by (rule triple_bind [OF used])
qed (auto intro: triple_raise)

lemma request_call_answer:
  assumes "request_call c operation run_id sha send s = (Done v, t)"
  shows "answer_on_file operation run_id sha v t"
proof -
  let ?A = "answer_on_file operation run_id sha :: pyval \<Rightarrow> 'a machine \<Rightarrow> bool"
  have "triple (\<lambda>_. True) (call_locked c operation run_id sha send) ?A (\<lambda>_. True)"
    unfolding call_locked_def
  proof (rule triple_bind [OF triple_read_ledger])
    fix rs
    show "triple (\<lambda>s. True \<and> rs = rows s \<and> length (reserves_of (rows s)) \<le> slots c)
        (case standing_of run_id sha (matching operation rs) of
          Answered v \<Rightarrow> returnP v | Refused e \<Rightarrow> raiseP e
        | Open n \<Rightarrow> attempt_loop c operation run_id sha send [n + 1 ..< 3]) ?A (\<lambda>_. True)"
    proof (cases "standing_of run_id sha (matching operation rs)")
      case (Open n)
      then have "consistent run_id sha (matching operation rs)" "with_event ''completed'' (matching operation rs) = []"
        unfolding consistent_standing by (auto simp: standing_of_def split: if_splits option.splits)
      then show ?thesis unfolding Open standing.case
        by (intro triple_weaken [OF triple_loop_answer]) (auto simp: unanswered_def)
    qed (auto intro!: triple_return triple_raise simp: answer_on_file_def)
  qed auto
  then have "triple (\<lambda>_. True) (request_call c operation run_id sha send) ?A (\<lambda>_. True)"
    unfolding request_call_def
    by (rule triple_with_lock) (auto simp: answer_lockless)
  from tripleE [OF this _ assms] show ?thesis by simp
qed

text \<open>A call made while nothing else interferes: the lock is free and the process lives.\<close>

lemma request_call_standing:
  assumes "\<not> locked s" "life s = None" "request_read c (read_records s) = Inr rs"
  shows "standing_of run_id sha (matching operation (rows s)) = Answered v
      \<Longrightarrow> request_call c operation run_id sha send s = (Done v, s)"
    and "standing_of run_id sha (matching operation (rows s)) = Refused e
      \<Longrightarrow> request_call c operation run_id sha send s = (Raised e, s)"
proof -
  have rs: "rs = rows s" using rl.machine_read [OF assms(3)] by simp
  have read: "read_ledger c (s\<lparr>locked := True\<rparr>) = (Done (rows s), s\<lparr>locked := True\<rparr>)"
    using assms(3) rs by (simp add: read_ledger_def liftP_def returnP_def)
  have unlock: "s\<lparr>locked := True, locked := False\<rparr> = s" using assms(1) by simp
  note defs = request_call_def with_lock_def take_lock_def bindP_def finallyP_def effect_def call_locked_def
    returnP_def raiseP_def
  show "request_call c operation run_id sha send s = (Done v, s)"
    if "standing_of run_id sha (matching operation (rows s)) = Answered v"
    using assms(1, 2) read that by (simp add: defs)
  show "request_call c operation run_id sha send s = (Raised e, s)"
    if "standing_of run_id sha (matching operation (rows s)) = Refused e"
    using assms(1, 2) read that by (simp add: defs)
qed

lemma answered_settled: "standing_of run_id sha ms = Answered v \<Longrightarrow> settled ms"
  by (auto simp: standing_of_def settled_def split: if_splits option.splits)

end
