(* ===== verification/Provider_Budget.thy ===== *)
theory Provider_Budget
  imports Ledger_Rows
begin

text \<open>
  \<open>ProviderBudgetLedger\<close> of \<open>src/evaluation/provider_budget.py\<close>: one budget shared by the
  campaigns of a round.  \<open>reserve\<close> and \<open>finish\<close> each hold the lock file for themselves; the
  provider call in between runs without it.
\<close>

record budget_config =
  round_id :: string
  budget :: nat

type_synonym budget_key = "string \<times> string"

definition budget_keys :: "string list" where
  "budget_keys = [''campaign_id'', ''operation'', ''request_sha256'']"

definition check_budget_reserve :: "row \<Rightarrow> ledger_error + unit" where
  "check_budget_reserve r =
     ensure (is_str (fetch r ''campaign_id'') \<and> is_str (fetch r ''operation''))
       (Incomplete ''invalid provider round reservation'')"

definition budget_read :: "budget_config \<Rightarrow> row list option \<Rightarrow> ledger_error + row list" where
  "budget_read c v =
     bindE (of_opt (Incomplete ''invalid provider round ledger'') v) (\<lambda>rs.
     bindE (ensure (\<not> list_ex (\<lambda>r. \<not> py_eq (fetch r ''round_id'') (PStr (round_id c)) \<or>
                                    \<not> py_eq (fetch r ''limit'') (PInt (int (budget c)))) rs)
              (Incomplete ''provider round ledger belongs to another budget'')) (\<lambda>_.
     bindE (ensure (slots_ok (reserves_of rs)) (Incomplete ''invalid provider round slot sequence'')) (\<lambda>_.
     bindE (ensure (length (reserves_of rs) \<le> budget c) (Incomplete ''provider round budget exhausted'')) (\<lambda>_.
     bindE (check_rows ''provider round'' budget_keys check_budget_reserve (reserves_of rs) [] rs) (\<lambda>_.
     Inr rs)))))"

definition read_budget :: "budget_config \<Rightarrow> ('w, row list) proc" where
  "read_budget c = (\<lambda>s. liftP (budget_read c (read_records s)) s)"

definition new_budget_ledger :: "string \<Rightarrow> pyval \<Rightarrow> ('w, budget_config) proc" where
  "new_budget_ledger identifier limit = (case limit of
       PInt n \<Rightarrow>
         if 1 \<le> n \<and> n \<le> 2000
         then bindP (read_budget \<lparr>round_id = identifier, budget = nat n\<rparr>) (\<lambda>_.
                returnP \<lparr>round_id = identifier, budget = nat n\<rparr>)
         else raiseP (Bad_value ''provider round limit must be an integer in [1, 2000]'')
     | _ \<Rightarrow> raiseP (Bad_value ''provider round limit must be an integer in [1, 2000]''))"

definition budget_used :: "budget_config \<Rightarrow> ('w, nat) proc" where
  "budget_used c = bindP (read_budget c) (\<lambda>rs. returnP (length (filter reserved rs)))"

definition budget_lock :: string where
  "budget_lock = ''provider round ledger is locked; inspect the previous writer before resuming''"

section \<open>Reserving a slot\<close>

definition budget_row :: "string \<Rightarrow> budget_config \<Rightarrow> int \<Rightarrow> budget_key \<Rightarrow> string \<Rightarrow> row" where
  "budget_row e c slot key sha =
     [(KStr ''event'', PStr e), (KStr ''round_id'', PStr (round_id c)),
      (KStr ''limit'', PInt (int (budget c))), (KStr ''slot'', PInt slot),
      (KStr ''campaign_id'', PStr (fst key)), (KStr ''operation'', PStr (snd key)),
      (KStr ''request_sha256'', PStr sha)]"

definition key_rows :: "budget_key \<Rightarrow> row list \<Rightarrow> row list" where
  "key_rows key rs = filter (\<lambda>r. py_eq (fetch r ''campaign_id'') (PStr (fst key)) \<and>
                                 py_eq (fetch r ''operation'') (PStr (snd key))) rs"

text \<open>The dictionary \<open>terminal_by_slot\<close>; equal slots are one key.\<close>

definition terminal_by_slot :: "row list \<Rightarrow> (pyval \<times> pyval) list" where
  "terminal_by_slot ms =
     fold (\<lambda>r. AList.update (norm_py (fetch r ''slot'')) (fetch r ''event''))
       (filter outcome_row ms) []"

definition reserve_refusal :: "string \<Rightarrow> row list \<Rightarrow> string option" where
  "reserve_refusal sha ms =
    (if list_ex (\<lambda>r. \<not> py_eq (fetch r ''request_sha256'') (PStr sha)) ms
     then Some ''provider round operation inputs changed''
     else if list_ex (\<lambda>r. norm_py (fetch r ''slot'') \<notin> set (map fst (terminal_by_slot ms))) (filter reserved ms)
     then Some ''provider round outcome is unknown; slot retained''
     else if list_ex (\<lambda>e. e = PStr ''completed'') (map snd (terminal_by_slot ms))
     then Some ''provider round operation already completed''
     else None)"

definition reserve_locked :: "budget_config \<Rightarrow> budget_key \<Rightarrow> string \<Rightarrow> ('w, int) proc" where
  "reserve_locked c key sha =
     bindP (read_budget c) (\<lambda>rs.
     case reserve_refusal sha (key_rows key rs) of
       Some msg \<Rightarrow> raiseP (Incomplete msg)
     | None \<Rightarrow>
         if budget c \<le> length (filter reserved rs) then raiseP (Incomplete ''provider round budget exhausted'')
         else bindP (append_record (budget_row ''reserved'' c (int (length (filter reserved rs)) + 1) key sha))
                (\<lambda>_. returnP (int (length (filter reserved rs)) + 1)))"

definition reserve :: "budget_config \<Rightarrow> budget_key \<Rightarrow> string \<Rightarrow> ('w, int) proc" where
  "reserve c key sha = with_lock budget_lock (reserve_locked c key sha)"

section \<open>Recording the outcome\<close>

definition finish_refusal :: "int \<Rightarrow> budget_key \<Rightarrow> string \<Rightarrow> row list \<Rightarrow> string option" where
  "finish_refusal slot key sha rs =
    (case find (\<lambda>r. reserved r \<and> py_eq (fetch r ''slot'') (PInt slot)) rs of
       None \<Rightarrow> Some ''provider round completion identity mismatch''
     | Some q \<Rightarrow>
         if \<not> py_eq (fetch q ''campaign_id'') (PStr (fst key)) \<or>
            \<not> py_eq (fetch q ''operation'') (PStr (snd key)) \<or>
            \<not> py_eq (fetch q ''request_sha256'') (PStr sha)
         then Some ''provider round completion identity mismatch''
         else if list_ex (\<lambda>r. py_eq (fetch r ''slot'') (PInt slot) \<and> \<not> reserved r) rs
         then Some ''provider round slot already completed''
         else None)"

definition finish_locked ::
  "budget_config \<Rightarrow> int \<Rightarrow> budget_key \<Rightarrow> string \<Rightarrow> string \<Rightarrow> string option \<Rightarrow> ('w, unit) proc" where
  "finish_locked c slot key sha e error_type =
     bindP (read_budget c) (\<lambda>rs.
     case finish_refusal slot key sha rs of
       Some msg \<Rightarrow> raiseP (Incomplete msg)
     | None \<Rightarrow>
         append_record (budget_row e c slot key sha @
           (case error_type of
              Some t \<Rightarrow> if t \<noteq> [] then [(KStr ''error_type'', PStr t)] else []
            | None \<Rightarrow> [])))"

definition finish_slot ::
  "budget_config \<Rightarrow> int \<Rightarrow> budget_key \<Rightarrow> string \<Rightarrow> string \<Rightarrow> string option \<Rightarrow> ('w, unit) proc" where
  "finish_slot c slot key sha e error_type =
    (if e \<notin> {''completed'', ''error''}
     then raiseP (Bad_value ''provider round terminal event must be completed or error'')
     else with_lock budget_lock (finish_locked c slot key sha e error_type))"

text \<open>One accounted attempt: reserve, send, and record how it ended.\<close>

definition budget_call ::
  "budget_config \<Rightarrow> budget_key \<Rightarrow> string \<Rightarrow> ('w \<Rightarrow> sent \<times> 'w) \<Rightarrow> ('w, pyval) proc" where
  "budget_call c key sha send =
     bindP (reserve c key sha) (\<lambda>slot.
     bindP (sendP send) (\<lambda>outcome. case outcome of
         Response v \<Rightarrow> bindP (finish_slot c slot key sha ''completed'' None) (\<lambda>_. returnP v)
       | Failed x \<Rightarrow> bindP (finish_slot c slot key sha ''error'' (Some (exn_name x))) (\<lambda>_.
                       raiseP (Provider_failure x))
       | Interrupted \<Rightarrow> raiseP Interrupt))"

section \<open>The interface\<close>

definition budget_own :: "budget_config \<Rightarrow> row \<Rightarrow> bool" where
  "budget_own c r \<longleftrightarrow> fetch r ''round_id'' = PStr (round_id c) \<and> fetch r ''limit'' = PInt (int (budget c)) \<and>
     (reserved r \<longrightarrow> check_budget_reserve r = Inr ())"

interpretation pb: slot_ledger "budget_read c" "budget_own c" budget_keys "budget c" for c
proof unfold_locales
  show "\<not> is_ok (budget_read c None)" by (simp add: budget_read_def)
next
  fix rs rs' assume "budget_read c (Some rs) = Inr rs'"
  then show "rs' = rs \<and> length (reserves_of rs) \<le> budget c"
    by (auto simp: budget_read_def bindE_ok)
next
  fix rs assume g: "grown (budget_own c) budget_keys (budget c) rs"
  have "check_rows ''provider round'' budget_keys check_budget_reserve (reserves_of rs) [] rs = Inr ()"
    by (rule grown_checked [OF g]) (simp add: budget_own_def)
  then show "budget_read c (Some rs) = Inr rs"
    using grown_own [OF g] grown_slots_ok [OF g] grown_length [OF g]
    by (auto simp: budget_read_def budget_own_def list_ex_iff ensure_def)
qed

end
