(* ===== verification/Budget_Account.thy ===== *)
theory Budget_Account
  imports Provider_Budget Ledger_Account
begin

text \<open>
  A round over one provider budget: accounted calls, bare reservations and bare
  completions, by processes that may die at any effect.  The rows stay a well-formed log
  and cover the provider calls; a key with a response on file is closed.
\<close>

section \<open>Rounds\<close>

datatype 'w budget_action =
    Budget_call budget_key string "'w \<Rightarrow> sent \<times> 'w" "nat option" tear
  | Budget_reserve budget_key string "nat option" tear
  | Budget_finish int budget_key string string "string option" "nat option" tear
  | Budget_unlock

fun budget_step ::
  "budget_config \<Rightarrow> 'w budget_action \<Rightarrow> (budget_key list \<times> 'w) machine \<Rightarrow> (budget_key list \<times> 'w) machine"
where
  "budget_step c (Budget_call key sha send l t) s =
     snd (budget_call c key sha (noting key send) (s\<lparr>life := l, tearing := t\<rparr>))"
| "budget_step c (Budget_reserve key sha l t) s = snd (reserve c key sha (s\<lparr>life := l, tearing := t\<rparr>))"
| "budget_step c (Budget_finish slot key sha e err l t) s =
     snd (finish_slot c slot key sha e err (s\<lparr>life := l, tearing := t\<rparr>))"
| "budget_step c Budget_unlock s = s\<lparr>locked := False\<rparr>"

definition run_round ::
  "budget_config \<Rightarrow> 'w budget_action list \<Rightarrow> (budget_key list \<times> 'w) machine \<Rightarrow> (budget_key list \<times> 'w) machine"
where
  "run_round c = fold (budget_step c)"

definition no_round :: "'w \<Rightarrow> (budget_key list \<times> 'w) machine" where
  "no_round w = \<lparr>rows = [], ending = Clean, locked = False, outside = ([], w), life = None, tearing = Untouched\<rparr>"

section \<open>The invariant\<close>

abbreviation budget_logged :: "budget_config \<Rightarrow> 'w machine \<Rightarrow> bool" where
  "budget_logged c \<equiv> logged (budget_own c) budget_keys (budget c)"

definition is_key :: "budget_key \<Rightarrow> row \<Rightarrow> bool" where
  "is_key key r \<longleftrightarrow> fetch r ''campaign_id'' = PStr (fst key) \<and> fetch r ''operation'' = PStr (snd key)"

lemma key_rows_filter: "key_rows key = filter (is_key key)"
  by (simp add: key_rows_def is_key_def [abs_def] fun_eq_iff)

definition in_account :: "budget_config \<Rightarrow> nat \<Rightarrow> budget_key \<Rightarrow> (budget_key list \<times> 'w) machine \<Rightarrow> bool" where
  "in_account c d key s \<longleftrightarrow> budget_logged c s \<and> covered is_key d key s"

lemma in_account_lockless: "lockless (in_account c d key)"
  by (simp add: lockless_def in_account_def locklessD [OF covered_lockless] locklessD [OF logged_lockless])

lemma in_account_drop: "in_account c d key s \<Longrightarrow> in_account c 0 key' s"
  by (auto simp: in_account_def intro: covered_drop)

lemma dumped_budget:
  assumes "dumped_row (budget_row e c n key sha @ extra) = Some r"
  shows "fetch r ''event'' = PStr e" "fetch r ''round_id'' = PStr (round_id c)"
    "fetch r ''limit'' = PInt (int (budget c))" "fetch r ''slot'' = PInt n"
    "fetch r ''campaign_id'' = PStr (fst key)" "fetch r ''operation'' = PStr (snd key)"
    "fetch r ''request_sha256'' = PStr sha"
  using dumped_row_fetch [OF assms, of "''event''"] dumped_row_fetch [OF assms, of "''round_id''"]
    dumped_row_fetch [OF assms, of "''limit''"] dumped_row_fetch [OF assms, of "''slot''"]
    dumped_row_fetch [OF assms, of "''campaign_id''"] dumped_row_fetch [OF assms, of "''operation''"]
    dumped_row_fetch [OF assms, of "''request_sha256''"]
  by (simp_all add: budget_row_def)

lemma dumped_budget_Nil:
  "dumped_row (budget_row e c n key sha) = Some r \<Longrightarrow> dumped_row (budget_row e c n key sha @ []) = Some r"
  by simp

lemma triple_read_budget:
  assumes "\<And>s. P s \<Longrightarrow> E s"
  shows "triple P (read_budget c) (\<lambda>rs s. P s \<and> rs = rows s \<and> length (reserves_of (rows s)) \<le> budget c) E"
proof (rule tripleI)
  fix s r t assume s: "P s" and r: "read_budget c s = (r, t)"
  show "case r of Done rs \<Rightarrow> P t \<and> rs = rows t \<and> length (reserves_of (rows t)) \<le> budget c | _ \<Rightarrow> E t"
  proof (cases "budget_read c (read_records s)")
    case (Inr rs)
    with pb.machine_read(1, 2) [OF Inr] s r show ?thesis
      by (auto simp: read_budget_def liftP_def returnP_def)
  qed (use s r assms in \<open>auto simp: read_budget_def liftP_def raiseP_def\<close>)
qed

lemma in_account_reserve:
  assumes "in_account c 0 key' s" "length (reserves_of (rows s)) < budget c"
    and r: "dumped_row (budget_row ''reserved'' c (int (length (reserves_of (rows s))) + 1) key sha) = Some r"
  shows "in_account c 1 key (put_line r e s)" "in_account c 0 key (torn_line r s)"
proof -
  note f = dumped_budget [OF dumped_budget_Nil [OF r]]
  have res: "reserved r" "is_key key r" using f by (simp_all add: reserved_def is_key_def)
  have "budget_own c r" using f by (simp add: budget_own_def check_budget_reserve_def)
  then have log: "budget_logged c (put_line r k s)" for k
    using assms(1, 2) res f unfolding in_account_def logged_def
    by (auto intro: grown_reserve simp: next_reserve_def)
  then show "in_account c 1 key (put_line r e s)" "in_account c 0 key (torn_line r s)"
    using assms(1) covered_reserve [OF _ res(1), of is_key key' s key] res(2)
    by (auto simp: in_account_def intro: logged_torn)
qed

lemma triple_reserve_locked:
  "triple (in_account c 0 key') (reserve_locked c key sha) (\<lambda>_. in_account c 1 key) (in_account c 0 key)"
  unfolding reserve_locked_def
proof (rule triple_bind [OF triple_read_budget])
  fix rs
  let ?P = "\<lambda>s :: (budget_key list \<times> 'a) machine.
    in_account c 0 key' s \<and> rs = rows s \<and> length (reserves_of (rows s)) \<le> budget c"
  have "triple (\<lambda>s. ?P s \<and> length (reserves_of rs) < budget c)
      (append_record (budget_row ''reserved'' c (int (length (reserves_of rs)) + 1) key sha))
      (\<lambda>_. in_account c 1 key) (in_account c 0 key)"
  proof (rule triple_append)
    fix s :: "(budget_key list \<times> 'a) machine" and r
    assume s: "?P s \<and> length (reserves_of rs) < budget c"
      and r: "dumped_row (budget_row ''reserved'' c (int (length (reserves_of rs)) + 1) key sha) = Some r"
    have acc: "in_account c 0 key' s" "in_account c 0 key' (spend s)"
      using s by (simp_all add: locklessD [OF in_account_lockless])
    show "in_account c 1 key (put_line r Clean (spend s))"
      by (rule in_account_reserve(1) [OF acc(2)]) (use s r in auto)
    show "in_account c 0 key (torn_line r s)"
      by (rule in_account_reserve(2) [OF acc(1)]) (use s r in auto)
  qed (auto intro: in_account_drop)
  note append = this
  show "triple ?P
      (case reserve_refusal sha (key_rows key rs) of
         Some msg \<Rightarrow> raiseP (Incomplete msg)
       | None \<Rightarrow>
           if budget c \<le> length (filter reserved rs) then raiseP (Incomplete ''provider round budget exhausted'')
           else bindP (append_record (budget_row ''reserved'' c (int (length (filter reserved rs)) + 1) key sha))
                  (\<lambda>_. returnP (int (length (filter reserved rs)) + 1)))
      (\<lambda>_. in_account c 1 key) (in_account c 0 key)"
    unfolding reserves_of_def [symmetric]
    by (cases "reserve_refusal sha (key_rows key rs)")
      (auto intro!: triple_raise triple_bind [OF triple_weaken [OF append]] triple_return intro: in_account_drop)
qed (rule in_account_drop)

lemma triple_reserve:
  "triple (in_account c 0 key') (reserve c key sha) (\<lambda>_. in_account c 1 key) (in_account c 0 key)"
  unfolding reserve_def
  by (rule triple_with_lock [OF triple_reserve_locked]) (auto simp: in_account_lockless intro: in_account_drop)

lemma finish_refusal_None:
  assumes "finish_refusal slot key sha rs = None" "grown own keys limit rs"
  obtains q where "q \<in> set (reserves_of rs)" "fetch q ''slot'' = PInt slot" "is_key key q"
    "fetch q ''request_sha256'' = PStr sha" "slot \<notin> set (outcome_slots rs)"
proof -
  from assms(1) obtain q where q: "find (\<lambda>r. reserved r \<and> py_eq (fetch r ''slot'') (PInt slot)) rs = Some q"
    "is_key key q" "fetch q ''request_sha256'' = PStr sha"
    and free: "\<forall>r \<in> set rs. py_eq (fetch r ''slot'') (PInt slot) \<longrightarrow> reserved r"
    by (auto simp: finish_refusal_def is_key_def list_ex_iff split: option.splits if_splits)
  from find_SomeD [OF q(1)] have res: "q \<in> set (reserves_of rs)" "py_eq (fetch q ''slot'') (PInt slot)"
    by (auto simp: reserves_of_def)
  with grown_slot_index [OF assms(2) res(1)] have slot: "fetch q ''slot'' = PInt slot" by (metis py_eq_int)
  have "slot \<notin> set (outcome_slots rs)"
  proof
    assume "slot \<in> set (outcome_slots rs)"
    then obtain r where r: "r \<in> set rs" "\<not> reserved r" "slot_of r = slot" by (auto simp: outcome_slots_def)
    have "1 \<le> slot" using grown_slot_index [OF assms(2) res(1)] slot by simp
    with r(3) have "fetch r ''slot'' = PInt slot" by (simp add: slot_of_def split: pyval.splits)
    with free r(1, 2) show False by (metis py_eq_refl)
  qed
  with res(1) slot q(2, 3) show thesis by (intro that)
qed

lemma in_account_finish:
  assumes "in_account c d k s" "finish_refusal slot key sha (rows s) = None" "e \<in> {''completed'', ''error''}"
    and r: "dumped_row (budget_row e c slot key sha @ extra) = Some r"
  shows "in_account c d k (put_line r z s)" "in_account c d k (torn_line r s)"
proof -
  note f = dumped_budget [OF r]
  have g: "grown (budget_own c) budget_keys (budget c) (rows s)"
    using assms(1) by (simp add: in_account_def logged_def)
  obtain q where q: "q \<in> set (reserves_of (rows s))" "fetch q ''slot'' = PInt slot" "is_key key q"
    "fetch q ''request_sha256'' = PStr sha" "slot \<notin> set (outcome_slots (rows s))"
    by (rule finish_refusal_None [OF assms(2) g])
  have out: "outcome_row r" "\<not> reserved r" using f assms(3) by (auto simp: outcome_row_def reserved_def)
  have own: "budget_own c r" using f out by (simp add: budget_own_def)
  have keys: "\<forall>k \<in> set budget_keys. fetch r k = fetch q k"
    using f q by (simp add: budget_keys_def is_key_def)
  have log: "budget_logged c (put_line r k s)" for k
    using assms(1) logged_next_outcome [of "budget_own c" budget_keys "budget c" s r q slot k] own out(1) q f(4) keys
    unfolding in_account_def by blast
  then show "in_account c d k (put_line r z s)" "in_account c d k (torn_line r s)"
    using assms(1) covered_outcome [OF _ out(2), of is_key d k s] by (auto simp: in_account_def intro: logged_torn)
qed

lemma triple_finish_locked:
  assumes "e \<in> {''completed'', ''error''}"
  shows "triple (in_account c d k) (finish_locked c slot key sha e err) (\<lambda>_. in_account c d k) (in_account c d k)"
  unfolding finish_locked_def
proof (rule triple_bind [OF triple_read_budget])
  fix rs
  let ?row = "budget_row e c slot key sha @ (case err of
      Some t \<Rightarrow> if t \<noteq> [] then [(KStr ''error_type'', PStr t)] else [] | None \<Rightarrow> [])"
  let ?P = "\<lambda>s :: (budget_key list \<times> 'a) machine.
    in_account c d k s \<and> rs = rows s \<and> length (reserves_of (rows s)) \<le> budget c"
  show "triple ?P (case finish_refusal slot key sha rs of
        Some msg \<Rightarrow> raiseP (Incomplete msg) | None \<Rightarrow> append_record ?row)
      (\<lambda>_. in_account c d k) (in_account c d k)"
  proof (cases "finish_refusal slot key sha rs")
    case None
    have "triple ?P (append_record ?row) (\<lambda>_. in_account c d k) (in_account c d k)"
    proof (rule triple_append)
      fix s :: "(budget_key list \<times> 'a) machine" and r
      assume s: "?P s" and r: "dumped_row ?row = Some r"
      have acc: "in_account c d k s" "in_account c d k (spend s)"
        using s by (simp_all add: locklessD [OF in_account_lockless])
      show "in_account c d k (put_line r Clean (spend s))"
        by (rule in_account_finish(1) [OF acc(2) _ assms r]) (use None s in simp)
      show "in_account c d k (torn_line r s)"
        by (rule in_account_finish(2) [OF acc(1) _ assms r]) (use None s in simp)
    qed auto
    then show ?thesis using None by simp
  qed (auto intro: triple_raise)
qed auto

lemma triple_finish:
  "triple (in_account c d k) (finish_slot c slot key sha e err) (\<lambda>_. in_account c d k) (in_account c d k)"
  unfolding finish_slot_def
  by (auto intro!: triple_raise triple_with_lock triple_finish_locked simp: in_account_lockless)

lemma triple_budget_call:
  "triple (in_account c 0 key') (budget_call c key sha (noting key send))
     (\<lambda>_. in_account c 0 key) (in_account c 0 key)"
proof -
  have send: "triple (in_account c 1 key) (sendP (noting key send)) (\<lambda>_. in_account c 0 key) (in_account c 0 key)"
    by (rule triple_send) (auto simp: in_account_def logged_def intro: covered_noted covered_drop)
  show ?thesis
    unfolding budget_call_def
  proof (rule triple_bind [OF triple_reserve triple_bind [OF send]])
    fix slot outcome
    show "triple (in_account c 0 key) (case outcome of
         Response v \<Rightarrow> bindP (finish_slot c slot key sha ''completed'' None) (\<lambda>_. returnP v)
       | Failed x \<Rightarrow> bindP (finish_slot c slot key sha ''error'' (Some (exn_name x))) (\<lambda>_. raiseP (Provider_failure x))
       | Interrupted \<Rightarrow> raiseP Interrupt) (\<lambda>_. in_account c 0 key) (in_account c 0 key)"
      by (cases outcome) (auto intro!: triple_bind [OF triple_finish] triple_return triple_raise)
  qed
qed

lemma budget_step_in_account:
  assumes "in_account c 0 k s"
  shows "in_account c 0 k' (budget_step c a s)"
proof -
  have set': "in_account c 0 k (s\<lparr>life := l, tearing := t\<rparr>)" for l t
    using assms by (simp add: in_account_def logged_def covered_def)
  show ?thesis
  proof (cases a)
    case (Budget_call key sha send l t)
    from tripleD [OF triple_budget_call set'] have
      "in_account c 0 key (snd (budget_call c key sha (noting key send) (s\<lparr>life := l, tearing := t\<rparr>)))" by blast
    with Budget_call show ?thesis by (simp add: in_account_drop)
  next
    case (Budget_reserve key sha l t)
    from tripleD [OF triple_reserve set', of key sha] in_account_drop
    have "in_account c 0 key (snd (reserve c key sha (s\<lparr>life := l, tearing := t\<rparr>)))" by blast
    with Budget_reserve show ?thesis by (simp add: in_account_drop)
  next
    case (Budget_finish slot key sha e err l t)
    from tripleD [OF triple_finish set'] have
      "in_account c 0 k (snd (finish_slot c slot key sha e err (s\<lparr>life := l, tearing := t\<rparr>)))" by blast
    with Budget_finish show ?thesis by (simp add: in_account_drop)
  next
    case Budget_unlock
    with assms show ?thesis by (simp add: locklessD [OF in_account_lockless] in_account_drop)
  qed
qed

lemma run_round_in_account:
  "in_account c 0 k s \<Longrightarrow> in_account c 0 k (run_round c as s)"
  unfolding run_round_def by (induction as arbitrary: s) (auto intro: budget_step_in_account)

lemma in_account_no_round: "in_account c 0 k (no_round w)"
  by (simp add: in_account_def logged_def covered_def no_round_def grown_empty)

end
