(* ===== verification/Budget_Closed.thy ===== *)
theory Budget_Closed
  imports Budget_Account
begin

text \<open>
  A key of the provider budget is closed once one of its attempts has completed: all its
  reservations have outcomes, and neither \<open>reserve\<close> nor \<open>finish\<close> adds a row for it again.
\<close>

definition closed :: "row list \<Rightarrow> bool" where
  "closed ms \<longleftrightarrow> (\<forall>r \<in> set ms. reserved r \<longrightarrow> (\<exists>t \<in> set ms. outcome_row t \<and> fetch t ''slot'' = fetch r ''slot'')) \<and>
     (\<exists>r \<in> set ms. fetch r ''event'' = PStr ''completed'')"

text \<open>No reservation but the one of this slot is without an outcome.\<close>

definition pending_only :: "int \<Rightarrow> row list \<Rightarrow> bool" where
  "pending_only n ms \<longleftrightarrow> (\<forall>r \<in> set ms. reserved r \<longrightarrow> fetch r ''slot'' \<noteq> PInt n \<longrightarrow>
     (\<exists>t \<in> set ms. outcome_row t \<and> fetch t ''slot'' = fetch r ''slot''))"

section \<open>The dictionary of outcomes\<close>

lemma map_of_fold_update:
  "map_of (fold (\<lambda>r. AList.update (f r) (g r)) xs al) = fold (\<lambda>r m. m(f r \<mapsto> g r)) xs (map_of al)"
  by (induction xs arbitrary: al) (simp_all add: update_conv')

lemma fold_upd_other: "k \<notin> f ` set xs \<Longrightarrow> fold (\<lambda>r m. m(f r \<mapsto> g r)) xs m k = m k"
  by (induction xs arbitrary: m) auto

lemma fold_upd_distinct:
  "distinct (map f xs) \<Longrightarrow> r \<in> set xs \<Longrightarrow> fold (\<lambda>r m. m(f r \<mapsto> g r)) xs m (f r) = Some (g r)"
proof (induction xs arbitrary: m)
  case (Cons x xs)
  show ?case
  proof (cases "r = x")
    case True
    then show ?thesis unfolding fold_simps using Cons.prems(1) by (subst fold_upd_other) auto
  next
    case False
    then show ?thesis unfolding fold_simps using Cons.prems by (intro Cons.IH) auto
  qed
qed simp

lemma fold_upd_dom: "fold (\<lambda>r m. m(f r \<mapsto> g r)) xs m k = Some v \<Longrightarrow> m k = Some v \<or> (\<exists>r \<in> set xs. f r = k)"
proof (induction xs arbitrary: m)
  case (Cons x xs)
  from Cons.IH [OF Cons.prems [unfolded fold_simps]] show ?case by (auto split: if_splits)
qed simp

lemma grown_outcome_rows:
  assumes "grown own keys limit rs"
  shows "distinct (outcome_slots rs) \<and>
    (\<forall>r \<in> set rs. \<not> reserved r \<longrightarrow> outcome_row r \<and> fetch r ''slot'' = PInt (slot_of r))"
  using assms
proof (induction rule: grown.induct)
  case grown_empty
  then show ?case by (simp add: outcome_slots_def)
next
  case (grown_reserve rs q)
  then show ?case by (auto simp: next_reserve_def)
next
  case (grown_outcome rs q)
  then obtain p where p: "p \<in> set (reserves_of rs)" "fetch q ''slot'' = fetch p ''slot''"
    "slot_of p \<notin> set (outcome_slots rs)" "outcome_row q"
    by (auto simp: next_outcome_def)
  have q: "slot_of q = slot_of p" "fetch q ''slot'' = PInt (slot_of p)"
    unfolding slot_of_def [of q] p(2) slot_of_def [symmetric]
    using grown_slot_index [OF grown_outcome.hyps(1) p(1)] by simp_all
  have "distinct (outcome_slots rs @ [slot_of p])" using grown_outcome.IH p(3) by simp
  then have "distinct (outcome_slots (rs @ [q]))"
    using outcome_not_reserved [OF p(4)] unfolding q(1) [symmetric] by simp
  with grown_outcome.IH p(4) q show ?case by (metis Un_iff set_append empty_iff empty_set set_ConsD)
qed

lemma terminal_slots:
  fixes key :: budget_key
  assumes "grown own keys limit rs"
  defines "ms \<equiv> key_rows key rs"
  shows "r \<in> set ms \<Longrightarrow> outcome_row r \<Longrightarrow> (PInt (slot_of r), fetch r ''event'') \<in> set (terminal_by_slot ms)"
    and "PInt n \<in> set (map fst (terminal_by_slot ms)) \<Longrightarrow> \<exists>t \<in> set ms. outcome_row t \<and> fetch t ''slot'' = PInt n"
proof -
  let ?f = "\<lambda>r. norm_py (fetch r ''slot'')" and ?g = "\<lambda>r. fetch r ''event''"
  let ?os = "filter outcome_row ms"
  have row: "fetch r ''slot'' = PInt (slot_of r)" if "r \<in> set ?os" for r
    using grown_outcome_rows [OF assms(1)] that unfolding ms_def key_rows_def
    by (auto simp: outcome_not_reserved)
  have f: "?f r = PInt (slot_of r)" if "r \<in> set ?os" for r using row [OF that] by simp
  have m: "map_of (terminal_by_slot ms) = fold (\<lambda>r m. m(?f r \<mapsto> ?g r)) ?os Map.empty"
    unfolding terminal_by_slot_def by (simp add: map_of_fold_update)
  have "filter (\<lambda>r. \<not> reserved r) rs = filter outcome_row rs"
    using grown_outcome_rows [OF assms(1)] outcome_not_reserved by (intro filter_cong) auto
  then have "distinct (map slot_of (filter outcome_row rs))"
    using grown_outcome_rows [OF assms(1)] by (simp add: outcome_slots_def)
  from distinct_map_filter [OF this, of "is_key key"] have "distinct (map slot_of ?os)"
    by (simp add: ms_def key_rows_filter conj_commute)
  then have d: "distinct (map ?f ?os)"
    using f by (auto simp: distinct_map inj_on_def)
  show "(PInt (slot_of r), fetch r ''event'') \<in> set (terminal_by_slot ms)"
    if "r \<in> set ms" "outcome_row r"
  proof -
    have r: "r \<in> set ?os" using that by simp
    from fold_upd_distinct [OF d r, of ?g Map.empty] have "map_of (terminal_by_slot ms) (?f r) = Some (?g r)"
      by (simp add: m)
    then show ?thesis using map_of_SomeD f [OF r] by metis
  qed
  show "\<exists>t \<in> set ms. outcome_row t \<and> fetch t ''slot'' = PInt n"
    if "PInt n \<in> set (map fst (terminal_by_slot ms))"
  proof -
    from that obtain v where "map_of (terminal_by_slot ms) (PInt n) = Some v"
      by (metis image_set map_of_eq_None_iff not_None_eq)
    then obtain t where "t \<in> set ?os" "?f t = PInt n" using fold_upd_dom [of ?f ?g ?os Map.empty] by (auto simp: m)
    with row show ?thesis by fastforce
  qed
qed

section \<open>Closed keys stay closed\<close>

lemma closed_reserve_refused:
  assumes "grown own keys limit rs" "closed (key_rows key rs)"
  shows "reserve_refusal sha (key_rows key rs) \<noteq> None"
proof -
  from assms(2) obtain r where r: "r \<in> set (key_rows key rs)" "fetch r ''event'' = PStr ''completed''"
    by (auto simp: closed_def)
  have "outcome_row r" using r(2) by (simp add: outcome_row_def)
  from terminal_slots(1) [OF assms(1) r(1) this] r(2)
  have "list_ex (\<lambda>e. e = PStr ''completed'') (map snd (terminal_by_slot (key_rows key rs)))"
    by (force simp: list_ex_iff)
  then show ?thesis by (simp add: reserve_refusal_def)
qed

lemma closed_finish_refused:
  assumes "grown own keys limit rs" "closed (key_rows key rs)"
  shows "finish_refusal slot key sha rs \<noteq> None"
proof
  assume "finish_refusal slot key sha rs = None"
  from finish_refusal_None [OF this assms(1)] obtain q where q: "q \<in> set (reserves_of rs)"
    "fetch q ''slot'' = PInt slot" "is_key key q" "slot \<notin> set (outcome_slots rs)" by metis
  then have "q \<in> set (key_rows key rs)" "reserved q" by (auto simp: key_rows_filter reserves_of_def)
  with assms(2) obtain t where t: "t \<in> set (key_rows key rs)" "outcome_row t" "fetch t ''slot'' = PInt slot"
    using q(2) by (auto simp: closed_def)
  then have "slot_of t = slot" "t \<in> set rs" by (auto simp: slot_of_def key_rows_def)
  with t(2) q(4) show False by (auto simp: outcome_slots_def outcome_not_reserved)
qed

text \<open>What is on file about a key, and how many calls were made for it.\<close>

definition about :: "budget_key \<Rightarrow> row list \<Rightarrow> nat \<Rightarrow> (budget_key list \<times> 'w) machine \<Rightarrow> bool" where
  "about key ms n s \<longleftrightarrow> key_rows key (rows s) = ms \<and> count_list (fst (outside s)) key = n"

lemma about_lockless: "lockless (about key ms n)"
  by (simp add: lockless_def about_def)

lemma about_put:
  assumes "about key ms n s" "key' \<noteq> key"
    and r: "dumped_row (budget_row e c slot key' sha @ extra) = Some r"
  shows "about key ms n (put_line r z s)" "about key ms n (torn_line r s)"
proof -
  have "\<not> is_key key r" using dumped_budget [OF r] assms(2) by (auto simp: is_key_def prod_eq_iff)
  with assms(1) show "about key ms n (put_line r z s)" "about key ms n (torn_line r s)"
    by (simp_all add: about_def key_rows_filter torn_line_def split: tear.splits)
qed

lemma triple_append_about:
  assumes "key' \<noteq> key"
  shows "triple (about key ms n) (append_record (budget_row e c slot key' sha @ extra))
    (\<lambda>_. about key ms n) (about key ms n)"
  by (rule triple_append) (auto intro: about_put [OF _ assms] simp: locklessD [OF about_lockless])

lemma triple_reserve_about:
  assumes "closed ms"
  shows "triple (\<lambda>s. in_account c 0 k s \<and> about key ms n s) (reserve c key' sha)
    (\<lambda>_ s. key' \<noteq> key \<and> about key ms n s) (about key ms n)"
proof -
  let ?P = "\<lambda>s. in_account c 0 k s \<and> about key ms n s"
  have "triple ?P (reserve_locked c key' sha) (\<lambda>_ s. key' \<noteq> key \<and> about key ms n s) (about key ms n)"
    unfolding reserve_locked_def
  proof (rule triple_bind [OF triple_read_budget])
    fix rs
    let ?R = "\<lambda>s. ?P s \<and> rs = rows s \<and> length (reserves_of (rows s)) \<le> budget c"
    show "triple ?R
        (case reserve_refusal sha (key_rows key' rs) of
           Some msg \<Rightarrow> raiseP (Incomplete msg)
         | None \<Rightarrow>
             if budget c \<le> length (filter reserved rs) then raiseP (Incomplete ''provider round budget exhausted'')
             else bindP (append_record (budget_row ''reserved'' c (int (length (filter reserved rs)) + 1) key' sha))
                    (\<lambda>_. returnP (int (length (filter reserved rs)) + 1)))
        (\<lambda>_ s. key' \<noteq> key \<and> about key ms n s) (about key ms n)"
    proof (cases "key' = key")
      case True
      have "\<not> ?R s" if "reserve_refusal sha (key_rows key' rs) = None" for s
        using closed_reserve_refused [of "budget_own c" budget_keys "budget c" rs key sha] that True assms
        by (auto simp: about_def in_account_def logged_def)
      then show ?thesis
        by (cases "reserve_refusal sha (key_rows key' rs)") (auto intro: triple_raise triple_False)
    next
      case False
      note append = triple_append_about [OF False, where extra = "[]", simplified]
      show ?thesis using False
        by (auto intro!: triple_raise triple_bind [OF triple_weaken [OF append]] triple_return split: option.splits)
    qed
  qed auto
  then show ?thesis unfolding reserve_def
    by (rule triple_with_lock)
      (auto simp: lockless_def locklessD [OF about_lockless] locklessD [OF in_account_lockless])
qed

lemma triple_finish_about:
  assumes "closed ms"
  shows "triple (\<lambda>s. in_account c d k s \<and> about key ms n s) (finish_slot c slot key' sha e err)
    (\<lambda>_. about key ms n) (about key ms n)"
proof -
  let ?P = "\<lambda>s. in_account c d k s \<and> about key ms n s"
  have "triple ?P (finish_locked c slot key' sha e err) (\<lambda>_. about key ms n) (about key ms n)"
    unfolding finish_locked_def
  proof (rule triple_bind [OF triple_read_budget])
    fix rs
    let ?R = "\<lambda>s. ?P s \<and> rs = rows s \<and> length (reserves_of (rows s)) \<le> budget c"
    show "triple ?R (case finish_refusal slot key' sha rs of
           Some msg \<Rightarrow> raiseP (Incomplete msg)
         | None \<Rightarrow> append_record (budget_row e c slot key' sha @
             (case err of Some t \<Rightarrow> if t \<noteq> [] then [(KStr ''error_type'', PStr t)] else [] | None \<Rightarrow> [])))
        (\<lambda>_. about key ms n) (about key ms n)"
    proof (cases "key' = key")
      case True
      have "\<not> ?R s" if "finish_refusal slot key' sha rs = None" for s
        using closed_finish_refused [of "budget_own c" budget_keys "budget c" rs key slot sha] that True assms
        by (auto simp: about_def in_account_def logged_def)
      then show ?thesis
        by (cases "finish_refusal slot key' sha rs") (auto intro: triple_raise triple_False)
    next
      case False
      show ?thesis
      proof (cases "finish_refusal slot key' sha rs")
        case None
        show ?thesis unfolding None option.case by (rule triple_weaken [OF triple_append_about [OF False]]) auto
      qed (auto intro: triple_raise)
    qed
  qed auto
  then show ?thesis unfolding finish_slot_def
    by (auto intro!: triple_raise triple_with_lock
        simp: lockless_def locklessD [OF about_lockless] locklessD [OF in_account_lockless])
qed

lemma triple_call_about:
  assumes "closed ms"
  shows "triple (\<lambda>s. in_account c 0 k s \<and> about key ms n s) (budget_call c key' sha (noting key' send))
    (\<lambda>_. about key ms n) (about key ms n)"
proof -
  have res: "triple (\<lambda>s. in_account c 0 k s \<and> about key ms n s) (reserve c key' sha)
      (\<lambda>_ s. in_account c 1 key' s \<and> key' \<noteq> key \<and> about key ms n s) (about key ms n)"
    by (rule triple_conseq [OF triple_conj [OF triple_weaken [OF triple_reserve] triple_reserve_about [OF assms]]]) auto
  have send: "triple (\<lambda>s. in_account c 1 key' s \<and> key' \<noteq> key \<and> about key ms n s) (sendP (noting key' send))
      (\<lambda>_ s. in_account c 0 key' s \<and> about key ms n s) (about key ms n)"
    by (rule triple_send) (auto simp: in_account_def logged_def about_def noting_keys intro: covered_noted)
  show ?thesis
    unfolding budget_call_def
  proof (rule triple_bind [OF res triple_bind [OF send]])
    fix slot outcome
    show "triple (\<lambda>s. in_account c 0 key' s \<and> about key ms n s) (case outcome of
         Response v \<Rightarrow> bindP (finish_slot c slot key' sha ''completed'' None) (\<lambda>_. returnP v)
       | Failed x \<Rightarrow> bindP (finish_slot c slot key' sha ''error'' (Some (exn_name x))) (\<lambda>_. raiseP (Provider_failure x))
       | Interrupted \<Rightarrow> raiseP Interrupt) (\<lambda>_. about key ms n) (about key ms n)"
      by (cases outcome)
        (auto intro!: triple_bind [OF triple_finish_about [OF assms]] triple_return triple_raise)
  qed
qed

lemma run_round_closed:
  assumes "in_account c 0 k s" "closed (key_rows key (rows s))"
  shows "about key (key_rows key (rows s)) (count_list (fst (outside s)) key) (run_round c as s)"
proof -
  let ?A = "about key (key_rows key (rows s)) (count_list (fst (outside s)) key)"
  have step: "in_account c 0 k (budget_step c a t) \<and> ?A (budget_step c a t)" if t: "in_account c 0 k t" "?A t" for a t
  proof
    have set': "in_account c 0 k (t\<lparr>life := l, tearing := z\<rparr>) \<and> ?A (t\<lparr>life := l, tearing := z\<rparr>)" for l z
      using t by (simp add: in_account_def logged_def covered_def about_def)
    show "?A (budget_step c a t)"
    proof (cases a)
      case (Budget_call key' sha send l z)
      from tripleD [OF triple_call_about [OF assms(2)] set'] Budget_call show ?thesis by simp
    next
      case (Budget_reserve key' sha l z)
      from tripleD [OF triple_reserve_about [OF assms(2)] set', of key' sha] Budget_reserve show ?thesis by simp
    next
      case (Budget_finish slot key' sha e err l z)
      from tripleD [OF triple_finish_about [OF assms(2)] set'] Budget_finish show ?thesis by simp
    next
      case Budget_unlock
      with t(2) show ?thesis by (simp add: about_def)
    qed
  qed (rule budget_step_in_account [OF t(1)])
  have "?A (run_round c as t)" if "in_account c 0 k t" "?A t" for t
    using that unfolding run_round_def by (induction as arbitrary: t) (use step in auto)
  from this [OF assms(1)] show ?thesis by (simp add: about_def)
qed

section \<open>A call that returned has closed its key\<close>

lemma reserve_refusal_None:
  assumes "reserve_refusal sha (key_rows key rs) = None" "grown own keys limit rs"
    "r \<in> set (key_rows key rs)" "reserved r"
  shows "\<exists>t \<in> set (key_rows key rs). outcome_row t \<and> fetch t ''slot'' = fetch r ''slot''"
proof -
  have "r \<in> set (reserves_of rs)" using assms(3, 4) by (auto simp: key_rows_def reserves_of_def)
  then have slot: "fetch r ''slot'' = PInt (slot_of r)" using grown_slot_index [OF assms(2)] by blast
  from assms(1) have "\<forall>q \<in> set (key_rows key rs). reserved q \<longrightarrow>
      norm_py (fetch q ''slot'') \<in> set (map fst (terminal_by_slot (key_rows key rs)))"
    by (auto simp: reserve_refusal_def list_ex_iff split: if_splits)
  with assms(3, 4) slot have "PInt (slot_of r) \<in> set (map fst (terminal_by_slot (key_rows key rs)))" by force
  from terminal_slots(2) [OF assms(2) this] slot show ?thesis by simp
qed

lemma triple_reserve_pending:
  "triple (in_account c 0 k) (reserve c key sha) (\<lambda>n s. pending_only n (key_rows key (rows s))) (\<lambda>_. True)"
proof -
  let ?Q = "\<lambda>n s. pending_only n (key_rows key (rows s))"
  have "triple (in_account c 0 k :: (budget_key list \<times> 'a) machine \<Rightarrow> bool) (reserve_locked c key sha) ?Q (\<lambda>_. True)"
    unfolding reserve_locked_def
  proof (rule triple_bind [OF triple_read_budget])
    fix rs
    let ?n = "int (length (filter reserved rs)) + 1"
    let ?R = "\<lambda>s :: (budget_key list \<times> 'a) machine.
      in_account c 0 k s \<and> rs = rows s \<and> length (reserves_of (rows s)) \<le> budget c"
    have "triple ?R (append_record (budget_row ''reserved'' c ?n key sha)) (\<lambda>_. ?Q ?n) (\<lambda>_. True)"
      if none: "reserve_refusal sha (key_rows key rs) = None"
    proof (rule triple_append)
      fix s :: "(budget_key list \<times> 'a) machine" and r
      assume s: "?R s" and r: "dumped_row (budget_row ''reserved'' c ?n key sha) = Some r"
      note f = dumped_budget [OF dumped_budget_Nil [OF r]]
      have "is_key key r" using f by (simp add: is_key_def)
      with s f reserve_refusal_None [OF none] show "?Q ?n (put_line r Clean (spend s))"
        by (auto simp: pending_only_def key_rows_filter in_account_def logged_def)
    qed auto
    note append = this
    show "triple ?R
        (case reserve_refusal sha (key_rows key rs) of
           Some msg \<Rightarrow> raiseP (Incomplete msg)
         | None \<Rightarrow>
             if budget c \<le> length (filter reserved rs) then raiseP (Incomplete ''provider round budget exhausted'')
             else bindP (append_record (budget_row ''reserved'' c ?n key sha)) (\<lambda>_. returnP ?n)) ?Q (\<lambda>_. True)"
      by (auto intro!: triple_raise triple_bind [OF append] triple_return split: option.splits)
  qed auto
  then show ?thesis unfolding reserve_def
    by (rule triple_with_lock) (auto simp: locklessD [OF in_account_lockless] in_account_lockless lockless_def)
qed

lemma triple_finish_closes:
  "triple (\<lambda>s. pending_only slot (key_rows key (rows s))) (finish_slot c slot key sha ''completed'' None)
    (\<lambda>_ s. closed (key_rows key (rows s))) (\<lambda>_. True)"
proof -
  let ?P = "\<lambda>s :: 'a machine. pending_only slot (key_rows key (rows s))"
  have append: "triple ?P (append_record (budget_row ''completed'' c slot key sha))
      (\<lambda>_ s. closed (key_rows key (rows s))) (\<lambda>_. True)"
  proof (rule triple_append)
    fix s :: "'a machine" and r
    assume s: "?P s" and r: "dumped_row (budget_row ''completed'' c slot key sha) = Some r"
    note f = dumped_budget [OF dumped_budget_Nil [OF r]]
    have out: "is_key key r" "outcome_row r" "\<not> reserved r"
      using f by (simp_all add: is_key_def outcome_row_def reserved_def)
    have "\<exists>t \<in> set (key_rows key (rows s)) \<union> {r}. outcome_row t \<and> fetch t ''slot'' = fetch q ''slot''"
      if "q \<in> set (key_rows key (rows s))" "reserved q" for q
      using s that f out by (cases "fetch q ''slot'' = PInt slot") (auto simp: pending_only_def)
    with f out show "closed (key_rows key (rows (put_line r Clean (spend s))))"
      by (auto simp: closed_def key_rows_filter)
  qed auto
  have "triple ?P (finish_locked c slot key sha ''completed'' None) (\<lambda>_ s. closed (key_rows key (rows s))) (\<lambda>_. True)"
    unfolding finish_locked_def
    by (rule triple_bind [OF triple_read_budget [where E = "\<lambda>_. True"]])
      (auto intro!: triple_raise triple_weaken [OF append] split: option.splits)
  then show ?thesis unfolding finish_slot_def
    by (auto intro!: triple_with_lock simp: lockless_def)
qed

lemma budget_call_closes:
  assumes "in_account c 0 k s" "budget_call c key sha (noting key send) s = (Done v, t)"
  shows "closed (key_rows key (rows t))"
proof -
  have send: "triple (\<lambda>s. pending_only slot (key_rows key (rows s))) (sendP (noting key send))
      (\<lambda>_ s. pending_only slot (key_rows key (rows s))) (\<lambda>_. True)" for slot
    by (rule triple_send) auto
  have "triple (in_account c 0 k) (budget_call c key sha (noting key send)) (\<lambda>_ s. closed (key_rows key (rows s))) (\<lambda>_. True)"
    unfolding budget_call_def
  proof (rule triple_bind [OF triple_reserve_pending triple_bind [OF send]])
    fix slot outcome
    let ?P = "\<lambda>s :: (budget_key list \<times> 'a) machine. pending_only slot (key_rows key (rows s))"
    have any: "triple ?P m (\<lambda>_ _. True) (\<lambda>_. True)" for m :: "(budget_key list \<times> 'a, unit) proc"
      by (simp add: triple_def split: prod.splits fate.splits)
    show "triple ?P (case outcome of
         Response v \<Rightarrow> bindP (finish_slot c slot key sha ''completed'' None) (\<lambda>_. returnP v)
       | Failed x \<Rightarrow> bindP (finish_slot c slot key sha ''error'' (Some (exn_name x))) (\<lambda>_. raiseP (Provider_failure x))
       | Interrupted \<Rightarrow> raiseP Interrupt) (\<lambda>_ s. closed (key_rows key (rows s))) (\<lambda>_. True)"
    proof (cases outcome)
      case (Response v)
      show ?thesis unfolding Response sent.case
        by (rule triple_bind [OF triple_finish_closes]) (auto intro: triple_return)
    qed (auto intro!: triple_bind [OF any] triple_raise)
  qed
  from tripleE [OF this assms] show ?thesis by simp
qed

end
