(* ===== verification/Ledger_Properties.thy ===== *)
theory Ledger_Properties
  imports Request_Replay Budget_Closed
begin

text \<open>
  The properties of the two request ledgers: budgets that no crash exceeds, files that
  every crash leaves readable, answers that are replayed and attempts that are not repeated.
\<close>

section \<open>A campaign\<close>

definition demo_reply :: "nat \<Rightarrow> sent \<times> nat" where
  "demo_reply w = (Response (PDict [(KStr ''content'', PStr ''yes'')]), w + 1)"

definition demo_limited :: "nat \<Rightarrow> sent \<times> nat" where
  "demo_limited w = (Failed (provider_operation_error ''rate_limit'' (Some 429) None None), w + 1)"

definition demo_ledger :: ledger_config where
  "demo_ledger = \<lparr>campaign = ''round-1'', slots = 6\<rparr>"

text \<open>A rate-limited operation, one that is answered, and one whose process dies before it sends.\<close>

definition demo_actions :: "nat campaign_action list" where
  "demo_actions =
    [Call ''gen:1'' ''run'' ''aa'' demo_limited None Untouched,
     Call ''gen:2'' ''run'' ''bb'' demo_reply None Untouched,
     Call ''gen:3'' ''run'' ''cc'' demo_reply (Some 2) Untouched,
     Remove_lock]"

definition demo_campaign :: "nat noted" where
  "demo_campaign = run_campaign demo_ledger demo_actions (no_file 0)"

definition overview :: "ledger_config \<Rightarrow> nat noted \<Rightarrow> string list \<times> bool \<times> bool \<times> bool \<times> bool \<times> bool \<times> bool" where
  "overview c s = (fst (outside s), locked s, life s = None, ending s = Torn, list_all one_line (rows s),
     is_ok (request_read c (read_records s)), settled (matching ''gen:3'' (rows s)))"

lemma demo_campaign_eq:
  "overview demo_ledger demo_campaign =
     ([''gen:2'', ''gen:1'', ''gen:1''], False, False, False, True, True, True)"
  by code_simp

text \<open>C31. The provider is called at most once per reserved slot: whatever operations a campaign calls, however
  their sends end and wherever its processes die, at most \<open>limit\<close> sends are made in all, at most 60, and at most two
  for any one operation.\<close>

theorem campaign_sends_bounded:
  assumes "new_request_ledger campaign_id limit (no_file w) = (Done c, s)"
  shows "length (fst (outside (run_campaign c as s))) \<le> slots c \<and> slots c \<le> 60 \<and>
    count_list (fst (outside (run_campaign c as s))) operation \<le> 2"
proof -
  from assms obtain n where "limit = PInt n" "1 \<le> n" "n \<le> 60"
    "bindP (read_ledger \<lparr>campaign = campaign_id, slots = nat n\<rparr>)
       (\<lambda>_. returnP \<lparr>campaign = campaign_id, slots = nat n\<rparr>) (no_file w) = (Done c, s)"
    by (auto simp: new_request_ledger_def raiseP_def split: pyval.splits if_splits)
  then have c: "slots c \<le> 60" and s: "s = no_file w"
    by (auto simp: bindP_def read_ledger_def liftP_def returnP_def raiseP_def split: sum.splits)
  have acc: "accounted (slots c) 0 operation (run_campaign c as s)"
    unfolding s by (rule run_campaign_accounted [OF accounted_no_file])
  then show ?thesis
    using c covered_total covered_count [of is_operation 0 operation "run_campaign c as s" operation]
    unfolding accounted_def reserved_for_filter by (meson order_trans)
qed

theorem campaign_sends_bounded_witness:
  "length (fst (outside demo_campaign)) \<le> 6 \<and> count_list (fst (outside demo_campaign)) ''gen:1'' \<le> 2"
proof -
  have "new_request_ledger ''round-1'' (PInt 6) (no_file (0 :: nat)) = (Done demo_ledger, no_file 0)"
    by code_simp
  from campaign_sends_bounded [OF this, of demo_actions "''gen:1''"] show ?thesis
    by (simp add: demo_campaign_def demo_ledger_def)
qed

text \<open>C32. A process that dies between any two effects leaves a ledger that the next one reads: unless a write was
  torn, and as long as every record is one line, the ledger of a campaign passes all checks, its slots are numbered
  from 1, and \<open>used\<close> counts its reservations.\<close>

theorem crash_leaves_ledger_readable:
  assumes "ending (run_campaign c as (no_file w)) \<noteq> Torn" "list_all one_line (rows (run_campaign c as (no_file w)))"
  shows "request_read c (read_records (run_campaign c as (no_file w))) = Inr (rows (run_campaign c as (no_file w))) \<and>
    used c (run_campaign c as (no_file w)) =
      (Done (int (length (reserves_of (rows (run_campaign c as (no_file w)))))), run_campaign c as (no_file w)) \<and>
    slots_ok (reserves_of (rows (run_campaign c as (no_file w))))"
proof -
  let ?s = "run_campaign c as (no_file w)"
  have g: "request_log c (rows ?s)"
    using run_campaign_logged [OF logged_no_file] by (simp add: logged_def)
  have read: "request_read c (read_records ?s) = Inr (rows ?s)"
    by (rule rl.machine_read_grown [OF g assms])
  then have "used c ?s = (Done (int (length (reserves_of (rows ?s)))), ?s)"
    by (simp add: used_def read_ledger_def liftP_def bindP_def returnP_def reserves_of_def)
  with read grown_slots_ok [OF g] show ?thesis by blast
qed

theorem crash_leaves_ledger_readable_witness:
  "is_ok (request_read demo_ledger (read_records demo_campaign)) \<and> slots_ok (reserves_of (rows demo_campaign))"
  using crash_leaves_ledger_readable [of demo_ledger demo_actions 0] demo_campaign_eq
  unfolding demo_campaign_def overview_def by simp

text \<open>C33. An answered operation is never sent again.  Once a call has returned, and whatever calls, deaths and
  lock removals follow, calling it again with the same inputs, in a process that does not die meanwhile, sends nothing
  and changes neither the ledger nor the world: it returns the stored response (the one returned, or its JSON round
  trip) if the ledger is not locked and can be read; it raises the lock error if a dead writer's lock is still there,
  and the reader's error if the file is torn or otherwise fails the checks.\<close>

theorem answered_call_replays:
  fixes s :: "'w noted"
  assumes "request_call c operation run_id sha send s = (Done v, t)"
    and "T = (run_campaign c as t)\<lparr>life := None\<rparr>"
  shows "\<exists>v'. (v' = v \<or> dumped v = Some v') \<and>
    request_call c operation run_id sha send' T =
      (if locked T then Raised (Incomplete ''ledger is locked; inspect the previous writer before resuming'')
       else (case request_read c (read_records T) of Inl err \<Rightarrow> Raised err | Inr rs \<Rightarrow> Done v'), T)"
proof -
  from request_call_answer [OF assms(1)] obtain v' where v': "v' = v \<or> dumped v = Some v'"
    "standing_of run_id sha (matching operation (rows t)) = Answered v'"
    by (auto simp: answer_on_file_def)
  with run_campaign_settled [OF answered_settled [OF v'(2)], of c as] assms(2)
  have st: "standing_of run_id sha (matching operation (rows T)) = Answered v'" by simp
  have alive: "life T = None" by (simp add: assms(2))
  have "request_call c operation run_id sha send' T =
      (if locked T then Raised (Incomplete ''ledger is locked; inspect the previous writer before resuming'')
       else (case request_read c (read_records T) of Inl err \<Rightarrow> Raised err | Inr rs \<Rightarrow> Done v'), T)"
  proof (cases "locked T")
    case True
    with alive show ?thesis by (simp add: request_call_def with_lock_def take_lock_def bindP_def)
  next
    case False
    show ?thesis
    proof (cases "request_read c (read_records T)")
      case (Inl err)
      then have "read_ledger c (T\<lparr>locked := True\<rparr>) = (Raised err, T\<lparr>locked := True\<rparr>)"
        by (simp add: read_ledger_def liftP_def raiseP_def)
      moreover have "T\<lparr>locked := True, locked := False\<rparr> = T" using False by simp
      ultimately show ?thesis
        using False alive Inl by (simp add: request_call_def with_lock_def take_lock_def bindP_def finallyP_def effect_def
            call_locked_def)
    next
      case (Inr rs)
      with False request_call_standing(1) [OF False alive Inr st] show ?thesis by simp
    qed
  qed
  with v'(1) show ?thesis by blast
qed

definition demo_answered :: "nat noted" where
  "demo_answered = snd (request_call demo_ledger ''gen:2'' ''run'' ''bb'' (noting ''gen:2'' demo_reply) (no_file 0))"

definition demo_later :: "nat noted" where
  "demo_later = run_campaign demo_ledger [Call ''gen:1'' ''run'' ''aa'' demo_limited None Untouched] demo_answered"

theorem answered_call_replays_witness:
  "\<exists>v'. request_call demo_ledger ''gen:2'' ''run'' ''bb'' (noting ''gen:2'' demo_limited) demo_later = (Done v', demo_later)"
proof -
  have call: "request_call demo_ledger ''gen:2'' ''run'' ''bb'' (noting ''gen:2'' demo_reply) (no_file 0) =
      (Done (PDict [(KStr ''content'', PStr ''yes'')]), demo_answered)"
    unfolding demo_answered_def by code_simp
  have "overview demo_ledger demo_later = ([''gen:1'', ''gen:1'', ''gen:2''], False, True, False, True, True, False)"
    by code_simp
  then have later: "\<not> locked demo_later" "life demo_later = None"
    "is_ok (request_read demo_ledger (read_records demo_later))"
    by (simp_all add: overview_def)
  then obtain rs where rs: "request_read demo_ledger (read_records demo_later) = Inr rs" by (auto simp: is_ok_iff)
  have state: "demo_later = (run_campaign demo_ledger
      [Call ''gen:1'' ''run'' ''aa'' demo_limited None Untouched] demo_answered)\<lparr>life := None\<rparr>"
    unfolding demo_later_def [symmetric] using later(2) by simp
  show ?thesis
    using answered_call_replays [OF call state, of "noting ''gen:2'' demo_limited"] later(1) rs by auto
qed

text \<open>C34. A reservation without an outcome is final: if an attempt of an operation was reserved and its outcome never
  recorded, then after any campaign every call of that operation is refused as incomplete, without a send and without
  a change to the ledger.\<close>

theorem unknown_outcome_is_final:
  assumes "length (with_event ''reserved'' (matching operation (rows s))) \<noteq>
      length (with_event ''error'' (matching operation (rows s)))"
    and "with_event ''completed'' (matching operation (rows s)) = []"
    and "\<not> locked (run_campaign c as s)" "life (run_campaign c as s) = None"
    and "request_read c (read_records (run_campaign c as s)) = Inr rs"
  shows "\<exists>msg. request_call c operation run_id sha send (run_campaign c as s) =
    (Raised (Incomplete msg), run_campaign c as s)"
proof -
  have "settled (matching operation (rows s))" using assms(1) by (simp add: settled_def)
  note same = run_campaign_settled [OF this, of c as]
  have "\<exists>msg. standing_of run_id sha (matching operation (rows (run_campaign c as s))) = Refused (Incomplete msg)"
    unfolding same standing_of_def using assms(1, 2) by simp
  then obtain msg where "standing_of run_id sha (matching operation (rows (run_campaign c as s))) = Refused (Incomplete msg)" ..
  from request_call_standing(2) [OF assms(3-5) this] show ?thesis by blast
qed

definition demo_broken :: "nat noted" where
  "demo_broken = run_campaign demo_ledger [Call ''gen:3'' ''run'' ''cc'' demo_reply (Some 2) Untouched, Remove_lock] (no_file 0)"

definition demo_settings :: "nat noted" where
  "demo_settings = run_campaign demo_ledger [Call ''gen:4'' ''run'' ''dd'' demo_reply None Untouched] demo_broken"

theorem unknown_outcome_is_final_witness:
  "\<exists>msg. request_call demo_ledger ''gen:3'' ''run'' ''cc'' (noting ''gen:3'' demo_reply) demo_settings =
    (Raised (Incomplete msg), demo_settings)"
proof -
  have "(\<lambda>ms. (length (with_event ''reserved'' ms), length (with_event ''error'' ms), length (with_event ''completed'' ms)))
      (matching ''gen:3'' (rows demo_broken)) = (1, 0, 0)"
    by code_simp
  then have open': "length (with_event ''reserved'' (matching ''gen:3'' (rows demo_broken))) \<noteq>
      length (with_event ''error'' (matching ''gen:3'' (rows demo_broken)))"
    "with_event ''completed'' (matching ''gen:3'' (rows demo_broken)) = []"
    by simp_all
  have "overview demo_ledger demo_settings = ([''gen:4''], False, True, False, True, True, True)"
    by code_simp
  then have later: "\<not> locked demo_settings" "life demo_settings = None"
    "is_ok (request_read demo_ledger (read_records demo_settings))"
    by (simp_all add: overview_def)
  then obtain rs where "request_read demo_ledger (read_records demo_settings) = Inr rs" by (auto simp: is_ok_iff)
  from unknown_outcome_is_final [OF open' later(1, 2) [unfolded demo_settings_def] this [unfolded demo_settings_def]]
  show ?thesis unfolding demo_settings_def .
qed

text \<open>A response with the line separator U+0085 makes the ledger unreadable: every later call is refused.\<close>

definition demo_separator :: "nat \<Rightarrow> sent \<times> nat" where
  "demo_separator w = (Response (PDict [(KStr ''content'', PStr [CHR 0x85])]), w + 1)"

lemma separator_blocks_ledger:
  "case request_call demo_ledger ''gen:5'' ''run'' ''ee'' demo_separator
          \<lparr>rows = [], ending = Clean, locked = False, outside = 0, life = None, tearing = Untouched\<rparr> of
     (r, t) \<Rightarrow> r = Done (PDict [(KStr ''content'', PStr [CHR 0x85])]) \<and>
       fst (request_call demo_ledger ''gen:6'' ''run'' ''ff'' demo_reply t) = Raised (Incomplete ''invalid request ledger'')"
  by code_simp

section \<open>A provider round\<close>

text \<open>C35. The round budget holds: in any sequence of accounted calls, bare reservations, bare completions and lock
  removals, with processes dying anywhere, at most \<open>limit\<close> sends are made, at most 2000, every key's sends are covered
  by its own reservations, and the rows stay a well-formed log.\<close>

theorem round_within_budget:
  assumes "new_budget_ledger identifier limit (no_round w) = (Done c, s)"
  shows "length (fst (outside (run_round c as s))) \<le> budget c \<and> budget c \<le> 2000 \<and>
    count_list (fst (outside (run_round c as s))) key
      \<le> length (filter (is_key key) (reserves_of (rows (run_round c as s)))) \<and>
    grown (budget_own c) budget_keys (budget c) (rows (run_round c as s))"
proof -
  from assms obtain n where "limit = PInt n" "1 \<le> n" "n \<le> 2000"
    "bindP (read_budget \<lparr>round_id = identifier, budget = nat n\<rparr>)
       (\<lambda>_. returnP \<lparr>round_id = identifier, budget = nat n\<rparr>) (no_round w) = (Done c, s)"
    by (auto simp: new_budget_ledger_def raiseP_def split: pyval.splits if_splits)
  then have c: "budget c \<le> 2000" and s: "s = no_round w"
    by (auto simp: bindP_def read_budget_def liftP_def returnP_def raiseP_def split: sum.splits)
  have acc: "in_account c 0 key (run_round c as s)"
    unfolding s by (rule run_round_in_account [OF in_account_no_round])
  then have g: "grown (budget_own c) budget_keys (budget c) (rows (run_round c as s))"
    by (simp add: in_account_def logged_def)
  have "covered is_key 0 key (run_round c as s)" using acc by (simp add: in_account_def)
  with c g grown_length [OF g] show ?thesis using covered_total covered_count by (meson order_trans)
qed

definition demo_budget :: budget_config where
  "demo_budget = \<lparr>round_id = ''round-1'', budget = 2\<rparr>"

definition demo_round :: "nat budget_action list" where
  "demo_round =
    [Budget_call (''camp'', ''gen:1'') ''aa'' demo_limited None Untouched,
     Budget_call (''camp'', ''gen:1'') ''aa'' demo_reply None Untouched,
     Budget_call (''camp'', ''gen:2'') ''bb'' demo_reply None Untouched]"

theorem round_within_budget_witness:
  "length (fst (outside (run_round demo_budget demo_round (no_round 0)))) = 2 \<and>
   length (fst (outside (run_round demo_budget demo_round (no_round 0)))) \<le> budget demo_budget"
proof -
  have new: "new_budget_ledger ''round-1'' (PInt 2) (no_round (0 :: nat)) = (Done demo_budget, no_round 0)"
    by code_simp
  have "length (fst (outside (run_round demo_budget demo_round (no_round 0)))) = 2" by code_simp
  with round_within_budget [OF new, of demo_round] show ?thesis by blast
qed

text \<open>C36. A completed operation of the round is closed: after an accounted call has returned, no later call,
  reservation or completion adds a row for its key, and none is sent.\<close>

theorem completed_key_is_closed:
  fixes c :: budget_config and w :: 'w and as :: "'w budget_action list"
  defines "s \<equiv> run_round c as (no_round w)"
  assumes "budget_call c key sha (noting key send) s = (Done v, t)"
  shows "key_rows key (rows (run_round c bs t)) = key_rows key (rows t) \<and>
    count_list (fst (outside (run_round c bs t))) key = count_list (fst (outside t)) key"
proof -
  have acc: "in_account c 0 key s" unfolding s_def by (rule run_round_in_account [OF in_account_no_round])
  from tripleE [OF triple_budget_call this assms(2)] have "in_account c 0 key t" by simp
  from run_round_closed [OF this budget_call_closes [OF acc assms(2)]] show ?thesis
    by (simp add: about_def)
qed

theorem completed_key_is_closed_witness:
  "key_rows (''camp'', ''gen:2'') (rows (run_round demo_budget demo_round
      (snd (budget_call demo_budget (''camp'', ''gen:2'') ''bb'' (noting (''camp'', ''gen:2'') demo_reply) (no_round 0)))))
   = key_rows (''camp'', ''gen:2'') (rows
      (snd (budget_call demo_budget (''camp'', ''gen:2'') ''bb'' (noting (''camp'', ''gen:2'') demo_reply) (no_round 0))))"
proof -
  let ?r = "budget_call demo_budget (''camp'', ''gen:2'') ''bb'' (noting (''camp'', ''gen:2'') demo_reply) (no_round 0)"
  have "fst ?r = Done (PDict [(KStr ''content'', PStr ''yes'')])" by code_simp
  then have "budget_call demo_budget (''camp'', ''gen:2'') ''bb'' (noting (''camp'', ''gen:2'') demo_reply)
      (run_round demo_budget [] (no_round 0)) = (Done (PDict [(KStr ''content'', PStr ''yes'')]), snd ?r)"
    by (simp add: run_round_def prod_eq_iff)
  from completed_key_is_closed [OF this, of demo_round] show ?thesis by blast
qed

end
