(* ===== verification/Record_Store.thy ===== *)
theory Record_Store
  imports Job_Types Versioned_Store "HOL-Library.AList"
begin

text \<open>
  \<open>src/workspace/repository.py\<close>: the versioned records that collections, notes and
  conversations are stored in.  The two tables of the schema have the primary key
  (\<open>entity_type\<close>, \<open>entity_id\<close>), so each is an association list that the operations keep
  free of duplicate keys; a public operation is one transaction, so an operation that
  raises leaves both tables as they were.

  A payload is kept as the value its canonical JSON text decodes to.  Its keys are strings,
  as the annotation \<open>Mapping[str, object]\<close> says; \<open>canon\<close> refuses any other.  The clock is
  a parameter: operations take the timestamp it returned.
\<close>

section \<open>Tables and values\<close>

type_synonym rec_key = "string \<times> string"

record rec_row =
  rr_revision :: int
  rr_payload :: json_col
  rr_created :: string
  rr_updated :: string

record tomb_row =
  tr_revision :: int
  tr_deleted :: string

record record_db =
  live :: "(rec_key \<times> rec_row) list"
  tombs :: "(rec_key \<times> tomb_row) list"

definition no_records :: record_db where
  "no_records = \<lparr>live = [], tombs = []\<rparr>"

record versioned_record =
  vr_key :: rec_key
  vr_revision :: int
  vr_payload :: pyval
  vr_created :: string
  vr_updated :: string

record tombstone =
  ts_key :: rec_key
  ts_revision :: int
  ts_deleted :: string

datatype record_error =
  RecordConflict | RecordNotFound | RecordDeleted | RecordValue | RecordType | RecordIntegrity

definition find_live :: "record_db \<Rightarrow> rec_key \<Rightarrow> rec_row option" where
  "find_live db k = map_of (live db) k"

definition find_tomb :: "record_db \<Rightarrow> rec_key \<Rightarrow> tomb_row option" where
  "find_tomb db k = map_of (tombs db) k"

text \<open>\<open>INSERT\<close>, \<open>UPDATE\<close> and \<open>DELETE\<close> of the row with a key.\<close>

definition put_live :: "rec_key \<Rightarrow> rec_row \<Rightarrow> record_db \<Rightarrow> record_db" where
  "put_live k r db = db\<lparr>live := AList.update k r (live db)\<rparr>"

definition bury :: "rec_key \<Rightarrow> tomb_row \<Rightarrow> record_db \<Rightarrow> record_db" where
  "bury k t db = \<lparr>live = AList.delete k (live db), tombs = AList.update k t (tombs db)\<rparr>"

section \<open>Validation\<close>

definition entity_types :: "string list" where
  "entity_types = [''conversation'', ''collection'', ''collection_item'', ''note'', ''job'', ''job_step'',
     ''collection_activity'']"

definition validate_entity :: "rec_key \<Rightarrow> record_error + unit" where
  "validate_entity k =
     bindE (ensure (fst k \<in> set entity_types) RecordValue) (\<lambda>_.
     ensure (opaque_id (snd k)) RecordValue)"

definition record_forbidden_keys :: "string list" where
  "record_forbidden_keys =
     [''api_key'', ''apikey'', ''authorization'', ''bearer'', ''bearer_token'', ''groq_api_key'',
      ''local_workspace_token'', ''password'', ''provider_credential'', ''provider_key'', ''secret'']"

definition record_forbidden_compact :: "string list" where
  "record_forbidden_compact = map drop_underscores record_forbidden_keys"

lemma record_forbidden_compact_code [code]:
  "record_forbidden_compact =
     [''apikey'', ''apikey'', ''authorization'', ''bearer'', ''bearertoken'', ''groqapikey'',
      ''localworkspacetoken'', ''password'', ''providercredential'', ''providerkey'', ''secret'']"
  by (simp add: record_forbidden_compact_def record_forbidden_keys_def drop_underscores_def)

definition secret_key :: "string \<Rightarrow> bool" where
  "secret_key k =
    (let normalized = normal_key k; compact = drop_underscores normalized in
       normalized \<in> set record_forbidden_keys \<or> compact \<in> set record_forbidden_compact \<or>
       list_ex (\<lambda>e. ends_with e normalized) [''_api_key'', ''_password'', ''_secret'', ''_token''])"

text \<open>\<open>_reject_secret_fields\<close> passes.\<close>

fun without_secrets :: "string list \<Rightarrow> pyval \<Rightarrow> bool" where
  "without_secrets forbidden (PDict kvs) =
     list_all (\<lambda>kv. \<not> secret_key (key_str (fst kv)) \<and> without_secrets forbidden (snd kv)) kvs"
| "without_secrets forbidden (PList vs) = list_all (without_secrets forbidden) vs"
| "without_secrets forbidden (PTuple vs) = list_all (without_secrets forbidden) vs"
| "without_secrets forbidden (PStr s) = (\<not> holds_secret forbidden s)"
| "without_secrets forbidden v = True"

definition canonical_payload :: "string list \<Rightarrow> pyval \<Rightarrow> record_error + pyval" where
  "canonical_payload forbidden v =
    (case v of
       PDict kvs \<Rightarrow>
         bindE (ensure (without_secrets forbidden v) RecordValue) (\<lambda>_.
         of_opt RecordValue (canon v))
     | _ \<Rightarrow> Inl RecordType)"

section \<open>Connection-scoped operations\<close>

definition record_of :: "rec_key \<Rightarrow> rec_row \<Rightarrow> record_error + versioned_record" where
  "record_of k r =
    (case rr_payload r of
       Json (PDict kvs) \<Rightarrow> Inr \<lparr>vr_key = k, vr_revision = rr_revision r, vr_payload = PDict kvs,
                              vr_created = rr_created r, vr_updated = rr_updated r\<rparr>
     | _ \<Rightarrow> Inl RecordValue)"

definition get_in :: "record_db \<Rightarrow> rec_key \<Rightarrow> record_error + versioned_record option" where
  "get_in db k =
     bindE (validate_entity k) (\<lambda>_.
     case find_live db k of None \<Rightarrow> Inr None | Some r \<Rightarrow> bindE (record_of k r) (\<lambda>v. Inr (Some v)))"

definition get_tombstone_in :: "record_db \<Rightarrow> rec_key \<Rightarrow> record_error + tombstone option" where
  "get_tombstone_in db k =
     bindE (validate_entity k) (\<lambda>_.
     Inr (map_option (\<lambda>t. \<lparr>ts_key = k, ts_revision = tr_revision t, ts_deleted = tr_deleted t\<rparr>) (find_tomb db k)))"

definition missing_or_conflict :: "record_db \<Rightarrow> rec_key \<Rightarrow> record_error" where
  "missing_or_conflict db k =
    (if find_tomb db k \<noteq> None then RecordDeleted
     else if find_live db k \<noteq> None then RecordConflict
     else RecordNotFound)"

definition create_in ::
  "string list \<Rightarrow> string \<Rightarrow> record_db \<Rightarrow> rec_key \<Rightarrow> pyval \<Rightarrow> record_error + versioned_record \<times> record_db" where
  "create_in forbidden timestamp db k payload =
     bindE (validate_entity k) (\<lambda>_.
     bindE (canonical_payload forbidden payload) (\<lambda>w.
     bindE (ensure (find_tomb db k = None) RecordDeleted) (\<lambda>_.
     bindE (ensure (find_live db k = None) RecordConflict) (\<lambda>_.
     Inr (\<lparr>vr_key = k, vr_revision = 1, vr_payload = w, vr_created = timestamp, vr_updated = timestamp\<rparr>,
          put_live k \<lparr>rr_revision = 1, rr_payload = Json w, rr_created = timestamp, rr_updated = timestamp\<rparr> db)))))"

definition replace_in ::
  "string list \<Rightarrow> string \<Rightarrow> record_db \<Rightarrow> rec_key \<Rightarrow> pyval \<Rightarrow> int \<Rightarrow> record_error + versioned_record \<times> record_db" where
  "replace_in forbidden timestamp db k payload expected =
     bindE (validate_entity k) (\<lambda>_.
     bindE (ensure (1 \<le> expected) RecordValue) (\<lambda>_.
     bindE (canonical_payload forbidden payload) (\<lambda>w.
     case find_live db k of
       None \<Rightarrow> Inl (missing_or_conflict db k)
     | Some r \<Rightarrow>
         if rr_revision r \<noteq> expected then Inl (missing_or_conflict db k)
         else
           let r' = r\<lparr>rr_payload := Json w, rr_revision := rr_revision r + 1, rr_updated := timestamp\<rparr>
           in bindE (record_of k r') (\<lambda>v. Inr (v, put_live k r' db)))))"

definition delete_in ::
  "string \<Rightarrow> record_db \<Rightarrow> rec_key \<Rightarrow> int \<Rightarrow> record_error + tombstone \<times> record_db" where
  "delete_in timestamp db k expected =
     bindE (validate_entity k) (\<lambda>_.
     bindE (ensure (1 \<le> expected) RecordValue) (\<lambda>_.
     case find_live db k of
       None \<Rightarrow> Inl (missing_or_conflict db k)
     | Some r \<Rightarrow>
         bindE (ensure (rr_revision r = expected) RecordConflict) (\<lambda>_.
         bindE (ensure (find_tomb db k = None) RecordIntegrity) (\<lambda>_.
         Inr (\<lparr>ts_key = k, ts_revision = rr_revision r + 1, ts_deleted = timestamp\<rparr>,
              bury k \<lparr>tr_revision = rr_revision r + 1, tr_deleted = timestamp\<rparr> db)))))"

section \<open>Public operations\<close>

text \<open>One transaction each: the new tables are committed only when nothing was raised.\<close>

definition transaction :: "(record_db \<Rightarrow> 'e + 'a \<times> record_db) \<Rightarrow> record_db \<Rightarrow> ('e + 'a) \<times> record_db" where
  "transaction f db = (case f db of Inl e \<Rightarrow> (Inl e, db) | Inr (x, db') \<Rightarrow> (Inr x, db'))"

definition create_record ::
  "string list \<Rightarrow> string \<Rightarrow> rec_key \<Rightarrow> pyval \<Rightarrow> record_db \<Rightarrow> (record_error + versioned_record) \<times> record_db" where
  "create_record forbidden timestamp k payload = transaction (\<lambda>db. create_in forbidden timestamp db k payload)"

definition replace_record ::
  "string list \<Rightarrow> string \<Rightarrow> rec_key \<Rightarrow> pyval \<Rightarrow> int \<Rightarrow> record_db \<Rightarrow> (record_error + versioned_record) \<times> record_db" where
  "replace_record forbidden timestamp k payload expected =
     transaction (\<lambda>db. replace_in forbidden timestamp db k payload expected)"

definition delete_record ::
  "string \<Rightarrow> rec_key \<Rightarrow> int \<Rightarrow> record_db \<Rightarrow> (record_error + tombstone) \<times> record_db" where
  "delete_record timestamp k expected = transaction (\<lambda>db. delete_in timestamp db k expected)"

datatype record_op =
    Create rec_key pyval string
  | Replace rec_key pyval int string
  | Delete rec_key int string

datatype record_reply = Record versioned_record | Tomb tombstone

fun perform :: "string list \<Rightarrow> record_op \<Rightarrow> record_db \<Rightarrow> (record_error + record_reply) \<times> record_db" where
  "perform forbidden (Create k payload t) db =
     (case create_record forbidden t k payload db of (r, db') \<Rightarrow> (map_sum id Record r, db'))"
| "perform forbidden (Replace k payload n t) db =
     (case replace_record forbidden t k payload n db of (r, db') \<Rightarrow> (map_sum id Record r, db'))"
| "perform forbidden (Delete k n t) db =
     (case delete_record t k n db of (r, db') \<Rightarrow> (map_sum id Tomb r, db'))"

fun perform_all :: "string list \<Rightarrow> record_op list \<Rightarrow> record_db \<Rightarrow> (record_error + record_reply) list \<times> record_db" where
  "perform_all forbidden [] db = ([], db)"
| "perform_all forbidden (x # xs) db =
     (case perform forbidden x db of (r, db1) \<Rightarrow>
      case perform_all forbidden xs db1 of (rs, db2) \<Rightarrow> (r # rs, db2))"

lemma transaction_cases:
  assumes "transaction f db = (r, db')"
  obtains e where "f db = Inl e" "r = Inl e" "db' = db" | x where "f db = Inr (x, db')" "r = Inr x"
  using assms by (auto simp: transaction_def split: sum.splits prod.splits)

lemma canonical_payload_ok:
  "canonical_payload forbidden v = Inr w \<longleftrightarrow>
     (\<exists>kvs. v = PDict kvs) \<and> without_secrets forbidden v \<and> canon v = Some w"
  by (cases v) (auto simp: canonical_payload_def bindE_ok)

lemma canon_dict: "canon (PDict kvs) = Some w \<Longrightarrow> \<exists>kvs'. w = PDict kvs'"
  by auto

lemma canonical_payload_dict: "canonical_payload forbidden v = Inr w \<Longrightarrow> \<exists>kvs. w = PDict kvs"
  by (auto simp: canonical_payload_ok dest: canon_dict)

lemma find_put_live [simp]:
  "find_live (put_live k r db) k' = (if k' = k then Some r else find_live db k')"
  "find_tomb (put_live k r db) k' = find_tomb db k'"
  by (simp_all add: find_live_def find_tomb_def put_live_def update_conv')

lemma find_bury [simp]:
  "find_live (bury k t db) k' = (if k' = k then None else find_live db k')"
  "find_tomb (bury k t db) k' = (if k' = k then Some t else find_tomb db k')"
  by (simp_all add: find_live_def find_tomb_def bury_def update_conv' delete_conv')

section \<open>The versions of a key\<close>

text \<open>A tombstone carries the version after the last live one.\<close>

definition record_version :: "record_db \<Rightarrow> rec_key \<Rightarrow> int option" where
  "record_version db k = (case find_live db k of
       Some r \<Rightarrow> Some (rr_revision r)
     | None \<Rightarrow> map_option tr_revision (find_tomb db k))"

datatype record_change = Put "string list" string pyval | Remove string

fun record_write :: "record_change \<Rightarrow> record_db \<Rightarrow> rec_key \<Rightarrow> int \<Rightarrow> record_db option" where
  "record_write (Put forbidden t payload) db k n =
     (case replace_in forbidden t db k payload n of Inl _ \<Rightarrow> None | Inr (_, db') \<Rightarrow> Some db')"
| "record_write (Remove t) db k n =
     (case delete_in t db k n of Inl _ \<Rightarrow> None | Inr (_, db') \<Rightarrow> Some db')"

lemma replace_in_ok:
  "replace_in forbidden t db k payload n = Inr (v, db') \<longleftrightarrow>
     validate_entity k = Inr () \<and> 1 \<le> n \<and>
     (\<exists>w r. canonical_payload forbidden payload = Inr w \<and> find_live db k = Some r \<and> rr_revision r = n \<and>
        v = \<lparr>vr_key = k, vr_revision = n + 1, vr_payload = w, vr_created = rr_created r, vr_updated = t\<rparr> \<and>
        db' = put_live k (r\<lparr>rr_payload := Json w, rr_revision := n + 1, rr_updated := t\<rparr>) db)"
proof (cases "canonical_payload forbidden payload")
  case (Inr w)
  obtain kvs where "w = PDict kvs" using canonical_payload_dict [OF Inr] by blast
  with Inr show ?thesis
    by (cases "find_live db k") (auto simp: replace_in_def bindE_ok record_of_def Let_def)
qed (auto simp: replace_in_def bindE_ok)

lemma delete_in_ok:
  "delete_in t db k n = Inr (v, db') \<longleftrightarrow>
     validate_entity k = Inr () \<and> 1 \<le> n \<and> find_tomb db k = None \<and>
     (\<exists>r. find_live db k = Some r \<and> rr_revision r = n \<and> v = \<lparr>ts_key = k, ts_revision = n + 1, ts_deleted = t\<rparr> \<and>
        db' = bury k \<lparr>tr_revision = n + 1, tr_deleted = t\<rparr> db)"
  by (cases "find_live db k") (auto simp: delete_in_def bindE_ok)

lemma create_in_ok:
  "create_in forbidden t db k payload = Inr (v, db') \<longleftrightarrow>
     validate_entity k = Inr () \<and> find_tomb db k = None \<and> find_live db k = None \<and>
     (\<exists>w. canonical_payload forbidden payload = Inr w \<and>
        v = \<lparr>vr_key = k, vr_revision = 1, vr_payload = w, vr_created = t, vr_updated = t\<rparr> \<and>
        db' = put_live k \<lparr>rr_revision = 1, rr_payload = Json w, rr_created = t, rr_updated = t\<rparr> db)"
  by (auto simp: create_in_def bindE_ok)

lemma record_version_simps [simp]:
  "record_version (put_live k r db) k' = (if k' = k then Some (rr_revision r) else record_version db k')"
  "record_version (bury k t db) k' = (if k' = k then Some (tr_revision t) else record_version db k')"
  by (simp_all add: record_version_def cong: option.case_cong)

lemma record_write_ok:
  assumes "record_write c db k n = Some db'"
  obtains r t where "find_live db k = Some r" "rr_revision r = n"
    "db' = put_live k t db" "rr_revision t = n + 1"
  | r t where "find_live db k = Some r" "rr_revision r = n" "db' = bury k t db" "tr_revision t = n + 1"
  using assms by (cases c) (fastforce simp: replace_in_ok delete_in_ok split: sum.splits prod.splits)+

interpretation records: versioned_store record_version record_write
proof
  fix c db k n db'
  assume w: "record_write c db k n = Some db'"
  from w show "record_version db k = Some n"
    by (cases rule: record_write_ok) (auto simp: record_version_def)
  from w show "record_version db' k = Some (n + 1)" if "db' \<noteq> db"
    by (cases rule: record_write_ok) auto
  from w show "record_version db' k' = record_version db k'" if "k' \<noteq> k" for k'
    using that by (cases rule: record_write_ok) auto
qed

end
