(* ===== verification/Record_Properties.thy ===== *)
theory Record_Properties
  imports Record_Store
begin

text \<open>
  The contract of the record repository, as a life cycle per key: absent, live at a
  revision, or dead at the revision after the last live one; and the proof that the two
  tables implement it.
\<close>

section \<open>The abstract life cycle\<close>

datatype life = Absent | Alive int pyval | Dead int

fun op_key :: "record_op \<Rightarrow> rec_key" where
  "op_key (Create k payload t) = k"
| "op_key (Replace k payload n t) = k"
| "op_key (Delete k n t) = k"

text \<open>What an operation makes of the life of its key, or why it refuses.\<close>

fun next_life :: "string list \<Rightarrow> record_op \<Rightarrow> life \<Rightarrow> record_error + life" where
  "next_life forbidden (Create k payload t) l =
     bindE (validate_entity k) (\<lambda>_. bindE (canonical_payload forbidden payload) (\<lambda>w.
     case l of Absent \<Rightarrow> Inr (Alive 1 w) | Alive m v \<Rightarrow> Inl RecordConflict | Dead m \<Rightarrow> Inl RecordDeleted))"
| "next_life forbidden (Replace k payload n t) l =
     bindE (validate_entity k) (\<lambda>_. bindE (ensure (1 \<le> n) RecordValue) (\<lambda>_.
     bindE (canonical_payload forbidden payload) (\<lambda>w.
     case l of
       Absent \<Rightarrow> Inl RecordNotFound
     | Alive m v \<Rightarrow> if m = n then Inr (Alive (n + 1) w) else Inl RecordConflict
     | Dead m \<Rightarrow> Inl RecordDeleted)))"
| "next_life forbidden (Delete k n t) l =
     bindE (validate_entity k) (\<lambda>_. bindE (ensure (1 \<le> n) RecordValue) (\<lambda>_.
     case l of
       Absent \<Rightarrow> Inl RecordNotFound
     | Alive m v \<Rightarrow> if m = n then Inr (Dead (n + 1)) else Inl RecordConflict
     | Dead m \<Rightarrow> Inl RecordDeleted))"

fun live_all :: "string list \<Rightarrow> record_op list \<Rightarrow> (rec_key \<Rightarrow> life) \<Rightarrow> (record_error + life) list \<times> (rec_key \<Rightarrow> life)" where
  "live_all forbidden [] st = ([], st)"
| "live_all forbidden (x # xs) st =
     (let r = next_life forbidden x (st (op_key x));
          st' = (case r of Inl e \<Rightarrow> st | Inr l \<Rightarrow> st(op_key x := l))
      in case live_all forbidden xs st' of (rs, st2) \<Rightarrow> (r # rs, st2))"

section \<open>Abstraction\<close>

definition payload_of :: "json_col \<Rightarrow> pyval" where
  "payload_of c = (case c of Json v \<Rightarrow> v | _ \<Rightarrow> PNone)"

definition life_of :: "record_db \<Rightarrow> rec_key \<Rightarrow> life" where
  "life_of db k = (case find_live db k of
       Some r \<Rightarrow> Alive (rr_revision r) (payload_of (rr_payload r))
     | None \<Rightarrow> (case find_tomb db k of None \<Rightarrow> Absent | Some t \<Rightarrow> Dead (tr_revision t)))"

fun reply_life :: "record_reply \<Rightarrow> life" where
  "reply_life (Record v) = Alive (vr_revision v) (vr_payload v)"
| "reply_life (Tomb t) = Dead (ts_revision t)"

fun reply :: "record_error + record_reply \<Rightarrow> record_error + life" where
  "reply (Inl e) = Inl e"
| "reply (Inr r) = Inr (reply_life r)"

text \<open>No key is both live and dead.\<close>

definition apart :: "record_db \<Rightarrow> bool" where
  "apart db \<longleftrightarrow> (\<forall>k. find_live db k = None \<or> find_tomb db k = None)"

lemma apartD:
  "apart db \<Longrightarrow> find_tomb db k = Some t \<Longrightarrow> find_live db k = None"
  "apart db \<Longrightarrow> find_live db k = Some r \<Longrightarrow> find_tomb db k = None"
  unfolding apart_def by (metis option.distinct(1))+

lemma apart_no_records: "apart no_records"
  by (simp add: apart_def no_records_def find_live_def)

lemma apart_put: "apart db \<Longrightarrow> find_tomb db k = None \<Longrightarrow> apart (put_live k r db)"
  by (auto simp: apart_def)

lemma apart_bury: "apart db \<Longrightarrow> apart (bury k t db)"
  by (auto simp: apart_def)

lemma life_put [simp]:
  "life_of (put_live k r db) = (life_of db)(k := Alive (rr_revision r) (payload_of (rr_payload r)))"
  by (auto simp: life_of_def fun_eq_iff cong: option.case_cong)

lemma life_bury [simp]: "life_of (bury k t db) = (life_of db)(k := Dead (tr_revision t))"
  by (auto simp: life_of_def fun_eq_iff cong: option.case_cong)

lemma life_Absent: "life_of db k = Absent \<longleftrightarrow> find_live db k = None \<and> find_tomb db k = None"
  by (auto simp: life_of_def split: option.splits)

lemma life_Dead: "apart db \<Longrightarrow> life_of db k = Dead m \<longleftrightarrow> (\<exists>t. find_tomb db k = Some t \<and> tr_revision t = m)"
  by (auto simp: life_of_def split: option.splits dest: apartD)

text \<open>One operation: the reply and the tables follow the life cycle, and the tables stay apart.\<close>

definition follows :: "string list \<Rightarrow> record_op \<Rightarrow> record_db \<Rightarrow> bool" where
  "follows forbidden x db \<longleftrightarrow>
     (case perform forbidden x db of (r, db') \<Rightarrow>
        apart db' \<and> reply r = next_life forbidden x (life_of db (op_key x)) \<and>
        life_of db' = (case reply r of
            Inl e \<Rightarrow> life_of db | Inr l \<Rightarrow> (life_of db)(op_key x := l)))"

lemma followsI:
  assumes "perform forbidden x db = (r, db')" "apart db'"
    "reply r = next_life forbidden x (life_of db (op_key x))"
    "life_of db' = (case reply r of Inl e \<Rightarrow> life_of db | Inr l \<Rightarrow> (life_of db)(op_key x := l))"
  shows "follows forbidden x db"
  using assms by (simp add: follows_def)

lemma create_follows: "apart db \<Longrightarrow> follows forbidden (Create k payload t) db"
  by (cases "validate_entity k"; cases "canonical_payload forbidden payload";
      cases "find_live db k"; cases "find_tomb db k")
    (auto simp: follows_def create_record_def transaction_def create_in_def life_of_def ensure_def
      apart_put payload_of_def fun_eq_iff dest: apartD cong: option.case_cong)

lemma replace_follows:
  assumes "apart db"
  shows "follows forbidden (Replace k payload n t) db"
proof (cases "replace_in forbidden t db k payload n")
  case (Inr x)
  obtain v db' where x: "x = (v, db')" by (cases x)
  from Inr [unfolded x replace_in_ok] obtain w r where r: "validate_entity k = Inr ()" "1 \<le> n"
    "canonical_payload forbidden payload = Inr w" "find_live db k = Some r" "rr_revision r = n"
    "vr_revision v = n + 1" "vr_payload v = w"
    "db' = put_live k (r\<lparr>rr_payload := Json w, rr_revision := n + 1, rr_updated := t\<rparr>) db" by auto
  have "find_tomb db k = None" using apartD(2) [OF assms r(4)] .
  then have "apart db'" using apart_put [OF assms] r by simp
  moreover have "life_of db k = Alive n (payload_of (rr_payload r))" using r by (simp add: life_of_def)
  ultimately show ?thesis using Inr x r
    by (intro followsI [of _ _ _ "Inr (Record v)" db'])
      (simp_all add: replace_record_def transaction_def payload_of_def)
next
  case (Inl e)
  then have "next_life forbidden (Replace k payload n t) (life_of db k) = Inl e"
    using assms canonical_payload_dict [of forbidden payload]
    by (cases "find_live db k"; cases "find_tomb db k")
      (fastforce simp: replace_in_def bindE_def ensure_def life_of_def missing_or_conflict_def record_of_def
        Let_def dest: apartD split: sum.splits if_splits)+
  then show ?thesis using Inl assms
    by (intro followsI [of _ _ _ "Inl e" db]) (simp_all add: replace_record_def transaction_def)
qed

lemma delete_follows:
  assumes "apart db"
  shows "follows forbidden (Delete k n t) db"
proof (cases "find_live db k")
  case None
  then show ?thesis using assms
    by (cases "validate_entity k"; cases "find_tomb db k"; cases "1 \<le> n")
      (auto simp: follows_def delete_record_def transaction_def delete_in_def life_of_def missing_or_conflict_def)
next
  case (Some r)
  then have "find_tomb db k = None" using apartD(2) [OF assms] by blast
  with Some show ?thesis using assms
    by (cases "validate_entity k"; cases "1 \<le> n"; cases "rr_revision r = n")
      (auto simp: follows_def delete_record_def transaction_def delete_in_def life_of_def apart_bury ensure_def
        fun_eq_iff cong: option.case_cong)
qed

lemma perform_follows: "apart db \<Longrightarrow> follows forbidden x db"
  by (cases x) (simp_all add: create_follows replace_follows delete_follows)

lemma perform_all_follows:
  assumes "apart db" "perform_all forbidden xs db = (rs, db')"
  shows "apart db' \<and> live_all forbidden xs (life_of db) = (map reply rs, life_of db')"
  using assms
proof (induction xs arbitrary: db rs)
  case (Cons x xs)
  obtain r db1 where r: "perform forbidden x db = (r, db1)" by (cases "perform forbidden x db")
  obtain rs1 where rs1: "perform_all forbidden xs db1 = (rs1, db')" "rs = r # rs1"
    using Cons.prems(2) r by (auto split: prod.splits)
  from perform_follows [OF Cons.prems(1), of forbidden x] r
  have f: "apart db1" "reply r = next_life forbidden x (life_of db (op_key x))"
    "life_of db1 = (case reply r of Inl e \<Rightarrow> life_of db | Inr l \<Rightarrow> (life_of db)(op_key x := l))"
    by (auto simp: follows_def)
  from Cons.IH [OF f(1) rs1(1)] show ?case
    by (simp add: rs1(2) Let_def flip: f(2)) (simp flip: f(3))
qed simp

text \<open>C37. The repository implements the life cycle: for every sequence of creations, replacements and deletions of any
  records, the replies (errors included) and the final state of every key are those of the abstract machine in which a
  key is absent, alive at a revision with a payload, or dead.\<close>

theorem records_refine_life_cycle:
  "live_all forbidden xs (\<lambda>_. Absent) =
     (map reply (fst (perform_all forbidden xs no_records)),
      life_of (snd (perform_all forbidden xs no_records)))"
proof -
  obtain rs db where p: "perform_all forbidden xs no_records = (rs, db)"
    by (cases "perform_all forbidden xs no_records")
  have "life_of no_records = (\<lambda>_. Absent)"
    by (simp add: life_of_def no_records_def find_live_def find_tomb_def fun_eq_iff)
  with perform_all_follows [OF apart_no_records p] p show ?thesis by simp
qed

text \<open>What was created or replaced is what is read next: the canonical form of the payload, at the revision returned.\<close>

lemma written_is_read:
  "create_in forbidden t db k payload = Inr (v, db') \<Longrightarrow> get_in db' k = Inr (Some v)"
  "replace_in forbidden t db k payload n = Inr (v, db') \<Longrightarrow> get_in db' k = Inr (Some v)"
  unfolding create_in_ok replace_in_ok by (auto simp: get_in_def record_of_def dest!: canonical_payload_dict)

section \<open>Deleted records\<close>

lemma live_all_dead:
  "st k = Dead n \<Longrightarrow> snd (live_all forbidden xs st) k = Dead n"
proof (induction xs arbitrary: st)
  case (Cons x xs)
  let ?r = "next_life forbidden x (st (op_key x))"
  have "(case ?r of Inl e \<Rightarrow> st | Inr l \<Rightarrow> st(op_key x := l)) k = Dead n"
    using Cons.prems by (cases x) (auto split: sum.splits simp: bindE_ok)
  from Cons.IH [where st = "case ?r of Inl e \<Rightarrow> st | Inr l \<Rightarrow> st(op_key x := l)", OF this]
  show ?case by (auto simp: Let_def split: prod.splits)
qed simp

text \<open>C38. A deleted record stays deleted: once a deletion has succeeded, and whatever operations follow, the tombstone
  keeps its revision, the record reads as absent, creating it is refused as deleted, and no writer whose change was
  prepared against the deleted revision is accepted.\<close>

theorem deleted_records_stay_deleted:
  fixes forbidden :: "string list" and before after :: "record_op list"
  defines "db \<equiv> snd (perform_all forbidden before no_records)"
  assumes "delete_in t db k n = Inr (tomb, db1)" "canonical_payload forbidden payload = Inr w"
  shows "get_in (snd (perform_all forbidden after db1)) k = Inr None \<and>
    map_option tr_revision (find_tomb (snd (perform_all forbidden after db1)) k) = Some (n + 1) \<and>
    create_in forbidden t' (snd (perform_all forbidden after db1)) k payload = Inl RecordDeleted \<and>
    record_write c (snd (perform_all forbidden after db1)) k n = None"
proof -
  obtain rs0 where "perform_all forbidden before no_records = (rs0, db)"
    unfolding db_def by (cases "perform_all forbidden before no_records") simp
  from perform_all_follows [OF apart_no_records this] have apart: "apart db" by blast
  from assms(2) [unfolded delete_in_ok] have valid: "validate_entity k = Inr ()"
    and db1: "db1 = bury k \<lparr>tr_revision = n + 1, tr_deleted = t\<rparr> db" by auto
  obtain rs db2 where p: "perform_all forbidden after db1 = (rs, db2)" by (cases "perform_all forbidden after db1")
  from perform_all_follows [OF _ p] apart_bury [OF apart] db1
  have db2: "apart db2" "live_all forbidden after (life_of db1) = (map reply rs, life_of db2)" by auto
  have "life_of db1 k = Dead (n + 1)" using db1 by simp
  from live_all_dead [where st = "life_of db1", OF this, of forbidden after] db2 have dead: "life_of db2 k = Dead (n + 1)" by simp
  then obtain tb where tb: "find_tomb db2 k = Some tb" "tr_revision tb = n + 1" using life_Dead [OF db2(1)] by blast
  have none: "find_live db2 k = None" by (rule apartD(1) [OF db2(1) tb(1)])
  have "record_version db2 k = Some (n + 1)" by (simp add: record_version_def none tb)
  then have "record_write c db2 k n = None" by (intro records.stale_rejected) simp
  with valid tb none show ?thesis
    by (auto simp: p get_in_def create_in_def assms(3))
qed

definition demo_note :: pyval where
  "demo_note = PDict [(KStr ''text'', PStr ''margin rose''), (KStr ''page'', PInt 4)]"

definition demo_key :: rec_key where
  "demo_key = (''note'', ''n-1'')"

theorem deleted_records_stay_deleted_witness:
  "get_in (snd (perform_all [] [Replace demo_key demo_note 2 ''t3'']
      (snd (delete_record ''t2'' demo_key 1 (snd (perform_all [] [Create demo_key demo_note ''t1''] no_records)))))) demo_key
    = Inr None"
proof -
  have "is_ok (delete_in ''t2'' (snd (perform_all [] [Create demo_key demo_note ''t1''] no_records)) demo_key 1)"
    by code_simp
  then obtain tomb db1 where d: "delete_in ''t2'' (snd (perform_all [] [Create demo_key demo_note ''t1''] no_records)) demo_key 1
      = Inr (tomb, db1)" by (auto simp: is_ok_iff)
  have "is_ok (canonical_payload [] demo_note)" by code_simp
  then obtain w where "canonical_payload [] demo_note = Inr w" by (auto simp: is_ok_iff)
  from deleted_records_stay_deleted [OF d this, of "[Replace demo_key demo_note 2 ''t3'']" "''t4''" "Remove ''t5''"]
  moreover have "snd (delete_record ''t2'' demo_key 1 (snd (perform_all [] [Create demo_key demo_note ''t1''] no_records))) = db1"
    unfolding delete_record_def transaction_def d by simp
  ultimately show ?thesis by blast
qed

end
