(* ===== verification/Py_Float.thy ===== *)
theory Py_Float
  imports Py_Prelude
begin

text \<open>
  The doubles that \<open>datetime\<close> computes with: the double nearest to a quotient of natural
  numbers (IEEE 754 binary64, ties to even).  A double that is not negative is a pair
  \<open>(m, k)\<close> that stands for \<open>m / 2 ^ k\<close>; the code meets no subnormal one and no overflow.
\<close>

section \<open>Rounding\<close>

function bits :: "int \<Rightarrow> nat" where
  "bits n = (if n \<le> 0 then 0 else Suc (bits (n div 2)))"
  by auto
termination by (relation "measure nat") auto

declare bits.simps [simp del]

definition half_even :: "int \<Rightarrow> int \<Rightarrow> int" where
  "half_even p q =
    (let d = p div q; r = p mod q
     in if 2 * r < q \<or> (2 * r = q \<and> even d) then d else d + 1)"

definition scaled :: "int \<Rightarrow> int \<Rightarrow> nat \<Rightarrow> int \<times> nat" where
  "scaled p q s =
    (if p * 2 ^ s < q * 2 ^ 53 then (half_even (p * 2 ^ s) q, s) else (half_even (p * 2 ^ (s - 1)) q, s - 1))"

text \<open>The double next to \<open>p / q\<close>: 53 significant bits are kept.\<close>

definition nearest_double :: "int \<Rightarrow> int \<Rightarrow> int \<times> nat" where
  "nearest_double p q =
    (if p = 0 then (0, 0)
     else if bits p < 53 + bits q then scaled p q (53 + bits q - bits p)
     else let j = bits p - (53 + bits q); j' = (if p < q * 2 ^ (j + 53) then j else j + 1)
          in (half_even p (q * 2 ^ j') * 2 ^ j', 0))"

section \<open>Seconds as doubles\<close>

text \<open>\<open>datetime.fromtimestamp(ms / 1000)\<close>: the microseconds are rounded from the fraction.\<close>

definition us_of_double :: "int \<times> nat \<Rightarrow> int" where
  "us_of_double x =
    (case x of (m, k) \<Rightarrow> case nearest_double (m mod 2 ^ k * 1000000) (2 ^ k) of (f, j) \<Rightarrow>
       m div 2 ^ k * 1000000 + half_even f (2 ^ j))"

definition us_from_ms :: "int \<Rightarrow> int" where
  "us_from_ms ms = sgn ms * us_of_double (nearest_double \<bar>ms\<bar> 1000)"

text \<open>\<open>int(moment.timestamp() * 1000)\<close>: the product is rounded, then cut off.\<close>

definition times_1000 :: "int \<times> nat \<Rightarrow> int \<times> nat" where
  "times_1000 x = (case x of (m, k) \<Rightarrow> nearest_double (m * 1000) (2 ^ k))"

definition ms_from_us :: "int \<Rightarrow> int" where
  "ms_from_us us =
    (case times_1000 (nearest_double \<bar>us\<bar> 1000000) of (m, k) \<Rightarrow> sgn us * (m div 2 ^ k))"

text \<open>Outside of the years below a millisecond may be lost.\<close>

lemma millisecond_lost: "us_from_ms 1001 = 1001000 \<and> ms_from_us 1001000 = 1000"
  by code_simp

section \<open>Exactness\<close>

lemma bits_bounds: "0 < n \<Longrightarrow> 2 ^ (bits n - 1) \<le> n \<and> n < 2 ^ bits n"
proof (induction n rule: bits.induct)
  case (1 n)
  show ?case
  proof (cases "n = 1")
    case True
    then show ?thesis by (simp add: bits.simps)
  next
    case False
    with 1 have ih: "2 ^ (bits (n div 2) - 1) \<le> n div 2" "n div 2 < 2 ^ bits (n div 2)" "bits (n div 2) \<noteq> 0"
      by (auto simp: bits.simps [of "n div 2"])
    have b: "bits n = Suc (bits (n div 2))" using "1.prems" by (simp add: bits.simps [of n])
    obtain k where k: "bits (n div 2) = Suc k" using ih(3) by (cases "bits (n div 2)") auto
    with ih show ?thesis unfolding b by auto
  qed
qed

lemma half_even_parts:
  fixes p q :: int
  assumes "0 < q"
  obtains d r where "p = d * q + r" "0 \<le> r" "r < q"
    "half_even p q = (if 2 * r < q \<or> (2 * r = q \<and> even d) then d else d + 1)"
proof
  show "p = (p div q) * q + p mod q" by simp
qed (use assms in \<open>simp_all add: half_even_def Let_def\<close>)

lemma half_even_near:
  assumes "0 < q" "2 * p < 2 * (n * q) + q" "2 * (n * q) < 2 * p + q"
  shows "half_even p q = n"
proof -
  obtain d r where p: "p = d * q + r" "0 \<le> r" "r < q"
    and def: "half_even p q = (if 2 * r < q \<or> (2 * r = q \<and> even d) then d else d + 1)"
    using assms(1) by (rule half_even_parts)
  have far: "i * q + k * q \<le> j * q" if "i + k \<le> j" for i j k
    using mult_right_mono [OF that, of q] assms(1) by (simp add: algebra_simps)
  have "\<not> n + 1 \<le> d" using far [of n 1 d] p assms by linarith
  moreover have "\<not> d + 2 \<le> n" using far [of d 2 n] p assms by linarith
  ultimately consider "d = n" | "n = d + 1" by linarith
  then show ?thesis
  proof cases
    case 1
    then have "2 * r < q" using p assms by simp
    with 1 def show ?thesis by simp
  next
    case 2
    then have "q < 2 * r" using p assms by (simp add: algebra_simps)
    with 2 def show ?thesis by simp
  qed
qed

lemma half_even_error:
  assumes "0 < q"
  shows "2 * (half_even p q * q) \<le> 2 * p + q" "2 * p \<le> 2 * (half_even p q * q) + q"
proof -
  obtain d r where "p = d * q + r" "0 \<le> r" "r < q"
    "half_even p q = (if 2 * r < q \<or> (2 * r = q \<and> even d) then d else d + 1)"
    using assms by (rule half_even_parts)
  then show "2 * (half_even p q * q) \<le> 2 * p + q" "2 * p \<le> 2 * (half_even p q * q) + q"
    by (auto simp: algebra_simps)
qed

lemma leading_bits:
  fixes p q :: int
  assumes "0 < p" "0 < q" "p * 2 ^ k \<le> q * 2 ^ l"
  shows "bits p + k < bits q + l + 1"
proof -
  have "0 < bits p" using assms(1) by (simp add: bits.simps)
  have "2 ^ (bits p - 1 + k) = (2::int) ^ (bits p - 1) * 2 ^ k" by (simp only: power_add)
  also have "\<dots> \<le> p * 2 ^ k" using bits_bounds [OF assms(1)] by (intro mult_right_mono) auto
  also have "\<dots> \<le> q * 2 ^ l" by (rule assms)
  also have "\<dots> < 2 ^ bits q * 2 ^ l" using bits_bounds [OF assms(2)] by (intro mult_strict_right_mono) auto
  finally have "2 ^ (bits p - 1 + k) < (2::int) ^ (bits q + l)" by (simp only: power_add)
  then have "bits p - 1 + k < bits q + l" by simp
  with \<open>0 < bits p\<close> show ?thesis by simp
qed

text \<open>Where the quotient has its leading bit at \<open>2 ^ (52 - k)\<close>, it is rounded to a multiple of \<open>1 / 2 ^ k\<close>.\<close>

lemma nearest_double_at:
  assumes "0 < p" "0 < q" "q * 2 ^ 52 \<le> p * 2 ^ k" "p * 2 ^ k < q * 2 ^ 53" "0 < k"
  shows "nearest_double p q = (half_even (p * 2 ^ k) q, k)"
proof -
  have high: "bits p + k < bits q + 53 + 1" by (rule leading_bits) (use assms in auto)
  have low: "bits q + 52 < bits p + k + 1" by (rule leading_bits) (use assms in auto)
  show ?thesis
  proof (cases "bits p + k = bits q + 53")
    case True
    then have "53 + bits q - bits p = k" "bits p < 53 + bits q" using assms(5) by simp_all
    then have "nearest_double p q = scaled p q k"
      using assms(1) by (simp add: nearest_double_def)
    then show ?thesis using assms by (simp add: scaled_def)
  next
    case False
    with low high have "53 + bits q - bits p = Suc k" "bits p < 53 + bits q" by auto
    then have "nearest_double p q = scaled p q (Suc k)"
      using assms(1) by (simp add: nearest_double_def)
    moreover have "\<not> p * 2 ^ Suc k < q * 2 ^ 53" using assms(3) by simp
    ultimately show ?thesis by (simp add: scaled_def)
  qed
qed

lemma nearest_double_small:
  assumes "0 < p" "0 < q" "p < q * 2 ^ 50"
  obtains k where "2 \<le> k" "nearest_double p q = (half_even (p * 2 ^ k) q, k)"
proof -
  have "bits p + 0 < bits q + 50 + 1" by (rule leading_bits) (use assms in auto)
  then have "nearest_double p q = scaled p q (53 + bits q - bits p)" "3 \<le> 53 + bits q - bits p"
    using assms(1) by (simp_all add: nearest_double_def)
  with that [of "53 + bits q - bits p"] that [of "53 + bits q - bits p - 1"] show thesis
    by (auto simp: scaled_def split: if_splits)
qed

text \<open>A quotient next to a whole number is still read as that number after a rounding.\<close>

lemma round_twice:
  assumes "0 \<le> p" "0 < q" "p < q * 2 ^ 50" "8 * p \<le> 8 * (n * q) + q" "8 * (n * q) \<le> 8 * p + q"
  shows "(case nearest_double p q of (f, j) \<Rightarrow> half_even f (2 ^ j)) = n"
proof (cases "p = 0")
  case True
  with assms have "half_even p q = n" by (intro half_even_near) auto
  moreover have "half_even 0 q = 0" "half_even 0 1 = 0" using assms(2) by (simp_all add: half_even_def)
  ultimately show ?thesis using True by (simp add: nearest_double_def)
next
  case False
  then obtain k where k: "2 \<le> k" "nearest_double p q = (half_even (p * 2 ^ k) q, k)"
    using nearest_double_small [of p q] assms by auto
  define f x where "f = half_even (p * 2 ^ k) q" and "x = (2::int) ^ k"
  have "(2::int) ^ 2 \<le> 2 ^ k" by (rule power_increasing) (use k in auto)
  then have x: "4 \<le> x" by (simp add: x_def)
  have f: "2 * (f * q) \<le> 2 * (p * x) + q" "2 * (p * x) \<le> 2 * (f * q) + q"
    using half_even_error [OF assms(2), of "p * 2 ^ k"] by (simp_all add: f_def x_def)
  have "8 * (p * x) \<le> 8 * (n * q * x) + q * x" "8 * (n * q * x) \<le> 8 * (p * x) + q * x"
    using mult_right_mono [OF assms(4), of x] mult_right_mono [OF assms(5), of x] x by (simp_all add: algebra_simps)
  moreover have "q * 4 \<le> q * x" by (rule mult_left_mono) (use x assms(2) in auto)
  moreover note f assms(2)
  ultimately have "2 * (f * q) < 2 * (n * q * x) + q * x" "2 * (n * q * x) < 2 * (f * q) + q * x" by linarith+
  then have "q * (2 * f) < q * (2 * (n * x) + x)" "q * (2 * (n * x)) < q * (2 * f + x)" by (simp_all add: algebra_simps)
  then have "2 * f < 2 * (n * x) + x" "2 * (n * x) < 2 * f + x"
    using assms(2) by (simp_all only: mult_less_cancel_left_pos)
  then have "half_even f x = n" using x by (intro half_even_near) auto
  then show ?thesis by (simp add: k f_def x_def)
qed

text \<open>
  The seconds from November 2004 to January 2038 lie between \<open>2 ^ 30\<close> and \<open>2 ^ 31\<close>, and
  their milliseconds between \<open>2 ^ 40\<close> and \<open>2 ^ 41\<close>: there both conversions are exact.
\<close>

lemma us_from_ms_exact:
  assumes "1000 * 2 ^ 30 \<le> n" "n < 1000 * 2 ^ 31"
  shows "us_of_double (nearest_double n 1000) = n * 1000"
proof -
  define m where "m = half_even (n * 2 ^ 22) 1000"
  have nd: "nearest_double n 1000 = (m, 22)"
    unfolding m_def by (rule nearest_double_at) (use assms in auto)
  have m: "m * 1000 \<le> n * 4194304 + 500" "n * 4194304 \<le> m * 1000 + 500"
    using half_even_error [of 1000 "n * 2 ^ 22"] by (simp_all add: m_def)
  define w f s c where "w = m div 4194304" and "f = m mod 4194304" and "s = n div 1000" and "c = n mod 1000"
  have e: "m = w * 4194304 + f" "0 \<le> f" "f < 4194304" "n = s * 1000 + c" "0 \<le> c" "c < 1000"
    by (simp_all add: w_def f_def s_def c_def)
  have "\<not> w + 1 \<le> s" "\<not> s + 1 \<le> w" using e m by linarith+
  then have "w = s" by simp
  then have "f * 1000 \<le> c * 4194304 + 500" "c * 4194304 \<le> f * 1000 + 500" using e m by linarith+
  then have "(case nearest_double (f * 1000000) 4194304 of (g, j) \<Rightarrow> half_even g (2 ^ j)) = c * 1000"
    using e by (intro round_twice) auto
  moreover have "us_of_double (m, 22) = w * 1000000 + (case nearest_double (f * 1000000) 4194304 of (g, j) \<Rightarrow> half_even g (2 ^ j))"
    by (simp add: us_of_double_def w_def f_def split: prod.splits)
  ultimately show ?thesis unfolding nd using \<open>w = s\<close> e(4) by simp
qed

lemma ms_from_us_exact:
  assumes "2 ^ 40 < n" "n < 1000 * 2 ^ 31"
  shows "times_1000 (nearest_double (n * 1000) 1000000) = (n * 2 ^ 12, 12)"
proof -
  define m where "m = half_even (n * 1000 * 2 ^ 22) 1000000"
  have nd: "nearest_double (n * 1000) 1000000 = (m, 22)"
    unfolding m_def by (rule nearest_double_at) (use assms in auto)
  have m: "m * 1000 \<le> n * 4194304 + 500" "n * 4194304 \<le> m * 1000 + 500"
    using half_even_error [of 1000000 "n * 1000 * 2 ^ 22"] by (simp_all add: m_def)
  have "nearest_double (m * 1000) (2 ^ 22) = (half_even (m * 1000 * 2 ^ 12) (2 ^ 22), 12)"
    by (rule nearest_double_at) (use assms m in auto)
  moreover have "half_even (m * 1000 * 2 ^ 12) (2 ^ 22) = n * 2 ^ 12"
    by (rule half_even_near) (use m in auto)
  ultimately show ?thesis by (simp add: times_1000_def nd)
qed

lemma us_from_ms_recent: "1000 * 2 ^ 30 \<le> ms \<Longrightarrow> ms < 1000 * 2 ^ 31 \<Longrightarrow> us_from_ms ms = ms * 1000"
  using us_from_ms_exact [of ms] by (simp add: us_from_ms_def)

lemma ms_from_us_recent: "2 ^ 40 < ms \<Longrightarrow> ms < 1000 * 2 ^ 31 \<Longrightarrow> ms_from_us (ms * 1000) = ms"
  using ms_from_us_exact [of ms] by (simp add: ms_from_us_def abs_mult)

end
