(* ===== verification/Workspace_Time.thy ===== *)
theory Workspace_Time
  imports Py_Float
begin

text \<open>
  The instants of the workspace: \<open>_iso_from_ms\<close> and \<open>_ms_from_iso\<close> of
  \<open>src/workspace/collections.py\<close> and their twins in \<open>src/workspace/transfer.py\<close>, with the
  calendar of \<open>datetime\<close> that they use.

  \<^item> An instant is a number of microseconds since 1970-01-01T00:00:00Z.
  \<^item> \<open>us_from_iso\<close> reads the two forms that the workspace writes: with microseconds
    (\<open>utc_timestamp\<close>, \<open>_iso_from_ms\<close>), and as \<open>isoformat\<close> writes a whole second in an import.
    The other forms that \<open>fromisoformat\<close> also reads do not reach it.
\<close>

section \<open>Calendar\<close>

definition leap :: "int \<Rightarrow> bool" where
  "leap y \<longleftrightarrow> y mod 4 = 0 \<and> (y mod 100 \<noteq> 0 \<or> y mod 400 = 0)"

definition month_lengths :: "bool \<Rightarrow> int list" where
  "month_lengths l = [31, if l then 29 else 28, 31, 30, 31, 30, 31, 31, 30, 31, 30, 31]"

text \<open>Days before the first of January of a year, counted from 0001-01-01.\<close>

definition days_before_year :: "int \<Rightarrow> int" where
  "days_before_year y = (y - 1) * 365 + (y - 1) div 4 - (y - 1) div 100 + (y - 1) div 400"

definition days_of_date :: "int \<Rightarrow> nat \<Rightarrow> int \<Rightarrow> int" where
  "days_of_date y m d = days_before_year y + sum_list (take (m - 1) (month_lengths (leap y))) + (d - 1)"

fun month_day :: "nat \<Rightarrow> int list \<Rightarrow> int \<Rightarrow> nat \<times> int" where
  "month_day m [] n = (m, n + 1)"
| "month_day m (l # ls) n = (if n < l \<or> ls = [] then (m, n + 1) else month_day (m + 1) ls (n - l))"

definition date_of_days :: "int \<Rightarrow> int \<times> nat \<times> int" where
  "date_of_days n =
    (let a = n div 146097; n1 = n mod 146097;
         b = n1 div 36524; n2 = n1 mod 36524;
         c = n2 div 1461; n3 = n2 mod 1461;
         e = n3 div 365; n4 = n3 mod 365;
         y = 400 * a + 100 * b + 4 * c + e + 1
     in if e = 4 \<or> b = 4 then (y - 1, 12, 31)
        else case month_day 1 (month_lengths (leap y)) n4 of (m, d) \<Rightarrow> (y, m, d))"

definition epoch_day :: int where
  "epoch_day = 719162"

section \<open>Text\<close>

fun padded :: "nat \<Rightarrow> nat \<Rightarrow> string" where
  "padded 0 n = []"
| "padded (Suc k) n = padded k (n div 10) @ [''0123456789'' ! (n mod 10)]"

fun number :: "nat \<Rightarrow> string \<Rightarrow> nat option" where
  "number n [] = Some n"
| "number n (c # s) = (if is_digit c then number (10 * n + (ord c - 48)) s else None)"

definition iso_from_us :: "int \<Rightarrow> string option" where
  "iso_from_us t =
    (let day = t div 86400000000 + epoch_day; us = t mod 86400000000;
         secs = us div 1000000
     in if day < 0 \<or> 3652059 \<le> day then None
        else case date_of_days day of (y, m, d) \<Rightarrow>
          Some (padded 4 (nat y) @ ''-'' @ padded 2 m @ ''-'' @ padded 2 (nat d) @ ''T'' @
                padded 2 (nat (secs div 3600)) @ '':'' @ padded 2 (nat (secs div 60 mod 60)) @ '':'' @
                padded 2 (nat (secs mod 60)) @ ''.'' @ padded 6 (nat (us mod 1000000)) @ ''Z''))"

definition us_from_long :: "string \<Rightarrow> int option" where
  "us_from_long s =
    (if length s = 27 \<and> s ! 4 = CHR ''-'' \<and> s ! 7 = CHR ''-'' \<and> s ! 10 = CHR ''T'' \<and> s ! 13 = CHR '':'' \<and>
        s ! 16 = CHR '':'' \<and> s ! 19 = CHR ''.'' \<and> s ! 26 = CHR ''Z''
     then case (number 0 (slice 0 4 s), number 0 (slice 5 2 s), number 0 (slice 8 2 s), number 0 (slice 11 2 s),
                number 0 (slice 14 2 s), number 0 (slice 17 2 s), number 0 (slice 20 6 s)) of
         (Some y, Some m, Some d, Some hh, Some mm, Some ss, Some us) \<Rightarrow>
           if 1 \<le> y \<and> 1 \<le> m \<and> m \<le> 12 \<and> 1 \<le> d \<and> int d \<le> month_lengths (leap (int y)) ! (m - 1) \<and>
              hh < 24 \<and> mm < 60 \<and> ss < 60
           then Some ((days_of_date (int y) m (int d) - epoch_day) * 86400000000 +
                      (int hh * 3600 + int mm * 60 + int ss) * 1000000 + int us)
           else None
       | _ \<Rightarrow> None
     else None)"

text \<open>\<open>isoformat()\<close> leaves a fraction of zero out.\<close>

definition iso_short :: "int \<Rightarrow> string option" where
  "iso_short t = map_option (\<lambda>s. if t mod 1000000 = 0 then take 19 s @ ''Z'' else s) (iso_from_us t)"

definition us_from_iso :: "string \<Rightarrow> int option" where
  "us_from_iso s = us_from_long (if length s = 20 then take 19 s @ ''.000000Z'' else s)"

definition iso_from_ms :: "int \<Rightarrow> string option" where
  "iso_from_ms ms = iso_from_us (us_from_ms ms)"

definition ms_from_iso :: "string \<Rightarrow> int option" where
  "ms_from_iso s = map_option ms_from_us (us_from_iso s)"

section \<open>Round trip\<close>

lemma month_day_sum:
  "0 \<le> n \<Longrightarrow> n < sum_list ls \<Longrightarrow> (\<And>l. l \<in> set ls \<Longrightarrow> 0 < l) \<Longrightarrow> month_day k ls n = (m, d) \<Longrightarrow>
     k \<le> m \<and> m < k + length ls \<and> 1 \<le> d \<and> d \<le> ls ! (m - k) \<and> sum_list (take (m - k) ls) + (d - 1) = n"
proof (induction k ls n rule: month_day.induct)
  case (2 k l ls n)
  show ?case
  proof (cases "n < l \<or> ls = []")
    case True
    with 2 show ?thesis by auto
  next
    case False
    then have "month_day (k + 1) ls (n - l) = (m, d)" "0 \<le> n - l" "n - l < sum_list ls" using 2 by auto
    from "2.IH" [OF False this(2,3) _ this(1)] 2
    have ih: "k + 1 \<le> m" "m < k + 1 + length ls" "1 \<le> d" "d \<le> ls ! (m - (k + 1))"
      "sum_list (take (m - (k + 1)) ls) + (d - 1) = n - l" by auto
    then obtain j where j: "m - k = Suc j" "m - (k + 1) = j" by (metis Suc_diff_le Suc_eq_plus1 diff_Suc_Suc)
    with ih show ?thesis by auto
  qed
qed simp

lemma month_lengths_sum: "sum_list (month_lengths l) = (if l then 366 else 365)"
  by (simp add: month_lengths_def)

lemma month_lengths_pos: "l \<in> set (month_lengths b) \<Longrightarrow> 0 < l"
  by (auto simp: month_lengths_def split: if_splits)

lemma year_parts:
  fixes a b c e :: int
  assumes "0 \<le> b" "b \<le> 3" "0 \<le> c" "c \<le> 24" "0 \<le> e" "e \<le> 3"
  shows "days_before_year (400 * a + 100 * b + 4 * c + e + 1) = 146097 * a + 36524 * b + 1461 * c + 365 * e"
proof -
  have "(400 * a + 100 * b + 4 * c + e) div 4 = 100 * a + 25 * b + c"
    by (rule int_div_pos_eq [where r = e]) (use assms in auto)
  moreover have "(400 * a + 100 * b + 4 * c + e) div 100 = 4 * a + b"
    by (rule int_div_pos_eq [where r = "4 * c + e"]) (use assms in auto)
  moreover have "(400 * a + 100 * b + 4 * c + e) div 400 = a"
    by (rule int_div_pos_eq [where r = "100 * b + 4 * c + e"]) (use assms in auto)
  ultimately show ?thesis unfolding days_before_year_def by simp
qed

lemma leap_parts:
  fixes a b c e :: int
  assumes "0 \<le> b" "b \<le> 3" "0 \<le> c" "c \<le> 24" "0 \<le> e" "e \<le> 3"
  shows "leap (400 * a + 100 * b + 4 * c + e + 1) \<longleftrightarrow> e = 3 \<and> (c \<noteq> 24 \<or> b = 3)"
proof (cases "e = 3")
  case False
  have "(400 * a + 100 * b + 4 * c + e + 1) mod 4 = e + 1"
    by (rule int_mod_pos_eq [where q = "100 * a + 25 * b + c"]) (use assms False in auto)
  with False assms show ?thesis by (simp add: leap_def)
next
  case e: True
  have m4: "(400 * a + 100 * b + 4 * c + e + 1) mod 4 = 0"
    by (rule int_mod_pos_eq [where q = "100 * a + 25 * b + c + 1"]) (use e in auto)
  show ?thesis
  proof (cases "c = 24")
    case False
    have "(400 * a + 100 * b + 4 * c + e + 1) mod 100 = 4 * c + 4"
      by (rule int_mod_pos_eq [where q = "4 * a + b"]) (use assms e False in auto)
    with False e m4 assms show ?thesis by (simp add: leap_def)
  next
    case c: True
    have m100: "(400 * a + 100 * b + 4 * c + e + 1) mod 100 = 0"
      by (rule int_mod_pos_eq [where q = "4 * a + b + 1"]) (use c e in auto)
    have "(400 * a + 100 * b + 4 * c + e + 1) mod 400 = (if b = 3 then 0 else 100 * b + 100)"
      by (rule int_mod_pos_eq [where q = "if b = 3 then a + 1 else a"]) (use assms c e in auto)
    with m4 m100 c e assms show ?thesis by (simp add: leap_def)
  qed
qed

lemma days_parts:
  fixes n :: int
  defines "a \<equiv> n div 146097" and "n1 \<equiv> n mod 146097"
  defines "b \<equiv> n1 div 36524" and "n2 \<equiv> n1 mod 36524"
  defines "c \<equiv> n2 div 1461" and "n3 \<equiv> n2 mod 1461"
  defines "e \<equiv> n3 div 365" and "n4 \<equiv> n3 mod 365"
  shows "n = 146097 * a + 36524 * b + 1461 * c + 365 * e + n4" "0 \<le> b" "b \<le> 4" "0 \<le> c" "c \<le> 24" "0 \<le> e" "e \<le> 4"
    "0 \<le> n4" "n4 < 365" "b = 4 \<Longrightarrow> c = 0 \<and> e = 0 \<and> n4 = 0" "e = 4 \<Longrightarrow> n4 = 0 \<and> c \<le> 23"
proof -
  have 1: "n = 146097 * a + n1" "0 \<le> n1" "n1 < 146097" by (simp_all add: a_def n1_def)
  have 2: "n1 = 36524 * b + n2" "0 \<le> n2" "n2 < 36524" by (simp_all add: b_def n2_def)
  have 3: "n2 = 1461 * c + n3" "0 \<le> n3" "n3 < 1461" by (simp_all add: c_def n3_def)
  have 4: "n3 = 365 * e + n4" "0 \<le> n4" "n4 < 365" by (simp_all add: e_def n4_def)
  from 1 2 3 4 show "n = 146097 * a + 36524 * b + 1461 * c + 365 * e + n4" "0 \<le> b" "b \<le> 4" "0 \<le> c" "c \<le> 24"
    "0 \<le> e" "e \<le> 4" "0 \<le> n4" "n4 < 365" by linarith+
  with 1 2 3 4 show "b = 4 \<Longrightarrow> c = 0 \<and> e = 0 \<and> n4 = 0" "e = 4 \<Longrightarrow> n4 = 0 \<and> c \<le> 23"
    by (intro conjI; linarith)+
qed

lemma last_of_year: "days_of_date y 12 31 = days_before_year (y + 1) - 1"
proof -
  have "days_before_year (y + 1) = days_before_year y + (if leap y then 366 else 365)"
  proof -
    obtain a r where r: "y = 400 * a + r + 1" "0 \<le> r" "r < 400"
      by (metis add.commute add_diff_cancel_left' mult.commute div_mult_mod_eq diff_add_cancel
          pos_mod_bound pos_mod_sign zero_less_numeral)
    define b c e where "b = r div 100" and "c = r mod 100 div 4" and "e = r mod 100 mod 4"
    have q: "r = 100 * b + r mod 100" "0 \<le> r mod 100" "r mod 100 < 100" "r mod 100 = 4 * c + e" "0 \<le> e" "e < 4"
      by (simp_all add: b_def c_def e_def)
    have p: "y = 400 * a + 100 * b + 4 * c + e + 1" "0 \<le> b" "b \<le> 3" "0 \<le> c" "c \<le> 24" "0 \<le> e" "e \<le> 3"
      using r q by linarith+
    consider "e \<le> 2" | "e = 3" "c \<le> 23" | "e = 3" "c = 24" "b \<le> 2" | "e = 3" "c = 24" "b = 3" using p by linarith
    then show ?thesis
    proof cases
      case 1
      with p leap_parts [of b c e a] year_parts [of b c e a] year_parts [of b c "e + 1" a] show ?thesis
        by (simp add: add.assoc)
    next
      case 2
      with p leap_parts [of b c e a] year_parts [of b c e a] year_parts [of b "c + 1" 0 a] show ?thesis
        by (simp add: algebra_simps)
    next
      case 3
      with p leap_parts [of b c e a] year_parts [of b c e a] year_parts [of "b + 1" 0 0 a] show ?thesis
        by (simp add: algebra_simps)
    next
      case 4
      with p leap_parts [of b c e a] year_parts [of b c e a] year_parts [of 0 0 0 "a + 1"] show ?thesis
        by (simp add: algebra_simps)
    qed
  qed
  then show ?thesis by (simp add: days_of_date_def month_lengths_def numeral_eq_Suc)
qed

lemma date_round_trip:
  assumes "date_of_days n = (y, m, d)"
  shows "days_of_date y m d = n \<and> 1 \<le> m \<and> m \<le> 12 \<and> 1 \<le> d \<and> d \<le> month_lengths (leap y) ! (m - 1)"
proof -
  define a b c e n4 where "a = n div 146097" and "b = n mod 146097 div 36524"
    and "c = n mod 146097 mod 36524 div 1461" and "e = n mod 146097 mod 36524 mod 1461 div 365"
    and "n4 = n mod 146097 mod 36524 mod 1461 mod 365"
  note p = days_parts [of n, folded a_def b_def c_def e_def n4_def]
  let ?y = "400 * a + 100 * b + 4 * c + e + 1"
  have date: "date_of_days n = (if e = 4 \<or> b = 4 then (?y - 1, 12, 31)
      else case month_day 1 (month_lengths (leap ?y)) n4 of (m, d) \<Rightarrow> (?y, m, d))"
    unfolding date_of_days_def a_def b_def c_def e_def n4_def Let_def ..
  show ?thesis
  proof (cases "e = 4 \<or> b = 4")
    case True
    have "days_before_year ?y = n + 1"
    proof (cases "b = 4")
      case b: True
      with p(10) p(1) year_parts [of 0 0 0 "a + 1"] show ?thesis by (simp add: algebra_simps)
    next
      case False
      with True p year_parts [of b "c + 1" 0 a] show ?thesis by (simp add: algebra_simps)
    qed
    with True assms date last_of_year [of "?y - 1"] show ?thesis
      by (auto simp: month_lengths_def numeral_eq_Suc)
  next
    case False
    obtain m' d' where md: "month_day 1 (month_lengths (leap ?y)) n4 = (m', d')" by (rule prod.exhaust)
    with False assms date have eq: "y = ?y" "m = m'" "d = d'" by auto
    have "n4 < sum_list (month_lengths (leap ?y))" using p(9) by (simp add: month_lengths_sum)
    from month_day_sum [OF p(8) this month_lengths_pos md]
    have m: "1 \<le> m'" "m' < 1 + length (month_lengths (leap ?y))" "1 \<le> d'" "d' \<le> month_lengths (leap ?y) ! (m' - 1)"
      "sum_list (take (m' - 1) (month_lengths (leap ?y))) + (d' - 1) = n4" by auto
    have "days_before_year ?y = 146097 * a + 36524 * b + 1461 * c + 365 * e"
      by (rule year_parts) (use p False in linarith)+
    with m p(1) eq show ?thesis by (auto simp: days_of_date_def month_lengths_def)
  qed
qed

lemma number_append: "number n (s @ t) = Option.bind (number n s) (\<lambda>k. number k t)"
  by (induction n s rule: number.induct) auto

lemma ord_of_digit: "i < 10 \<Longrightarrow> ord (''0123456789'' ! i) = 48 + i"
proof -
  assume "i < 10"
  then have "i \<in> set [0..<10]" by simp
  then show ?thesis by (auto simp: ord_def upt_rec)
qed

lemma number_padded: "n < 10 ^ k \<Longrightarrow> number 0 (padded k n) = Some n"
proof (induction k arbitrary: n)
  case (Suc k)
  have "n div 10 < 10 ^ k" using Suc.prems by (simp add: less_mult_imp_div_less)
  from Suc.IH [OF this] show ?case
    by (simp add: number_append is_digit_def ord_of_digit)
qed simp

lemma number_padded_int: "x < l \<Longrightarrow> l \<le> 10 ^ k \<Longrightarrow> number 0 (padded k (nat x)) = Some (nat x)"
  by (rule number_padded) (simp add: nat_less_iff)

lemma length_padded [simp]: "length (padded k n) = k"
  by (induction k arbitrary: n) auto

lemma days_before_year_linear:
  obtains p q r where "days_before_year y = 365 * y - 365 + p - q + r"
    "4 * p \<le> y - 1" "y - 1 < 4 * p + 4" "100 * q \<le> y - 1" "y - 1 < 100 * q + 100" "400 * r \<le> y - 1" "y - 1 < 400 * r + 400"
proof (rule that)
  show "days_before_year y = 365 * y - 365 + (y - 1) div 4 - (y - 1) div 100 + (y - 1) div 400"
    by (simp add: days_before_year_def)
qed simp_all

lemma year_bounds:
  assumes "date_of_days n = (y, m, d)" "0 \<le> n" "n < 3652059"
  shows "1 \<le> y \<and> y < 10000"
proof -
  have "sum_list (take (m - 1) (month_lengths (leap y))) + (d - 1) < 366"
    "0 \<le> sum_list (take (m - 1) (month_lengths (leap y))) + (d - 1)"
  proof -
    from date_round_trip [OF assms(1)] have m: "m \<in> set [1..<13]" and "1 \<le> d" "d \<le> month_lengths (leap y) ! (m - 1)" by auto
    then show "sum_list (take (m - 1) (month_lengths (leap y))) + (d - 1) < 366"
      "0 \<le> sum_list (take (m - 1) (month_lengths (leap y))) + (d - 1)"
      by (auto simp: month_lengths_def upt_rec numeral_eq_Suc)
  qed
  with date_round_trip [OF assms(1)] have "n < days_before_year y + 366" "days_before_year y \<le> n"
    by (auto simp: days_of_date_def)
  moreover obtain p q r where "days_before_year y = 365 * y - 365 + p - q + r" "4 * p \<le> y - 1" "y - 1 < 4 * p + 4"
    "100 * q \<le> y - 1" "y - 1 < 100 * q + 100" "400 * r \<le> y - 1" "y - 1 < 400 * r + 400"
    by (rule days_before_year_linear)
  moreover have "y \<noteq> 0" using calculation(1) assms(2) by (auto simp: days_before_year_def)
  moreover note assms(2,3)
  ultimately have *: "n < x + 366" "x \<le> n" "x = 365 * y - 365 + p - q + r" "4 * p \<le> y - 1" "y - 1 < 4 * p + 4"
    "100 * q \<le> y - 1" "y - 1 < 100 * q + 100" "400 * r \<le> y - 1" "y - 1 < 400 * r + 400" "y \<noteq> 0" "0 \<le> n" "n < 3652059"
    if "x = days_before_year y" for x using that by simp_all
  have "\<not> y - 1 \<le> - 2" using * [OF refl] by linarith
  moreover have "\<not> 9999 \<le> y - 1" using * [OF refl] by linarith
  ultimately show ?thesis using * [OF refl] by linarith
qed

lemma clock_arith:
  "(us::int) = 1000000 * s + u \<Longrightarrow> s = 60 * m + ss \<Longrightarrow> m = 60 * h + mm \<Longrightarrow>
     (h * 3600 + mm * 60 + ss) * 1000000 + u = us"
  by simp

lemma clock_bound:
  "(us::int) = 1000000 * s + u \<Longrightarrow> s = 60 * m + ss \<Longrightarrow> m = 60 * h + mm \<Longrightarrow> us < 86400000000 \<Longrightarrow>
     0 \<le> u \<Longrightarrow> 0 \<le> ss \<Longrightarrow> 0 \<le> mm \<Longrightarrow> h < 24"
  by linarith

lemma us_from_fields:
  assumes "length s = 27" "s ! 4 = CHR ''-''" "s ! 7 = CHR ''-''" "s ! 10 = CHR ''T''" "s ! 13 = CHR '':''"
    "s ! 16 = CHR '':''" "s ! 19 = CHR ''.''" "s ! 26 = CHR ''Z''"
    and "number 0 (slice 0 4 s) = Some (nat y)" "number 0 (slice 5 2 s) = Some m" "number 0 (slice 8 2 s) = Some (nat d)"
    "number 0 (slice 11 2 s) = Some (nat hh)" "number 0 (slice 14 2 s) = Some (nat mm)"
    "number 0 (slice 17 2 s) = Some (nat ss)" "number 0 (slice 20 6 s) = Some (nat us)"
    and "1 \<le> y" "1 \<le> m" "m \<le> 12" "1 \<le> d" "d \<le> month_lengths (leap y) ! (m - 1)"
    "0 \<le> hh" "hh < 24" "0 \<le> mm" "mm < 60" "0 \<le> ss" "ss < 60" "0 \<le> us"
  shows "us_from_long s = Some ((days_of_date y m d - epoch_day) * 86400000000 +
    (hh * 3600 + mm * 60 + ss) * 1000000 + us)"
  unfolding us_from_long_def using assms by (simp add: nat_less_iff Suc_le_eq)

text \<open>Reading back the text of an instant.\<close>

lemma iso_long:
  assumes "iso_from_us t = Some s"
  shows "us_from_long s = Some t" "length s = 27" "drop 19 s = CHR ''.'' # padded 6 (nat (t mod 1000000)) @ ''Z''"
proof -
  define day us where "day = t div 86400000000 + epoch_day" and "us = t mod 86400000000"
  obtain y m d where ymd: "date_of_days day = (y, m, d)" by (rule prod_cases3)
  let ?text = "padded 4 (nat y) @ ''-'' @ padded 2 m @ ''-'' @ padded 2 (nat d) @ ''T'' @
      padded 2 (nat (us div 1000000 div 3600)) @ '':'' @ padded 2 (nat (us div 1000000 div 60 mod 60)) @ '':'' @
      padded 2 (nat (us div 1000000 mod 60)) @ ''.'' @ padded 6 (nat (us mod 1000000)) @ ''Z''"
  have iso: "iso_from_us t = (if day < 0 \<or> 3652059 \<le> day then None else Some ?text)"
    unfolding iso_from_us_def Let_def day_def [symmetric] us_def [symmetric] ymd prod.case ..
  have range: "\<not> (day < 0 \<or> 3652059 \<le> day)"
  proof
    assume out: "day < 0 \<or> 3652059 \<le> day"
    show False using assms unfolding iso if_P [OF out] by (rule option.distinct(1) [THEN notE])
  qed
  then have day: "0 \<le> day" "day < 3652059" by (simp_all only: de_Morgan_disj not_less not_le)
  have s: "s = ?text" using assms unfolding iso if_not_P [OF range] by (simp only: option.inject)
  note y = year_bounds [OF ymd day] and md = date_round_trip [OF ymd]
  have date: "days_of_date y m d - epoch_day = t div 86400000000" using md by (simp add: day_def)
  have us: "0 \<le> us" "us < 86400000000" by (simp_all add: us_def)
  have eqs: "us = 1000000 * (us div 1000000) + us mod 1000000"
    "us div 1000000 = 60 * (us div 1000000 div 60) + us div 1000000 mod 60"
    "us div 1000000 div 60 = 60 * (us div 1000000 div 3600) + us div 1000000 div 60 mod 60"
    using mult_div_mod_eq [symmetric] zdiv_zmult2_eq [of 60 "us div 1000000" 60] by simp_all
  have mods: "us div 1000000 div 60 mod 60 < 60" "us div 1000000 mod 60 < 60" "us mod 1000000 < 1000000"
    "0 \<le> us div 1000000 div 60 mod 60" "0 \<le> us div 1000000 mod 60" "0 \<le> us mod 1000000"
    by (rule pos_mod_bound pos_mod_sign, simp)+
  have clock: "us div 1000000 div 3600 < 24" "us div 1000000 div 60 mod 60 < 60" "us div 1000000 mod 60 < 60"
    "us mod 1000000 < 1000000"
    using clock_bound [OF eqs us(2) mods(6,5,4)] mods by (simp_all only:)
  have parts: "(us div 1000000 div 3600 * 3600 + us div 1000000 div 60 mod 60 * 60 + us div 1000000 mod 60) * 1000000
      + us mod 1000000 = us" by (rule clock_arith [OF eqs])
  have len: "length s = 27" unfolding s by simp
  have seps: "s ! 4 = CHR ''-''" "s ! 7 = CHR ''-''" "s ! 10 = CHR ''T''" "s ! 13 = CHR '':''" "s ! 16 = CHR '':''"
    "s ! 19 = CHR ''.''" "s ! 26 = CHR ''Z''" unfolding s by (simp_all add: nth_append)
  have fields: "slice 0 4 s = padded 4 (nat y)" "slice 5 2 s = padded 2 m" "slice 8 2 s = padded 2 (nat d)"
    "slice 11 2 s = padded 2 (nat (us div 1000000 div 3600))" "slice 14 2 s = padded 2 (nat (us div 1000000 div 60 mod 60))"
    "slice 17 2 s = padded 2 (nat (us div 1000000 mod 60))" "slice 20 6 s = padded 6 (nat (us mod 1000000))"
    unfolding s slice_def by simp_all
  have "m \<in> set [1..<13]" using md by simp
  then have d31: "d \<le> 31" using md by (auto simp: month_lengths_def upt_rec numeral_eq_Suc split: if_splits)
  have numbers: "number 0 (padded 4 (nat y)) = Some (nat y)" "number 0 (padded 2 m) = Some m"
    "number 0 (padded 2 (nat d)) = Some (nat d)"
    "number 0 (padded 2 (nat (us div 1000000 div 3600))) = Some (nat (us div 1000000 div 3600))"
    "number 0 (padded 2 (nat (us div 1000000 div 60 mod 60))) = Some (nat (us div 1000000 div 60 mod 60))"
    "number 0 (padded 2 (nat (us div 1000000 mod 60))) = Some (nat (us div 1000000 mod 60))"
    "number 0 (padded 6 (nat (us mod 1000000))) = Some (nat (us mod 1000000))"
    by (rule number_padded_int [OF conjunct2 [OF y]], simp) (rule number_padded, use md in simp,
        rule number_padded_int [OF le_less_trans [OF d31, of 32]], simp, simp,
        (rule number_padded_int [OF clock(1)] number_padded_int [OF clock(2)] number_padded_int [OF clock(3)]
           number_padded_int [OF clock(4)], simp)+)
  have pos: "0 \<le> us div 1000000 div 3600" "0 \<le> us div 1000000 div 60 mod 60" "0 \<le> us div 1000000 mod 60"
    "0 \<le> us mod 1000000" using us by (simp_all add: pos_imp_zdiv_nonneg_iff)
  have "t = t div 86400000000 * 86400000000 + us" by (simp add: us_def)
  with date parts have total: "(days_of_date y m d - epoch_day) * 86400000000 +
      (us div 1000000 div 3600 * 3600 + us div 1000000 div 60 mod 60 * 60 + us div 1000000 mod 60) * 1000000
      + us mod 1000000 = t" by simp
  from md have fits: "1 \<le> m" "m \<le> 12" "1 \<le> d" "d \<le> month_lengths (leap y) ! (m - 1)" by blast+
  have "us_from_long s = Some ((days_of_date y m d - epoch_day) * 86400000000 +
      (us div 1000000 div 3600 * 3600 + us div 1000000 div 60 mod 60 * 60 + us div 1000000 mod 60) * 1000000
      + us mod 1000000)"
    by (rule us_from_fields [OF len seps numbers [folded fields] conjunct1 [OF y] fits pos(1) clock(1) pos(2)
          clock(2) pos(3) clock(3) pos(4)])
  then show "us_from_long s = Some t" unfolding total .
  show "length s = 27" by (rule len)
  have "us mod 1000000 = t mod 1000000" by (simp add: us_def mod_mod_cancel)
  then show "drop 19 s = CHR ''.'' # padded 6 (nat (t mod 1000000)) @ ''Z''" unfolding s by simp
qed

theorem iso_round_trip: "iso_from_us t = Some s \<Longrightarrow> us_from_iso s = Some t"
  by (simp add: us_from_iso_def iso_long)

lemma padded_0: "padded k 0 = replicate k CHR ''0''"
  by (induction k) (simp_all flip: replicate_append_same)

theorem iso_short_round_trip:
  assumes "iso_short t = Some s"
  shows "us_from_iso s = Some t"
proof -
  obtain u where u: "iso_from_us t = Some u" "s = (if t mod 1000000 = 0 then take 19 u @ ''Z'' else u)"
    using assms by (auto simp: iso_short_def)
  note long = iso_long [OF u(1)]
  show ?thesis
  proof (cases "t mod 1000000 = 0")
    case True
    then have "drop 19 u = ''.000000Z''" using long(3) by (simp add: padded_0 numeral_eq_Suc)
    then have "take 19 u @ ''.000000Z'' = u" by (metis append_take_drop_id)
    then show ?thesis using True u(2) long by (simp add: us_from_iso_def)
  next
    case False
    then show ?thesis using u long by (simp add: us_from_iso_def)
  qed
qed

text \<open>A millisecond of the years 2005 to 2037 survives being written and read.\<close>

lemma ms_round_trip:
  assumes "iso_from_ms n = Some s" "2 ^ 40 < n" "n < 1000 * 2 ^ 31"
  shows "ms_from_iso s = Some n"
proof -
  have "us_from_ms n = n * 1000" by (rule us_from_ms_recent) (use assms in auto)
  then have "us_from_iso s = Some (n * 1000)" using iso_round_trip assms(1) by (simp add: iso_from_ms_def)
  then show ?thesis using ms_from_us_recent assms by (simp add: ms_from_iso_def)
qed

end
