(* ===== verification/Collection_Model.thy ===== *)
theory Collection_Model
  imports Record_Store Py_Dynamic Workspace_Time
begin

text \<open>
  \<open>src/workspace/collections.py\<close>, first half: the value objects of a collection, the
  validation of what a caller passes in, and the payloads that are stored.

  \<^item> An exception is modelled by its class.  \<open>CollectionError\<close> and its subclasses are the
    constructors that \<open>caught\<close> accepts; \<open>TransferError\<close> is raised by
    \<open>stable_legacy_id\<close> of \<open>src/workspace/transfer.py\<close>, \<open>Bad_value\<close> by the built-in
    conversions, and \<open>Store_error\<close> passes on what the record store raises and the
    collection repository does not translate.
  \<^item> The environment of one call holds what it reads from outside: the SHA-256 hex digest,
    the configured secret values, the millisecond clock, the repository's clock and the
    random token that \<open>generate_id\<close> draws for a prefix.
\<close>

section \<open>Value objects\<close>

datatype collection_error =
    Collection_error | Collection_not_found | Collection_conflict | Collection_deleted | Collection_limit
  | Transfer_error | Bad_value | Store_error record_error

fun caught :: "collection_error \<Rightarrow> bool" where
  "caught Transfer_error = False"
| "caught Bad_value = False"
| "caught (Store_error e) = False"
| "caught e = True"

record coll_env =
  ce_sha :: "string \<Rightarrow> string"
  ce_secrets :: "string list"
  ce_now :: int
  ce_clock :: string
  ce_token :: "string \<Rightarrow> string"

definition generate_id :: "coll_env \<Rightarrow> string \<Rightarrow> string" where
  "generate_id e kind = kind @ ''-'' @ ce_token e kind"

record collection =
  co_id :: string
  co_name :: string
  co_description :: string
  co_tags :: "string list"
  co_favorite :: bool
  co_private :: bool
  co_revision :: int
  co_created :: string
  co_updated :: string
  co_items :: nat

record coll_item =
  ci_id :: string
  ci_collection :: string
  ci_kind :: string
  ci_citation :: string
  ci_excerpt :: string
  ci_reference :: row
  ci_snapshot :: "row option"
  ci_revision :: int
  ci_created :: string
  ci_updated :: string

record coll_note =
  cn_id :: string
  cn_collection :: string
  cn_text :: string
  cn_evidence :: "row option"
  cn_revision :: int
  cn_created :: string
  cn_updated :: string

record coll_activity =
  ca_id :: string
  ca_collection :: "string option"
  ca_type :: string
  ca_entity :: string
  ca_event :: string
  ca_at :: string

record receipt =
  rc_operation :: string
  rc_type :: string
  rc_entity :: string
  rc_revision :: int
  rc_deleted :: string

section \<open>Bounds and names\<close>

definition max_collections :: nat where "max_collections = 50"
definition max_items :: nat where "max_items = 100"
definition max_notes :: nat where "max_notes = 50"
definition max_activity :: nat where "max_activity = 500"
definition max_reference_depth :: nat where "max_reference_depth = 12"
definition max_reference_nodes :: nat where "max_reference_nodes = 500"

definition item_kinds :: "string list" where
  "item_kinds = [''document'', ''evidence'', ''answer'', ''note'']"

definition reference_item_kinds :: "string list" where
  "reference_item_kinds = [''document'', ''evidence'', ''answer'']"

definition activity_events :: "string list" where
  "activity_events = [''collection_created'', ''collection_updated'', ''collection_deleted'', ''item_added'',
     ''item_removed'', ''note_added'', ''note_updated'', ''note_removed'']"

text \<open>\<open>_ID\<close>, and \<open>_LEGACY_ID\<close>, which allows a longer tail.\<close>

definition loose_id :: "nat \<Rightarrow> string \<Rightarrow> bool" where
  "loose_id n s = (case s of [] \<Rightarrow> False
     | c # cs \<Rightarrow> is_alnum c \<and> length cs \<le> n \<and>
         list_all (\<lambda>d. is_alnum d \<or> d \<in> {CHR ''_'', CHR ''.'', CHR '':'', CHR ''-''}) cs)"

definition pathless :: "string \<Rightarrow> bool" where
  "pathless s \<longleftrightarrow> \<not> py_in ''..'' s \<and> CHR ''/'' \<notin> set s \<and> bslash \<notin> set s \<and> CHR 0x00 \<notin> set s"

definition validate_identifier :: "string \<Rightarrow> collection_error + string" where
  "validate_identifier s = bindE (ensure (loose_id 127 s \<and> pathless s) Collection_error) (\<lambda>_. Inr s)"

text \<open>\<open>stable_legacy_id\<close> of \<open>src/workspace/transfer.py\<close> for the two kinds used here.\<close>

definition validate_legacy_id :: "string \<Rightarrow> collection_error + string" where
  "validate_legacy_id s =
     bindE (ensure (loose_id 255 s \<and> pathless s \<and> \<not> (2 \<le> length s \<and> s ! 1 = CHR '':'' \<and> \<not> is_digit (hd s)))
       Transfer_error) (\<lambda>_. Inr s)"

definition stable_legacy_id :: "(string \<Rightarrow> string) \<Rightarrow> string \<Rightarrow> string \<Rightarrow> collection_error + string" where
  "stable_legacy_id sha kind legacy =
     bindE (of_opt Transfer_error (map_of [(''conversation'', ''legacy-conv-''), (''collection'', ''legacy-col-''),
         (''evidence_item'', ''legacy-item-'')] kind)) (\<lambda>front.
     bindE (validate_legacy_id legacy) (\<lambda>_.
     Inr (front @ take 40 (sha (''enterprise-document-qa.workspace'' @ [CHR 0x00] @ ''1'' @ [CHR 0x00] @ kind @
       [CHR 0x00] @ legacy)))))"

definition collection_entity_id :: "(string \<Rightarrow> string) \<Rightarrow> string \<Rightarrow> collection_error + string" where
  "collection_entity_id sha cid = stable_legacy_id sha ''collection'' cid"

definition item_entity_id :: "(string \<Rightarrow> string) \<Rightarrow> string \<Rightarrow> collection_error + string" where
  "item_entity_id sha iid = stable_legacy_id sha ''evidence_item'' iid"

section \<open>Validation\<close>

definition require_text :: "nat \<Rightarrow> bool \<Rightarrow> pyval \<Rightarrow> collection_error + string" where
  "require_text maximum allow_empty v =
    (case v of
       PStr s \<Rightarrow>
         bindE (ensure (allow_empty \<or> \<not> is_blank s) Collection_error) (\<lambda>_.
         bindE (ensure (length s \<le> maximum) Collection_limit) (\<lambda>_. Inr s))
     | _ \<Rightarrow> Inl Collection_error)"

definition validate_tags :: "pyval \<Rightarrow> collection_error + string list" where
  "validate_tags tags =
    (case tags of
       PNone \<Rightarrow> Inr []
     | PStr s \<Rightarrow> Inl Collection_error
     | _ \<Rightarrow>
         bindE (of_opt Collection_error (py_iter tags)) (\<lambda>vs.
         bindE (ensure (length vs \<le> 20) Collection_limit) (\<lambda>_.
         bindE (mapE (require_text 64 False) vs) (\<lambda>ts. Inr (sort (dedup (map strip ts)))))))"

text \<open>\<open>_validate_reference_tree\<close>: the stack's top is the head of the list.\<close>

fun children :: "pyval \<Rightarrow> pyval list" where
  "children (PDict kvs) = map snd kvs"
| "children (PList vs) = vs"
| "children (PTuple vs) = vs"
| "children v = []"

fun container :: "pyval \<Rightarrow> bool" where
  "container (PDict kvs) = True"
| "container (PList vs) = True"
| "container (PTuple vs) = True"
| "container v = False"

fun supported :: "pyval \<Rightarrow> bool" where
  "supported (PDict kvs) = list_all (\<lambda>kv. fst kv \<noteq> KOther) kvs"
| "supported POther = False"
| "supported v = True"

lemma sum_list_Suc: "(\<Sum>x\<leftarrow>xs. Suc (f x)) = sum_list (map f xs) + length xs"
  by (induction xs) auto

lemma sum_children: "(\<Sum>v\<leftarrow>children w. Suc (size v)) \<le> size w"
proof (cases w)
  case (PDict kvs)
  have "size (snd kv) \<le> size_prod (\<lambda>x. 0) size kv" for kv :: "pykey \<times> pyval" by (cases kv) simp
  then have "(\<Sum>kv\<leftarrow>kvs. size (snd kv)) \<le> (\<Sum>kv\<leftarrow>kvs. size_prod (\<lambda>x. 0) size kv)" by (rule sum_list_mono)
  with PDict show ?thesis by (simp add: size_list_conv_sum_list o_def sum_list_Suc)
qed (simp_all add: size_list_conv_sum_list sum_list_Suc)

function tree_walk :: "(pyval \<times> nat) list \<Rightarrow> nat \<Rightarrow> collection_error + unit" where
  "tree_walk [] nodes = Inr ()"
| "tree_walk ((v, depth) # stack) nodes =
     (if max_reference_depth < depth then Inl Collection_limit
      else if \<not> supported v then Inl Collection_error
      else
        let nodes' = nodes + (if container v then length (children v) else 1) in
        if max_reference_nodes < nodes' then Inl Collection_limit
        else tree_walk (rev (map (\<lambda>w. (w, depth + 1)) (children v)) @ stack) nodes')"
  by pat_completeness auto

termination
proof (relation "measure (\<lambda>(stack, nodes). \<Sum>p\<leftarrow>stack. Suc (size (fst p)))")
  fix v :: pyval and depth nodes nodes' :: nat and stack :: "(pyval \<times> nat) list"
  have "(\<Sum>p\<leftarrow>rev (map (\<lambda>w. (w, depth + 1)) (children v)). Suc (size (fst p))) \<le> size v"
    using sum_children [of v] by (simp add: rev_map [symmetric] sum_list_rev o_def)
  then show "((rev (map (\<lambda>w. (w, depth + 1)) (children v)) @ stack, nodes'), ((v, depth) # stack, nodes))
      \<in> measure (\<lambda>(stack, nodes). \<Sum>p\<leftarrow>stack. Suc (size (fst p)))"
    by simp
qed simp

text \<open>\<open>json.dumps\<close> refuses what \<open>canon\<close> refuses.\<close>

definition validate_reference_tree :: "pyval \<Rightarrow> collection_error + row" where
  "validate_reference_tree v =
    (case v of
       PNone \<Rightarrow> Inr []
     | PDict kvs \<Rightarrow>
         bindE (tree_walk [(v, 1)] 0) (\<lambda>_.
         bindE (ensure (canon v \<noteq> None) Collection_error) (\<lambda>_. Inr kvs))
     | _ \<Rightarrow> Inl Collection_error)"

text \<open>\<open>isinstance(reference.get(key), str) and reference[key]\<close>.\<close>

definition names_one :: "row \<Rightarrow> string \<Rightarrow> bool" where
  "names_one r k = (case fetch r k of PStr s \<Rightarrow> s \<noteq> [] | _ \<Rightarrow> False)"

definition identity_keys :: "string list" where
  "identity_keys = [''document_id'', ''chunk_id'', ''source_document_id'', ''conversation_id'', ''message_id'']"

definition provenance_keys :: "string list" where
  "provenance_keys = [''document_revision'', ''source_set_revision'', ''chunk_text_hash'', ''representation'',
     ''location_status'', ''coverage_status'']"

definition validate_evidence_reference :: "pyval \<Rightarrow> collection_error + row" where
  "validate_evidence_reference v =
     bindE (validate_reference_tree v) (\<lambda>r.
     bindE (ensure (list_ex (names_one r) identity_keys) Collection_error) (\<lambda>_.
     bindE (ensure (list_all (\<lambda>k. fetch r k = PNone \<or> is_str (fetch r k)) (identity_keys @ provenance_keys))
       Collection_error) (\<lambda>_.
     Inr r)))"

definition validate_item_reference :: "string \<Rightarrow> pyval \<Rightarrow> collection_error + row" where
  "validate_item_reference kind v =
     bindE (ensure (kind \<in> set item_kinds) Collection_error) (\<lambda>_.
     if kind = ''note'' then
       bindE (validate_reference_tree v) (\<lambda>r.
       bindE (if r = [] then Inr [] else validate_evidence_reference (PDict r)) (\<lambda>_. Inr r))
     else if kind = ''document'' then
       bindE (validate_reference_tree v) (\<lambda>r.
       bindE (ensure (names_one r ''document_id'') Collection_error) (\<lambda>_. Inr r))
     else if kind = ''answer'' then
       bindE (validate_reference_tree v) (\<lambda>r.
       bindE (ensure (list_ex (names_one r) [''conversation_id'', ''message_id'', ''answer_id'']) Collection_error) (\<lambda>_.
       Inr r))
     else validate_evidence_reference v)"

definition validate_snapshot :: "pyval \<Rightarrow> collection_error + row option" where
  "validate_snapshot v =
    (if v = PNone then Inr None else bindE (validate_reference_tree v) (\<lambda>r. Inr (Some r)))"

record coll_fields =
  cf_name :: string
  cf_description :: string
  cf_tags :: "string list"
  cf_favorite :: bool
  cf_private :: bool

fun the_bool :: "pyval \<Rightarrow> collection_error + bool" where
  "the_bool (PBool b) = Inr b"
| "the_bool v = Inl Collection_error"

definition validate_collection_fields ::
  "pyval \<Rightarrow> pyval \<Rightarrow> pyval \<Rightarrow> pyval \<Rightarrow> pyval \<Rightarrow> collection_error + coll_fields" where
  "validate_collection_fields name description tags favorite private =
     bindE (the_bool favorite) (\<lambda>f.
     bindE (the_bool private) (\<lambda>p.
     bindE (require_text 200 False name) (\<lambda>n.
     bindE (require_text 2000 True (if description = PNone then PStr [] else description)) (\<lambda>d.
     bindE (validate_tags tags) (\<lambda>ts.
     Inr \<lparr>cf_name = strip n, cf_description = d, cf_tags = ts, cf_favorite = f, cf_private = p\<rparr>)))))"

definition validate_revision :: "int \<Rightarrow> collection_error + unit" where
  "validate_revision n = ensure (1 \<le> n) Collection_error"

definition bounded_page :: "int \<Rightarrow> int \<Rightarrow> collection_error + unit" where
  "bounded_page page page_size =
     bindE (ensure (1 \<le> page) Collection_error) (\<lambda>_.
     bindE (ensure (1 \<le> page_size) Collection_error) (\<lambda>_.
     ensure (page_size \<le> 100) Collection_limit))"

definition validate_activity_event :: "string \<Rightarrow> collection_error + unit" where
  "validate_activity_event s = ensure (type_name s \<and> s \<in> set activity_events) Collection_error"

section \<open>Record payloads\<close>

definition wrap :: "string \<Rightarrow> string \<Rightarrow> row \<Rightarrow> row \<Rightarrow> pyval" where
  "wrap source_kind legacy data extra =
     PDict ([(KStr ''workspace_transfer_version'', PInt 1), (KStr ''source_kind'', PStr source_kind),
             (KStr ''legacy_id'', PStr legacy), (KStr ''source_schema_version'', PInt 2),
             (KStr ''data'', PDict data)] @ extra)"

definition unwrap_payload :: "row \<Rightarrow> collection_error + row" where
  "unwrap_payload payload =
    (case fetch payload ''data'' of
       PDict data \<Rightarrow>
         if py_eq (fetch payload ''workspace_transfer_version'') (PInt 1) \<or>
            py_eq (fetch payload ''workspace_collection_note'') (PInt 1)
         then Inr data else Inl Collection_error
     | _ \<Rightarrow> Inl Collection_error)"

definition activity_data :: "row \<Rightarrow> collection_error + row" where
  "activity_data payload =
    (case fetch payload ''data'' of
       PDict data \<Rightarrow>
         if py_eq (fetch payload ''workspace_collection_activity'') (PInt 1) then Inr data else Inl Collection_error
     | _ \<Rightarrow> Inl Collection_error)"

definition collection_payload :: "string \<Rightarrow> coll_fields \<Rightarrow> int \<Rightarrow> int \<Rightarrow> pyval" where
  "collection_payload cid f created updated =
     wrap ''collection'' cid
       [(KStr ''id'', PStr cid), (KStr ''schemaVersion'', PInt 2), (KStr ''name'', PStr (cf_name f)),
        (KStr ''description'', PStr (cf_description f)), (KStr ''tags'', PList (map PStr (cf_tags f))),
        (KStr ''favorite'', PBool (cf_favorite f)), (KStr ''private'', PBool (cf_private f)),
        (KStr ''createdAt'', PInt created), (KStr ''updatedAt'', PInt updated)]
       [(KStr ''favorite'', PBool (cf_favorite f))]"

definition item_payload ::
  "string \<Rightarrow> string \<Rightarrow> string \<Rightarrow> string \<Rightarrow> string \<Rightarrow> row \<Rightarrow> row option \<Rightarrow> int \<Rightarrow> pyval" where
  "item_payload iid cid kind citation excerpt reference snapshot saved =
     wrap ''evidence_item'' iid
       ([(KStr ''id'', PStr iid), (KStr ''schemaVersion'', PInt 2), (KStr ''itemKind'', PStr kind),
         (KStr ''citation'', PStr citation), (KStr ''excerpt'', PStr excerpt), (KStr ''savedAt'', PInt saved),
         (KStr ''collectionId'', PStr cid), (KStr ''reference'', PDict reference),
         (KStr ''createdAt'', PInt saved), (KStr ''updatedAt'', PInt saved)] @
        (case snapshot of None \<Rightarrow> [] | Some r \<Rightarrow> [(KStr ''snapshot'', PDict r)]))
       [(KStr ''parent_legacy_id'', PStr cid)]"

definition note_payload :: "string \<Rightarrow> string \<Rightarrow> string \<Rightarrow> row option \<Rightarrow> int \<Rightarrow> int \<Rightarrow> pyval" where
  "note_payload nid cid body evidence created updated =
     PDict [(KStr ''workspace_collection_note'', PInt 1), (KStr ''legacy_id'', PStr nid),
       (KStr ''data'', PDict
         ([(KStr ''id'', PStr nid), (KStr ''schemaVersion'', PInt 2), (KStr ''collectionId'', PStr cid),
           (KStr ''text'', PStr body), (KStr ''createdAt'', PInt created), (KStr ''updatedAt'', PInt updated)] @
          (case evidence of None \<Rightarrow> [] | Some r \<Rightarrow> [(KStr ''evidenceRef'', PDict r)])))]"

definition activity_payload :: "coll_activity \<Rightarrow> pyval" where
  "activity_payload a =
     PDict [(KStr ''workspace_collection_activity'', PInt 1), (KStr ''legacy_id'', PStr (ca_id a)),
       (KStr ''data'', PDict
         [(KStr ''id'', PStr (ca_id a)),
          (KStr ''collectionId'', case ca_collection a of None \<Rightarrow> PNone | Some c \<Rightarrow> PStr c),
          (KStr ''entityType'', PStr (ca_type a)), (KStr ''entityId'', PStr (ca_entity a)),
          (KStr ''eventType'', PStr (ca_event a)), (KStr ''occurredAt'', PStr (ca_at a))])]"

section \<open>From payloads to value objects\<close>

definition collection_of :: "string \<Rightarrow> int \<Rightarrow> row \<Rightarrow> string \<Rightarrow> string \<Rightarrow> nat \<Rightarrow> collection_error + collection" where
  "collection_of cid revision payload created updated items =
     bindE (unwrap_payload payload) (\<lambda>data.
     bindE (of_opt Bad_value (py_iter (py_or (fetch data ''tags'') (PList [])))) (\<lambda>ts.
     Inr \<lparr>co_id = py_str (py_or (fetch data ''id'') (PStr cid)),
          co_name = py_str (py_or (fetch data ''name'') (PStr [])),
          co_description = py_str (py_or (fetch data ''description'') (PStr [])),
          co_tags = map py_str ts,
          co_favorite = py_truth (fetch data ''favorite''),
          co_private = (case dict_get data ''private'' of None \<Rightarrow> True | Some v \<Rightarrow> py_truth v),
          co_revision = revision, co_created = created, co_updated = updated, co_items = items\<rparr>))"

text \<open>A value read with \<open>isinstance(v, Mapping)\<close>.\<close>

fun mapping_of :: "pyval \<Rightarrow> row option" where
  "mapping_of (PDict kvs) = Some kvs"
| "mapping_of v = None"

definition item_of :: "string \<Rightarrow> int \<Rightarrow> row \<Rightarrow> string \<Rightarrow> string \<Rightarrow> collection_error + coll_item" where
  "item_of iid revision payload created updated =
     bindE (unwrap_payload payload) (\<lambda>data.
     let is_note = py_eq (fetch payload ''workspace_collection_note'') (PInt 1) in
     bindE (of_opt Bad_value (py_dict (py_or (fetch data (if is_note then ''evidenceRef'' else ''reference'')) (PDict []))))
       (\<lambda>reference.
     Inr \<lparr>ci_id = py_str (py_or (fetch data ''id'') (PStr iid)),
          ci_collection = py_str (py_or (fetch data ''collectionId'') (PStr [])),
          ci_kind = (if is_note then ''note'' else py_str (py_or (fetch data ''itemKind'') (PStr []))),
          ci_citation = py_str (py_or (fetch data ''citation'') (PStr [])),
          ci_excerpt = py_str (if is_note then fetch data ''text'' else py_or (fetch data ''excerpt'') (PStr [])),
          ci_reference = reference,
          ci_snapshot = mapping_of (fetch data ''snapshot''),
          ci_revision = revision, ci_created = created, ci_updated = updated\<rparr>))"

end
