(* ===== verification/Collection_Store.thy ===== *)
theory Collection_Store
  imports Collection_Model
begin

text \<open>
  \<open>SQLiteCollectionRepository\<close> of \<open>src/workspace/collections.py\<close>: its connection-scoped
  helpers over the record store, and every operation that writes.  A write is one
  transaction; what it validates first and what it reads back afterwards are outside of it.
\<close>

section \<open>Writing through the record store\<close>

fun store_error :: "record_error \<Rightarrow> collection_error" where
  "store_error RecordConflict = Collection_conflict"
| "store_error RecordDeleted = Collection_deleted"
| "store_error RecordNotFound = Collection_not_found"
| "store_error e = Store_error e"

text \<open>
  \<open>_create_in\<close>, \<open>_replace_in\<close> and \<open>_delete_in\<close>.  Creation never reports a missing
  record, so one translation of the exceptions serves all three.
\<close>

definition coll_create_in ::
  "coll_env \<Rightarrow> rec_key \<Rightarrow> pyval \<Rightarrow> int \<Rightarrow> record_db \<Rightarrow> collection_error + versioned_record \<times> record_db" where
  "coll_create_in e k payload ms db =
     bindE (of_opt Bad_value (iso_from_ms ms)) (\<lambda>t.
     map_err store_error (create_in (ce_secrets e) t db k payload))"

definition coll_replace_in ::
  "coll_env \<Rightarrow> rec_key \<Rightarrow> pyval \<Rightarrow> int \<Rightarrow> int \<Rightarrow> record_db \<Rightarrow> collection_error + versioned_record \<times> record_db" where
  "coll_replace_in e k payload expected ms db =
     bindE (of_opt Bad_value (iso_from_ms ms)) (\<lambda>t.
     map_err store_error (replace_in (ce_secrets e) t db k payload expected))"

definition coll_delete_in ::
  "rec_key \<Rightarrow> int \<Rightarrow> int \<Rightarrow> record_db \<Rightarrow> collection_error + tombstone \<times> record_db" where
  "coll_delete_in k expected ms db =
     bindE (of_opt Bad_value (iso_from_ms ms)) (\<lambda>t. map_err store_error (delete_in t db k expected))"

section \<open>Reading inside a transaction\<close>

text \<open>Identifier, revision, payload, creation and update of a row; \<open>ORDER BY entity_id\<close>.\<close>

type_synonym scanned = "string \<times> int \<times> row \<times> string \<times> string"

fun scanned_row :: "rec_key \<times> rec_row \<Rightarrow> scanned option" where
  "scanned_row (k, r) = (case rr_payload r of
       Json (PDict kvs) \<Rightarrow> Some (snd k, rr_revision r, kvs, rr_created r, rr_updated r)
     | _ \<Rightarrow> None)"

definition scan_in :: "record_db \<Rightarrow> string \<Rightarrow> scanned list" where
  "scan_in db etype =
     List.map_filter scanned_row (sort_key (\<lambda>p. snd (fst p)) (filter (\<lambda>p. fst (fst p) = etype) (live db)))"

definition one_in :: "record_db \<Rightarrow> rec_key \<Rightarrow> collection_error + int \<times> row \<times> string \<times> string" where
  "one_in db k =
    (case find_live db k of
       Some r \<Rightarrow> (case rr_payload r of
           Json (PDict kvs) \<Rightarrow> Inr (rr_revision r, kvs, rr_created r, rr_updated r)
         | Json v \<Rightarrow> Inl Collection_not_found
         | _ \<Rightarrow> Inl Bad_value)
     | None \<Rightarrow> Inl (if find_tomb db k \<noteq> None then Collection_deleted else Collection_not_found))"

text \<open>\<open>unwrap_payload(payload).get("collectionId") == collection_id\<close>; a record that is not typed does not count.\<close>

definition held_by :: "string \<Rightarrow> row \<Rightarrow> bool" where
  "held_by cid payload =
    (case unwrap_payload payload of Inl _ \<Rightarrow> False | Inr data \<Rightarrow> fetch data ''collectionId'' = PStr cid)"

definition children_in :: "record_db \<Rightarrow> string \<Rightarrow> string \<Rightarrow> (string \<times> int) list" where
  "children_in db etype cid =
     map (\<lambda>(i, n, payload, c, u). (i, n)) (filter (\<lambda>(i, n, payload, c, u). held_by cid payload) (scan_in db etype))"

definition held_count :: "record_db \<Rightarrow> string \<Rightarrow> string \<Rightarrow> nat" where
  "held_count db etype cid = length (filter (\<lambda>(i, n, payload, c, u). held_by cid payload) (scan_in db etype))"

definition member_count_in :: "record_db \<Rightarrow> string \<Rightarrow> nat" where
  "member_count_in db cid = held_count db ''collection_item'' cid + held_count db ''note'' cid"

definition note_count_in :: "record_db \<Rightarrow> string \<Rightarrow> nat" where
  "note_count_in db cid = held_count db ''note'' cid"

definition live_count_in :: "record_db \<Rightarrow> string \<Rightarrow> nat" where
  "live_count_in db etype = length (filter (\<lambda>p. fst (fst p) = etype) (live db))"

definition has_record_in :: "record_db \<Rightarrow> rec_key \<Rightarrow> bool" where
  "has_record_in db k \<longleftrightarrow> find_live db k \<noteq> None"

section \<open>Activity\<close>

definition recorded_for :: "string \<Rightarrow> row \<Rightarrow> bool" where
  "recorded_for cid payload =
    (case activity_data payload of Inl _ \<Rightarrow> False | Inr data \<Rightarrow> fetch data ''collectionId'' = PStr cid)"

definition activity_rows :: "record_db \<Rightarrow> string \<Rightarrow> scanned list" where
  "activity_rows db cid = filter (\<lambda>(i, n, payload, c, u). recorded_for cid payload) (scan_in db ''collection_activity'')"

text \<open>A row that cannot be deleted for a reason the domain knows is skipped.\<close>

fun prune_rows :: "scanned list \<Rightarrow> int \<Rightarrow> record_db \<Rightarrow> collection_error + record_db" where
  "prune_rows [] ms db = Inr db"
| "prune_rows ((i, n, payload, c, u) # xs) ms db =
    (case coll_delete_in (''collection_activity'', i) n ms db of
       Inr (t, db') \<Rightarrow> prune_rows xs ms db'
     | Inl e \<Rightarrow> if caught e then prune_rows xs ms db else Inl e)"

definition prune_activity_in :: "string option \<Rightarrow> int \<Rightarrow> record_db \<Rightarrow> collection_error + record_db" where
  "prune_activity_in holder ms db =
    (case holder of
       None \<Rightarrow> Inr db
     | Some cid \<Rightarrow>
         let rs = activity_rows db cid in
         if length rs < max_activity then Inr db
         else prune_rows (take (length rs - max_activity + 1) (sort_key (\<lambda>(i, n, payload, c, u). (u, i)) rs)) ms db)"

definition record_activity_in ::
  "coll_env \<Rightarrow> string option \<Rightarrow> string \<Rightarrow> string \<Rightarrow> string \<Rightarrow> string \<Rightarrow> record_db
     \<Rightarrow> collection_error + coll_activity \<times> record_db" where
  "record_activity_in e holder event etype entity occurred db =
    (let a = \<lparr>ca_id = generate_id e ''act'', ca_collection = holder, ca_type = etype, ca_entity = entity,
              ca_event = event, ca_at = occurred\<rparr> in
     bindE (of_opt Bad_value (ms_from_iso occurred)) (\<lambda>ms.
     bindE (prune_activity_in holder ms db) (\<lambda>db1.
     bindE (coll_create_in e (''collection_activity'', ca_id a) (activity_payload a) ms db1) (\<lambda>(rec, db2).
     Inr (a, db2)))))"

section \<open>Transactions\<close>

type_synonym 'a coll_op = "record_db \<Rightarrow> (collection_error + 'a) \<times> record_db"

text \<open>What is checked before the transaction begins, and what is computed after it has committed.\<close>

definition checked :: "(collection_error + 'b) \<Rightarrow> ('b \<Rightarrow> 'a coll_op) \<Rightarrow> 'a coll_op" where
  "checked m f = (\<lambda>db. case m of Inl e \<Rightarrow> (Inl e, db) | Inr x \<Rightarrow> f x db)"

definition answer_with :: "('b \<Rightarrow> collection_error + 'a) \<Rightarrow> 'b coll_op \<Rightarrow> 'a coll_op" where
  "answer_with g f = (\<lambda>db. case f db of (r, db') \<Rightarrow> (bindE r g, db'))"

section \<open>Collections\<close>

definition identifier_or :: "coll_env \<Rightarrow> string \<Rightarrow> string option \<Rightarrow> collection_error + string" where
  "identifier_or e kind given =
    (case given of
       None \<Rightarrow> Inr (generate_id e kind)
     | Some s \<Rightarrow> if s = [] then Inr (generate_id e kind) else validate_identifier s)"

definition create_collection_in ::
  "coll_env \<Rightarrow> string \<Rightarrow> coll_fields \<Rightarrow> record_db \<Rightarrow> collection_error + versioned_record \<times> record_db" where
  "create_collection_in e cid fs db =
     bindE (collection_entity_id (ce_sha e) cid) (\<lambda>sid.
     bindE (ensure (\<not> has_record_in db (''collection'', sid)) Collection_conflict) (\<lambda>_.
     bindE (ensure (live_count_in db ''collection'' < max_collections) Collection_limit) (\<lambda>_.
     bindE (coll_create_in e (''collection'', sid) (collection_payload cid fs (ce_now e) (ce_now e)) (ce_now e) db)
       (\<lambda>(rec, db1).
     bindE (record_activity_in e (Some cid) ''collection_created'' ''collection'' cid (ce_clock e) db1) (\<lambda>(a, db2).
     Inr (rec, db2))))))"

text \<open>The collection a committed record reads as.\<close>

definition as_collection :: "string \<Rightarrow> nat \<Rightarrow> versioned_record \<Rightarrow> collection_error + collection" where
  "as_collection cid items rec =
    (case vr_payload rec of
       PDict kvs \<Rightarrow> collection_of cid (vr_revision rec) kvs (vr_created rec) (vr_updated rec) items
     | _ \<Rightarrow> Inl Bad_value)"

definition create_collection ::
  "coll_env \<Rightarrow> pyval \<Rightarrow> pyval \<Rightarrow> pyval \<Rightarrow> pyval \<Rightarrow> pyval \<Rightarrow> string option \<Rightarrow> collection coll_op" where
  "create_collection e name description tags favorite private given =
     checked (validate_collection_fields name description tags favorite private) (\<lambda>fs.
     checked (identifier_or e ''col'' given) (\<lambda>cid.
     answer_with (as_collection cid 0) (transaction (create_collection_in e cid fs))))"

definition keep :: "pyval \<Rightarrow> pyval \<Rightarrow> pyval" where
  "keep old new = (if new = PNone then old else new)"

definition update_collection_in ::
  "coll_env \<Rightarrow> string \<Rightarrow> string \<Rightarrow> int \<Rightarrow> pyval \<Rightarrow> pyval \<Rightarrow> pyval \<Rightarrow> pyval \<Rightarrow> pyval \<Rightarrow> record_db
     \<Rightarrow> collection_error + (nat \<times> versioned_record) \<times> record_db" where
  "update_collection_in e cid sid expected name description tags favorite private db =
     bindE (one_in db (''collection'', sid)) (\<lambda>(revision, payload, created, updated).
     bindE (ensure (revision = expected) Collection_conflict) (\<lambda>_.
     bindE (collection_of cid revision payload created updated (member_count_in db cid)) (\<lambda>current.
     bindE (validate_collection_fields (keep (PStr (co_name current)) name)
              (keep (PStr (co_description current)) description) (keep (PList (map PStr (co_tags current))) tags)
              (keep (PBool (co_favorite current)) favorite) (keep (PBool (co_private current)) private)) (\<lambda>fs.
     bindE (of_opt Bad_value (ms_from_iso (co_created current))) (\<lambda>ms.
     bindE (coll_replace_in e (''collection'', sid) (collection_payload cid fs ms (ce_now e)) expected (ce_now e) db)
       (\<lambda>(rec, db1).
     bindE (record_activity_in e (Some cid) ''collection_updated'' ''collection'' cid (ce_clock e) db1) (\<lambda>(a, db2).
     Inr ((co_items current, rec), db2))))))))"

definition update_collection ::
  "coll_env \<Rightarrow> string \<Rightarrow> int \<Rightarrow> pyval \<Rightarrow> pyval \<Rightarrow> pyval \<Rightarrow> pyval \<Rightarrow> pyval \<Rightarrow> collection coll_op" where
  "update_collection e cid expected name description tags favorite private =
     checked (validate_identifier cid) (\<lambda>_.
     checked (validate_revision expected) (\<lambda>_.
     checked (collection_entity_id (ce_sha e) cid) (\<lambda>sid.
     answer_with (\<lambda>(items, rec). as_collection cid items rec)
       (transaction (update_collection_in e cid sid expected name description tags favorite private)))))"

fun delete_all_in :: "string \<Rightarrow> (string \<times> int) list \<Rightarrow> int \<Rightarrow> record_db \<Rightarrow> collection_error + record_db" where
  "delete_all_in etype [] ms db = Inr db"
| "delete_all_in etype ((i, n) # xs) ms db =
     bindE (coll_delete_in (etype, i) n ms db) (\<lambda>(t, db'). delete_all_in etype xs ms db')"

definition delete_collection_in ::
  "coll_env \<Rightarrow> string \<Rightarrow> string \<Rightarrow> int \<Rightarrow> record_db \<Rightarrow> collection_error + tombstone \<times> record_db" where
  "delete_collection_in e cid sid expected db =
     bindE (one_in db (''collection'', sid)) (\<lambda>(revision, payload, created, updated).
     bindE (ensure (revision = expected) Collection_conflict) (\<lambda>_.
     bindE (delete_all_in ''collection_item'' (children_in db ''collection_item'' cid) (ce_now e) db) (\<lambda>db1.
     bindE (delete_all_in ''note'' (children_in db1 ''note'' cid) (ce_now e) db1) (\<lambda>db2.
     bindE (coll_delete_in (''collection'', sid) expected (ce_now e) db2) (\<lambda>(t, db3).
     bindE (record_activity_in e (Some cid) ''collection_deleted'' ''collection'' cid (ce_clock e) db3) (\<lambda>(a, db4).
     Inr (t, db4)))))))"

definition receipt_of :: "string \<Rightarrow> string \<Rightarrow> string \<Rightarrow> tombstone \<Rightarrow> receipt" where
  "receipt_of operation etype entity t =
     \<lparr>rc_operation = operation, rc_type = etype, rc_entity = entity, rc_revision = ts_revision t, rc_deleted = ts_deleted t\<rparr>"

definition delete_collection :: "coll_env \<Rightarrow> string \<Rightarrow> int \<Rightarrow> receipt coll_op" where
  "delete_collection e cid expected =
     checked (validate_identifier cid) (\<lambda>_.
     checked (validate_revision expected) (\<lambda>_.
     checked (collection_entity_id (ce_sha e) cid) (\<lambda>sid.
     answer_with (\<lambda>t. Inr (receipt_of ''delete_collection'' ''collection'' cid t))
       (transaction (delete_collection_in e cid sid expected)))))"

section \<open>Notes\<close>

definition add_note_in ::
  "coll_env \<Rightarrow> string \<Rightarrow> string \<Rightarrow> pyval \<Rightarrow> record_db \<Rightarrow> collection_error + versioned_record \<times> record_db" where
  "add_note_in e cid nid payload db =
     bindE (collection_entity_id (ce_sha e) cid) (\<lambda>sid.
     bindE (one_in db (''collection'', sid)) (\<lambda>_.
     bindE (ensure (note_count_in db cid < max_notes) Collection_limit) (\<lambda>_.
     bindE (ensure (member_count_in db cid < max_items) Collection_limit) (\<lambda>_.
     bindE (ensure (\<not> has_record_in db (''note'', nid)) Collection_conflict) (\<lambda>_.
     bindE (coll_create_in e (''note'', nid) payload (ce_now e) db) (\<lambda>(rec, db1).
     bindE (record_activity_in e (Some cid) ''note_added'' ''note'' nid (ce_clock e) db1) (\<lambda>(a, db2).
     Inr (rec, db2))))))))"

definition add_note :: "coll_env \<Rightarrow> string \<Rightarrow> pyval \<Rightarrow> pyval \<Rightarrow> string option \<Rightarrow> coll_note coll_op" where
  "add_note e cid body evidence given =
     checked (validate_identifier cid) (\<lambda>_.
     checked (require_text 10000 False body) (\<lambda>s.
     checked (if evidence = PNone then Inr None
              else bindE (validate_evidence_reference evidence) (\<lambda>r. Inr (Some r))) (\<lambda>r.
     checked (identifier_or e ''note'' given) (\<lambda>nid.
     answer_with (\<lambda>rec. Inr \<lparr>cn_id = nid, cn_collection = cid, cn_text = s, cn_evidence = r,
         cn_revision = vr_revision rec, cn_created = vr_created rec, cn_updated = vr_updated rec\<rparr>)
       (transaction (add_note_in e cid nid (note_payload nid cid s r (ce_now e) (ce_now e))))))))"

definition update_note_in ::
  "coll_env \<Rightarrow> string \<Rightarrow> string \<Rightarrow> int \<Rightarrow> string \<Rightarrow> record_db \<Rightarrow> collection_error + versioned_record \<times> record_db" where
  "update_note_in e cid nid expected s db =
     bindE (one_in db (''note'', nid)) (\<lambda>(revision, payload, created, updated).
     bindE (unwrap_payload payload) (\<lambda>data.
     bindE (ensure (fetch data ''collectionId'' = PStr cid) Collection_not_found) (\<lambda>_.
     bindE (of_opt Bad_value (ms_from_iso created)) (\<lambda>ms.
     bindE (coll_replace_in e (''note'', nid)
              (note_payload nid cid s (mapping_of (fetch data ''evidenceRef'')) ms (ce_now e)) expected (ce_now e) db)
       (\<lambda>(rec, db1).
     bindE (record_activity_in e (Some cid) ''note_updated'' ''note'' nid (ce_clock e) db1) (\<lambda>(a, db2).
     Inr (rec, db2)))))))"

text \<open>\<open>record.payload["data"]\<close> of a note that was just written.\<close>

definition note_data :: "versioned_record \<Rightarrow> row" where
  "note_data rec = (case vr_payload rec of
       PDict kvs \<Rightarrow> (case fetch kvs ''data'' of PDict data \<Rightarrow> data | _ \<Rightarrow> []) | _ \<Rightarrow> [])"

definition update_note :: "coll_env \<Rightarrow> string \<Rightarrow> string \<Rightarrow> int \<Rightarrow> pyval \<Rightarrow> coll_note coll_op" where
  "update_note e cid nid expected body =
     checked (validate_identifier cid) (\<lambda>_.
     checked (validate_identifier nid) (\<lambda>_.
     checked (validate_revision expected) (\<lambda>_.
     checked (require_text 10000 False body) (\<lambda>s.
     answer_with (\<lambda>rec. Inr \<lparr>cn_id = nid, cn_collection = cid,
         cn_text = py_str (py_or (fetch (note_data rec) ''text'') (PStr [])),
         cn_evidence = mapping_of (fetch (note_data rec) ''evidenceRef''),
         cn_revision = vr_revision rec, cn_created = vr_created rec, cn_updated = vr_updated rec\<rparr>)
       (transaction (update_note_in e cid nid expected s))))))"

section \<open>Items\<close>

definition add_item_in ::
  "coll_env \<Rightarrow> string \<Rightarrow> string \<Rightarrow> pyval \<Rightarrow> record_db \<Rightarrow> collection_error + versioned_record \<times> record_db" where
  "add_item_in e cid iid payload db =
     bindE (collection_entity_id (ce_sha e) cid) (\<lambda>sid.
     bindE (one_in db (''collection'', sid)) (\<lambda>_.
     bindE (ensure (member_count_in db cid < max_items) Collection_limit) (\<lambda>_.
     bindE (item_entity_id (ce_sha e) iid) (\<lambda>stored.
     bindE (coll_create_in e (''collection_item'', stored) payload (ce_now e) db) (\<lambda>(rec, db1).
     bindE (record_activity_in e (Some cid) ''item_added'' ''collection_item'' iid (ce_clock e) db1) (\<lambda>(a, db2).
     Inr (rec, db2)))))))"

definition as_item :: "string \<Rightarrow> versioned_record \<Rightarrow> collection_error + coll_item" where
  "as_item iid rec =
    (case vr_payload rec of
       PDict kvs \<Rightarrow> item_of iid (vr_revision rec) kvs (vr_created rec) (vr_updated rec)
     | _ \<Rightarrow> Inl Bad_value)"

text \<open>A note is written by \<open>add_note\<close> and read back as an item.\<close>

definition add_item ::
  "coll_env \<Rightarrow> string \<Rightarrow> pyval \<Rightarrow> pyval \<Rightarrow> pyval \<Rightarrow> pyval \<Rightarrow> pyval \<Rightarrow> string option \<Rightarrow> coll_item coll_op" where
  "add_item e cid item_kind citation excerpt reference snapshot given =
     checked (validate_identifier cid) (\<lambda>_.
     checked (case item_kind of PStr s \<Rightarrow> if s \<in> set item_kinds then Inr s else Inl Collection_error
              | _ \<Rightarrow> Inl Collection_error) (\<lambda>kind.
     checked (validate_item_reference kind reference) (\<lambda>r.
     checked (validate_snapshot snapshot) (\<lambda>snap.
     checked (require_text 500 (kind \<notin> set reference_item_kinds) citation) (\<lambda>c.
     checked (require_text 10000 False excerpt) (\<lambda>x.
     checked (identifier_or e ''itm'' given) (\<lambda>iid.
     if kind = ''note'' then
       (\<lambda>db. case add_note e cid (PStr x) (if r = [] then PNone else PDict r) (Some iid) db of
          (Inl err, db1) \<Rightarrow> (Inl err, db1)
        | (Inr note, db1) \<Rightarrow>
            (bindE (one_in db1 (''note'', cn_id note)) (\<lambda>(revision, payload, created, updated).
             item_of (cn_id note) revision payload created updated), db1))
     else
       answer_with (as_item iid)
         (transaction (add_item_in e cid iid (item_payload iid cid kind c x r snap (ce_now e)))))))))))"

text \<open>\<open>_item_in\<close>: the first item, then the first note, whose identifier matches.\<close>

fun first_item :: "string \<Rightarrow> scanned list \<Rightarrow> collection_error + coll_item option" where
  "first_item iid [] = Inr None"
| "first_item iid ((i, n, payload, c, u) # xs) =
    (case item_of i n payload c u of
       Inr item \<Rightarrow> if ci_id item = iid then Inr (Some item) else first_item iid xs
     | Inl e \<Rightarrow> if caught e then first_item iid xs else Inl e)"

definition item_in :: "coll_env \<Rightarrow> record_db \<Rightarrow> string \<Rightarrow> collection_error + coll_item" where
  "item_in e db iid =
     bindE (first_item iid (scan_in db ''collection_item'')) (\<lambda>x. case x of Some item \<Rightarrow> Inr item
     | None \<Rightarrow>
     bindE (first_item iid (scan_in db ''note'')) (\<lambda>y. case y of Some item \<Rightarrow> Inr item
     | None \<Rightarrow>
     bindE (item_entity_id (ce_sha e) iid) (\<lambda>stored.
     Inl (if find_tomb db (''collection_item'', stored) \<noteq> None \<or> find_tomb db (''collection_item'', iid) \<noteq> None \<or>
             find_tomb db (''note'', iid) \<noteq> None
          then Collection_deleted else Collection_not_found))))"

definition delete_item_in ::
  "coll_env \<Rightarrow> string \<Rightarrow> string \<Rightarrow> int \<Rightarrow> record_db \<Rightarrow> collection_error + (string \<times> tombstone) \<times> record_db" where
  "delete_item_in e cid iid expected db =
     bindE (item_in e db iid) (\<lambda>item.
     bindE (ensure (ci_collection item = cid) Collection_not_found) (\<lambda>_.
     let is_note = (ci_kind item = ''note''); etype = (if is_note then ''note'' else ''collection_item'') in
     bindE (if is_note then Inr iid else item_entity_id (ce_sha e) iid) (\<lambda>stored.
     bindE (coll_delete_in (etype, stored) expected (ce_now e) db) (\<lambda>(t, db1).
     bindE (record_activity_in e (Some cid) (if is_note then ''note_removed'' else ''item_removed'') etype iid
              (ce_clock e) db1) (\<lambda>(a, db2).
     Inr ((etype, t), db2))))))"

definition delete_item :: "coll_env \<Rightarrow> string \<Rightarrow> string \<Rightarrow> int \<Rightarrow> receipt coll_op" where
  "delete_item e cid iid expected =
     checked (validate_identifier cid) (\<lambda>_.
     checked (validate_identifier iid) (\<lambda>_.
     checked (validate_revision expected) (\<lambda>_.
     answer_with (\<lambda>(etype, t). Inr (receipt_of ''delete_item'' etype iid t))
       (transaction (delete_item_in e cid iid expected)))))"

definition delete_note :: "coll_env \<Rightarrow> string \<Rightarrow> string \<Rightarrow> int \<Rightarrow> receipt coll_op" where
  "delete_note = delete_item"

definition record_activity ::
  "coll_env \<Rightarrow> string option \<Rightarrow> string \<Rightarrow> string \<Rightarrow> string \<Rightarrow> coll_activity coll_op" where
  "record_activity e holder event etype entity =
     checked (validate_activity_event event) (\<lambda>_.
     checked (validate_identifier entity) (\<lambda>_.
     transaction (record_activity_in e holder event etype entity (ce_clock e))))"

section \<open>Sequences of writes\<close>

datatype coll_cmd =
    Create_collection pyval pyval pyval pyval pyval "string option"
  | Update_collection string int pyval pyval pyval pyval pyval
  | Delete_collection string int
  | Add_item string pyval pyval pyval pyval pyval "string option"
  | Delete_item string string int
  | Add_note string pyval pyval "string option"
  | Update_note string string int pyval
  | Record_activity "string option" string string string

fun after :: "coll_env \<Rightarrow> coll_cmd \<Rightarrow> record_db \<Rightarrow> record_db" where
  "after e (Create_collection n d ts f p given) db = snd (create_collection e n d ts f p given db)"
| "after e (Update_collection cid expected n d ts f p) db = snd (update_collection e cid expected n d ts f p db)"
| "after e (Delete_collection cid expected) db = snd (delete_collection e cid expected db)"
| "after e (Add_item cid k c x r s given) db = snd (add_item e cid k c x r s given db)"
| "after e (Delete_item cid iid expected) db = snd (delete_item e cid iid expected db)"
| "after e (Add_note cid body r given) db = snd (add_note e cid body r given db)"
| "after e (Update_note cid nid expected body) db = snd (update_note e cid nid expected body db)"
| "after e (Record_activity holder event etype entity) db = snd (record_activity e holder event etype entity db)"

fun after_all :: "(coll_env \<times> coll_cmd) list \<Rightarrow> record_db \<Rightarrow> record_db" where
  "after_all [] db = db"
| "after_all ((e, c) # cs) db = after_all cs (after e c db)"

end
