(* ===== verification/Collection_Steps.thy ===== *)
theory Collection_Steps
  imports Collection_Store Record_Properties
begin

text \<open>
  What the writes of the collection repository do to the two tables, as a step relation:
  a collection is opened, a record is renewed, a member joins an open collection, an
  operation is logged, a record other than a collection is dropped, and a collection that
  holds nothing is closed.  The invariants are proved once over these steps.
\<close>

section \<open>Who holds a row\<close>

fun payload_row :: "rec_key \<times> rec_row \<Rightarrow> row" where
  "payload_row (k, r) = (case rr_payload r of Json (PDict kvs) \<Rightarrow> kvs | _ \<Rightarrow> [])"

definition names_holder :: "collection_error + row \<Rightarrow> string option" where
  "names_holder m = (case m of Inl e \<Rightarrow> None | Inr data \<Rightarrow>
     (case fetch data ''collectionId'' of PStr c \<Rightarrow> Some c | _ \<Rightarrow> None))"

definition member_types :: "string list" where
  "member_types = [''collection_item'', ''note'']"

text \<open>The collection a member belongs to, and the one an activity row is about.\<close>

definition holder :: "rec_key \<times> rec_row \<Rightarrow> string option" where
  "holder p = (if fst (fst p) \<in> set member_types then names_holder (unwrap_payload (payload_row p)) else None)"

definition subject :: "rec_key \<times> rec_row \<Rightarrow> string option" where
  "subject p = (if fst (fst p) = ''collection_activity'' then names_holder (activity_data (payload_row p)) else None)"

definition tally :: "(rec_key \<times> rec_row \<Rightarrow> bool) \<Rightarrow> record_db \<Rightarrow> nat" where
  "tally P db = length (filter P (live db))"

lemma names_holder_Some: "names_holder m = Some c \<longleftrightarrow> (\<exists>data. m = Inr data \<and> fetch data ''collectionId'' = PStr c)"
  by (auto simp: names_holder_def split: sum.splits pyval.splits)

lemma held_by_iff: "held_by cid payload \<longleftrightarrow> names_holder (unwrap_payload payload) = Some cid"
  by (auto simp: held_by_def names_holder_Some split: sum.splits)

lemma recorded_for_iff: "recorded_for cid payload \<longleftrightarrow> names_holder (activity_data payload) = Some cid"
  by (auto simp: recorded_for_def names_holder_Some split: sum.splits)

lemma unwrap_Nil [simp]: "unwrap_payload [] = Inl Collection_error" "activity_data [] = Inl Collection_error"
  by (simp_all add: unwrap_payload_def activity_data_def)

lemma length_filter_sort_key: "length (filter P (sort_key f xs)) = length (filter P xs)"
  by (simp add: filter_sort)

lemma length_filter_map_filter:
  "length (filter Q (List.map_filter g xs)) = length (filter (\<lambda>x. case g x of None \<Rightarrow> False | Some y \<Rightarrow> Q y) xs)"
  by (induction xs) (auto simp: map_filter_simps split: option.splits)

lemma length_filter_scan:
  "length (filter Q (scan_in db etype)) =
     tally (\<lambda>p. fst (fst p) = etype \<and> (case scanned_row p of None \<Rightarrow> False | Some y \<Rightarrow> Q y)) db"
proof -
  have "length (filter Q (scan_in db etype)) =
      length (filter (\<lambda>p. case scanned_row p of None \<Rightarrow> False | Some y \<Rightarrow> Q y)
        (filter (\<lambda>p. fst (fst p) = etype) (live db)))"
    by (simp only: scan_in_def length_filter_map_filter length_filter_sort_key)
  then show ?thesis by (simp add: tally_def conj_commute)
qed

lemma scanned_holder:
  "(case scanned_row p of None \<Rightarrow> False | Some (i, n, payload, c, u) \<Rightarrow> held_by cid payload)
     \<longleftrightarrow> names_holder (unwrap_payload (payload_row p)) = Some cid"
  by (cases p) (auto simp: held_by_iff names_holder_def split: json_col.splits pyval.splits)

lemma scanned_subject:
  "(case scanned_row p of None \<Rightarrow> False | Some (i, n, payload, c, u) \<Rightarrow> recorded_for cid payload)
     \<longleftrightarrow> names_holder (activity_data (payload_row p)) = Some cid"
  by (cases p) (auto simp: recorded_for_iff names_holder_def split: json_col.splits pyval.splits)

definition members_of :: "string \<Rightarrow> record_db \<Rightarrow> nat" where
  "members_of cid = tally (\<lambda>p. holder p = Some cid)"

definition notes_of :: "string \<Rightarrow> record_db \<Rightarrow> nat" where
  "notes_of cid = tally (\<lambda>p. fst (fst p) = ''note'' \<and> holder p = Some cid)"

definition events_of :: "string \<Rightarrow> record_db \<Rightarrow> nat" where
  "events_of cid = tally (\<lambda>p. subject p = Some cid)"

definition collections_of :: "record_db \<Rightarrow> nat" where
  "collections_of = tally (\<lambda>p. fst (fst p) = ''collection'')"

lemma held_count_tally:
  "held_count db etype cid =
     tally (\<lambda>p. fst (fst p) = etype \<and> names_holder (unwrap_payload (payload_row p)) = Some cid) db"
  unfolding held_count_def length_filter_scan scanned_holder ..

lemma note_count: "note_count_in db cid = notes_of cid db"
  unfolding note_count_in_def notes_of_def held_count_tally
  by (rule arg_cong [where f = "\<lambda>P. tally P db"]) (auto simp: holder_def member_types_def)

lemma tally_disj:
  assumes "\<And>p. \<not> (P p \<and> Q p)"
  shows "tally P db + tally Q db = tally (\<lambda>p. P p \<or> Q p) db"
proof -
  have "length (filter P xs) + length (filter Q xs) = length (filter (\<lambda>p. P p \<or> Q p) xs)" for xs
    using assms by (induction xs) auto
  then show ?thesis by (simp add: tally_def)
qed

lemma member_count: "member_count_in db cid = members_of cid db"
  unfolding member_count_in_def members_of_def held_count_tally
  by (subst tally_disj) (auto simp: holder_def member_types_def intro!: arg_cong [where f = "\<lambda>P. tally P db"])

lemma live_count: "live_count_in db ''collection'' = collections_of db"
  by (simp add: live_count_in_def collections_of_def tally_def)

lemma activity_count: "length (activity_rows db cid) = events_of cid db"
  unfolding activity_rows_def events_of_def length_filter_scan scanned_subject
  by (rule arg_cong [where f = "\<lambda>P. tally P db"]) (auto simp: subject_def)

section \<open>Rows that come and go\<close>

definition keyed :: "record_db \<Rightarrow> bool" where
  "keyed db \<longleftrightarrow> distinct (map fst (live db))"

lemma keyed_put: "keyed db \<Longrightarrow> keyed (put_live k r db)"
  by (simp add: keyed_def put_live_def distinct_update)

lemma keyed_bury: "keyed db \<Longrightarrow> keyed (bury k t db)"
  by (simp add: keyed_def bury_def distinct_delete)

lemma live_bury: "live (bury k t db) = filter (\<lambda>p. fst p \<noteq> k) (live db)"
  by (auto simp: bury_def AList.delete_eq intro!: filter_cong)

lemma update_fresh: "k \<notin> fst ` set xs \<Longrightarrow> AList.update k r xs = xs @ [(k, r)]"
  by (induction xs) auto

lemma find_live_None: "find_live db k = None \<longleftrightarrow> k \<notin> fst ` set (live db)"
  by (simp add: find_live_def map_of_eq_None_iff)

lemma find_live_in: "keyed db \<Longrightarrow> find_live db k = Some r \<longleftrightarrow> (k, r) \<in> set (live db)"
  by (simp add: find_live_def keyed_def map_of_eq_Some_iff)

lemma put_fresh: "find_live db k = None \<Longrightarrow> live (put_live k r db) = live db @ [(k, r)]"
  by (simp add: put_live_def find_live_None update_fresh)

lemma tally_fresh: "find_live db k = None \<Longrightarrow> tally P (put_live k r db) = tally P db + (if P (k, r) then 1 else 0)"
  by (simp add: tally_def put_fresh)

lemma tally_renewed:
  assumes "keyed db" "find_live db k = Some r0" "P (k, r) = P (k, r0)"
  shows "tally P (put_live k r db) = tally P db"
proof -
  have "length (filter P (AList.update k r xs)) = length (filter P xs)"
    if "distinct (map fst xs)" "map_of xs k = Some r0" for xs
    using that assms(3) by (induction xs) (auto split: if_splits)
  then show ?thesis using assms(1,2) by (simp add: tally_def put_live_def keyed_def find_live_def)
qed

lemma tally_buried_le: "tally P (bury k t db) \<le> tally P db"
proof -
  have "length (filter P (filter (\<lambda>p. fst p \<noteq> k) xs)) \<le> length (filter P xs)" for xs by (induction xs) auto
  then show ?thesis by (simp add: tally_def live_bury)
qed

lemma tally_buried:
  assumes "keyed db" "find_live db k = Some r" "P (k, r)"
  shows "tally P db = Suc (tally P (bury k t db))"
proof -
  have gone: "filter (\<lambda>p. fst p \<noteq> k \<and> P p) xs = filter P xs" if "k \<notin> fst ` set xs" for xs
    using that by (intro filter_cong) auto
  have "length (filter P xs) = Suc (length (filter (\<lambda>p. fst p \<noteq> k \<and> P p) xs))"
    if "distinct (map fst xs)" "map_of xs k = Some r" for xs
    using that
  proof (induction xs)
    case (Cons x xs)
    then show ?case
    proof (cases "fst x = k")
      case True
      with Cons.prems have "x = (k, r)" "k \<notin> fst ` set xs" by (auto simp: prod_eq_iff)
      with assms(3) gone [of xs] show ?thesis by simp
    qed auto
  qed simp
  then show ?thesis using assms(1,2) by (simp add: tally_def live_bury keyed_def find_live_def)
qed

section \<open>Steps\<close>

definition well_placed :: "rec_key \<Rightarrow> rec_row \<Rightarrow> bool" where
  "well_placed k r \<longleftrightarrow> validate_entity k = Inr () \<and> 1 \<le> rr_revision r"

definition unused :: "record_db \<Rightarrow> rec_key \<Rightarrow> bool" where
  "unused db k \<longleftrightarrow> find_live db k = None \<and> find_tomb db k = None"

text \<open>
  \<open>sha\<close> is the digest behind the stored identifiers and \<open>K\<close> the collection identifiers in use.
\<close>

inductive write_step :: "(string \<Rightarrow> string) \<Rightarrow> string set \<Rightarrow> record_db \<Rightarrow> record_db \<Rightarrow> bool" for sha K where
  Opened: "fst k = ''collection'' \<Longrightarrow> unused db k \<Longrightarrow> well_placed k r \<Longrightarrow> collections_of db < max_collections \<Longrightarrow>
      write_step sha K db (put_live k r db)"
| Renewed: "find_live db k = Some r0 \<Longrightarrow> well_placed k r \<Longrightarrow> holder (k, r) = holder (k, r0) \<Longrightarrow>
      subject (k, r) = subject (k, r0) \<Longrightarrow> write_step sha K db (put_live k r db)"
| Joined: "fst k \<in> set member_types \<Longrightarrow> unused db k \<Longrightarrow> well_placed k r \<Longrightarrow> holder (k, r) = Some c \<Longrightarrow> c \<in> K \<Longrightarrow>
      collection_entity_id sha c = Inr sid \<Longrightarrow> find_live db (''collection'', sid) \<noteq> None \<Longrightarrow>
      members_of c db < max_items \<Longrightarrow> (fst k = ''note'' \<longrightarrow> notes_of c db < max_notes) \<Longrightarrow>
      write_step sha K db (put_live k r db)"
| Logged: "fst k = ''collection_activity'' \<Longrightarrow> unused db k \<Longrightarrow> well_placed k r \<Longrightarrow>
      (\<And>c. subject (k, r) = Some c \<Longrightarrow> events_of c db < max_activity) \<Longrightarrow> write_step sha K db (put_live k r db)"
| Dropped: "find_live db k = Some r \<Longrightarrow> fst k \<noteq> ''collection'' \<Longrightarrow> write_step sha K db (bury k t db)"
| Closed: "find_live db (''collection'', sid) = Some r \<Longrightarrow> collection_entity_id sha c = Inr sid \<Longrightarrow> c \<in> K \<Longrightarrow>
      members_of c db = 0 \<Longrightarrow> write_step sha K db (bury (''collection'', sid) t db)"

abbreviation writes :: "(string \<Rightarrow> string) \<Rightarrow> string set \<Rightarrow> record_db \<Rightarrow> record_db \<Rightarrow> bool" where
  "writes sha K \<equiv> (write_step sha K)\<^sup>*\<^sup>*"

section \<open>Invariants\<close>

definition intact :: "record_db \<Rightarrow> bool" where
  "intact db \<longleftrightarrow> keyed db \<and> apart db \<and> (\<forall>k r. find_live db k = Some r \<longrightarrow> well_placed k r)"

lemma intact_put: "intact db \<Longrightarrow> find_tomb db k = None \<Longrightarrow> well_placed k r \<Longrightarrow> intact (put_live k r db)"
  by (auto simp: intact_def keyed_put apart_put)

lemma intact_bury: "intact db \<Longrightarrow> intact (bury k t db)"
  by (auto simp: intact_def keyed_bury apart_bury split: if_splits)

lemma intact_step: "write_step sha K db db' \<Longrightarrow> intact db \<Longrightarrow> intact db'"
proof (induction rule: write_step.induct)
  case (Renewed db k r0 r)
  then have "find_tomb db k = None" by (auto simp: intact_def dest: apartD)
  with Renewed show ?case by (intro intact_put)
qed (auto simp: unused_def intro: intact_put intact_bury)

lemma intact_writes: "writes sha K db db' \<Longrightarrow> intact db \<Longrightarrow> intact db'"
  by (induction rule: rtranclp_induct) (auto intro: intact_step)

definition within_bounds :: "record_db \<Rightarrow> bool" where
  "within_bounds db \<longleftrightarrow>
     collections_of db \<le> max_collections \<and>
     (\<forall>c. members_of c db \<le> max_items \<and> notes_of c db \<le> max_notes \<and> events_of c db \<le> max_activity)"

lemmas tally_defs = collections_of_def members_of_def notes_of_def events_of_def

lemma within_bounds_bury: "within_bounds db \<Longrightarrow> within_bounds (bury k t db)"
  unfolding within_bounds_def tally_defs by (meson order_trans tally_buried_le)

lemma within_bounds_step: "write_step sha K db db' \<Longrightarrow> intact db \<Longrightarrow> within_bounds db \<Longrightarrow> within_bounds db'"
proof (induction rule: write_step.induct)
  case (Opened k db r)
  then show ?case
    by (auto simp: within_bounds_def tally_defs unused_def tally_fresh holder_def subject_def member_types_def)
next
  case (Renewed db k r0 r)
  then have "keyed db" by (simp add: intact_def)
  note same = tally_renewed [OF this Renewed.hyps(1)]
  have "collections_of (put_live k r db) = collections_of db" "members_of c (put_live k r db) = members_of c db"
    "notes_of c (put_live k r db) = notes_of c db" "events_of c (put_live k r db) = events_of c db" for c
    unfolding tally_defs by (rule same; simp add: Renewed.hyps)+
  with Renewed.prems show ?case by (simp add: within_bounds_def)
next
  case (Joined k db r c sid)
  then show ?case
    by (auto simp: within_bounds_def tally_defs unused_def tally_fresh subject_def member_types_def Suc_le_eq)
next
  case (Logged k db r)
  have "events_of c (put_live k r db) \<le> max_activity" for c
    using Logged by (cases "subject (k, r) = Some c")
      (auto simp: within_bounds_def events_of_def unused_def tally_fresh Suc_le_eq)
  with Logged show ?case
    by (auto simp: within_bounds_def collections_of_def members_of_def notes_of_def unused_def tally_fresh holder_def member_types_def)
qed (auto intro: within_bounds_bury)

lemma within_bounds_writes:
  "writes sha K db db' \<Longrightarrow> intact db \<Longrightarrow> within_bounds db \<Longrightarrow> intact db' \<and> within_bounds db'"
  by (induction rule: rtranclp_induct) (auto intro: intact_step within_bounds_step)

text \<open>Every member belongs to a collection that is open.\<close>

definition parented :: "(string \<Rightarrow> string) \<Rightarrow> string set \<Rightarrow> record_db \<Rightarrow> bool" where
  "parented sha K db \<longleftrightarrow>
     (\<forall>k r. find_live db k = Some r \<longrightarrow> fst k \<in> set member_types \<longrightarrow>
        (\<exists>c sid. holder (k, r) = Some c \<and> c \<in> K \<and> collection_entity_id sha c = Inr sid \<and>
                 find_live db (''collection'', sid) \<noteq> None))"

lemma parentedI:
  assumes "\<And>k r. find_live db k = Some r \<Longrightarrow> fst k \<in> set member_types \<Longrightarrow>
    \<exists>c sid. holder (k, r) = Some c \<and> c \<in> K \<and> collection_entity_id sha c = Inr sid \<and>
            find_live db (''collection'', sid) \<noteq> None"
  shows "parented sha K db"
  using assms by (simp add: parented_def)

lemma parentedE:
  assumes "parented sha K db" "find_live db k = Some r" "fst k \<in> set member_types"
  obtains c sid where "holder (k, r) = Some c" "c \<in> K" "collection_entity_id sha c = Inr sid"
    "find_live db (''collection'', sid) \<noteq> None"
  using assms unfolding parented_def by blast

lemma tally_0: "tally P db = 0 \<longleftrightarrow> (\<forall>p \<in> set (live db). \<not> P p)"
  by (simp add: tally_def filter_empty_conv)

lemma parented_put:
  assumes "parented sha K db"
    and "fst k \<in> set member_types \<Longrightarrow> \<exists>c sid. holder (k, r) = Some c \<and> c \<in> K \<and> collection_entity_id sha c = Inr sid \<and>
            find_live db (''collection'', sid) \<noteq> None"
  shows "parented sha K (put_live k r db)"
proof (rule parentedI)
  fix k' r' assume f: "find_live (put_live k r db) k' = Some r'" and m: "fst k' \<in> set member_types"
  have "\<exists>c sid. holder (k', r') = Some c \<and> c \<in> K \<and> collection_entity_id sha c = Inr sid \<and>
      find_live db (''collection'', sid) \<noteq> None"
  proof (cases "k' = k")
    case True
    with f m assms(2) show ?thesis by simp
  next
    case False
    with f have "find_live db k' = Some r'" by simp
    from parentedE [OF assms(1) this m] show ?thesis by blast
  qed
  then show "\<exists>c sid. holder (k', r') = Some c \<and> c \<in> K \<and> collection_entity_id sha c = Inr sid \<and>
      find_live (put_live k r db) (''collection'', sid) \<noteq> None" by auto
qed

lemma parented_step:
  assumes "inj_on (collection_entity_id sha) K"
  shows "write_step sha K db db' \<Longrightarrow> intact db \<Longrightarrow> parented sha K db \<Longrightarrow> parented sha K db'"
proof (induction rule: write_step.induct)
  case (Opened k db r)
  then show ?case by (intro parented_put) (simp_all add: member_types_def)
next
  case (Renewed db k r0 r)
  then show ?case by (intro parented_put) (auto elim: parentedE)
next
  case (Joined k db r c sid)
  then show ?case by (intro parented_put) auto
next
  case (Logged k db r)
  then show ?case by (intro parented_put) (simp_all add: member_types_def)
next
  case (Dropped db k r t)
  show ?case
  proof (rule parentedI)
    fix k' r' assume "find_live (bury k t db) k' = Some r'" "fst k' \<in> set member_types"
    then have "find_live db k' = Some r'" "fst k' \<in> set member_types" by (auto split: if_splits)
    from parentedE [OF Dropped.prems(2) this] Dropped.hyps(2) show
      "\<exists>c sid. holder (k', r') = Some c \<and> c \<in> K \<and> collection_entity_id sha c = Inr sid \<and>
         find_live (bury k t db) (''collection'', sid) \<noteq> None"
      by (metis find_bury(1) fst_conv)
  qed
next
  case (Closed db sid r c t)
  show ?case
  proof (rule parentedI)
    fix k' r' assume "find_live (bury (''collection'', sid) t db) k' = Some r'" and m: "fst k' \<in> set member_types"
    then have f: "find_live db k' = Some r'" by (auto split: if_splits)
    obtain c' sid' where p: "holder (k', r') = Some c'" "c' \<in> K" "collection_entity_id sha c' = Inr sid'"
      "find_live db (''collection'', sid') \<noteq> None" by (rule parentedE [OF Closed.prems(2) f m])
    have "(k', r') \<in> set (live db)" using f by (simp add: find_live_def map_of_SomeD)
    with Closed.hyps(4) p(1) have "c' \<noteq> c" by (auto simp: members_of_def tally_0)
    then have "sid' \<noteq> sid" using inj_onD [OF assms, of c' c] p Closed.hyps(2,3) by auto
    with p show "\<exists>c sid''. holder (k', r') = Some c \<and> c \<in> K \<and> collection_entity_id sha c = Inr sid'' \<and>
         find_live (bury (''collection'', sid) t db) (''collection'', sid'') \<noteq> None" by auto
  qed
qed

lemma parented_writes:
  assumes "inj_on (collection_entity_id sha) K" "writes sha K db db'" "intact db" "parented sha K db"
  shows "parented sha K db'"
proof -
  from assms(2) have "intact db' \<and> parented sha K db'"
    by (induction rule: rtranclp_induct) (use assms in \<open>auto intro: intact_step parented_step\<close>)
  then show ?thesis ..
qed

end
