(* ===== verification/Collection_Ops.thy ===== *)
theory Collection_Ops
  imports Collection_Steps
begin

text \<open>
  Each writing operation of the collection repository is a sequence of the steps of
  \<open>Collection_Steps\<close>: the lemmas on the store helpers come first, then what the stored
  payloads say about their holder, then the operations.
\<close>

section \<open>Store helpers\<close>

lemma create_stored:
  assumes "coll_create_in e k payload ms db = Inr (rec, db')"
  obtains r w where "unused db k" "well_placed k r" "rr_payload r = Json w" "canon payload = Some w"
    "db' = put_live k r db"
proof -
  from assms obtain t w where w: "validate_entity k = Inr ()" "unused db k" "canon payload = Some w"
    "db' = put_live k \<lparr>rr_revision = 1, rr_payload = Json w, rr_created = t, rr_updated = t\<rparr> db"
    unfolding coll_create_in_def bindE_ok map_err_ok of_opt_ok create_in_ok canonical_payload_ok unused_def by blast
  show thesis by (rule that [OF w(2) _ _ w(3,4)]) (simp_all add: well_placed_def w(1))
qed

lemma replace_stored:
  assumes "coll_replace_in e k payload n ms db = Inr (rec, db')"
  obtains r0 r w where "find_live db k = Some r0" "well_placed k r" "rr_payload r = Json w" "canon payload = Some w"
    "db' = put_live k r db"
proof -
  from assms obtain t w r where w: "validate_entity k = Inr ()" "1 \<le> n" "find_live db k = Some r" "canon payload = Some w"
    "db' = put_live k (r\<lparr>rr_payload := Json w, rr_revision := n + 1, rr_updated := t\<rparr>) db"
    unfolding coll_replace_in_def bindE_ok map_err_ok of_opt_ok replace_in_ok canonical_payload_ok by blast
  show thesis by (rule that [OF w(3) _ _ w(4,5)]) (use w(1,2) in \<open>simp_all add: well_placed_def\<close>)
qed

lemma delete_stored:
  assumes "coll_delete_in k n ms db = Inr (t, db')"
  obtains r tr where "find_live db k = Some r" "db' = bury k tr db"
  using assms by (auto simp: coll_delete_in_def bindE_ok delete_in_ok)

lemma delete_in_succeeds:
  assumes "intact db" "find_live db k = Some r" "rr_revision r = n"
  obtains tr v where "delete_in t db k n = Inr (v, bury k tr db)"
proof -
  have "well_placed k r" "find_tomb db k = None" using assms(1,2) unfolding intact_def by (blast, blast dest: apartD(2))
  then have "find_tomb db k = None" "validate_entity k = Inr ()" "1 \<le> n" using assms(3) by (auto simp: well_placed_def)
  with assms show ?thesis by (intro that) (auto simp: delete_in_ok)
qed

section \<open>Holders of stored payloads\<close>

lemma canon_is_one: "canon v = Some w \<Longrightarrow> py_eq w (PInt 1) = py_eq v (PInt 1)"
  by (cases v) (auto simp: py_eq_def split: if_splits)

text \<open>The holder that a payload names before it is encoded is the one its stored form names.\<close>

lemma stored_holder:
  assumes "canon (PDict kvs) = Some w" "rr_payload r = Json w" "distinct (map fst kvs)"
    and "fetch kvs ''data'' = PDict data" "distinct (map fst data)"
    and "fetch data ''collectionId'' = PStr c \<or> fetch data ''collectionId'' = PNone"
  shows "names_holder (unwrap_payload (payload_row (k, r))) = names_holder (unwrap_payload kvs)"
    "names_holder (activity_data (payload_row (k, r))) = names_holder (activity_data kvs)"
proof -
  obtain kvs' where w: "w = PDict kvs'" using canon_dict [OF assms(1)] by blast
  note c = assms(1) [unfolded w]
  obtain data' where data': "fetch kvs' ''data'' = PDict data'" "canon (PDict data) = Some (PDict data')"
    by (rule canon_fetch_dict [OF c assms(3,4)])
  have "canon (fetch data ''collectionId'') = Some (fetch data' ''collectionId'')"
    by (rule canon_fetch [OF data'(2) assms(5)])
  with assms(6) have same: "fetch data' ''collectionId'' = fetch data ''collectionId''" by auto
  note flag = canon_is_one [OF canon_fetch [OF c assms(3)]]
  show "names_holder (unwrap_payload (payload_row (k, r))) = names_holder (unwrap_payload kvs)"
    "names_holder (activity_data (payload_row (k, r))) = names_holder (activity_data kvs)"
    by (auto simp: names_holder_def unwrap_payload_def activity_data_def assms(2,4) w data'(1) flag same)
qed

text \<open>The payloads of the four types.\<close>

lemma note_holder:
  assumes "canon (note_payload nid c body ev t1 t2) = Some w" "rr_payload r = Json w" "fst k = ''note''"
  shows "holder (k, r) = Some c" "subject (k, r) = None"
  using stored_holder(1) [OF assms(1) [unfolded note_payload_def] assms(2), of _ c k] assms(3)
  by (auto simp: holder_def subject_def member_types_def names_holder_def unwrap_payload_def split: option.splits)

lemma item_holder:
  assumes "canon (item_payload iid c kind cit exc ref snap t) = Some w" "rr_payload r = Json w" "fst k = ''collection_item''"
  shows "holder (k, r) = Some c" "subject (k, r) = None"
  using stored_holder(1) [OF assms(1) [unfolded item_payload_def wrap_def] assms(2), of _ c k] assms(3)
  by (auto simp: holder_def subject_def member_types_def names_holder_def unwrap_payload_def split: option.splits)

lemma activity_subject:
  assumes "canon (activity_payload a) = Some w" "rr_payload r = Json w" "fst k = ''collection_activity''"
  shows "subject (k, r) = ca_collection a" "holder (k, r) = None"
  using stored_holder(2) [OF assms(1) [unfolded activity_payload_def] assms(2), of _ _ k] assms(3)
  by (cases "ca_collection a"; auto simp: holder_def subject_def member_types_def names_holder_def activity_data_def)+

lemma collection_unheld: "fst k = ''collection'' \<Longrightarrow> holder (k, r) = None \<and> subject (k, r) = None"
  by (simp add: holder_def subject_def member_types_def)

section \<open>Scans\<close>

lemma scan_in_live:
  assumes "(i, n, payload, c, u) \<in> set (scan_in db etype)" "keyed db"
  obtains r where "find_live db (etype, i) = Some r" "rr_revision r = n" "payload_row ((etype, i), r) = payload"
proof -
  from assms(1) obtain k r where p: "(k, r) \<in> set (live db)" "fst k = etype"
    "scanned_row (k, r) = Some (i, n, payload, c, u)"
    by (auto simp: scan_in_def in_map_filter)
  then have "k = (etype, i)" "rr_revision r = n" "payload_row (k, r) = payload"
    by (auto simp: prod_eq_iff split: json_col.splits pyval.splits)
  with p(1) assms(2) show ?thesis by (intro that [of r]) (auto simp: find_live_in)
qed

lemma distinct_scan_in:
  assumes "keyed db"
  shows "distinct (map fst (scan_in db etype))"
proof -
  have mf: "distinct (map fst (List.map_filter scanned_row xs))" if "distinct (map (\<lambda>p. snd (fst p)) xs)" for xs
    using that
  proof (induction xs)
    case (Cons p xs)
    have "fst y \<in> (\<lambda>p. snd (fst p)) ` set xs" if "y \<in> set (List.map_filter scanned_row xs)" for y
      using that by (force simp: in_map_filter split: json_col.splits pyval.splits)
    with Cons show ?case
      by (cases p) (auto simp: map_filter_simps split: option.splits json_col.splits pyval.splits)
  qed (simp add: map_filter_simps)
  have "distinct (map fst (filter (\<lambda>p. fst (fst p) = etype) (live db)))"
    using assms by (auto simp: keyed_def intro: distinct_map_filter)
  then have "distinct (map (\<lambda>p. snd (fst p)) (filter (\<lambda>p. fst (fst p) = etype) (live db)))"
    by (auto simp: distinct_map inj_on_def)
  then show ?thesis unfolding scan_in_def by (intro mf) (simp add: distinct_map)
qed

lemma activity_rows_live:
  assumes "(i, n, payload, c, u) \<in> set (activity_rows db cid)" "keyed db"
  obtains r where "find_live db (''collection_activity'', i) = Some r" "rr_revision r = n"
    "subject ((''collection_activity'', i), r) = Some cid"
proof -
  from assms(1) have s: "(i, n, payload, c, u) \<in> set (scan_in db ''collection_activity'')" "recorded_for cid payload"
    by (auto simp: activity_rows_def)
  obtain r where "find_live db (''collection_activity'', i) = Some r" "rr_revision r = n"
    "payload_row ((''collection_activity'', i), r) = payload" by (rule scan_in_live [OF s(1) assms(2)])
  with s(2) show ?thesis by (intro that) (auto simp: subject_def recorded_for_iff)
qed

lemma children_live:
  assumes "(i, n) \<in> set (children_in db etype cid)" "keyed db" "etype \<in> set member_types"
  obtains r where "find_live db (etype, i) = Some r" "rr_revision r = n" "holder ((etype, i), r) = Some cid"
proof -
  from assms(1) obtain payload c u where s: "(i, n, payload, c, u) \<in> set (scan_in db etype)" "held_by cid payload"
    by (auto simp: children_in_def)
  obtain r where "find_live db (etype, i) = Some r" "rr_revision r = n" "payload_row ((etype, i), r) = payload"
    by (rule scan_in_live [OF s(1) assms(2)])
  with s(2) assms(3) show ?thesis by (intro that) (auto simp: holder_def held_by_iff)
qed

section \<open>Activity\<close>

lemma write_stepD: "write_step sha K db db' \<Longrightarrow> writes sha K db db'"
  by (rule r_into_rtranclp)

lemma prune_rows_writes: "prune_rows xs ms db = Inr db' \<Longrightarrow> writes sha K db db'"
proof (induction xs ms db rule: prune_rows.induct)
  case (2 i n payload c u xs ms db)
  show ?case
  proof (cases "coll_delete_in (''collection_activity'', i) n ms db")
    case (Inl e)
    with 2 show ?thesis by (auto split: if_splits)
  next
    case (Inr x)
    obtain t db1 where x: "x = (t, db1)" by (cases x)
    obtain r tr where "find_live db (''collection_activity'', i) = Some r"
      "db1 = bury (''collection_activity'', i) tr db" by (rule delete_stored [OF Inr [unfolded x]])
    then have "write_step sha K db db1" by (auto intro: write_step.Dropped)
    moreover have "writes sha K db1 db'" using 2 Inr x by simp
    ultimately show ?thesis by (rule converse_rtranclp_into_rtranclp)
  qed
qed simp

lemma prune_rows_count:
  assumes "prune_rows xs ms db = Inr db'" "intact db" "distinct (map fst xs)"
    and "\<And>i n payload c u. (i, n, payload, c, u) \<in> set xs \<Longrightarrow>
      \<exists>r. find_live db (''collection_activity'', i) = Some r \<and> rr_revision r = n \<and>
          subject ((''collection_activity'', i), r) = Some cid"
  shows "events_of cid db = events_of cid db' + length xs"
  using assms
proof (induction xs ms db rule: prune_rows.induct)
  case (2 i n payload c u xs ms db)
  let ?k = "(''collection_activity'', i)"
  obtain r where r: "find_live db ?k = Some r" "rr_revision r = n" "subject (?k, r) = Some cid"
    using "2.prems"(4) [OF list.set_intros(1)] by blast
  show ?case
  proof (cases "iso_from_ms ms")
    case None
    then have "coll_delete_in ?k n ms db = Inl Bad_value" by (simp add: coll_delete_in_def)
    with "2.prems"(1) show ?thesis by simp
  next
    case (Some t)
    obtain tr v where "delete_in t db ?k n = Inr (v, bury ?k tr db)"
      by (rule delete_in_succeeds [OF "2.prems"(2) r(1,2)])
    with Some have d: "coll_delete_in ?k n ms db = Inr (v, bury ?k tr db)" by (simp add: coll_delete_in_def)
    have "events_of cid (bury ?k tr db) = events_of cid db' + length xs"
    proof (rule "2.IH"(2) [OF d refl])
      show "prune_rows xs ms (bury ?k tr db) = Inr db'" using "2.prems"(1) d by simp
      show "intact (bury ?k tr db)" by (rule intact_bury [OF "2.prems"(2)])
      show "distinct (map fst xs)" using "2.prems"(3) by simp
      fix i' n' payload' c' u' assume in': "(i', n', payload', c', u') \<in> set xs"
      then have "i' \<in> fst ` set xs" by (metis fst_conv image_eqI)
      with "2.prems"(3) have "i' \<noteq> i" by auto
      obtain r' where "find_live db (''collection_activity'', i') = Some r'" "rr_revision r' = n'"
        "subject ((''collection_activity'', i'), r') = Some cid"
        using "2.prems"(4) [OF list.set_intros(2) [OF in']] by blast
      with \<open>i' \<noteq> i\<close> show "\<exists>r. find_live (bury ?k tr db) (''collection_activity'', i') = Some r \<and> rr_revision r = n' \<and>
          subject ((''collection_activity'', i'), r) = Some cid" by (intro exI [of _ r']) simp
    qed
    moreover have "events_of cid db = Suc (events_of cid (bury ?k tr db))"
      unfolding events_of_def by (rule tally_buried [OF _ r(1)]) (use "2.prems"(2) r(3) in \<open>simp_all add: intact_def\<close>)
    ultimately show ?thesis by simp
  qed
qed simp

lemma prune_leaves_room:
  assumes "prune_activity_in (Some cid) ms db = Inr db'" "intact db"
  shows "events_of cid db' < max_activity"
proof (cases "events_of cid db < max_activity")
  case True
  with assms(1) show ?thesis by (simp add: prune_activity_in_def activity_count)
next
  case False
  let ?rs = "sort_key (\<lambda>(i, n, payload, c, u). (u, i)) (activity_rows db cid)"
  let ?xs = "take (events_of cid db - max_activity + 1) ?rs"
  from False assms(1) have p: "prune_rows ?xs ms db = Inr db'"
    by (simp add: prune_activity_in_def activity_count)
  have k: "keyed db" using assms(2) by (simp add: intact_def)
  have "distinct (map fst (activity_rows db cid))"
    unfolding activity_rows_def by (rule distinct_map_filter [OF distinct_scan_in [OF k]])
  then have "distinct (map fst ?rs)" by (simp add: distinct_map)
  then have "distinct (map fst ?xs)" unfolding take_map [symmetric] by (rule distinct_take)
  then have "events_of cid db = events_of cid db' + length ?xs"
  proof (rule prune_rows_count [OF p assms(2)])
    fix i n payload c u assume "(i, n, payload, c, u) \<in> set ?xs"
    then have "(i, n, payload, c, u) \<in> set (activity_rows db cid)" by (auto dest: in_set_takeD)
    then obtain r where "find_live db (''collection_activity'', i) = Some r" "rr_revision r = n"
      "subject ((''collection_activity'', i), r) = Some cid" by (rule activity_rows_live [OF _ k])
    then show "\<exists>r. find_live db (''collection_activity'', i) = Some r \<and> rr_revision r = n \<and>
        subject ((''collection_activity'', i), r) = Some cid" by blast
  qed
  moreover have "length ?xs = events_of cid db - max_activity + 1"
    using False by (simp add: activity_count max_activity_def)
  ultimately show ?thesis using False by (simp add: max_activity_def)
qed

lemma record_activity_writes:
  assumes "record_activity_in e held event etype entity occurred db = Inr (a, db')" "intact db"
  shows "writes sha K db db'"
proof -
  from assms(1) obtain ms db1 rec where p: "prune_activity_in held ms db = Inr db1"
    "coll_create_in e (''collection_activity'', ca_id a) (activity_payload a) ms db1 = Inr (rec, db')"
    "ca_collection a = held"
    by (fastforce simp: record_activity_in_def Let_def bindE_ok)
  have w: "writes sha K db db1"
    using p(1) by (cases held) (auto simp: prune_activity_in_def Let_def split: if_splits intro: prune_rows_writes)
  obtain r w' where r: "unused db1 (''collection_activity'', ca_id a)" "well_placed (''collection_activity'', ca_id a) r"
    "rr_payload r = Json w'" "canon (activity_payload a) = Some w'" "db' = put_live (''collection_activity'', ca_id a) r db1"
    by (rule create_stored [OF p(2)])
  have "subject ((''collection_activity'', ca_id a), r) = held"
    using activity_subject(1) [OF r(4,3)] p(3) by simp
  then have "write_step sha K db1 db'"
    unfolding r(5) using r(1,2) prune_leaves_room [OF _ assms(2)] p(1)
    by (intro write_step.Logged) auto
  with w show ?thesis by (rule rtranclp.rtrancl_into_rtrancl)
qed

section \<open>Collections\<close>

lemma update_row_holder:
  "fst k = ''collection'' \<Longrightarrow> holder (k, r) = holder (k, r0) \<and> subject (k, r) = subject (k, r0)"
  by (simp add: collection_unheld)

lemma writes_then: "write_step sha K db db1 \<Longrightarrow> writes sha K db1 db2 \<Longrightarrow> writes sha K db db2"
  by (rule converse_rtranclp_into_rtranclp)

text \<open>A step followed by its activity.\<close>

lemma logged_step:
  assumes "write_step sha K db db1" "record_activity_in e held event etype entity occurred db1 = Inr (a, db2)" "intact db"
  shows "writes sha K db db2"
  by (rule writes_then [OF assms(1) record_activity_writes [OF assms(2) intact_step [OF assms(1,3)]]])

lemma create_collection_writes:
  assumes "create_collection_in e cid fs db = Inr (rec, db')" "intact db"
  shows "writes sha K db db'"
proof -
  from assms(1) obtain sid db1 a rec1 where p: "live_count_in db ''collection'' < max_collections"
    "coll_create_in e (''collection'', sid) (collection_payload cid fs (ce_now e) (ce_now e)) (ce_now e) db = Inr (rec1, db1)"
    "record_activity_in e (Some cid) ''collection_created'' ''collection'' cid (ce_clock e) db1 = Inr (a, db')"
    by (auto simp: create_collection_in_def bindE_ok)
  obtain r w where "unused db (''collection'', sid)" "well_placed (''collection'', sid) r" "db1 = put_live (''collection'', sid) r db"
    by (rule create_stored [OF p(2)])
  with p(1) have "write_step sha K db db1" by (auto simp: live_count intro: write_step.Opened)
  from logged_step [OF this p(3) assms(2)] show ?thesis .
qed

lemma update_collection_writes:
  assumes "update_collection_in e cid sid n nm d ts f p db = Inr (x, db')" "intact db"
  shows "writes sha K db db'"
proof -
  from assms(1) obtain payload db1 a rec where p:
    "coll_replace_in e (''collection'', sid) payload n (ce_now e) db = Inr (rec, db1)"
    "record_activity_in e (Some cid) ''collection_updated'' ''collection'' cid (ce_clock e) db1 = Inr (a, db')"
    by (auto simp: update_collection_in_def bindE_ok)
  obtain r0 r where r: "find_live db (''collection'', sid) = Some r0" "well_placed (''collection'', sid) r"
    "db1 = put_live (''collection'', sid) r db" by (rule replace_stored [OF p(1)])
  have "write_step sha K db db1" unfolding r(3)
    by (rule write_step.Renewed [OF r(1,2)]) (simp_all add: collection_unheld)
  from logged_step [OF this p(2) assms(2)] show ?thesis .
qed

text \<open>Deleting the members listed removes exactly them.\<close>

lemma delete_all_spec:
  assumes "delete_all_in etype xs ms db = Inr db'" "etype \<noteq> ''collection''"
  shows "writes sha K db db' \<and> live db' = filter (\<lambda>p. fst (fst p) \<noteq> etype \<or> snd (fst p) \<notin> fst ` set xs) (live db)"
  using assms(1)
proof (induction xs arbitrary: db)
  case (Cons x xs)
  obtain i n where x: "x = (i, n)" by (cases x)
  from Cons.prems obtain t db1 where d: "coll_delete_in (etype, i) n ms db = Inr (t, db1)"
    "delete_all_in etype xs ms db1 = Inr db'" by (auto simp: x bindE_ok)
  obtain r tr where r: "find_live db (etype, i) = Some r" "db1 = bury (etype, i) tr db" by (rule delete_stored [OF d(1)])
  have "write_step sha K db db1" unfolding r(2) by (rule write_step.Dropped [OF r(1)]) (use assms(2) in simp)
  with Cons.IH [OF d(2)] have "writes sha K db db'" by (blast intro: writes_then)
  moreover have "live db' = filter (\<lambda>p. fst (fst p) \<noteq> etype \<or> snd (fst p) \<notin> fst ` set (x # xs)) (live db)"
    unfolding conjunct2 [OF Cons.IH [OF d(2)]] r(2) live_bury filter_filter
    by (rule filter_cong) (auto simp: x prod_eq_iff)
  ultimately show ?case ..
qed simp

lemma child_listed:
  assumes "(k, r) \<in> set (live db)" "fst k = etype" "holder (k, r) = Some cid"
  shows "snd k \<in> fst ` set (children_in db etype cid)"
proof -
  have "rr_payload r \<noteq> NullCol \<and> (\<exists>kvs. rr_payload r = Json (PDict kvs))"
    using assms(3) by (auto simp: holder_def names_holder_Some split: if_splits json_col.splits pyval.splits)
  then obtain kvs where kvs: "rr_payload r = Json (PDict kvs)" by blast
  then have s: "(snd k, rr_revision r, kvs, rr_created r, rr_updated r) \<in> set (scan_in db etype)"
    unfolding scan_in_def in_map_filter using assms(1,2) by (intro bexI [of _ "(k, r)"]) auto
  have "held_by cid kvs" using assms(3) kvs by (auto simp: holder_def held_by_iff split: if_splits)
  with s have "(snd k, rr_revision r) \<in> set (children_in db etype cid)" by (force simp: children_in_def)
  then show ?thesis by force
qed

lemma delete_collection_spec:
  assumes "delete_collection_in e cid sid n db = Inr (t, db')" "intact db"
    and "collection_entity_id sha cid = Inr sid" "cid \<in> K"
  obtains tr db1 a where "writes sha K db (bury (''collection'', sid) tr db1)" "members_of cid db1 = 0"
    "record_activity_in e (Some cid) ''collection_deleted'' ''collection'' cid (ce_clock e)
       (bury (''collection'', sid) tr db1) = Inr (a, db')"
proof -
  from assms(1) obtain db1 db2 db3 a where p:
    "delete_all_in ''collection_item'' (children_in db ''collection_item'' cid) (ce_now e) db = Inr db1"
    "delete_all_in ''note'' (children_in db1 ''note'' cid) (ce_now e) db1 = Inr db2"
    "coll_delete_in (''collection'', sid) n (ce_now e) db2 = Inr (t, db3)"
    "record_activity_in e (Some cid) ''collection_deleted'' ''collection'' cid (ce_clock e) db3 = Inr (a, db')"
    by (auto simp: delete_collection_in_def bindE_ok)
  note items = delete_all_spec [OF p(1), of sha K, simplified]
  note gone = delete_all_spec [OF p(2), of sha K, simplified]
  have none: "members_of cid db2 = 0"
  proof (unfold members_of_def tally_0, intro ballI notI)
    fix q assume q: "q \<in> set (live db2)" "holder q = Some cid"
    obtain k r where kr: "q = (k, r)" by (cases q)
    have "fst k = ''collection_item'' \<or> fst k = ''note''"
      using q(2) kr by (auto simp: holder_def member_types_def split: if_splits)
    then show False
    proof
      assume f: "fst k = ''collection_item''"
      have in1: "(k, r) \<in> set (live db1)" using q(1) gone kr by auto
      then have "(k, r) \<in> set (live db)" using items by auto
      from child_listed [OF this f q(2) [unfolded kr]] in1 items f show False by auto
    next
      assume f: "fst k = ''note''"
      have "(k, r) \<in> set (live db1)" using q(1) gone kr by auto
      from child_listed [OF this f q(2) [unfolded kr]] q(1) gone f kr show False by auto
    qed
  qed
  obtain r tr where r: "find_live db2 (''collection'', sid) = Some r" "db3 = bury (''collection'', sid) tr db2"
    by (rule delete_stored [OF p(3)])
  have "write_step sha K db2 db3" unfolding r(2) by (rule write_step.Closed [OF r(1) assms(3,4) none])
  then have "writes sha K db db3" using items gone by (meson rtranclp.rtrancl_into_rtrancl rtranclp_trans)
  with none p(4) r(2) show thesis by (intro that) auto
qed

lemma delete_collection_writes:
  assumes "delete_collection_in e cid sid n db = Inr (t, db')" "intact db"
    and "collection_entity_id sha cid = Inr sid" "cid \<in> K"
  shows "writes sha K db db'"
proof -
  obtain tr db1 a where p: "writes sha K db (bury (''collection'', sid) tr db1)"
    "record_activity_in e (Some cid) ''collection_deleted'' ''collection'' cid (ce_clock e)
       (bury (''collection'', sid) tr db1) = Inr (a, db')"
    by (rule delete_collection_spec [OF assms])
  show ?thesis
    by (rule rtranclp_trans [OF p(1) record_activity_writes [OF p(2) intact_writes [OF p(1) assms(2)]]])
qed

section \<open>Members\<close>

lemma one_in_live: "one_in db k = Inr x \<Longrightarrow> find_live db k \<noteq> None"
  by (auto simp: one_in_def split: option.splits)

lemma add_note_writes:
  assumes "add_note_in e cid nid (note_payload nid cid s ev t1 t2) db = Inr (rec, db')" "intact db"
    and "is_ok (collection_entity_id (ce_sha e) cid) \<Longrightarrow> cid \<in> K"
  shows "writes (ce_sha e) K db db'"
proof -
  from assms(1) obtain sid x rec1 db1 a where p: "collection_entity_id (ce_sha e) cid = Inr sid"
    "one_in db (''collection'', sid) = Inr x" "note_count_in db cid < max_notes" "member_count_in db cid < max_items"
    "coll_create_in e (''note'', nid) (note_payload nid cid s ev t1 t2) (ce_now e) db = Inr (rec1, db1)"
    "record_activity_in e (Some cid) ''note_added'' ''note'' nid (ce_clock e) db1 = Inr (a, db')"
    by (auto simp: add_note_in_def bindE_ok)
  obtain r w where r: "unused db (''note'', nid)" "well_placed (''note'', nid) r" "rr_payload r = Json w"
    "canon (note_payload nid cid s ev t1 t2) = Some w" "db1 = put_live (''note'', nid) r db"
    by (rule create_stored [OF p(5)])
  have h: "holder ((''note'', nid), r) = Some cid" by (rule note_holder(1) [OF r(4,3)]) simp
  have k: "cid \<in> K" by (rule assms(3)) (simp add: p(1))
  have "write_step (ce_sha e) K db db1" unfolding r(5)
    by (rule write_step.Joined [OF _ r(1,2) h k p(1) one_in_live [OF p(2)]])
      (use p(3,4) in \<open>simp_all add: member_types_def member_count note_count\<close>)
  from logged_step [OF this p(6) assms(2)] show ?thesis .
qed

lemma add_item_writes:
  assumes "add_item_in e cid iid (item_payload iid cid kind c x ref snap t) db = Inr (rec, db')" "intact db"
    and "is_ok (collection_entity_id (ce_sha e) cid) \<Longrightarrow> cid \<in> K"
  shows "writes (ce_sha e) K db db'"
proof -
  from assms(1) obtain sid y stored rec1 db1 a where p: "collection_entity_id (ce_sha e) cid = Inr sid"
    "one_in db (''collection'', sid) = Inr y" "member_count_in db cid < max_items"
    "coll_create_in e (''collection_item'', stored) (item_payload iid cid kind c x ref snap t) (ce_now e) db = Inr (rec1, db1)"
    "record_activity_in e (Some cid) ''item_added'' ''collection_item'' iid (ce_clock e) db1 = Inr (a, db')"
    by (auto simp: add_item_in_def bindE_ok)
  obtain r w where r: "unused db (''collection_item'', stored)" "well_placed (''collection_item'', stored) r" "rr_payload r = Json w"
    "canon (item_payload iid cid kind c x ref snap t) = Some w" "db1 = put_live (''collection_item'', stored) r db"
    by (rule create_stored [OF p(4)])
  have h: "holder ((''collection_item'', stored), r) = Some cid" by (rule item_holder(1) [OF r(4,3)]) simp
  have k: "cid \<in> K" by (rule assms(3)) (simp add: p(1))
  have "write_step (ce_sha e) K db db1" unfolding r(5)
    by (rule write_step.Joined [OF _ r(1,2) h k p(1) one_in_live [OF p(2)]])
      (use p(3) in \<open>simp_all add: member_types_def member_count\<close>)
  from logged_step [OF this p(5) assms(2)] show ?thesis .
qed

lemma update_note_writes:
  assumes "update_note_in e cid nid n s db = Inr (rec, db')" "intact db"
  shows "writes sha K db db'"
proof -
  from assms(1) obtain n0 payload created u data ms rec1 db1 a where p:
    "one_in db (''note'', nid) = Inr (n0, payload, created, u)"
    "unwrap_payload payload = Inr data" "fetch data ''collectionId'' = PStr cid"
    "coll_replace_in e (''note'', nid)
       (note_payload nid cid s (mapping_of (fetch data ''evidenceRef'')) ms (ce_now e)) n (ce_now e) db = Inr (rec1, db1)"
    "record_activity_in e (Some cid) ''note_updated'' ''note'' nid (ce_clock e) db1 = Inr (a, db')"
    by (auto simp: update_note_in_def bindE_ok)
  obtain r0 r w where r: "find_live db (''note'', nid) = Some r0" "well_placed (''note'', nid) r" "rr_payload r = Json w"
    "canon (note_payload nid cid s (mapping_of (fetch data ''evidenceRef'')) ms (ce_now e)) = Some w"
    "db1 = put_live (''note'', nid) r db"
    by (rule replace_stored [OF p(4)])
  have "payload_row ((''note'', nid), r0) = payload"
    using p(1) r(1) by (auto simp: one_in_def split: json_col.splits pyval.splits)
  then have "holder ((''note'', nid), r0) = Some cid"
    using p(2,3) by (simp add: holder_def member_types_def names_holder_def)
  moreover have "subject ((''note'', nid), r0) = None" by (simp add: subject_def)
  ultimately have "write_step sha K db db1" unfolding r(5)
    by (intro write_step.Renewed [OF r(1,2)]) (use note_holder [OF r(4,3)] in simp_all)
  from logged_step [OF this p(5) assms(2)] show ?thesis .
qed

lemma delete_item_writes:
  assumes "delete_item_in e cid iid n db = Inr (x, db')" "intact db"
  shows "writes sha K db db'"
proof -
  from assms(1) obtain etype event stored t db1 a where p: "etype \<noteq> ''collection''"
    "coll_delete_in (etype, stored) n (ce_now e) db = Inr (t, db1)"
    "record_activity_in e (Some cid) event etype iid (ce_clock e) db1 = Inr (a, db')"
    unfolding delete_item_in_def Let_def bindE_ok ensure_ok
  proof (elim exE conjE)
    fix item u stored z
    assume d: "(if ci_kind item = ''note'' then Inr iid else item_entity_id (ce_sha e) iid) = Inr stored"
      "coll_delete_in (if ci_kind item = ''note'' then ''note'' else ''collection_item'', stored) n (ce_now e) db = Inr z"
    assume l: "(case z of (t, db1) \<Rightarrow> bindE (record_activity_in e (Some cid)
          (if ci_kind item = ''note'' then ''note_removed'' else ''item_removed'')
          (if ci_kind item = ''note'' then ''note'' else ''collection_item'') iid (ce_clock e) db1)
        (\<lambda>(a, db2). Inr ((if ci_kind item = ''note'' then ''note'' else ''collection_item'', t), db2))) = Inr (x, db')"
    obtain t db1 where z: "z = (t, db1)" by (cases z)
    from l obtain a where a: "record_activity_in e (Some cid)
          (if ci_kind item = ''note'' then ''note_removed'' else ''item_removed'')
          (if ci_kind item = ''note'' then ''note'' else ''collection_item'') iid (ce_clock e) db1 = Inr (a, db')"
      unfolding z by (auto simp: bindE_ok)
    show thesis by (rule that [OF _ d(2) [unfolded z] a]) simp
  qed
  obtain r tr where r: "find_live db (etype, stored) = Some r" "db1 = bury (etype, stored) tr db"
    by (rule delete_stored [OF p(2)])
  have "write_step sha K db db1" unfolding r(2) by (rule write_step.Dropped [OF r(1)]) (use p(1) in simp)
  from logged_step [OF this p(3) assms(2)] show ?thesis .
qed

section \<open>Every write\<close>

lemma checked_ok: "checked m f db = (Inr y, db') \<longleftrightarrow> (\<exists>x. m = Inr x \<and> f x db = (Inr y, db'))"
  by (auto simp: checked_def split: sum.splits)

lemma answered_ok:
  "answer_with g (transaction f) db = (Inr y, db') \<longleftrightarrow> (\<exists>x. f db = Inr (x, db') \<and> g x = Inr y)"
  by (cases "f db") (auto simp: answer_with_def transaction_def split: prod.splits)

lemma checked_writes:
  assumes "\<And>x. m = Inr x \<Longrightarrow> writes sha K db (snd (f x db))"
  shows "writes sha K db (snd (checked m f db))"
  using assms by (auto simp: checked_def split: sum.splits)

lemma answered_writes:
  assumes "\<And>x db'. f db = Inr (x, db') \<Longrightarrow> writes sha K db db'"
  shows "writes sha K db (snd (answer_with g (transaction f) db))"
  using assms by (auto simp: answer_with_def transaction_def split: sum.splits prod.splits)

lemma transaction_writes:
  assumes "\<And>x db'. f db = Inr (x, db') \<Longrightarrow> writes sha K db db'"
  shows "writes sha K db (snd (transaction f db))"
  using assms by (auto simp: transaction_def split: sum.splits prod.splits)

text \<open>The collections that a command needs to tell apart.\<close>

fun targets :: "coll_cmd \<Rightarrow> string set" where
  "targets (Delete_collection cid n) = {cid}"
| "targets (Add_item cid k c x r s given) = {cid}"
| "targets (Add_note cid body r given) = {cid}"
| "targets c = {}"

definition told_apart :: "(string \<Rightarrow> string) \<Rightarrow> string set \<Rightarrow> string set" where
  "told_apart sha T = {c \<in> T. is_ok (collection_entity_id sha c)}"

lemma add_note_op_writes:
  assumes "intact db" "cid \<in> T"
  shows "writes (ce_sha e) (told_apart (ce_sha e) T) db (snd (add_note e cid body ev given db))"
  unfolding add_note_def
  by (intro checked_writes answered_writes) (erule add_note_writes [OF _ assms(1)], simp add: told_apart_def assms(2))

lemma after_writes:
  assumes "intact db" "targets c \<subseteq> T"
  shows "writes (ce_sha e) (told_apart (ce_sha e) T) db (after e c db)"
proof (cases c)
  case (Create_collection n d ts f p given)
  show ?thesis unfolding Create_collection after.simps create_collection_def
    by (intro checked_writes answered_writes) (erule create_collection_writes [OF _ assms(1)])
next
  case (Update_collection cid rv n d ts f p)
  show ?thesis unfolding Update_collection after.simps update_collection_def
    by (intro checked_writes answered_writes) (erule update_collection_writes [OF _ assms(1)])
next
  case (Delete_collection cid rv)
  with assms(2) have "cid \<in> T" by simp
  then show ?thesis unfolding Delete_collection after.simps delete_collection_def
    by (intro checked_writes answered_writes) (erule delete_collection_writes [OF _ assms(1)]; simp add: told_apart_def)
next
  case (Add_item cid k ci x r s given)
  with assms(2) have cid: "cid \<in> T" by simp
  have note_part: "writes (ce_sha e) (told_apart (ce_sha e) T) db
      (snd (case add_note e cid body ev giv db of (Inl err, db1) \<Rightarrow> (Inl err, db1) | (Inr note, db1) \<Rightarrow> (g note db1, db1)))"
    for body ev giv and g :: "coll_note \<Rightarrow> record_db \<Rightarrow> collection_error + coll_item"
    using add_note_op_writes [OF assms(1) cid, of e body ev giv] by (auto split: prod.splits sum.splits)
  show ?thesis unfolding Add_item after.simps add_item_def
  proof (intro checked_writes, goal_cases)
    case (1 u kind ref snap cit exc iid)
    show ?case
    proof (cases "kind = ''note''")
      case True
      show ?thesis unfolding if_P [OF True] by (rule note_part)
    next
      case False
      show ?thesis unfolding if_not_P [OF False]
        by (rule answered_writes) (erule add_item_writes [OF _ assms(1)], simp add: told_apart_def cid)
    qed
  qed
next
  case (Delete_item cid iid rv)
  show ?thesis unfolding Delete_item after.simps delete_item_def
    by (intro checked_writes answered_writes) (erule delete_item_writes [OF _ assms(1)])
next
  case (Add_note cid body r given)
  with assms(2) have "cid \<in> T" by simp
  from add_note_op_writes [OF assms(1) this] show ?thesis unfolding Add_note after.simps .
next
  case (Update_note cid nid rv body)
  show ?thesis unfolding Update_note after.simps update_note_def
    by (intro checked_writes answered_writes) (erule update_note_writes [OF _ assms(1)])
next
  case (Record_activity held event etype entity)
  show ?thesis unfolding Record_activity after.simps record_activity_def
    by (intro checked_writes transaction_writes) (erule record_activity_writes [OF _ assms(1)])
qed

end
