(* ===== verification/Collection_Reads.thy ===== *)
theory Collection_Reads
  imports Collection_Store
begin

text \<open>
  The operations of \<open>SQLiteCollectionRepository\<close> that only read: listing with filters,
  sorting and pages, reading one record, and the export.  Each scans what is committed.
\<close>

text \<open>\<open>except CollectionError: continue\<close> around the body of a loop.\<close>

fun gather :: "('a \<Rightarrow> collection_error + 'b) \<Rightarrow> 'a list \<Rightarrow> collection_error + 'b list" where
  "gather f [] = Inr []"
| "gather f (x # xs) =
    (case f x of
       Inr y \<Rightarrow> bindE (gather f xs) (\<lambda>ys. Inr (y # ys))
     | Inl e \<Rightarrow> if caught e then gather f xs else Inl e)"

definition page_of :: "int \<Rightarrow> int \<Rightarrow> 'a list \<Rightarrow> 'a list \<times> nat" where
  "page_of page page_size xs = (slice (nat ((page - 1) * page_size)) (nat page_size) xs, length xs)"

text \<open>\<open>list.sort(key=key, reverse=True)\<close> keeps the order of equal elements.\<close>

definition sorted_by :: "('a \<Rightarrow> 'k::linorder) \<Rightarrow> bool \<Rightarrow> 'a list \<Rightarrow> 'a list" where
  "sorted_by key desc xs = (if desc then rev (sort_key key (rev xs)) else sort_key key xs)"

section \<open>Collections\<close>

text \<open>\<open>_item_counts\<close>: items only; notes are not counted.\<close>

definition item_counts :: "record_db \<Rightarrow> string \<Rightarrow> nat" where
  "item_counts db cid = held_count db ''collection_item'' cid"

definition get_collection :: "(string \<Rightarrow> string) \<Rightarrow> record_db \<Rightarrow> string \<Rightarrow> collection_error + collection" where
  "get_collection sha db cid =
     bindE (validate_identifier cid) (\<lambda>_.
     bindE (collection_entity_id sha cid) (\<lambda>sid.
     bindE (one_in db (''collection'', sid)) (\<lambda>(revision, payload, created, updated).
     collection_of sid revision payload created updated (item_counts db cid))))"

definition sort_fields :: "string list" where
  "sort_fields = [''name'', ''updated_at'', ''created_at'', ''item_count'']"

definition collection_key :: "string \<Rightarrow> collection \<Rightarrow> (nat \<times> string) \<times> string" where
  "collection_key field c =
     (if field = ''name'' then (0, lower (co_name c))
      else if field = ''updated_at'' then (0, co_updated c)
      else if field = ''created_at'' then (0, co_created c)
      else (co_items c, []), co_id c)"

definition listed_collection :: "record_db \<Rightarrow> scanned \<Rightarrow> collection_error + collection" where
  "listed_collection db = (\<lambda>(i, n, payload, created, updated).
     bindE (unwrap_payload payload) (\<lambda>data.
     collection_of i n payload created updated (item_counts db (py_str (py_or (fetch data ''id'') (PStr i))))))"

definition list_collections ::
  "record_db \<Rightarrow> string option \<Rightarrow> string list option \<Rightarrow> bool option \<Rightarrow> string \<Rightarrow> string \<Rightarrow> int \<Rightarrow> int
     \<Rightarrow> collection_error + collection list \<times> nat" where
  "list_collections db search tags favorite field direction page page_size =
     bindE (ensure (field \<in> set sort_fields) Collection_error) (\<lambda>_.
     bindE (ensure (direction \<in> {''asc'', ''desc''}) Collection_error) (\<lambda>_.
     bindE (bounded_page page page_size) (\<lambda>_.
     let wanted = (case tags of None \<Rightarrow> [] | Some ts \<Rightarrow> map (lower \<circ> strip) (filter (\<lambda>t. strip t \<noteq> []) ts));
         needle = (case search of None \<Rightarrow> [] | Some s \<Rightarrow> lower (strip s));
         fits = (\<lambda>c. (case favorite of None \<Rightarrow> True | Some b \<Rightarrow> co_favorite c = b) \<and>
                     set wanted \<subseteq> set (map lower (co_tags c)) \<and>
                     (needle = [] \<or> py_in needle (lower (co_name c)) \<or> py_in needle (lower (co_description c))))
     in bindE (gather (listed_collection db) (scan_in db ''collection'')) (\<lambda>cs.
        Inr (page_of page page_size
               (sorted_by (collection_key field) (direction = ''desc'') (filter fits cs)))))))"

section \<open>Items and notes\<close>

definition scanned_item :: "scanned \<Rightarrow> collection_error + coll_item" where
  "scanned_item = (\<lambda>(i, n, payload, created, updated). item_of i n payload created updated)"

definition list_items ::
  "(string \<Rightarrow> string) \<Rightarrow> record_db \<Rightarrow> string \<Rightarrow> string option \<Rightarrow> int \<Rightarrow> int
     \<Rightarrow> collection_error + coll_item list \<times> nat" where
  "list_items sha db cid kind page page_size =
     bindE (get_collection sha db cid) (\<lambda>_.
     bindE (ensure (case kind of None \<Rightarrow> True | Some k \<Rightarrow> k \<in> set item_kinds) Collection_error) (\<lambda>_.
     bindE (bounded_page page page_size) (\<lambda>_.
     bindE (gather scanned_item (scan_in db ''collection_item'' @ scan_in db ''note'')) (\<lambda>items.
     Inr (page_of page page_size
            (sort_key (\<lambda>i. (ci_created i, ci_id i))
              (filter (\<lambda>i. ci_collection i = cid \<and> (case kind of None \<Rightarrow> True | Some k \<Rightarrow> ci_kind i = k)) items)))))))"

definition get_item :: "(string \<Rightarrow> string) \<Rightarrow> record_db \<Rightarrow> string \<Rightarrow> collection_error + coll_item" where
  "get_item sha db iid =
     bindE (validate_identifier iid) (\<lambda>_.
     bindE (item_entity_id sha iid) (\<lambda>stored.
     let reads = (\<lambda>(revision, payload, created, updated). item_of iid revision payload created updated) in
     case one_in db (''collection_item'', stored) of
       Inr x \<Rightarrow> reads x
     | Inl e \<Rightarrow>
         if e \<noteq> Collection_not_found then Inl e
         else (case one_in db (''note'', iid) of Inr x \<Rightarrow> reads x | Inl e \<Rightarrow> Inl e)))"

definition scanned_note :: "string \<Rightarrow> scanned \<Rightarrow> collection_error + coll_note" where
  "scanned_note cid = (\<lambda>(i, n, payload, created, updated).
     bindE (unwrap_payload payload) (\<lambda>data.
     bindE (ensure (fetch data ''collectionId'' = PStr cid) Collection_error) (\<lambda>_.
     Inr \<lparr>cn_id = i, cn_collection = cid, cn_text = py_str (py_or (fetch data ''text'') (PStr [])),
          cn_evidence = mapping_of (fetch data ''evidenceRef''), cn_revision = n,
          cn_created = created, cn_updated = updated\<rparr>)))"

definition list_notes ::
  "(string \<Rightarrow> string) \<Rightarrow> record_db \<Rightarrow> string \<Rightarrow> int \<Rightarrow> int \<Rightarrow> collection_error + coll_note list \<times> nat" where
  "list_notes sha db cid page page_size =
     bindE (get_collection sha db cid) (\<lambda>_.
     bindE (bounded_page page page_size) (\<lambda>_.
     bindE (gather (scanned_note cid) (scan_in db ''note'')) (\<lambda>notes.
     Inr (page_of page page_size (sort_key (\<lambda>n. (cn_created n, cn_id n)) notes)))))"

section \<open>Activity\<close>

definition scanned_activity :: "string \<Rightarrow> scanned \<Rightarrow> collection_error + coll_activity" where
  "scanned_activity cid = (\<lambda>(i, n, payload, created, updated).
     bindE (activity_data payload) (\<lambda>data.
     bindE (ensure (fetch data ''collectionId'' = PStr cid) Collection_error) (\<lambda>_.
     Inr \<lparr>ca_id = i, ca_collection = Some cid,
          ca_type = py_str (py_or (fetch data ''entityType'') (PStr [])),
          ca_entity = py_str (py_or (fetch data ''entityId'') (PStr [])),
          ca_event = py_str (py_or (fetch data ''eventType'') (PStr [])),
          ca_at = py_str (py_or (fetch data ''occurredAt'') (PStr created))\<rparr>)))"

definition list_activity ::
  "record_db \<Rightarrow> string \<Rightarrow> int \<Rightarrow> int \<Rightarrow> collection_error + coll_activity list \<times> nat" where
  "list_activity db cid page page_size =
     bindE (bounded_page page page_size) (\<lambda>_.
     bindE (gather (scanned_activity cid) (scan_in db ''collection_activity'')) (\<lambda>events.
     Inr (page_of page page_size (sorted_by (\<lambda>a. (ca_at a, ca_id a)) True events))))"

section \<open>Export\<close>

definition exported_item :: "coll_item \<Rightarrow> pyval" where
  "exported_item i =
     PDict ([(KStr ''id'', PStr (ci_id i)), (KStr ''kind'', PStr (ci_kind i)), (KStr ''citation'', PStr (ci_citation i)),
             (KStr ''excerpt'', PStr (ci_excerpt i)), (KStr ''reference'', PDict (ci_reference i))] @
            (case ci_snapshot i of None \<Rightarrow> [] | Some r \<Rightarrow> [(KStr ''snapshot'', PDict r)]) @
            [(KStr ''created_at'', PStr (ci_created i))])"

definition exported_note :: "coll_note \<Rightarrow> pyval" where
  "exported_note n =
     PDict ([(KStr ''id'', PStr (cn_id n)), (KStr ''text'', PStr (cn_text n))] @
            (case cn_evidence n of None \<Rightarrow> [] | Some r \<Rightarrow> [(KStr ''evidence_ref'', PDict r)]) @
            [(KStr ''revision'', PInt (cn_revision n)), (KStr ''created_at'', PStr (cn_created n)),
             (KStr ''updated_at'', PStr (cn_updated n))])"

definition export_json :: "collection \<Rightarrow> coll_item list \<Rightarrow> coll_note list \<Rightarrow> pyval" where
  "export_json c items notes =
     PDict [(KStr ''id'', PStr (co_id c)), (KStr ''name'', PStr (co_name c)), (KStr ''description'', PStr (co_description c)),
       (KStr ''tags'', PList (map PStr (co_tags c))), (KStr ''favorite'', PBool (co_favorite c)),
       (KStr ''private'', PBool (co_private c)), (KStr ''revision'', PInt (co_revision c)),
       (KStr ''created_at'', PStr (co_created c)), (KStr ''updated_at'', PStr (co_updated c)),
       (KStr ''items'', PList (map exported_item items)), (KStr ''notes'', PList (map exported_note notes))]"

text \<open>The separator is a middle dot, U+00B7, between spaces.\<close>

definition middle_dot :: string where
  "middle_dot = [CHR '' '', CHR 0xB7, CHR '' '']"

definition export_markdown :: "collection \<Rightarrow> coll_item list \<Rightarrow> coll_note list \<Rightarrow> string" where
  "export_markdown c items notes =
    (let ls = [''# '' @ co_name c, []] @
           (if co_description c = [] then [] else [co_description c, []]) @
           (if co_tags c = [] then [] else [''Tags: '' @ join '', '' (co_tags c), []]) @
           [''Revision '' @ dec_int (co_revision c) @ middle_dot @ ''updated '' @ co_updated c, []] @
           concat (map (\<lambda>i. [''## '' @ (if ci_citation i = [] then ci_kind i else ci_citation i), [], ci_excerpt i, [],
             ''_'' @ ci_kind i @ middle_dot @ ci_id i @ ''_'', []]) items) @
           concat (map (\<lambda>n. [''### Note '' @ cn_id n, [], cn_text n, []]) notes)
     in rev (dropWhile is_space (rev (join [CHR 0x0A] ls))) @ [CHR 0x0A])"

definition export_collection ::
  "(string \<Rightarrow> string) \<Rightarrow> record_db \<Rightarrow> string \<Rightarrow> string \<Rightarrow> collection_error + pyval" where
  "export_collection sha db cid format =
     bindE (ensure (format \<in> {''json'', ''markdown''}) Collection_error) (\<lambda>_.
     bindE (get_collection sha db cid) (\<lambda>c.
     bindE (list_items sha db cid None 1 (int max_items)) (\<lambda>(listed, total).
     bindE (list_notes sha db cid 1 (int max_notes)) (\<lambda>(notes, note_total).
     let items = filter (\<lambda>i. ci_kind i \<noteq> ''note'') listed in
     Inr (if format = ''json'' then export_json c items notes else PStr (export_markdown c items notes))))))"

end
