(* ===== verification/Collection_Properties.thy ===== *)
theory Collection_Properties
  imports Collection_Ops Collection_Reads
begin

text \<open>
  What the collection repository guarantees for every sequence of its writes, whatever
  the arguments, clocks and random tokens of the single calls are.
\<close>

section \<open>Bounds\<close>

lemma intact_no_records: "intact no_records"
  by (simp add: intact_def keyed_def apart_no_records) (simp add: no_records_def find_live_def)

lemma within_bounds_no_records: "within_bounds no_records"
  by (simp add: within_bounds_def tally_defs tally_def no_records_def)

lemma after_all_bounds:
  "intact db \<Longrightarrow> within_bounds db \<Longrightarrow> intact (after_all cs db) \<and> within_bounds (after_all cs db)"
proof (induction cs db rule: after_all.induct)
  case (2 e c cs db)
  have "writes (ce_sha e) (told_apart (ce_sha e) UNIV) db (after e c db)" by (rule after_writes [OF "2.prems"(1)]) simp
  from within_bounds_writes [OF this "2.prems"] "2.IH" show ?case by simp
qed simp

text \<open>C39. The limits of a workspace hold after every sequence of writes: at most 50 collections, and for every
  collection identifier at most 100 members, of which at most 50 notes, and at most 500 recorded events.  The counts
  are the ones the repository itself computes.\<close>

theorem collections_within_bounds:
  "live_count_in (after_all cs no_records) ''collection'' \<le> 50 \<and>
   member_count_in (after_all cs no_records) cid \<le> 100 \<and>
   note_count_in (after_all cs no_records) cid \<le> 50 \<and>
   length (activity_rows (after_all cs no_records) cid) \<le> 500"
proof -
  have "within_bounds (after_all cs no_records)"
    using after_all_bounds [OF intact_no_records within_bounds_no_records] by blast
  then show ?thesis
    by (simp add: within_bounds_def live_count member_count note_count activity_count max_collections_def max_items_def
        max_notes_def max_activity_def)
qed

section \<open>Members and their collections\<close>

definition all_targets :: "(coll_env \<times> coll_cmd) list \<Rightarrow> string set" where
  "all_targets cs = (\<Union>ec \<in> set cs. targets (snd ec))"

definition same_digest :: "(string \<Rightarrow> string) \<Rightarrow> (coll_env \<times> coll_cmd) list \<Rightarrow> bool" where
  "same_digest sha cs \<longleftrightarrow> (\<forall>ec \<in> set cs. ce_sha (fst ec) = sha)"

lemma after_all_writes:
  assumes "same_digest sha cs" "all_targets cs \<subseteq> T" "intact db"
  shows "writes sha (told_apart sha T) db (after_all cs db)"
  using assms
proof (induction cs db rule: after_all.induct)
  case (2 e c cs db)
  then have e: "ce_sha e = sha" "targets c \<subseteq> T" by (auto simp: same_digest_def all_targets_def)
  have w: "writes sha (told_apart sha T) db (after e c db)" using after_writes [OF "2.prems"(3) e(2), of e] e(1) by simp
  have "writes sha (told_apart sha T) (after e c db) (after_all cs (after e c db))"
    by (rule "2.IH") (use "2.prems" intact_writes [OF w] in \<open>auto simp: same_digest_def all_targets_def\<close>)
  with w show ?case by simp
qed simp

lemma parented_no_records: "parented sha K no_records"
  by (rule parentedI) (simp add: no_records_def find_live_def)

text \<open>Once closed, a collection stays closed and empty.\<close>

definition gone :: "(string \<Rightarrow> string) \<Rightarrow> string \<Rightarrow> string \<Rightarrow> record_db \<Rightarrow> bool" where
  "gone sha cid sid db \<longleftrightarrow> collection_entity_id sha cid = Inr sid \<and> members_of cid db = 0 \<and>
     find_live db (''collection'', sid) = None \<and> find_tomb db (''collection'', sid) \<noteq> None"

lemma members_of_bury_0: "members_of c db = 0 \<Longrightarrow> members_of c (bury k t db) = 0"
  unfolding members_of_def by (metis le_zero_eq tally_buried_le)

lemma gone_step: "write_step sha K db db' \<Longrightarrow> intact db \<Longrightarrow> gone sha cid sid db \<Longrightarrow> gone sha cid sid db'"
proof (induction rule: write_step.induct)
  case (Opened k db r)
  then have "k \<noteq> (''collection'', sid)" by (auto simp: gone_def unused_def)
  with Opened show ?case by (auto simp: gone_def members_of_def unused_def tally_fresh holder_def member_types_def)
next
  case (Renewed db k r0 r)
  then have "keyed db" by (simp add: intact_def)
  have "members_of cid (put_live k r db) = members_of cid db"
    unfolding members_of_def by (rule tally_renewed [OF \<open>keyed db\<close> Renewed.hyps(1)]) (simp add: Renewed.hyps)
  with Renewed show ?case by (auto simp: gone_def)
next
  case (Joined k db r c sid')
  then have "c \<noteq> cid" by (auto simp: gone_def)
  with Joined show ?case by (auto simp: gone_def members_of_def unused_def tally_fresh member_types_def)
next
  case (Logged k db r)
  then show ?case by (auto simp: gone_def members_of_def unused_def tally_fresh holder_def member_types_def)
qed (auto simp: gone_def intro: members_of_bury_0)

lemma gone_writes:
  "writes sha K db db' \<Longrightarrow> intact db \<Longrightarrow> gone sha cid sid db \<Longrightarrow> intact db' \<and> gone sha cid sid db'"
  by (induction rule: rtranclp_induct) (auto intro: intact_step gone_step)

lemma delete_collection_gone:
  assumes "delete_collection e cid n db = (Inr rc, db')" "intact db"
  obtains sid where "gone (ce_sha e) cid sid db'" "intact db'"
proof -
  from assms(1) obtain sid t where p: "collection_entity_id (ce_sha e) cid = Inr sid"
    "delete_collection_in e cid sid n db = Inr (t, db')"
    by (auto simp: delete_collection_def checked_ok answered_ok)
  obtain tr db1 a where d: "writes (ce_sha e) {cid} db (bury (''collection'', sid) tr db1)" "members_of cid db1 = 0"
    "record_activity_in e (Some cid) ''collection_deleted'' ''collection'' cid (ce_clock e)
       (bury (''collection'', sid) tr db1) = Inr (a, db')"
    by (rule delete_collection_spec [OF p(2) assms(2) p(1) singletonI])
  have i: "intact (bury (''collection'', sid) tr db1)" by (rule intact_writes [OF d(1) assms(2)])
  have "gone (ce_sha e) cid sid (bury (''collection'', sid) tr db1)"
    using p(1) d(2) by (simp add: gone_def members_of_bury_0)
  from gone_writes [OF record_activity_writes [OF d(3) i] i this] that show thesis by blast
qed

text \<open>C40. Nothing outlives its collection.  After every sequence of writes each item and note belongs to a collection
  that is live; and once a collection has been deleted, whatever is written later, it is reported as deleted, it counts no
  members and nothing can be added to it.  Distinct collection identifiers are assumed to be stored under distinct keys
  (a truncated SHA-256 digest).\<close>

theorem members_never_outlive_collections:
  fixes cs cs' :: "(coll_env \<times> coll_cmd) list" and e :: coll_env
  defines "db \<equiv> after_all cs no_records"
  assumes "same_digest (ce_sha e) (cs @ cs')"
    and "inj_on (collection_entity_id (ce_sha e)) (told_apart (ce_sha e) (all_targets cs))"
    and "delete_collection e cid n db = (Inr rc, db')"
  shows "(\<forall>(k, r) \<in> set (live db). fst k \<in> {''collection_item'', ''note''} \<longrightarrow>
            (\<exists>c sid. holder (k, r) = Some c \<and> collection_entity_id (ce_sha e) c = Inr sid \<and>
                     find_live db (''collection'', sid) \<noteq> None)) \<and>
         get_collection (ce_sha e) (after_all cs' db') cid = Inl Collection_deleted \<and>
         member_count_in (after_all cs' db') cid = 0 \<and>
         \<not> is_ok (fst (add_note e cid body ev given (after_all cs' db')))"
proof -
  let ?T = "all_targets cs"
  have i: "intact db" unfolding db_def using after_all_bounds [OF intact_no_records within_bounds_no_records] by blast
  have w: "writes (ce_sha e) (told_apart (ce_sha e) ?T) no_records db" unfolding db_def
    by (rule after_all_writes [OF _ order_refl intact_no_records]) (use assms(2) in \<open>simp add: same_digest_def\<close>)
  have "parented (ce_sha e) (told_apart (ce_sha e) ?T) db"
    by (rule parented_writes [OF assms(3) w intact_no_records parented_no_records])
  moreover have "find_live db k = Some r" if "(k, r) \<in> set (live db)" for k r
    using that i by (simp add: find_live_in intact_def)
  ultimately have homes: "\<forall>(k, r) \<in> set (live db). fst k \<in> {''collection_item'', ''note''} \<longrightarrow>
      (\<exists>c sid. holder (k, r) = Some c \<and> collection_entity_id (ce_sha e) c = Inr sid \<and>
               find_live db (''collection'', sid) \<noteq> None)"
    by (auto simp: member_types_def elim!: parentedE)
  obtain sid where sid: "gone (ce_sha e) cid sid db'" "intact db'" by (rule delete_collection_gone [OF assms(4) i])
  have "writes (ce_sha e) (told_apart (ce_sha e) UNIV) db' (after_all cs' db')"
    by (rule after_all_writes [OF _ subset_UNIV sid(2)]) (use assms(2) in \<open>simp add: same_digest_def\<close>)
  from gone_writes [OF this sid(2,1)] have g: "gone (ce_sha e) cid sid (after_all cs' db')" by blast
  have one: "one_in (after_all cs' db') (''collection'', sid) = Inl Collection_deleted"
    using g by (auto simp: gone_def one_in_def)
  have valid: "is_ok (validate_identifier cid)"
    using assms(4) by (auto simp: delete_collection_def checked_ok)
  then have "get_collection (ce_sha e) (after_all cs' db') cid = Inl Collection_deleted"
    using g one by (auto simp: get_collection_def is_ok_iff gone_def)
  moreover have "\<not> is_ok (fst (add_note e cid body ev given (after_all cs' db')))"
    using g one by (auto simp: add_note_def checked_def answer_with_def transaction_def add_note_in_def gone_def
        split: sum.splits prod.splits)
  ultimately show ?thesis using homes g by (simp add: member_count gone_def)
qed

section \<open>A workspace\<close>

definition demo_digest :: "string \<Rightarrow> string" where
  "demo_digest s = ''digest-'' @ [last s]"

definition demo_at :: "string \<Rightarrow> coll_env" where
  "demo_at token = \<lparr>ce_sha = demo_digest, ce_secrets = [], ce_now = 1700000000123,
     ce_clock = ''2023-11-14T22:13:20.123456Z'', ce_token = (\<lambda>kind. token)\<rparr>"

definition demo_reference :: pyval where
  "demo_reference = PDict [(KStr ''document_id'', PStr ''doc-7'')]"

definition demo_cmds :: "(coll_env \<times> coll_cmd) list" where
  "demo_cmds =
     [(demo_at ''t1'', Create_collection (PStr '' Margins '') PNone (PList [PStr ''q3'']) (PBool False) (PBool True) (Some ''c1'')),
      (demo_at ''t2'', Add_note ''c1'' (PStr ''remark'') PNone (Some ''x''))]"

lemma demo_injective: "inj_on (collection_entity_id demo_digest) (told_apart demo_digest (all_targets demo_cmds))"
proof (rule inj_on_subset)
  show "told_apart demo_digest (all_targets demo_cmds) \<subseteq> {''c1''}"
    by (auto simp: told_apart_def all_targets_def demo_cmds_def)
qed simp

fun deletion_view :: "(collection_error + receipt) \<times> record_db \<Rightarrow> bool \<times> nat \<times> nat \<times> nat" where
  "deletion_view (r, db) = (is_ok r, member_count_in db ''c1'', live_count_in db ''collection'', length (activity_rows db ''c1''))"

lemma demo_deletion:
  "deletion_view (delete_collection (demo_at ''t3'') ''c1'' 1 (after_all demo_cmds no_records)) = (True, 0, 0, 3)"
  by code_simp

theorem members_never_outlive_collections_witness:
  "get_collection demo_digest (snd (delete_collection (demo_at ''t3'') ''c1'' 1 (after_all demo_cmds no_records))) ''c1''
     = Inl Collection_deleted"
proof -
  obtain rc db' where d: "delete_collection (demo_at ''t3'') ''c1'' 1 (after_all demo_cmds no_records) = (Inr rc, db')"
    using demo_deletion
    by (cases "delete_collection (demo_at ''t3'') ''c1'' 1 (after_all demo_cmds no_records)") (auto simp: is_ok_iff)
  have sha: "ce_sha (demo_at t) = demo_digest" for t by (simp add: demo_at_def)
  have "same_digest (ce_sha (demo_at ''t3'')) (demo_cmds @ [])" by (simp add: same_digest_def demo_cmds_def sha)
  from members_never_outlive_collections [OF this, unfolded sha, OF demo_injective d, of "PStr ''late''" PNone None]
  show ?thesis by (simp add: d)
qed

section \<open>Identifiers that items and notes share\<close>

text \<open>
  Items and notes are stored under different entity types, so one identifier may name
  both.  \<open>delete_note\<close> looks items up first: it then deletes the item and leaves the note.
\<close>

definition shared_workspace :: record_db where
  "shared_workspace =
     after_all [(demo_at ''t1'', Create_collection (PStr ''Margins'') PNone PNone (PBool False) (PBool True) (Some ''c1'')),
       (demo_at ''t2'', Add_item ''c1'' (PStr ''document'') (PStr ''10-K'') (PStr ''text'') demo_reference PNone (Some ''x'')),
       (demo_at ''t3'', Add_note ''c1'' (PStr ''remark'') PNone (Some ''x''))] no_records"

definition members_by_type :: "record_db \<Rightarrow> nat \<times> nat" where
  "members_by_type db = (held_count db ''collection_item'' ''c1'', held_count db ''note'' ''c1'')"

definition deletes_wrong_one :: "record_db \<Rightarrow> bool" where
  "deletes_wrong_one db \<longleftrightarrow>
     members_by_type db = (1, 1) \<and>
     (case delete_note (demo_at ''t4'') ''c1'' ''x'' 1 db of (r, db') \<Rightarrow> is_ok r \<and> members_by_type db' = (0, 1))"

lemma delete_note_deletes_item: "deletes_wrong_one shared_workspace"
  by code_simp

text \<open>
  \<open>get_collection\<close> counts items, \<open>update_collection\<close> counts items and notes.
\<close>

definition counted_items :: "record_db \<Rightarrow> (collection_error + nat) \<times> (collection_error + nat)" where
  "counted_items db =
     (map_sum id co_items (get_collection demo_digest db ''c1''),
      map_sum id co_items (fst (update_collection (demo_at ''t3'') ''c1'' 1 PNone PNone PNone PNone PNone db)))"

lemma item_counts_disagree: "counted_items (after_all demo_cmds no_records) = (Inr 0, Inr 1)"
  by code_simp

text \<open>
  An identifier with a dot or a colon passes the validation of the domain and is then
  refused by the record store, which raises outside of the domain's exceptions.
\<close>

lemma dotted_note_identifier:
  "is_ok (validate_identifier ''q3.note'') \<and>
   fst (add_note (demo_at ''t2'') ''c1'' (PStr ''remark'') PNone (Some ''q3.note'') (after_all (take 1 demo_cmds) no_records))
     = Inl (Store_error RecordValue)"
  by code_simp

end
