(* ===== verification/Transfer_Model.thy ===== *)
theory Transfer_Model
  imports Collection_Model
begin

text \<open>
  \<open>src/workspace/transfer.py\<close>, first half: the canonical JSON of portable backups, their
  validation, and their construction.

  \<^item> \<open>WorkspaceTransferError\<close> is \<open>Bad_backup\<close>, a built-in \<open>TypeError\<close> \<open>Backup_type\<close>, a
    \<open>ValueError\<close> or \<open>OverflowError\<close> \<open>Backup_value\<close>; \<open>Backup_integrity\<close> is a violated constraint
    of SQLite, \<open>Backup_fault\<close> what the failure injector of the service raises.
  \<^item> Strings hold no surrogates, so the branches for them are absent.
  \<^item> The environment holds the SHA-256 hex digest, the configured secrets, the clock's text, the
    failure injector, and which texts \<open>datetime.fromisoformat\<close> accepts, which depends on the
    version of Python.
\<close>

datatype transfer_error = Bad_backup | Backup_type | Backup_value | Backup_integrity | Backup_fault

datatype action =
    Act_create | Act_replace_older | Act_duplicate | Act_conflict | Act_blocked
  | Act_tomb_create | Act_tomb_replace | Act_tomb_duplicate | Act_tomb_conflict

record transfer_env =
  te_sha :: "string \<Rightarrow> string"
  te_configured :: "string list"
  te_now :: string
  te_iso :: "string \<Rightarrow> bool"
  te_fault :: "action \<Rightarrow> nat \<Rightarrow> bool"

section \<open>Canonical JSON\<close>

definition cut :: "char \<Rightarrow> string \<Rightarrow> string \<times> string" where
  "cut c s = (takeWhile (\<lambda>d. d \<noteq> c) s, drop 1 (dropWhile (\<lambda>d. d \<noteq> c) s))"

definition signed_number :: "string \<Rightarrow> int option" where
  "signed_number s =
    (if starts_with ''-'' s then map_option (\<lambda>n. - int n) (number 0 (tl s))
     else map_option int (number 0 (if starts_with ''+'' s then tl s else s)))"

definition zeros_off :: "string \<Rightarrow> string" where
  "zeros_off s = dropWhile (\<lambda>c. c = CHR ''0'') s"

text \<open>The argument is \<open>repr\<close> of the float; \<open>None\<close> is the \<open>ValueError\<close>.\<close>

definition js_number_text :: "string \<Rightarrow> string option" where
  "js_number_text s =
    (if \<not> finite_float s then None
     else if s = ''0.0'' \<or> s = ''-0.0'' then Some ''0''
     else
       let sign = (if starts_with ''-'' s then ''-'' else []);
           text = (if starts_with ''-'' s then tl s else s);
           mantissa = fst (cut CHR ''e'' text);
           n0 = (case signed_number (snd (cut CHR ''e'' text)) of None \<Rightarrow> 0 | Some e \<Rightarrow> if CHR ''e'' \<in> set text then e else 0);
           whole = fst (cut CHR ''.'' mantissa); fraction = snd (cut CHR ''.'' mantissa);
           small = (zeros_off whole = []); stripped = zeros_off fraction;
           n = (if small then - (int (length fraction) - int (length stripped)) else int (length whole) + n0);
           digits = rev (zeros_off (rev (if small then stripped else whole @ fraction)));
           k = int (length digits)
       in Some
         (if k \<le> n \<and> n \<le> 21 then sign @ digits @ replicate (nat (n - k)) CHR ''0''
          else if 0 < n \<and> n \<le> 21 then sign @ take (nat n) digits @ ''.'' @ drop (nat n) digits
          else if -6 < n \<and> n \<le> 0 then sign @ ''0.'' @ replicate (nat (- n)) CHR ''0'' @ digits
          else sign @ take 1 digits @ (if 1 < k then ''.'' @ drop 1 digits else []) @ ''e'' @
               (if 0 \<le> n - 1 then ''+'' else ''-'') @ dec_int \<bar>n - 1\<bar>))"

fun emit_canonical :: "pyval \<Rightarrow> string option" where
  "emit_canonical PNone = Some ''null''"
| "emit_canonical (PBool b) = Some (if b then ''true'' else ''false'')"
| "emit_canonical (PInt i) = Some (dec_int i)"
| "emit_canonical (PFloat s) = js_number_text s"
| "emit_canonical (PStr s) = Some (json_string s)"
| "emit_canonical (PList vs) =
     map_option (\<lambda>ts. ''['' @ join '','' ts @ '']'') (those (map emit_canonical vs))"
| "emit_canonical (PDict kvs) =
     map_option (\<lambda>ts. ''{'' @ join '','' (map (\<lambda>kt. json_string (fst kt) @ '':'' @ snd kt) (sort_key fst ts)) @ ''}'')
       (those (map (\<lambda>kv. case fst kv of
                            KStr s \<Rightarrow> map_option (\<lambda>t. (s, t)) (emit_canonical (snd kv))
                          | KOther \<Rightarrow> None) kvs))"
| "emit_canonical v = None"

text \<open>
  What \<open>json.loads\<close> makes of that text: whole floats come back as integers, tuples are
  refused.  A float keeps the text it was written in.
\<close>

definition js_value :: "string \<Rightarrow> pyval" where
  "js_value t = (case signed_number t of None \<Rightarrow> PFloat t | Some i \<Rightarrow> if t = dec_int i then PInt i else PFloat t)"

fun canon_js :: "pyval \<Rightarrow> pyval option" where
  "canon_js (PFloat s) = map_option js_value (js_number_text s)"
| "canon_js (PList vs) = map_option PList (those (map canon_js vs))"
| "canon_js (PDict kvs) =
     map_option (\<lambda>xs. PDict (sort_key (\<lambda>kv. key_str (fst kv)) xs))
       (those (map (\<lambda>kv. case fst kv of
                            KStr s \<Rightarrow> map_option (\<lambda>w. (KStr s, w)) (canon_js (snd kv))
                          | KOther \<Rightarrow> None) kvs))"
| "canon_js (PTuple vs) = None"
| "canon_js POther = None"
| "canon_js v = Some v"

lemma js_value_text: "json_text (js_value t) = t"
  by (simp add: js_value_def split: option.splits)

lemma those_map_option: "those (map (\<lambda>x. map_option f (g x)) xs) = map_option (map f) (those (map g xs))"
  by (induction xs) (auto simp: option.map_comp o_def split: option.splits)

lemma sort_key_map: "sort_key f (map g xs) = map g (sort_key (\<lambda>x. f (g x)) xs)"
proof (induction xs)
  case (Cons x xs)
  have "insort_key f (g y) (map g ys) = map g (insort_key (\<lambda>x. f (g x)) y ys)" for y ys
    by (induction ys) auto
  with Cons show ?case by simp
qed simp

text \<open>The text is the canonical text of the decoded value.\<close>

theorem emit_is_text: "emit_canonical v = map_option json_text (canon_js v)"
proof (induction v rule: canon_js.induct)
  case (1 s)
  then show ?case by (simp add: option.map_comp o_def js_value_text option.map_ident)
next
  case (2 vs)
  then have m: "map emit_canonical vs = map (\<lambda>v. map_option json_text (canon_js v)) vs" by simp
  show ?case by (simp add: m those_map_option option.map_comp o_def cong del: map_cong)
next
  case (3 kvs)
  let ?c = "\<lambda>kv. case fst kv of KStr s \<Rightarrow> map_option (\<lambda>w. (KStr s, w)) (canon_js (snd kv)) | KOther \<Rightarrow> None"
  let ?h = "\<lambda>kv. (key_str (fst kv), json_text (snd kv))"
  have "(case fst kv of KStr s \<Rightarrow> map_option (\<lambda>t. (s, t)) (emit_canonical (snd kv)) | KOther \<Rightarrow> None) = map_option ?h (?c kv)"
    if "kv \<in> set kvs" for kv
    using 3 [of kv] that by (auto simp: option.map_comp o_def split: pykey.splits)
  then have m: "map (\<lambda>kv. case fst kv of KStr s \<Rightarrow> map_option (\<lambda>t. (s, t)) (emit_canonical (snd kv)) | KOther \<Rightarrow> None) kvs
      = map (\<lambda>kv. map_option ?h (?c kv)) kvs" by simp
  show ?case by (simp add: m those_map_option option.map_comp o_def sort_key_map)
qed auto

definition compute_backup_digest :: "(string \<Rightarrow> string) \<Rightarrow> row \<Rightarrow> transfer_error + string" where
  "compute_backup_digest sha envelope =
     map_err (\<lambda>_. Backup_type) (of_opt () (map_option sha
       (emit_canonical (PDict (filter (\<lambda>kv. fst kv \<notin> {KStr ''digest'', KStr ''exported_at''}) envelope)))))"

section \<open>Fields\<close>

definition the_object :: "pyval \<Rightarrow> transfer_error + row" where
  "the_object v = (case v of PDict kvs \<Rightarrow> bindE (ensure (KOther \<notin> set (map fst kvs)) Bad_backup) (\<lambda>_. Inr kvs)
     | _ \<Rightarrow> Inl Bad_backup)"

definition exact_keys :: "row \<Rightarrow> string list \<Rightarrow> transfer_error + unit" where
  "exact_keys r required = ensure (set (map fst r) = KStr ` set required) Bad_backup"

definition legacy_id :: "pyval \<Rightarrow> transfer_error + string" where
  "legacy_id v = (case v of PStr s \<Rightarrow> map_err (\<lambda>_. Bad_backup) (validate_legacy_id s) | _ \<Rightarrow> Inl Bad_backup)"

definition int_from :: "int \<Rightarrow> pyval \<Rightarrow> transfer_error + int" where
  "int_from least v = (case v of PInt i \<Rightarrow> bindE (ensure (least \<le> i) Bad_backup) (\<lambda>_. Inr i) | _ \<Rightarrow> Inl Bad_backup)"

definition positive_int :: "pyval \<Rightarrow> transfer_error + int" where
  "positive_int v = int_from 1 v"

definition timestamp :: "pyval \<Rightarrow> transfer_error + int" where
  "timestamp v = int_from 0 v"

definition workspace_id :: "transfer_env \<Rightarrow> string \<Rightarrow> string \<Rightarrow> transfer_error + string" where
  "workspace_id e kind legacy = map_err (\<lambda>_. Bad_backup) (stable_legacy_id (te_sha e) kind legacy)"

definition entity_type_of :: "string \<Rightarrow> string option" where
  "entity_type_of kind =
     map_of [(''conversation'', ''conversation''), (''collection'', ''collection''),
             (''evidence_item'', ''collection_item'')] kind"

section \<open>Payload trees\<close>

definition transfer_secret_keys :: "string list" where
  "transfer_secret_keys =
     [''authorization'', ''api_key'', ''apikey'', ''password'', ''secret'', ''token'', ''access_token'',
      ''refresh_token'', ''local_workspace_token'', ''groq_api_key'', ''qdrant_api_key'']"

definition configured_secret_values :: "transfer_env \<Rightarrow> string list" where
  "configured_secret_values e = filter (\<lambda>s. 8 \<le> length s) (te_configured e)"

definition folded_key :: "string \<Rightarrow> string" where
  "folded_key k = map (\<lambda>c. if c = CHR ''-'' then CHR ''_'' else c) (concat (map fold_char k))"

text \<open>
  Whether \<open>abs(x)\<close> exceeds \<open>2 ^ 53 - 1\<close>, read off the text: \<open>repr\<close> writes \<open>e+\<close> from
  \<open>1e+16\<close> on, and all digits of the whole part below.
\<close>

definition large_float :: "string \<Rightarrow> bool" where
  "large_float s =
    (let text = (if starts_with ''-'' s then tl s else s) in
       py_in ''e+'' text \<or>
       (case number 0 (fst (cut CHR ''.'' text)) of None \<Rightarrow> False | Some n \<Rightarrow> 9007199254740991 < n))"

fun tree_nodes :: "pyval \<Rightarrow> nat" where
  "tree_nodes (PList vs) = 1 + sum_list (map tree_nodes vs)"
| "tree_nodes (PDict kvs) = 1 + sum_list (map (\<lambda>kv. tree_nodes (snd kv)) kvs)"
| "tree_nodes v = 1"

fun tree_ok :: "string list \<Rightarrow> nat \<Rightarrow> pyval \<Rightarrow> bool" where
  "tree_ok secrets depth (PInt i) = (depth \<le> 40 \<and> \<bar>i\<bar> \<le> 9007199254740991)"
| "tree_ok secrets depth (PFloat s) = (depth \<le> 40 \<and> finite_float s \<and> \<not> large_float s)"
| "tree_ok secrets depth (PStr s) = (depth \<le> 40 \<and> length s \<le> 1000000 \<and> \<not> list_ex (\<lambda>x. py_in x s) secrets)"
| "tree_ok secrets depth (PList vs) = (depth \<le> 40 \<and> list_all (tree_ok secrets (depth + 1)) vs)"
| "tree_ok secrets depth (PDict kvs) =
     (depth \<le> 40 \<and>
      list_all (\<lambda>kv. fst kv \<noteq> KOther \<and> length (key_str (fst kv)) \<le> 256 \<and>
                  folded_key (key_str (fst kv)) \<notin> set transfer_secret_keys \<and> tree_ok secrets (depth + 1) (snd kv)) kvs)"
| "tree_ok secrets depth (PTuple vs) = False"
| "tree_ok secrets depth POther = False"
| "tree_ok secrets depth v = (depth \<le> 40)"

text \<open>Every rejection raises the same exception, so the order of the checks does not show.\<close>

definition validate_json_tree :: "transfer_env \<Rightarrow> pyval \<Rightarrow> transfer_error + unit" where
  "validate_json_tree e v =
     ensure (tree_ok (configured_secret_values e) 0 v \<and> tree_nodes v \<le> 250000) Bad_backup"

section \<open>Records\<close>

record backup_record =
  br_legacy :: string
  br_schema :: int
  br_revision :: int
  br_created :: int
  br_updated :: int
  br_payload :: row
  br_parent :: string

record backup_tombstone =
  bt_legacy :: string
  bt_revision :: int
  bt_deleted :: int

definition listed :: "nat \<Rightarrow> pyval \<Rightarrow> transfer_error + pyval list" where
  "listed n v = (case v of PList vs \<Rightarrow> bindE (ensure (length vs \<le> n) Bad_backup) (\<lambda>_. Inr vs) | _ \<Rightarrow> Inl Bad_backup)"

fun is_list :: "pyval \<Rightarrow> bool" where
  "is_list (PList vs) = True"
| "is_list v = False"

definition agent_run_id :: "pyval \<Rightarrow> bool" where
  "agent_run_id v = (case v of
       PStr s \<Rightarrow> starts_with ''agent_'' s \<and> 7 \<le> length s \<and> length s \<le> 128 \<and>
         list_all (\<lambda>c. is_alnum c \<or> c = CHR ''_'' \<or> c = CHR ''-'') (drop 6 s)
     | _ \<Rightarrow> False)"

definition validate_message :: "int \<Rightarrow> pyval \<Rightarrow> transfer_error + unit" where
  "validate_message schema v =
    (case v of
       PDict m \<Rightarrow>
         if KStr ''assistantExecution'' \<notin> set (map fst m) then Inr ()
         else
           bindE (the_object (fetch m ''assistantExecution'')) (\<lambda>reference.
           if fetch reference ''kind'' = PStr ''quick_answer'' then exact_keys reference [''kind'']
           else if schema = 5 \<and> fetch reference ''kind'' = PStr ''agent_research'' then
             bindE (exact_keys reference [''kind'', ''runId'', ''createdAt'']) (\<lambda>_.
             bindE (exact_keys m [''id'', ''sender'', ''text'', ''assistantExecution'']) (\<lambda>_.
             bindE (ensure (fetch m ''sender'' = PStr ''assistant'' \<and> fetch m ''text'' = PStr [] \<and> is_str (fetch m ''id''))
               Bad_backup) (\<lambda>_.
             bindE (ensure (agent_run_id (fetch reference ''runId'')) Bad_backup) (\<lambda>_.
             bindE (timestamp (fetch reference ''createdAt'')) (\<lambda>_. Inr ())))))
           else Inl Bad_backup)
     | _ \<Rightarrow> Inr ())"

definition or_empty :: "row \<Rightarrow> string \<Rightarrow> pyval" where
  "or_empty r k = (case dict_get r k of None \<Rightarrow> PList [] | Some v \<Rightarrow> v)"

definition conversation_ok :: "backup_record \<Rightarrow> transfer_error + unit" where
  "conversation_ok r =
    (let p = br_payload r in
     bindE (ensure (br_schema r \<in> {4, 5} \<and> py_eq (fetch p ''schemaVersion'') (PInt (br_schema r))) Bad_backup) (\<lambda>_.
     bindE (ensure (py_eq (fetch p ''revision'') (PInt (br_revision r))) Bad_backup) (\<lambda>_.
     bindE (ensure (py_eq (fetch p ''createdAt'') (PInt (br_created r)) \<and>
                    py_eq (fetch p ''updatedAt'') (PInt (br_updated r))) Bad_backup) (\<lambda>_.
     bindE (ensure (is_str (fetch p ''sessionId'') \<and> is_str (fetch p ''title'')) Bad_backup) (\<lambda>_.
     bindE (ensure (hashable (fetch p ''titleMode'')) Backup_type) (\<lambda>_.
     bindE (ensure (fetch p ''titleMode'' \<in> {PStr ''auto'', PStr ''custom''}) Bad_backup) (\<lambda>_.
     bindE (listed 5000 (fetch p ''messages'')) (\<lambda>ms.
     bindE (mapE (validate_message (br_schema r)) ms) (\<lambda>_.
     bindE (ensure (is_str (fetch p ''draft'') \<and> is_list (fetch p ''bookmarkedMessageIds''))
       Bad_backup) (\<lambda>_.
     bindE (listed 50 (or_empty p ''notes'')) (\<lambda>_.
     bindE (listed 100 (or_empty p ''variants'')) (\<lambda>_. Inr ()))))))))))))"

definition collection_ok :: "backup_record \<Rightarrow> transfer_error + unit" where
  "collection_ok r =
    (let p = br_payload r; schema = fetch p ''schemaVersion'' in
     bindE (ensure (br_schema r \<in> {1, 2}) Bad_backup) (\<lambda>_.
     bindE (ensure (br_schema r = 1 \<longrightarrow> schema = PNone) Bad_backup) (\<lambda>_.
     bindE (ensure (br_schema r = 2 \<longrightarrow> py_eq schema (PInt 2)) Bad_backup) (\<lambda>_.
     bindE (case fetch p ''name'' of PStr s \<Rightarrow> ensure (\<not> is_blank s) Bad_backup | _ \<Rightarrow> Inl Bad_backup) (\<lambda>_.
     bindE (ensure (KStr ''items'' \<notin> set (map fst p)) Bad_backup) (\<lambda>_.
     ensure (py_eq (fetch p ''createdAt'') (PInt (br_created r)) \<and>
             py_eq (fetch p ''updatedAt'') (PInt (br_updated r))) Bad_backup))))))"

definition evidence_ok :: "backup_record \<Rightarrow> transfer_error + unit" where
  "evidence_ok r =
    (let p = br_payload r in
     bindE (ensure (br_schema r \<in> {1, 2}) Bad_backup) (\<lambda>_.
     bindE (ensure (is_str (fetch p ''citation'') \<and> is_str (fetch p ''excerpt'')) Bad_backup) (\<lambda>_.
     ensure (py_eq (fetch p ''savedAt'') (PInt (br_created r)) \<and> br_updated r = br_created r) Bad_backup)))"

definition record_keys :: "string list" where
  "record_keys = [''legacy_id'', ''schema_version'', ''revision'', ''created_at'', ''updated_at'', ''payload'']"

text \<open>
  \<open>_validate_record\<close>.  The parent of an evidence item is validated after its schema version
  in the source; both failures raise the same exception.
\<close>

definition validate_record :: "transfer_env \<Rightarrow> string \<Rightarrow> pyval \<Rightarrow> transfer_error + backup_record" where
  "validate_record e kind raw =
     bindE (the_object raw) (\<lambda>r.
     bindE (exact_keys r (if kind = ''evidence_item'' then ''parent_legacy_id'' # record_keys else record_keys)) (\<lambda>_.
     bindE (legacy_id (fetch r ''legacy_id'')) (\<lambda>legacy.
     bindE (positive_int (fetch r ''schema_version'')) (\<lambda>schema.
     bindE (positive_int (fetch r ''revision'')) (\<lambda>revision.
     bindE (timestamp (fetch r ''created_at'')) (\<lambda>created.
     bindE (timestamp (fetch r ''updated_at'')) (\<lambda>updated.
     bindE (ensure (created \<le> updated) Bad_backup) (\<lambda>_.
     bindE (the_object (fetch r ''payload'')) (\<lambda>payload.
     bindE (validate_json_tree e (PDict payload)) (\<lambda>_.
     bindE (ensure (fetch payload ''id'' = PStr legacy) Bad_backup) (\<lambda>_.
     bindE (if kind = ''evidence_item'' then legacy_id (fetch r ''parent_legacy_id'') else Inr []) (\<lambda>parent.
     let br = \<lparr>br_legacy = legacy, br_schema = schema, br_revision = revision, br_created = created,
               br_updated = updated, br_payload = payload, br_parent = parent\<rparr> in
     bindE (if kind = ''conversation'' then conversation_ok br
            else if kind = ''collection'' then collection_ok br else evidence_ok br) (\<lambda>_.
     Inr br)))))))))))))"

definition validate_tombstone :: "pyval \<Rightarrow> transfer_error + backup_tombstone" where
  "validate_tombstone raw =
     bindE (the_object raw) (\<lambda>r.
     bindE (exact_keys r [''kind'', ''legacy_id'', ''schema_version'', ''revision'', ''deleted_at'']) (\<lambda>_.
     bindE (ensure (fetch r ''kind'' = PStr ''conversation'') Bad_backup) (\<lambda>_.
     bindE (positive_int (fetch r ''schema_version'')) (\<lambda>schema.
     bindE (ensure (schema = 1) Bad_backup) (\<lambda>_.
     bindE (legacy_id (fetch r ''legacy_id'')) (\<lambda>legacy.
     bindE (positive_int (fetch r ''revision'')) (\<lambda>revision.
     bindE (timestamp (fetch r ''deleted_at'')) (\<lambda>deleted.
     Inr \<lparr>bt_legacy = legacy, bt_revision = revision, bt_deleted = deleted\<rparr>))))))))"

text \<open>The descriptor itself and its count.\<close>

definition validate_unsupported :: "transfer_env \<Rightarrow> pyval \<Rightarrow> transfer_error + row \<times> int" where
  "validate_unsupported e raw =
     bindE (the_object raw) (\<lambda>r.
     bindE (exact_keys r [''source'', ''schema_version'', ''count'', ''reason'']) (\<lambda>_.
     bindE (ensure (is_str (fetch r ''source'') \<and> fetch r ''source'' \<noteq> PStr []) Bad_backup) (\<lambda>_.
     bindE (if fetch r ''schema_version'' = PNone then Inr 1 else positive_int (fetch r ''schema_version'')) (\<lambda>_.
     bindE (positive_int (fetch r ''count'')) (\<lambda>n.
     bindE (ensure (is_str (fetch r ''reason'') \<and> fetch r ''reason'' \<noteq> PStr []) Bad_backup) (\<lambda>_.
     bindE (ensure (length (py_str (fetch r ''reason'')) \<le> 256 \<and> length (py_str (fetch r ''source'')) \<le> 128) Bad_backup) (\<lambda>_.
     bindE (validate_json_tree e (PDict r)) (\<lambda>_. Inr (r, n)))))))))"

section \<open>The envelope\<close>

record backup =
  vb_digest :: string
  vb_conversations :: "backup_record list"
  vb_collections :: "backup_record list"
  vb_items :: "backup_record list"
  vb_favorites :: "string list"
  vb_tombstones :: "backup_tombstone list"
  vb_unsupported :: "(row \<times> int) list"

definition backup_records :: "backup \<Rightarrow> (string \<times> backup_record) list" where
  "backup_records b =
     map (Pair ''conversation'') (vb_conversations b) @ map (Pair ''collection'') (vb_collections b) @
     map (Pair ''evidence_item'') (vb_items b)"

definition envelope_keys :: "string list" where
  "envelope_keys = [''format'', ''version'', ''exported_at'', ''source_schemas'', ''source_counts'', ''conversations'',
     ''collections'', ''evidence_items'', ''favorites'', ''tombstones'', ''unsupported'', ''digest'']"

text \<open>\<open>json.dumps\<close> with its default separators.\<close>

fun spaced_text :: "pyval \<Rightarrow> string" where
  "spaced_text (PList vs) = ''['' @ join '', '' (map spaced_text vs) @ '']''"
| "spaced_text (PTuple vs) = ''['' @ join '', '' (map spaced_text vs) @ '']''"
| "spaced_text (PDict kvs) =
     ''{'' @ join '', '' (map (\<lambda>kv. json_string (key_str (fst kv)) @ '': '' @ spaced_text (snd kv)) kvs) @ ''}''"
| "spaced_text v = json_text v"

definition z_replaced :: "string \<Rightarrow> string" where
  "z_replaced s = concat (map (\<lambda>c. if c = CHR ''Z'' then ''+00:00'' else [c]) s)"

definition hex_digest :: "string \<Rightarrow> bool" where
  "hex_digest s \<longleftrightarrow> length s = 64 \<and> list_all (\<lambda>c. is_digit c \<or> c \<in> set ''abcdef'') s"

text \<open>A list of positive integers that is sorted and has no duplicates.\<close>

definition schema_list :: "pyval \<Rightarrow> transfer_error + int list" where
  "schema_list v = (case v of
       PList vs \<Rightarrow> bindE (mapE positive_int vs) (\<lambda>ns. bindE (ensure (ns = sort (dedup ns)) Bad_backup) (\<lambda>_. Inr ns))
     | _ \<Rightarrow> Inl Bad_backup)"

definition one_if :: "'a list \<Rightarrow> int list" where
  "one_if xs = (if xs = [] then [] else [1])"

definition expected_schemas :: "backup \<Rightarrow> int list \<times> int list \<times> int list \<times> int list" where
  "expected_schemas b =
     (sort (dedup (map br_schema (vb_conversations b))), sort (dedup (map br_schema (vb_collections b @ vb_items b))),
      one_if (vb_favorites b), one_if (vb_tombstones b))"

definition source_schemas :: "pyval \<Rightarrow> transfer_error + int list \<times> int list \<times> int list \<times> int list" where
  "source_schemas v =
     bindE (the_object v) (\<lambda>r.
     bindE (exact_keys r [''conversations'', ''evidence_collections'', ''favorites'', ''tombstones'']) (\<lambda>_.
     bindE (schema_list (fetch r ''conversations'')) (\<lambda>c.
     bindE (schema_list (fetch r ''evidence_collections'')) (\<lambda>i.
     bindE (schema_list (fetch r ''favorites'')) (\<lambda>f.
     bindE (schema_list (fetch r ''tombstones'')) (\<lambda>t.
     bindE (ensure (list_all (\<lambda>n. n \<le> 5) c \<and> list_all (\<lambda>n. n \<le> 2) i \<and> list_all (\<lambda>n. n \<le> 1) (f @ t)) Bad_backup) (\<lambda>_.
     Inr (c, i, f, t))))))))"

definition count_row :: "nat \<Rightarrow> nat \<Rightarrow> nat \<Rightarrow> nat \<Rightarrow> nat \<Rightarrow> int \<Rightarrow> row" where
  "count_row c k i f t u =
     [(KStr ''conversations'', PInt (int c)), (KStr ''collections'', PInt (int k)), (KStr ''evidence_items'', PInt (int i)),
      (KStr ''favorites'', PInt (int f)), (KStr ''tombstones'', PInt (int t)), (KStr ''unsupported'', PInt u)]"

definition unsupported_count :: "backup \<Rightarrow> int" where
  "unsupported_count b = sum_list (map snd (vb_unsupported b))"

definition backup_counts :: "backup \<Rightarrow> row" where
  "backup_counts b = count_row (length (vb_conversations b)) (length (vb_collections b)) (length (vb_items b))
     (length (vb_favorites b)) (length (vb_tombstones b)) (unsupported_count b)"

definition identities_ok :: "backup \<Rightarrow> bool" where
  "identities_ok b \<longleftrightarrow>
     distinct (map br_legacy (vb_conversations b)) \<and> distinct (map br_legacy (vb_collections b)) \<and>
     distinct (map br_legacy (vb_items b)) \<and> distinct (vb_favorites b) \<and> distinct (map bt_legacy (vb_tombstones b)) \<and>
     set (map bt_legacy (vb_tombstones b)) \<inter> set (map br_legacy (vb_conversations b)) = {} \<and>
     list_all (\<lambda>r. br_parent r \<in> set (map br_legacy (vb_collections b))) (vb_items b) \<and>
     list_all (\<lambda>f. f \<in> set (map br_legacy (vb_collections b))) (vb_favorites b)"

text \<open>The parts of the envelope up to its lists.\<close>

definition validate_head :: "transfer_env \<Rightarrow> row \<Rightarrow> transfer_error + string" where
  "validate_head e r =
     bindE (exact_keys r envelope_keys) (\<lambda>_.
     bindE (ensure (canon (PDict r) \<noteq> None) Bad_backup) (\<lambda>_.
     bindE (ensure (utf8_len (spaced_text (PDict r)) \<le> 26214400) Bad_backup) (\<lambda>_.
     bindE (ensure (fetch r ''format'' = PStr ''enterprise-document-qa.workspace'') Bad_backup) (\<lambda>_.
     bindE (ensure (py_eq (fetch r ''version'') (PInt 1)) Bad_backup) (\<lambda>_.
     bindE (case fetch r ''exported_at'' of
              PStr s \<Rightarrow> ensure (length s \<le> 64 \<and> te_iso e (z_replaced s)) Bad_backup | _ \<Rightarrow> Inl Bad_backup) (\<lambda>_.
     case fetch r ''digest'' of
       PStr d \<Rightarrow> bindE (ensure (hex_digest d) Bad_backup) (\<lambda>_. Inr d)
     | _ \<Rightarrow> Inl Bad_backup))))))"

text \<open>Everything but the comparison of the digests.\<close>

definition validate_contents :: "transfer_env \<Rightarrow> row \<Rightarrow> transfer_error + backup" where
  "validate_contents e r =
     bindE (validate_head e r) (\<lambda>digest.
     bindE (source_schemas (fetch r ''source_schemas'')) (\<lambda>schemas.
     bindE (listed 100 (fetch r ''conversations'')) (\<lambda>cs.
     bindE (listed 50 (fetch r ''collections'')) (\<lambda>ks.
     bindE (listed 5000 (fetch r ''evidence_items'')) (\<lambda>is.
     bindE (listed 50 (fetch r ''favorites'')) (\<lambda>fs.
     bindE (listed 1000 (fetch r ''tombstones'')) (\<lambda>ts.
     bindE (listed 100 (fetch r ''unsupported'')) (\<lambda>us.
     bindE (mapE (validate_record e ''conversation'') cs) (\<lambda>cs.
     bindE (mapE (validate_record e ''collection'') ks) (\<lambda>ks.
     bindE (mapE (validate_record e ''evidence_item'') is) (\<lambda>is.
     bindE (mapE legacy_id fs) (\<lambda>fs.
     bindE (mapE validate_tombstone ts) (\<lambda>ts.
     bindE (mapE (validate_unsupported e) us) (\<lambda>us.
     let b = \<lparr>vb_digest = digest, vb_conversations = cs, vb_collections = ks, vb_items = is, vb_favorites = fs,
              vb_tombstones = ts, vb_unsupported = us\<rparr> in
     bindE (ensure (schemas = expected_schemas b) Bad_backup) (\<lambda>_.
     bindE (ensure (identities_ok b) Bad_backup) (\<lambda>_.
     bindE (the_object (fetch r ''source_counts'')) (\<lambda>counts.
     bindE (exact_keys counts (map (\<lambda>kv. key_str (fst kv)) (backup_counts b))) (\<lambda>_.
     bindE (ensure (py_eq (PDict counts) (PDict (backup_counts b))) Bad_backup) (\<lambda>_.
     Inr b)))))))))))))))))))"

definition validate_workspace_backup :: "transfer_env \<Rightarrow> pyval \<Rightarrow> transfer_error + backup" where
  "validate_workspace_backup e raw =
     bindE (the_object raw) (\<lambda>r.
     bindE (validate_contents e r) (\<lambda>b.
     bindE (compute_backup_digest (te_sha e) r) (\<lambda>calculated.
     bindE (ensure (vb_digest b = calculated) Bad_backup) (\<lambda>_.
     Inr b))))"

end
