(* ===== verification/Transfer_Store.thy ===== *)
theory Transfer_Store
  imports Transfer_Model
begin

text \<open>
  \<open>WorkspaceTransferService\<close> of \<open>src/workspace/transfer.py\<close>: the plan of an import, its preview,
  the import itself and the export, over the tables of the record store and the table of
  imports.  A column of JSON text holds the value it decodes to, and two such columns written
  canonically are equal exactly if their texts are.
\<close>

section \<open>Tables\<close>

record import_row =
  im_id :: string
  im_digest :: string
  im_receipt :: json_col
  im_completed :: string

record transfer_db =
  td_records :: record_db
  td_imports :: "import_row list"

section \<open>Planning\<close>

record planned =
  pl_action :: action
  pl_kind :: string
  pl_key :: rec_key
  pl_source :: "backup_record + backup_tombstone"

definition wrapped_payload :: "transfer_env \<Rightarrow> string list \<Rightarrow> string \<Rightarrow> backup_record \<Rightarrow> transfer_error + pyval" where
  "wrapped_payload e favorites kind br =
    (let front = [(KStr ''workspace_transfer_version'', PInt 1), (KStr ''source_kind'', PStr kind),
                  (KStr ''legacy_id'', PStr (br_legacy br)), (KStr ''source_schema_version'', PInt (br_schema br)),
                  (KStr ''data'', PDict (br_payload br))]
     in if kind = ''collection'' then Inr (PDict (front @ [(KStr ''favorite'', PBool (br_legacy br \<in> set favorites))]))
        else if kind = ''evidence_item'' then
          bindE (workspace_id e ''collection'' (br_parent br)) (\<lambda>w.
          Inr (PDict (front @ [(KStr ''parent_legacy_id'', PStr (br_parent br)), (KStr ''parent_workspace_id'', PStr w)])))
        else Inr (PDict front))"

definition incoming :: "transfer_env \<Rightarrow> string list \<Rightarrow> string \<Rightarrow> backup_record \<Rightarrow> transfer_error + pyval" where
  "incoming e favorites kind br =
     bindE (wrapped_payload e favorites kind br) (\<lambda>v. of_opt Backup_type (canon_js v))"

definition entity_key :: "transfer_env \<Rightarrow> string \<Rightarrow> string \<Rightarrow> transfer_error + rec_key" where
  "entity_key e kind legacy =
     bindE (workspace_id e kind legacy) (\<lambda>w.
     bindE (of_opt Bad_backup (entity_type_of kind)) (\<lambda>t. Inr (t, w)))"

text \<open>The stored record was imported for the same source record.\<close>

definition owned :: "string \<Rightarrow> string \<Rightarrow> rec_row \<Rightarrow> bool" where
  "owned kind legacy r = (case rr_payload r of
       Json (PDict w) \<Rightarrow> py_eq (fetch w ''workspace_transfer_version'') (PInt 1) \<and>
         fetch w ''source_kind'' = PStr kind \<and> fetch w ''legacy_id'' = PStr legacy
     | _ \<Rightarrow> False)"

definition record_action :: "record_db \<Rightarrow> rec_key \<Rightarrow> string \<Rightarrow> backup_record \<Rightarrow> pyval \<Rightarrow> action" where
  "record_action db k kind br w =
    (case find_live db k of
       None \<Rightarrow> Act_create
     | Some r \<Rightarrow>
         if \<not> owned kind (br_legacy br) r then Act_conflict
         else if rr_revision r = br_revision br \<and> rr_payload r = Json w then Act_duplicate
         else if rr_revision r < br_revision br then Act_replace_older
         else Act_conflict)"

definition plan_record ::
  "transfer_env \<Rightarrow> string list \<Rightarrow> record_db \<Rightarrow> string \<times> backup_record \<Rightarrow> transfer_error + planned" where
  "plan_record e favorites db x =
    (case x of (kind, br) \<Rightarrow>
     bindE (entity_key e kind (br_legacy br)) (\<lambda>k.
     bindE (if find_tomb db k \<noteq> None then Inr Act_blocked
            else bindE (incoming e favorites kind br) (\<lambda>w. Inr (record_action db k kind br w))) (\<lambda>a.
     Inr \<lparr>pl_action = a, pl_kind = kind, pl_key = k, pl_source = Inl br\<rparr>)))"

definition tombstone_action :: "record_db \<Rightarrow> rec_key \<Rightarrow> backup_tombstone \<Rightarrow> action" where
  "tombstone_action db k bt =
    (if (case find_live db k of
           None \<Rightarrow> False
         | Some r \<Rightarrow> \<not> owned ''conversation'' (bt_legacy bt) r \<or> bt_revision bt < rr_revision r) then Act_tomb_conflict
     else case find_tomb db k of
       None \<Rightarrow> Act_tomb_create
     | Some t \<Rightarrow> if tr_revision t = bt_revision bt then Act_tomb_duplicate
                else if tr_revision t < bt_revision bt then Act_tomb_replace
                else Act_tomb_conflict)"

definition plan_tombstone :: "transfer_env \<Rightarrow> record_db \<Rightarrow> backup_tombstone \<Rightarrow> transfer_error + planned" where
  "plan_tombstone e db bt =
     bindE (entity_key e ''conversation'' (bt_legacy bt)) (\<lambda>k.
     Inr \<lparr>pl_action = tombstone_action db k bt, pl_kind = ''conversation'', pl_key = k, pl_source = Inr bt\<rparr>)"

definition plan_actions :: "transfer_env \<Rightarrow> record_db \<Rightarrow> backup \<Rightarrow> transfer_error + planned list" where
  "plan_actions e db b =
     bindE (mapE (plan_record e (vb_favorites b) db) (backup_records b)) (\<lambda>ps.
     bindE (mapE (plan_tombstone e db) (vb_tombstones b)) (\<lambda>ts. Inr (ps @ ts)))"

definition planned_mapping :: "planned \<Rightarrow> string \<times> string \<times> string" where
  "planned_mapping p =
     (pl_kind p, case_sum br_legacy bt_legacy (pl_source p), snd (pl_key p))"

definition mapping_value :: "string \<times> string \<times> string \<Rightarrow> pyval" where
  "mapping_value m = (case m of (kind, legacy, w) \<Rightarrow>
     PDict [(KStr ''kind'', PStr kind), (KStr ''legacy_id'', PStr legacy), (KStr ''workspace_id'', PStr w)])"

text \<open>The mapping of a tombstone is only added when it is not there yet.\<close>

definition plan_mappings :: "planned list \<Rightarrow> (string \<times> string \<times> string) list" where
  "plan_mappings ps =
     sort_key (\<lambda>m. (fst m, fst (snd m)))
       (foldl (\<lambda>ms p. case pl_source p of
                  Inl _ \<Rightarrow> ms @ [planned_mapping p]
                | Inr _ \<Rightarrow> if planned_mapping p \<in> set ms then ms else ms @ [planned_mapping p]) [] ps)"

definition count_of :: "action list \<Rightarrow> planned list \<Rightarrow> int" where
  "count_of as ps = int (length (filter (\<lambda>p. pl_action p \<in> set as) ps))"

definition duplicate_actions :: "action list" where
  "duplicate_actions = [Act_duplicate, Act_tomb_duplicate]"

definition conflict_actions :: "action list" where
  "conflict_actions = [Act_conflict, Act_blocked, Act_tomb_conflict]"

definition preview_of :: "backup \<Rightarrow> planned list \<Rightarrow> row" where
  "preview_of b ps =
     [(KStr ''format'', PStr ''enterprise-document-qa.workspace''), (KStr ''version'', PInt 1),
      (KStr ''digest'', PStr (vb_digest b)),
      (KStr ''compatibility'', PStr (if vb_unsupported b = [] then ''compatible'' else ''partial'')),
      (KStr ''supported'', PDict
        [(KStr ''conversations'', PInt (int (length (vb_conversations b)))),
         (KStr ''collections'', PInt (int (length (vb_collections b)))),
         (KStr ''evidence_items'', PInt (int (length (vb_items b)))),
         (KStr ''favorites'', PInt (int (length (vb_favorites b))))]),
      (KStr ''unsupported'', PInt (unsupported_count b)),
      (KStr ''unsupported_sources'', PList (map (\<lambda>u. PDict (fst u)) (vb_unsupported b))),
      (KStr ''duplicates'', PInt (count_of duplicate_actions ps)),
      (KStr ''potential_conflicts'', PInt (count_of conflict_actions ps)),
      (KStr ''tombstones'', PInt (int (length (vb_tombstones b)))),
      (KStr ''records_to_create'', PInt (count_of [Act_create] ps)),
      (KStr ''records_to_update'', PInt (count_of [Act_replace_older] ps)),
      (KStr ''records_to_skip'', PInt (count_of (duplicate_actions @ conflict_actions) ps)),
      (KStr ''mapping_required'', PInt (int (length (plan_mappings ps)))),
      (KStr ''mappings'', PList (map mapping_value (plan_mappings ps)))]"

definition preview_backup :: "transfer_env \<Rightarrow> pyval \<Rightarrow> transfer_db \<Rightarrow> transfer_error + row" where
  "preview_backup e raw td =
     bindE (validate_workspace_backup e raw) (\<lambda>b.
     bindE (plan_actions e (td_records td) b) (\<lambda>ps. Inr (preview_of b ps)))"

section \<open>Import\<close>

definition iso_of_ms :: "int \<Rightarrow> transfer_error + string" where
  "iso_of_ms ms = of_opt Backup_value (iso_short (us_from_ms ms))"

text \<open>An SQLite integer has 64 bits.\<close>

definition sql_int :: "int \<Rightarrow> transfer_error + unit" where
  "sql_int n = ensure (n < 2 ^ 63) Backup_value"

definition imported_row ::
  "transfer_env \<Rightarrow> string list \<Rightarrow> string \<Rightarrow> backup_record \<Rightarrow> transfer_error + rec_row" where
  "imported_row e favorites kind br =
     bindE (incoming e favorites kind br) (\<lambda>w.
     bindE (iso_of_ms (br_created br)) (\<lambda>c.
     bindE (iso_of_ms (br_updated br)) (\<lambda>u.
     bindE (sql_int (br_revision br)) (\<lambda>_.
     Inr \<lparr>rr_revision = br_revision br, rr_payload = Json w, rr_created = c, rr_updated = u\<rparr>))))"

definition apply_record ::
  "transfer_env \<Rightarrow> string list \<Rightarrow> action \<Rightarrow> string \<Rightarrow> rec_key \<Rightarrow> backup_record \<Rightarrow> record_db \<Rightarrow> transfer_error + record_db" where
  "apply_record e favorites a kind k br db =
     bindE (imported_row e favorites kind br) (\<lambda>r.
     if a = Act_create then
       bindE (ensure (find_live db k = None) Backup_integrity) (\<lambda>_. Inr (put_live k r db))
     else Inr (if find_live db k = None then db else put_live k r db))"

definition apply_tombstone :: "rec_key \<Rightarrow> backup_tombstone \<Rightarrow> record_db \<Rightarrow> transfer_error + record_db" where
  "apply_tombstone k bt db =
     bindE (iso_of_ms (bt_deleted bt)) (\<lambda>d.
     bindE (sql_int (bt_revision bt)) (\<lambda>_.
     Inr (bury k \<lparr>tr_revision = bt_revision bt, tr_deleted = d\<rparr> db)))"

definition apply_action :: "transfer_env \<Rightarrow> string list \<Rightarrow> planned \<Rightarrow> record_db \<Rightarrow> transfer_error + record_db" where
  "apply_action e favorites p db =
    (case pl_source p of
       Inl br \<Rightarrow> apply_record e favorites (pl_action p) (pl_kind p) (pl_key p) br db
     | Inr bt \<Rightarrow> apply_tombstone (pl_key p) bt db)"

definition skipped :: "action \<Rightarrow> bool" where
  "skipped a \<longleftrightarrow> a \<in> set (duplicate_actions @ conflict_actions)"

fun apply_plan :: "transfer_env \<Rightarrow> string list \<Rightarrow> nat \<Rightarrow> planned list \<Rightarrow> record_db \<Rightarrow> transfer_error + record_db" where
  "apply_plan e favorites applied [] db = Inr db"
| "apply_plan e favorites applied (p # ps) db =
     (if skipped (pl_action p) then apply_plan e favorites applied ps db
      else
        bindE (apply_action e favorites p db) (\<lambda>db'.
        bindE (ensure (\<not> te_fault e (pl_action p) (applied + 1)) Backup_fault) (\<lambda>_.
        apply_plan e favorites (applied + 1) ps db')))"

definition import_id :: "string \<Rightarrow> string" where
  "import_id digest = ''import-'' @ take 40 digest"

definition receipt_of :: "transfer_env \<Rightarrow> backup \<Rightarrow> planned list \<Rightarrow> row" where
  "receipt_of e b ps =
     [(KStr ''import_id'', PStr (import_id (vb_digest b))), (KStr ''status'', PStr ''committed''),
      (KStr ''digest'', PStr (vb_digest b)), (KStr ''completed_at'', PStr (te_now e))] @
     filter (\<lambda>kv. fst kv \<noteq> KStr ''digest'') (preview_of b ps)"

definition find_import :: "transfer_db \<Rightarrow> string \<Rightarrow> import_row option" where
  "find_import td digest = find (\<lambda>r. im_digest r = digest) (td_imports td)"

definition commit_import :: "transfer_env \<Rightarrow> backup \<Rightarrow> transfer_db \<Rightarrow> transfer_error + row \<times> transfer_db" where
  "commit_import e b td =
     bindE (plan_actions e (td_records td) b) (\<lambda>ps.
     bindE (apply_plan e (vb_favorites b) 0 ps (td_records td)) (\<lambda>db.
     let receipt = receipt_of e b ps in
     bindE (of_opt Backup_type (canon_js (PDict receipt))) (\<lambda>stored.
     bindE (ensure (import_id (vb_digest b) \<notin> set (map im_id (td_imports td))) Backup_integrity) (\<lambda>_.
     Inr (receipt, \<lparr>td_records = db, td_imports = td_imports td @
       [\<lparr>im_id = import_id (vb_digest b), im_digest = vb_digest b, im_receipt = Json stored, im_completed = te_now e\<rparr>]\<rparr>)))))"

definition import_in :: "transfer_env \<Rightarrow> backup \<Rightarrow> transfer_db \<Rightarrow> transfer_error + row \<times> transfer_db" where
  "import_in e b td =
    (case find_import td (vb_digest b) of
       Some prior \<Rightarrow> (case im_receipt prior of Json (PDict receipt) \<Rightarrow> Inr (receipt, td) | _ \<Rightarrow> Inl Bad_backup)
     | None \<Rightarrow> commit_import e b td)"

text \<open>\<open>hmac.compare_digest\<close> refuses strings that are not ASCII.\<close>

definition confirm_digest :: "pyval \<Rightarrow> string \<Rightarrow> transfer_error + unit" where
  "confirm_digest v digest = (case v of
       PStr s \<Rightarrow> bindE (ensure (list_all (\<lambda>c. ord c < 128) s) Backup_type) (\<lambda>_. ensure (s = digest) Bad_backup)
     | _ \<Rightarrow> Inl Bad_backup)"

definition import_backup ::
  "transfer_env \<Rightarrow> pyval \<Rightarrow> pyval \<Rightarrow> transfer_db \<Rightarrow> (transfer_error + row) \<times> transfer_db" where
  "import_backup e raw preview_digest td =
    (case bindE (validate_workspace_backup e raw) (\<lambda>b.
          bindE (confirm_digest preview_digest (vb_digest b)) (\<lambda>_. import_in e b td)) of
       Inl err \<Rightarrow> (Inl err, td)
     | Inr (receipt, td') \<Rightarrow> (Inr receipt, td'))"

section \<open>Export\<close>

definition ms_of_column :: "string \<Rightarrow> transfer_error + int" where
  "ms_of_column s = of_opt Bad_backup (ms_from_iso s)"

type_synonym mapping_table = "(rec_key \<times> string \<times> string) list"

text \<open>One mapping of a receipt: later ones replace earlier ones.\<close>

definition add_mapping :: "mapping_table \<Rightarrow> pyval \<Rightarrow> transfer_error + mapping_table" where
  "add_mapping ms v = (case v of
       PDict m \<Rightarrow>
         bindE (ensure (hashable (fetch m ''kind'')) Backup_type) (\<lambda>_.
         Inr (case (fetch m ''kind'', fetch m ''legacy_id'', fetch m ''workspace_id'') of
                (PStr kind, PStr legacy, PStr w) \<Rightarrow>
                  (case entity_type_of kind of None \<Rightarrow> ms | Some t \<Rightarrow> ((t, w), (kind, legacy)) # ms)
              | _ \<Rightarrow> ms))
     | _ \<Rightarrow> Inr ms)"

fun foldE :: "('a \<Rightarrow> 'b \<Rightarrow> 'e + 'a) \<Rightarrow> 'a \<Rightarrow> 'b list \<Rightarrow> 'e + 'a" where
  "foldE f a [] = Inr a"
| "foldE f a (x # xs) = bindE (f a x) (\<lambda>a'. foldE f a' xs)"

text \<open>The mappings and the number of receipts that cannot be read.\<close>

definition add_receipt :: "mapping_table \<times> int \<Rightarrow> import_row \<Rightarrow> transfer_error + mapping_table \<times> int" where
  "add_receipt s r = (case (s, im_receipt r) of
       ((ms, n), Json (PDict receipt)) \<Rightarrow>
         bindE (of_opt Backup_type (py_iter (or_empty receipt ''mappings''))) (\<lambda>vs.
         bindE (foldE add_mapping ms vs) (\<lambda>ms'. Inr (ms', n)))
     | ((ms, n), Json _) \<Rightarrow> Inr (ms, n)
     | ((ms, n), _) \<Rightarrow> Inr (ms, n + 1))"

record exports =
  ex_conversations :: "row list"
  ex_collections :: "row list"
  ex_items :: "row list"
  ex_favorites :: "pyval list"
  ex_tombstones :: "row list"
  ex_unsupported :: int

definition add_live :: "exports \<Rightarrow> rec_key \<times> rec_row \<Rightarrow> transfer_error + exports" where
  "add_live x kr = (case rr_payload (snd kr) of
       Json (PDict w) \<Rightarrow>
         if \<not> py_eq (fetch w ''workspace_transfer_version'') (PInt 1) then Inr (x\<lparr>ex_unsupported := ex_unsupported x + 1\<rparr>)
         else
           bindE (ensure (hashable (fetch w ''source_kind'')) Backup_type) (\<lambda>_.
           case (fetch w ''source_kind'', fetch w ''data'') of
             (PStr kind, PDict payload) \<Rightarrow>
               if entity_type_of kind = None then Inr (x\<lparr>ex_unsupported := ex_unsupported x + 1\<rparr>)
               else
                 bindE (ms_of_column (rr_created (snd kr))) (\<lambda>created.
                 bindE (ms_of_column (rr_updated (snd kr))) (\<lambda>updated.
                 let r = [(KStr ''legacy_id'', fetch w ''legacy_id''),
                          (KStr ''schema_version'', fetch w ''source_schema_version''),
                          (KStr ''revision'', PInt (rr_revision (snd kr))), (KStr ''created_at'', PInt created),
                          (KStr ''updated_at'', PInt updated), (KStr ''payload'', PDict payload)] in
                 Inr (if kind = ''conversation'' then x\<lparr>ex_conversations := ex_conversations x @ [r]\<rparr>
                      else if kind = ''collection'' then
                        x\<lparr>ex_collections := ex_collections x @ [r],
                          ex_favorites := ex_favorites x @ (if fetch w ''favorite'' = PBool True then [fetch w ''legacy_id''] else [])\<rparr>
                      else x\<lparr>ex_items := ex_items x @ [r @ [(KStr ''parent_legacy_id'', fetch w ''parent_legacy_id'')]]\<rparr>)))
           | _ \<Rightarrow> Inr (x\<lparr>ex_unsupported := ex_unsupported x + 1\<rparr>))
     | _ \<Rightarrow> Inr (x\<lparr>ex_unsupported := ex_unsupported x + 1\<rparr>))"

definition add_tomb :: "mapping_table \<Rightarrow> exports \<Rightarrow> rec_key \<times> tomb_row \<Rightarrow> transfer_error + exports" where
  "add_tomb ms x kt = (case map_of ms (fst kt) of
       None \<Rightarrow> Inr (x\<lparr>ex_unsupported := ex_unsupported x + 1\<rparr>)
     | Some (kind, legacy) \<Rightarrow>
         if kind \<noteq> ''conversation'' then Inr (x\<lparr>ex_unsupported := ex_unsupported x + 1\<rparr>)
         else
           bindE (ms_of_column (tr_deleted (snd kt))) (\<lambda>deleted.
           Inr (x\<lparr>ex_tombstones := ex_tombstones x @
             [[(KStr ''kind'', PStr kind), (KStr ''legacy_id'', PStr legacy), (KStr ''schema_version'', PInt 1),
               (KStr ''revision'', PInt (tr_revision (snd kt))), (KStr ''deleted_at'', PInt deleted)]]\<rparr>)))"

section \<open>Building a backup\<close>

text \<open>
  A sort of identifiers that are not strings, or of schema versions that are not integers,
  raises in the source or leaves a backup that the final validation refuses.
\<close>

definition strings_at :: "string \<Rightarrow> row list \<Rightarrow> transfer_error + unit" where
  "strings_at k rs = ensure (list_all (\<lambda>r. is_str (fetch r k)) rs) Backup_type"

definition str_at :: "string \<Rightarrow> row \<Rightarrow> string" where
  "str_at k r = (case fetch r k of PStr s \<Rightarrow> s | _ \<Rightarrow> [])"

fun the_ints :: "pyval list \<Rightarrow> int list option" where
  "the_ints [] = Some []"
| "the_ints (PInt i # vs) = map_option (Cons i) (the_ints vs)"
| "the_ints (v # vs) = None"

definition schema_versions :: "row list \<Rightarrow> transfer_error + pyval" where
  "schema_versions rs =
     bindE (of_opt Backup_type (the_ints (map (\<lambda>r. fetch r ''schema_version'') rs))) (\<lambda>ns.
     Inr (PList (map PInt (sort (dedup ns)))))"

definition ordered_by :: "string \<Rightarrow> row list \<Rightarrow> pyval" where
  "ordered_by k rs = PList (map PDict (sort_key (str_at k) rs))"

definition build_workspace_backup :: "transfer_env \<Rightarrow> exports \<Rightarrow> row list \<Rightarrow> transfer_error + row" where
  "build_workspace_backup e x unsupported =
     bindE (schema_versions (ex_conversations x)) (\<lambda>conv_schemas.
     bindE (schema_versions (ex_collections x @ ex_items x)) (\<lambda>item_schemas.
     bindE (strings_at ''legacy_id'' (ex_conversations x @ ex_collections x @ ex_items x @ ex_tombstones x)) (\<lambda>_.
     bindE (strings_at ''parent_legacy_id'' (ex_items x)) (\<lambda>_.
     bindE (ensure (list_all is_str (ex_favorites x)) Backup_type) (\<lambda>_.
     let favorites = sort (dedup (map py_str (ex_favorites x)));
         one = (\<lambda>b. PList (if b then [PInt 1] else []));
         envelope =
           [(KStr ''format'', PStr ''enterprise-document-qa.workspace''), (KStr ''version'', PInt 1),
            (KStr ''exported_at'', PStr (te_now e)),
            (KStr ''source_schemas'', PDict
              [(KStr ''conversations'', conv_schemas), (KStr ''evidence_collections'', item_schemas),
               (KStr ''favorites'', one (ex_favorites x \<noteq> [])), (KStr ''tombstones'', one (ex_tombstones x \<noteq> []))]),
            (KStr ''source_counts'', PDict
              (count_row (length (ex_conversations x)) (length (ex_collections x)) (length (ex_items x)) (length favorites)
                (length (ex_tombstones x)) (sum_list (map (\<lambda>r. case fetch r ''count'' of PInt i \<Rightarrow> i | _ \<Rightarrow> 0) unsupported)))),
            (KStr ''conversations'', ordered_by ''legacy_id'' (ex_conversations x)),
            (KStr ''collections'', ordered_by ''legacy_id'' (ex_collections x)),
            (KStr ''evidence_items'',
              PList (map PDict (sort_key (\<lambda>r. (str_at ''parent_legacy_id'' r, str_at ''legacy_id'' r)) (ex_items x)))),
            (KStr ''favorites'', PList (map PStr favorites)),
            (KStr ''tombstones'', ordered_by ''legacy_id'' (ex_tombstones x)),
            (KStr ''unsupported'', PList (map PDict
              (sort_key (\<lambda>r. (str_at ''source'' r, case fetch r ''schema_version'' of PInt i \<Rightarrow> i | _ \<Rightarrow> 0, str_at ''reason'' r))
                unsupported)))] in
     bindE (compute_backup_digest (te_sha e) envelope) (\<lambda>digest.
     let envelope' = envelope @ [(KStr ''digest'', PStr digest)] in
     bindE (validate_workspace_backup e (PDict envelope')) (\<lambda>_. Inr envelope')))))))"

definition unsupported_rows :: "int \<Rightarrow> row list" where
  "unsupported_rows n =
    (if n = 0 then []
     else [[(KStr ''source'', PStr ''workspace_records''), (KStr ''schema_version'', PNone), (KStr ''count'', PInt n),
            (KStr ''reason'', PStr ''record is not part of the portable DATA-002 transfer contract'')]])"

definition no_exports :: "int \<Rightarrow> exports" where
  "no_exports n = \<lparr>ex_conversations = [], ex_collections = [], ex_items = [], ex_favorites = [],
     ex_tombstones = [], ex_unsupported = n\<rparr>"

text \<open>\<open>export_backup\<close> up to the call of \<open>build_workspace_backup\<close>, and the whole of it.\<close>

definition collect_exports :: "transfer_db \<Rightarrow> transfer_error + exports" where
  "collect_exports td =
     bindE (foldE add_receipt ([], 0) (sort_key im_id (td_imports td))) (\<lambda>s.
     bindE (foldE add_live (no_exports (snd s)) (sort_key fst (live (td_records td)))) (\<lambda>x.
     foldE (add_tomb (fst s)) x (sort_key fst (tombs (td_records td)))))"

definition export_backup :: "transfer_env \<Rightarrow> transfer_db \<Rightarrow> transfer_error + row" where
  "export_backup e td =
     bindE (collect_exports td) (\<lambda>x. build_workspace_backup e x (unsupported_rows (ex_unsupported x)))"

end
