(* ===== verification/Transfer_Effects.thy ===== *)
theory Transfer_Effects
  imports Transfer_Store Record_Properties
begin

text \<open>
  What an import does to the tables of the record store.  \<open>guarded\<close> is what the plan has
  checked before an action is applied; the lemmas follow the actions of a plan one by one.
\<close>

section \<open>What a plan has checked\<close>

definition guarded :: "record_db \<Rightarrow> planned \<Rightarrow> bool" where
  "guarded db p \<longleftrightarrow> skipped (pl_action p) \<or>
     (case pl_source p of
        Inl br \<Rightarrow>
          find_tomb db (pl_key p) = None \<and>
          (case find_live db (pl_key p) of
             None \<Rightarrow> pl_action p = Act_create
           | Some r \<Rightarrow> pl_action p = Act_replace_older \<and> owned (pl_kind p) (br_legacy br) r \<and> rr_revision r < br_revision br)
      | Inr bt \<Rightarrow>
          (\<forall>r. find_live db (pl_key p) = Some r \<longrightarrow>
             owned ''conversation'' (bt_legacy bt) r \<and> rr_revision r \<le> bt_revision bt) \<and>
          (\<forall>t. find_tomb db (pl_key p) = Some t \<longrightarrow> tr_revision t < bt_revision bt))"

lemma skipped_simps [simp]:
  "\<not> skipped Act_create" "\<not> skipped Act_replace_older" "\<not> skipped Act_tomb_create" "\<not> skipped Act_tomb_replace"
  "skipped Act_duplicate" "skipped Act_conflict" "skipped Act_blocked" "skipped Act_tomb_duplicate" "skipped Act_tomb_conflict"
  by (simp_all add: skipped_def duplicate_actions_def conflict_actions_def)

lemma plan_record_ok:
  "plan_record e favorites db (kind, br) = Inr p \<longleftrightarrow>
     (\<exists>k. entity_key e kind (br_legacy br) = Inr k \<and>
        ((find_tomb db k \<noteq> None \<and> p = \<lparr>pl_action = Act_blocked, pl_kind = kind, pl_key = k, pl_source = Inl br\<rparr>) \<or>
         (find_tomb db k = None \<and> (\<exists>w. incoming e favorites kind br = Inr w \<and>
            p = \<lparr>pl_action = record_action db k kind br w, pl_kind = kind, pl_key = k, pl_source = Inl br\<rparr>))))"
proof (cases "entity_key e kind (br_legacy br)")
  case (Inr k)
  then show ?thesis
    by (cases "find_tomb db k"; cases "incoming e favorites kind br") (auto simp: plan_record_def)
qed (simp add: plan_record_def)

lemma plan_tombstone_ok:
  "plan_tombstone e db bt = Inr p \<longleftrightarrow>
     (\<exists>k. entity_key e ''conversation'' (bt_legacy bt) = Inr k \<and>
        p = \<lparr>pl_action = tombstone_action db k bt, pl_kind = ''conversation'', pl_key = k, pl_source = Inr bt\<rparr>)"
  by (auto simp: plan_tombstone_def bindE_ok)

lemma record_guarded: "plan_record e favorites db x = Inr p \<Longrightarrow> guarded db p"
  by (cases x) (auto simp: plan_record_ok guarded_def record_action_def split: option.splits if_splits)

lemma tombstone_guarded: "plan_tombstone e db bt = Inr p \<Longrightarrow> guarded db p"
  by (auto simp: plan_tombstone_ok guarded_def tombstone_action_def split: option.splits if_splits)

definition of_record :: "planned \<Rightarrow> bool" where
  "of_record p = (case pl_source p of Inl _ \<Rightarrow> True | Inr _ \<Rightarrow> False)"

lemma plan_actions_parts:
  assumes "plan_actions e db b = Inr ps"
  obtains rs ts where "ps = rs @ ts"
    "list_all2 (\<lambda>x p. plan_record e (vb_favorites b) db x = Inr p) (backup_records b) rs"
    "list_all2 (\<lambda>bt p. plan_tombstone e db bt = Inr p) (vb_tombstones b) ts"
  using assms by (auto simp: plan_actions_def bindE_ok mapE_ok_all2)

lemma all2_in2: "list_all2 P xs ys \<Longrightarrow> y \<in> set ys \<Longrightarrow> \<exists>x \<in> set xs. P x y"
  by (induction xs ys rule: list_all2_induct) auto

lemma all2_in1: "list_all2 P xs ys \<Longrightarrow> x \<in> set xs \<Longrightarrow> \<exists>y \<in> set ys. P x y"
  by (induction xs ys rule: list_all2_induct) auto

lemma plan_parts_sources:
  assumes "list_all2 (\<lambda>x p. plan_record e favorites db x = Inr p) xs rs"
    "list_all2 (\<lambda>bt p. plan_tombstone e db bt = Inr p) bts ts"
  shows "\<forall>p \<in> set rs. guarded db p \<and> of_record p" "\<forall>p \<in> set ts. guarded db p \<and> \<not> of_record p"
proof -
  have "guarded db p \<and> of_record p" if p: "p \<in> set rs" for p
  proof -
    obtain x where "plan_record e favorites db x = Inr p"
      using all2_in2 [OF assms(1) p] by blast
    moreover from this have "of_record p" by (cases x) (auto simp: plan_record_ok of_record_def)
    ultimately show ?thesis using record_guarded by simp
  qed
  moreover have "guarded db p \<and> \<not> of_record p" if p: "p \<in> set ts" for p
  proof -
    obtain x where "plan_tombstone e db x = Inr p"
      using all2_in2 [OF assms(2) p] by blast
    moreover from this have "\<not> of_record p" by (auto simp: plan_tombstone_ok of_record_def)
    ultimately show ?thesis using tombstone_guarded by simp
  qed
  ultimately show "\<forall>p \<in> set rs. guarded db p \<and> of_record p" "\<forall>p \<in> set ts. guarded db p \<and> \<not> of_record p" by blast+
qed

section \<open>One action\<close>

lemma apply_action_ok:
  assumes "apply_action e favorites p db = Inr db'"
  obtains
    (put) br r where "pl_source p = Inl br" "imported_row e favorites (pl_kind p) br = Inr r" "rr_revision r = br_revision br"
      "pl_action p = Act_create \<Longrightarrow> find_live db (pl_key p) = None"
      "pl_action p = Act_create \<or> find_live db (pl_key p) \<noteq> None" "db' = put_live (pl_key p) r db"
  | (gone) br where "pl_source p = Inl br" "pl_action p \<noteq> Act_create" "find_live db (pl_key p) = None" "db' = db"
  | (bury) bt t where "pl_source p = Inr bt" "tr_revision t = bt_revision bt" "db' = bury (pl_key p) t db"
proof (cases "pl_source p")
  case (Inl br)
  then obtain r where r: "imported_row e favorites (pl_kind p) br = Inr r"
    "(if pl_action p = Act_create then bindE (ensure (find_live db (pl_key p) = None) Backup_integrity)
        (\<lambda>_. Inr (put_live (pl_key p) r db))
      else Inr (if find_live db (pl_key p) = None then db else put_live (pl_key p) r db)) = Inr db'"
    using assms by (auto simp: apply_action_def apply_record_def bindE_ok simp del: ensure_ok)
  have rev: "rr_revision r = br_revision br" using r(1) by (auto simp: imported_row_def bindE_ok)
  consider (create) "pl_action p = Act_create" | (absent) "pl_action p \<noteq> Act_create" "find_live db (pl_key p) = None"
    | (there) "pl_action p \<noteq> Act_create" "find_live db (pl_key p) \<noteq> None" by blast
  then show thesis
  proof cases
    case create
    with r(2) show ?thesis by (intro put [OF Inl r(1) rev]) (auto simp: bindE_ok)
  next
    case absent
    with r(2) show ?thesis by (intro gone [OF Inl]) auto
  next
    case there
    with r(2) show ?thesis by (intro put [OF Inl r(1) rev]) auto
  qed
next
  case (Inr bt)
  with assms obtain d where "db' = bury (pl_key p) \<lparr>tr_revision = bt_revision bt, tr_deleted = d\<rparr> db"
    by (auto simp: apply_action_def apply_tombstone_def bindE_ok)
  then show thesis by (intro bury [OF Inr _ \<open>db' = _\<close>]) simp
qed

text \<open>No tombstone is lost or lowered, no version goes back, and what no import owns stays.\<close>

definition foreign :: "rec_row \<Rightarrow> bool" where
  "foreign r \<longleftrightarrow> (\<forall>kind legacy. \<not> owned kind legacy r)"

definition kept :: "record_db \<Rightarrow> record_db \<Rightarrow> bool" where
  "kept db db' \<longleftrightarrow>
     (\<forall>k t. find_tomb db k = Some t \<longrightarrow> (\<exists>t'. find_tomb db' k = Some t' \<and> tr_revision t \<le> tr_revision t')) \<and>
     (\<forall>k n. record_version db k = Some n \<longrightarrow> (\<exists>m \<ge> n. record_version db' k = Some m)) \<and>
     (\<forall>k r. find_live db k = Some r \<longrightarrow> foreign r \<longrightarrow> find_live db' k = Some r)"

lemma keptI:
  assumes "\<And>k t. find_tomb db k = Some t \<Longrightarrow> \<exists>t'. find_tomb db' k = Some t' \<and> tr_revision t \<le> tr_revision t'"
    "\<And>k n. record_version db k = Some n \<Longrightarrow> \<exists>m \<ge> n. record_version db' k = Some m"
    "\<And>k r. find_live db k = Some r \<Longrightarrow> foreign r \<Longrightarrow> find_live db' k = Some r"
  shows "kept db db'"
  unfolding kept_def using assms by blast

lemma keptD:
  assumes "kept db db'"
  shows "find_tomb db k = Some t \<Longrightarrow> \<exists>t'. find_tomb db' k = Some t' \<and> tr_revision t \<le> tr_revision t'"
    "record_version db k = Some n \<Longrightarrow> \<exists>m \<ge> n. record_version db' k = Some m"
    "find_live db k = Some r \<Longrightarrow> foreign r \<Longrightarrow> find_live db' k = Some r"
  using assms unfolding kept_def by blast+

lemma kept_refl: "kept db db"
  by (rule keptI) auto

lemma kept_put:
  assumes "kept db0 db" "\<And>n. record_version db0 k = Some n \<Longrightarrow> n \<le> rr_revision r"
    "\<And>r0. find_live db0 k = Some r0 \<Longrightarrow> \<not> foreign r0"
  shows "kept db0 (put_live k r db)"
proof (rule keptI)
  fix k' n
  assume "record_version db0 k' = Some n"
  then show "\<exists>m \<ge> n. record_version (put_live k r db) k' = Some m"
    using assms(2) keptD(2) [OF assms(1)] by (cases "k' = k") auto
next
  fix k' r'
  assume "find_live db0 k' = Some r'" "foreign r'"
  then show "find_live (put_live k r db) k' = Some r'"
    using assms(3) keptD(3) [OF assms(1)] by (cases "k' = k") auto
qed (use keptD(1) [OF assms(1)] in simp)

lemma kept_bury:
  assumes "kept db0 db" "\<And>n. record_version db0 k = Some n \<Longrightarrow> n \<le> tr_revision t"
    "\<And>t0. find_tomb db0 k = Some t0 \<Longrightarrow> tr_revision t0 \<le> tr_revision t"
    "\<And>r0. find_live db0 k = Some r0 \<Longrightarrow> \<not> foreign r0"
  shows "kept db0 (bury k t db)"
proof (rule keptI)
  fix k' n
  assume "record_version db0 k' = Some n"
  then show "\<exists>m \<ge> n. record_version (bury k t db) k' = Some m"
    using assms(2) keptD(2) [OF assms(1)] by (cases "k' = k") auto
next
  fix k' r'
  assume "find_live db0 k' = Some r'" "foreign r'"
  then show "find_live (bury k t db) k' = Some r'"
    using assms(4) keptD(3) [OF assms(1)] by (cases "k' = k") auto
next
  fix k' t'
  assume "find_tomb db0 k' = Some t'"
  then show "\<exists>u. find_tomb (bury k t db) k' = Some u \<and> tr_revision t' \<le> tr_revision u"
    using assms(3) keptD(1) [OF assms(1)] by (cases "k' = k") auto
qed

lemma apply_action_kept:
  assumes "apply_action e favorites p db = Inr db'" "guarded db0 p" "\<not> skipped (pl_action p)" "kept db0 db"
  shows "kept db0 db'"
  using assms(1)
proof (cases rule: apply_action_ok)
  case (put br r)
  have "find_tomb db0 (pl_key p) = None" and
    "\<And>r0. find_live db0 (pl_key p) = Some r0 \<Longrightarrow> owned (pl_kind p) (br_legacy br) r0 \<and> rr_revision r0 < br_revision br"
    using assms(2,3) put(1) by (auto simp: guarded_def split: option.splits)
  then show ?thesis unfolding put(6)
    by (intro kept_put assms(4)) (auto simp: record_version_def foreign_def put(3) split: option.splits)
next
  case (gone br)
  then show ?thesis using assms(4) by simp
next
  case (bury bt t)
  have g: "\<And>r. find_live db0 (pl_key p) = Some r \<Longrightarrow> owned ''conversation'' (bt_legacy bt) r \<and> rr_revision r \<le> bt_revision bt"
    "\<And>t. find_tomb db0 (pl_key p) = Some t \<Longrightarrow> tr_revision t < bt_revision bt"
    using assms(2,3) bury(1) by (auto simp: guarded_def)
  then show ?thesis unfolding bury(3)
    by (intro kept_bury assms(4)) (force simp: record_version_def foreign_def bury(2) split: option.splits)+
qed

section \<open>All actions\<close>

lemma apply_plan_kept:
  assumes "apply_plan e favorites n ps db = Inr db'" "\<forall>p \<in> set ps. guarded db0 p" "kept db0 db"
  shows "kept db0 db'"
  using assms
proof (induction ps arbitrary: n db)
  case (Cons p ps)
  then show ?case
    by (cases "skipped (pl_action p)") (auto simp: bindE_ok intro: apply_action_kept)
qed simp

lemma apply_plan_append:
  assumes "apply_plan e favorites n (ps @ ts) db = Inr db'"
  obtains m db1 where "apply_plan e favorites n ps db = Inr db1" "apply_plan e favorites m ts db1 = Inr db'"
  using assms
proof (induction ps arbitrary: n db)
  case (Cons p ps)
  show ?case
  proof (cases "skipped (pl_action p)")
    case True
    with Cons.prems show ?thesis by (auto intro: Cons.IH)
  next
    case False
    with Cons.prems(2) obtain d where d: "apply_action e favorites p db = Inr d" "\<not> te_fault e (pl_action p) (n + 1)"
      "apply_plan e favorites (n + 1) (ps @ ts) d = Inr db'" by (auto simp: bindE_ok)
    show ?thesis
      by (rule Cons.IH [OF _ d(3)]) (use False d Cons.prems(1) in \<open>auto simp: bindE_ok\<close>)
  qed
qed simp

lemma apply_records_apart:
  assumes "apply_plan e favorites n ps db = Inr db'" "\<forall>p \<in> set ps. guarded db0 p \<and> of_record p"
    "apart db" "find_tomb db = find_tomb db0"
  shows "apart db'"
  using assms
proof (induction ps arbitrary: n db)
  case (Cons p ps)
  show ?case
  proof (cases "skipped (pl_action p)")
    case True
    with Cons show ?thesis by auto
  next
    case False
    with Cons.prems obtain d where d: "apply_action e favorites p db = Inr d" "apply_plan e favorites (n + 1) ps d = Inr db'"
      by (auto simp: bindE_ok)
    have g: "guarded db0 p" "of_record p" using Cons.prems(2) by auto
    from d(1) have "apart d \<and> find_tomb d = find_tomb db0"
    proof (cases rule: apply_action_ok)
      case (put br r)
      then have "find_tomb db0 (pl_key p) = None" using g False by (auto simp: guarded_def split: option.splits)
      then have "find_tomb db (pl_key p) = None" unfolding Cons.prems(4) .
      with Cons.prems(3) have "apart d" unfolding put(6) by (rule apart_put)
      moreover have "find_tomb d = find_tomb db" unfolding put(6) by (rule ext) simp
      ultimately show ?thesis using Cons.prems(4) by simp
    qed (use Cons.prems(3,4) g in \<open>auto simp: of_record_def\<close>)
    with Cons.IH [OF d(2)] Cons.prems(2) show ?thesis by auto
  qed
qed simp

lemma apply_tombstones_apart:
  assumes "apply_plan e favorites n ps db = Inr db'" "\<forall>p \<in> set ps. \<not> of_record p" "apart db"
  shows "apart db'"
  using assms
proof (induction ps arbitrary: n db)
  case (Cons p ps)
  show ?case
  proof (cases "skipped (pl_action p)")
    case True
    with Cons show ?thesis by auto
  next
    case False
    with Cons.prems obtain d where d: "apply_action e favorites p db = Inr d" "apply_plan e favorites (n + 1) ps d = Inr db'"
      by (auto simp: bindE_ok)
    from d(1) have "apart d"
      by (cases rule: apply_action_ok) (use Cons.prems(2,3) in \<open>auto simp: of_record_def intro: apart_bury\<close>)
    with Cons.IH [OF d(2)] Cons.prems(2) show ?thesis by auto
  qed
qed simp

text \<open>A whole import of a plan made for the same tables.\<close>

theorem plan_applied:
  assumes "plan_actions e db b = Inr ps" "apply_plan e favorites n ps db = Inr db'"
  shows "kept db db'" "apart db \<Longrightarrow> apart db'"
proof -
  obtain rs ts where ps: "ps = rs @ ts"
    and parts: "list_all2 (\<lambda>x p. plan_record e (vb_favorites b) db x = Inr p) (backup_records b) rs"
      "list_all2 (\<lambda>bt p. plan_tombstone e db bt = Inr p) (vb_tombstones b) ts"
    using assms(1) by (rule plan_actions_parts)
  note g = plan_parts_sources [OF parts]
  show "kept db db'" by (rule apply_plan_kept [OF assms(2)]) (use g ps kept_refl in auto)
  assume apart: "apart db"
  obtain m db1 where "apply_plan e favorites n rs db = Inr db1" "apply_plan e favorites m ts db1 = Inr db'"
    using assms(2) unfolding ps by (rule apply_plan_append)
  then show "apart db'"
    using apply_records_apart [OF _ g(1) apart] apply_tombstones_apart g(2) by blast
qed

end
