(* ===== verification/Transfer_Settled.thy ===== *)
theory Transfer_Settled
  imports Transfer_Effects
begin

text \<open>
  Where an import leaves each record of its backup: an action decides the fate of its own
  key only, and planning the same backup again finds nothing left to do.
\<close>

section \<open>One key\<close>

definition look :: "record_db \<Rightarrow> rec_key \<Rightarrow> rec_row option \<times> tomb_row option" where
  "look db k = (find_live db k, find_tomb db k)"

lemma look_iff: "look db k = look db' k \<longleftrightarrow> find_live db k = find_live db' k \<and> find_tomb db k = find_tomb db' k"
  by (auto simp: look_def)

lemma apply_action_outside:
  assumes "apply_action e favorites p db = Inr db'" "k \<noteq> pl_key p"
  shows "look db' k = look db k"
  using assms(1) by (cases rule: apply_action_ok) (use assms(2) in \<open>auto simp: look_iff\<close>)

lemma apply_plan_outside:
  "apply_plan e favorites n ps db = Inr db' \<Longrightarrow> k \<notin> pl_key ` set ps \<Longrightarrow> look db' k = look db k"
proof (induction ps arbitrary: n db)
  case (Cons p ps)
  then show ?case
    using apply_action_outside [of e favorites p db _ k]
    by (cases "skipped (pl_action p)") (auto simp: bindE_ok)
qed simp

definition settled_by :: "transfer_env \<Rightarrow> string list \<Rightarrow> planned \<Rightarrow> record_db \<Rightarrow> record_db \<Rightarrow> bool" where
  "settled_by e favorites p db db' \<longleftrightarrow>
     (if skipped (pl_action p) then look db' (pl_key p) = look db (pl_key p)
      else \<exists>d d'. apply_action e favorites p d = Inr d' \<and> look d (pl_key p) = look db (pl_key p) \<and>
             look db' (pl_key p) = look d' (pl_key p))"

lemma apply_plan_at:
  assumes "apply_plan e favorites n ps db = Inr db'" "distinct (map pl_key ps)" "p \<in> set ps"
  shows "settled_by e favorites p db db'"
  using assms
proof (induction ps arbitrary: n db)
  case (Cons q ps)
  have q: "pl_key q \<notin> pl_key ` set ps" "distinct (map pl_key ps)" using Cons.prems(2) by auto
  show ?case
  proof (cases "skipped (pl_action q)")
    case True
    with Cons.prems have run: "apply_plan e favorites n ps db = Inr db'" by simp
    show ?thesis
    proof (cases "p = q")
      case pq: True
      with True apply_plan_outside [OF run q(1)] show ?thesis by (simp add: settled_by_def)
    next
      case False
      with Cons.IH [OF run q(2)] Cons.prems(3) show ?thesis by simp
    qed
  next
    case False
    with Cons.prems(1) obtain d where d: "apply_action e favorites q db = Inr d"
      and run: "apply_plan e favorites (n + 1) ps d = Inr db'" by (auto simp: bindE_ok)
    show ?thesis
    proof (cases "p = q")
      case True
      with False d apply_plan_outside [OF run q(1)] show ?thesis unfolding settled_by_def by auto
    next
      case p: False
      then have "p \<in> set ps" using Cons.prems(3) by simp
      moreover from this q(1) have "pl_key p \<noteq> pl_key q" by (metis imageI)
      ultimately have "settled_by e favorites p d db'" "look d (pl_key p) = look db (pl_key p)"
        using Cons.IH [OF run q(2)] apply_action_outside [OF d] by blast+
      then show ?thesis by (auto simp: settled_by_def split: if_splits)
    qed
  qed
qed simp

section \<open>What is stored is owned\<close>

lemma canon_js_fetch:
  assumes "canon_js (PDict kvs) = Some (PDict kvs')" "distinct (map fst kvs)"
  shows "canon_js (fetch kvs s) = Some (fetch kvs' s)"
  using assms(1) by (auto intro: coded_fetch [OF _ assms(2)])

lemma canon_js_dict: "canon_js (PDict kvs) = Some w \<Longrightarrow> \<exists>kvs'. w = PDict kvs'"
  by auto

lemma incoming_owned:
  assumes "incoming e favorites kind br = Inr w" "rr_payload r = Json w"
  shows "owned kind (br_legacy br) r"
proof -
  obtain kvs where kvs: "canon_js (PDict kvs) = Some w" "distinct (map fst kvs)"
    "fetch kvs ''workspace_transfer_version'' = PInt 1" "fetch kvs ''source_kind'' = PStr kind"
    "fetch kvs ''legacy_id'' = PStr (br_legacy br)"
    using assms(1) unfolding incoming_def wrapped_payload_def Let_def
    by (auto simp: bindE_ok simp del: canon_js.simps split: if_splits)
  obtain kvs' where w: "w = PDict kvs'" using canon_js_dict [OF kvs(1)] by blast
  note f = canon_js_fetch [OF kvs(1) [unfolded w] kvs(2)]
  from f [of "''workspace_transfer_version''"] f [of "''source_kind''"] f [of "''legacy_id''"] kvs(3-5)
  show ?thesis by (simp add: owned_def assms(2) w)
qed

section \<open>Planning again\<close>

lemma record_settled:
  assumes "plan_record e favorites db x = Inr p" "settled_by e favorites p db db'"
  shows "\<exists>p'. plan_record e favorites db' x = Inr p' \<and> skipped (pl_action p')"
proof -
  obtain kind br where x: "x = (kind, br)" by (cases x)
  show ?thesis
  proof (cases "find_tomb db (pl_key p) = None")
    case False
    with assms(1) have p: "pl_action p = Act_blocked" "entity_key e kind (br_legacy br) = Inr (pl_key p)"
      by (auto simp: x plan_record_ok)
    with assms(2) have "find_tomb db' (pl_key p) = find_tomb db (pl_key p)" by (simp add: settled_by_def look_iff)
    with False p(2) show ?thesis by (simp add: x plan_record_def)
  next
    case None: True
    with assms(1) obtain w where w: "incoming e favorites kind br = Inr w"
      and p: "p = \<lparr>pl_action = record_action db (pl_key p) kind br w, pl_kind = kind, pl_key = pl_key p, pl_source = Inl br\<rparr>"
      and k: "entity_key e kind (br_legacy br) = Inr (pl_key p)"
      by (auto simp: x plan_record_ok)
    then have src: "pl_source p = Inl br" "pl_kind p = kind" "pl_action p = record_action db (pl_key p) kind br w" by (metis planned.simps)+
    have "find_tomb db' (pl_key p) = None \<and> skipped (record_action db' (pl_key p) kind br w)"
    proof (cases "skipped (pl_action p)")
      case True
      with assms(2) None src show ?thesis by (simp add: settled_by_def look_iff record_action_def)
    next
      case False
      with assms(2) obtain d d' where d: "apply_action e favorites p d = Inr d'"
        "look d (pl_key p) = look db (pl_key p)" "look db' (pl_key p) = look d' (pl_key p)"
        by (auto simp: settled_by_def)
      from d(1) show ?thesis
      proof (cases rule: apply_action_ok)
        case (put br' r)
        with src w have "rr_payload r = Json w" "rr_revision r = br_revision br"
          by (auto simp: imported_row_def bindE_ok)
        moreover from this incoming_owned [OF w] have "owned kind (br_legacy br) r" by simp
        ultimately show ?thesis using put(6) d(2,3) None by (simp add: look_iff record_action_def)
      next
        case (gone br')
        with d(2) src have "pl_action p = Act_create" by (simp add: look_iff record_action_def)
        with gone show ?thesis by simp
      next
        case (bury bt t)
        with src show ?thesis by simp
      qed
    qed
    with k w show ?thesis by (simp add: x plan_record_def)
  qed
qed

lemma tombstone_settled:
  assumes "plan_tombstone e db bt = Inr p" "settled_by e favorites p db db'"
  shows "\<exists>p'. plan_tombstone e db' bt = Inr p' \<and> skipped (pl_action p')"
proof -
  from assms(1) have k: "entity_key e ''conversation'' (bt_legacy bt) = Inr (pl_key p)"
    and src: "pl_source p = Inr bt" "pl_action p = tombstone_action db (pl_key p) bt"
    by (auto simp: plan_tombstone_ok)
  have "skipped (tombstone_action db' (pl_key p) bt)"
  proof (cases "skipped (pl_action p)")
    case True
    with assms(2) have "look db' (pl_key p) = look db (pl_key p)" by (simp add: settled_by_def)
    then have "tombstone_action db' (pl_key p) bt = tombstone_action db (pl_key p) bt"
      by (simp add: look_iff tombstone_action_def)
    with True src show ?thesis by simp
  next
    case False
    with assms(2) obtain d d' where d: "apply_action e favorites p d = Inr d'"
      "look db' (pl_key p) = look d' (pl_key p)" by (auto simp: settled_by_def)
    from d(1) show ?thesis
      by (cases rule: apply_action_ok) (use src d(2) in \<open>auto simp: look_iff tombstone_action_def\<close>)
  qed
  with k show ?thesis by (simp add: plan_tombstone_def)
qed

text \<open>The identities of a backup, and that the digest tells them apart.\<close>

definition identities :: "backup \<Rightarrow> (string \<times> string) list" where
  "identities b = map (\<lambda>x. (fst x, br_legacy (snd x))) (backup_records b) @
     map (\<lambda>bt. (''conversation'', bt_legacy bt)) (vb_tombstones b)"

definition keys_apart :: "transfer_env \<Rightarrow> backup \<Rightarrow> bool" where
  "keys_apart e b \<longleftrightarrow> distinct (map (\<lambda>i. entity_key e (fst i) (snd i)) (identities b))"

lemma plan_keys:
  assumes "plan_actions e db b = Inr ps"
  shows "map (\<lambda>i. entity_key e (fst i) (snd i)) (identities b) = map (\<lambda>p. Inr (pl_key p)) ps"
proof -
  obtain rs ts where ps: "ps = rs @ ts"
    and r: "list_all2 (\<lambda>x p. plan_record e (vb_favorites b) db x = Inr p) (backup_records b) rs"
    and t: "list_all2 (\<lambda>bt p. plan_tombstone e db bt = Inr p) (vb_tombstones b) ts"
    using assms by (rule plan_actions_parts)
  from r have "map (\<lambda>x. entity_key e (fst x) (br_legacy (snd x))) (backup_records b) = map (\<lambda>p. Inr (pl_key p)) rs"
    by (induction rule: list_all2_induct) (auto simp: plan_record_ok)
  moreover from t have "map (\<lambda>bt. entity_key e ''conversation'' (bt_legacy bt)) (vb_tombstones b) = map (\<lambda>p. Inr (pl_key p)) ts"
    by (induction rule: list_all2_induct) (auto simp: plan_tombstone_ok)
  ultimately show ?thesis by (simp add: identities_def ps o_def)
qed

lemma keys_apart_plan: "keys_apart e b \<Longrightarrow> plan_actions e db b = Inr ps \<Longrightarrow> distinct (map pl_key ps)"
  by (simp add: keys_apart_def plan_keys distinct_map inj_on_def comp_def)

lemma mapE_exists: "(\<And>x. x \<in> set xs \<Longrightarrow> \<exists>y. f x = Inr y \<and> P y) \<Longrightarrow> \<exists>ys. mapE f xs = Inr ys \<and> (\<forall>y \<in> set ys. P y)"
proof (induction xs)
  case (Cons x xs)
  then obtain y ys where "f x = Inr y" "P y" "mapE f xs = Inr ys" "\<forall>y \<in> set ys. P y"
    by (metis list.set_intros)
  then show ?case by simp
qed simp

theorem plan_settled:
  assumes "plan_actions e db b = Inr ps" "apply_plan e (vb_favorites b) n ps db = Inr db'" "keys_apart e b"
  obtains ps' where "plan_actions e db' b = Inr ps'" "\<forall>p \<in> set ps'. skipped (pl_action p)"
proof -
  obtain rs ts where ps: "ps = rs @ ts"
    and r: "list_all2 (\<lambda>x p. plan_record e (vb_favorites b) db x = Inr p) (backup_records b) rs"
    and t: "list_all2 (\<lambda>bt p. plan_tombstone e db bt = Inr p) (vb_tombstones b) ts"
    using assms(1) by (rule plan_actions_parts)
  have "settled_by e (vb_favorites b) p db db'" if "p \<in> set ps" for p
    by (rule apply_plan_at [OF assms(2) keys_apart_plan [OF assms(3,1)] that])
  then have "\<exists>p'. plan_record e (vb_favorites b) db' x = Inr p' \<and> skipped (pl_action p')" if "x \<in> set (backup_records b)" for x
    using all2_in1 [OF r that] record_settled ps by fastforce
  then obtain rs' where rs': "mapE (plan_record e (vb_favorites b) db') (backup_records b) = Inr rs'" "\<forall>p \<in> set rs'. skipped (pl_action p)"
    using mapE_exists [of "backup_records b" "plan_record e (vb_favorites b) db'" "\<lambda>p. skipped (pl_action p)"] by blast
  have "\<exists>p'. plan_tombstone e db' x = Inr p' \<and> skipped (pl_action p')" if "x \<in> set (vb_tombstones b)" for x
    using all2_in1 [OF t that] tombstone_settled \<open>\<And>p. p \<in> set ps \<Longrightarrow> _ p\<close> ps by fastforce
  then obtain ts' where "mapE (plan_tombstone e db') (vb_tombstones b) = Inr ts'" "\<forall>p \<in> set ts'. skipped (pl_action p)"
    using mapE_exists [of "vb_tombstones b" "plan_tombstone e db'" "\<lambda>p. skipped (pl_action p)"] by blast
  with rs' that [of "rs' @ ts'"] show thesis by (auto simp: plan_actions_def)
qed

end
