(* ===== verification/Transfer_Roundtrip.thy ===== *)
theory Transfer_Roundtrip
  imports Transfer_Settled "HOL-Library.Multiset"
begin

text \<open>
  Into an empty workspace and out again: an import of a backup whose identities have keys of
  their own stores one row per record and one tombstone per deletion, and the export finds
  each of them with its fields.
\<close>

section \<open>The tables after the import\<close>

definition empty_workspace :: transfer_db where
  "empty_workspace = \<lparr>td_records = no_records, td_imports = []\<rparr>"

lemma alist_update_fresh: "k \<notin> fst ` set xs \<Longrightarrow> AList.update k v xs = xs @ [(k, v)]"
  by (induction xs) auto

lemma delete_fresh: "k \<notin> fst ` set xs \<Longrightarrow> AList.delete k xs = xs"
  by (induction xs) (auto simp: AList.delete_eq)

text \<open>The row that a planned record or deletion is stored as.\<close>

definition live_entry :: "transfer_env \<Rightarrow> string list \<Rightarrow> planned \<Rightarrow> rec_key \<times> rec_row \<Rightarrow> bool" where
  "live_entry e favorites p kr \<longleftrightarrow>
     (\<exists>br r. pl_source p = Inl br \<and> imported_row e favorites (pl_kind p) br = Inr r \<and> kr = (pl_key p, r))"

definition tomb_entry :: "planned \<Rightarrow> rec_key \<times> tomb_row \<Rightarrow> bool" where
  "tomb_entry p kt \<longleftrightarrow>
     (\<exists>bt d. pl_source p = Inr bt \<and> iso_of_ms (bt_deleted bt) = Inr d \<and>
        kt = (pl_key p, \<lparr>tr_revision = bt_revision bt, tr_deleted = d\<rparr>))"

lemma plan_on_empty:
  assumes "plan_actions e no_records b = Inr ps"
  obtains rs ts where "ps = rs @ ts"
    "list_all2 (\<lambda>x p. pl_action p = Act_create \<and> pl_kind p = fst x \<and> pl_source p = Inl (snd x) \<and>
       entity_key e (fst x) (br_legacy (snd x)) = Inr (pl_key p)) (backup_records b) rs"
    "list_all2 (\<lambda>bt p. pl_action p = Act_tomb_create \<and> pl_kind p = ''conversation'' \<and> pl_source p = Inr bt \<and>
       entity_key e ''conversation'' (bt_legacy bt) = Inr (pl_key p)) (vb_tombstones b) ts"
proof -
  obtain rs ts where ps: "ps = rs @ ts"
    and r: "list_all2 (\<lambda>x p. plan_record e (vb_favorites b) no_records x = Inr p) (backup_records b) rs"
    and t: "list_all2 (\<lambda>bt p. plan_tombstone e no_records bt = Inr p) (vb_tombstones b) ts"
    using assms by (rule plan_actions_parts)
  show thesis
    by (rule that [OF ps list_all2_mono [OF r] list_all2_mono [OF t]])
      (auto simp: plan_record_ok plan_tombstone_ok record_action_def tombstone_action_def find_live_def find_tomb_def no_records_def)
qed

lemma apply_creates:
  assumes "apply_plan e favorites n ps db = Inr db'" "\<forall>p \<in> set ps. pl_action p = Act_create \<and> of_record p"
    "distinct (map pl_key ps)" "pl_key ` set ps \<inter> fst ` set (live db) = {}"
  shows "\<exists>krs. live db' = live db @ krs \<and> tombs db' = tombs db \<and> list_all2 (live_entry e favorites) ps krs"
  using assms
proof (induction ps arbitrary: n db)
  case (Cons p ps)
  obtain br where br: "pl_source p = Inl br" "pl_action p = Act_create"
    using Cons.prems(2) by (auto simp: of_record_def split: sum.splits)
  with Cons.prems(1) obtain d where d: "apply_record e favorites Act_create (pl_kind p) (pl_key p) br db = Inr d"
    "apply_plan e favorites (n + 1) ps d = Inr db'" by (auto simp: bindE_ok apply_action_def)
  then obtain r where r: "imported_row e favorites (pl_kind p) br = Inr r" "d = put_live (pl_key p) r db"
    by (auto simp: apply_record_def bindE_ok)
  have "live d = live db @ [(pl_key p, r)]" "tombs d = tombs db"
    using Cons.prems(4) r(2) by (auto simp: put_live_def alist_update_fresh)
  moreover from this have "pl_key ` set ps \<inter> fst ` set (live d) = {}" using Cons.prems(3,4) by auto
  then obtain krs where "live db' = live d @ krs" "tombs db' = tombs d" "list_all2 (live_entry e favorites) ps krs"
    using Cons.IH [OF d(2)] Cons.prems(2,3) by auto
  moreover have "live_entry e favorites p (pl_key p, r)" using br(1) r(1) by (simp add: live_entry_def)
  ultimately show ?case by (intro exI [of _ "(pl_key p, r) # krs"]) simp
qed simp

lemma apply_burials:
  assumes "apply_plan e favorites n ps db = Inr db'" "\<forall>p \<in> set ps. pl_action p = Act_tomb_create \<and> \<not> of_record p"
    "distinct (map pl_key ps)" "pl_key ` set ps \<inter> (fst ` set (live db) \<union> fst ` set (tombs db)) = {}"
  shows "\<exists>kts. live db' = live db \<and> tombs db' = tombs db @ kts \<and> list_all2 tomb_entry ps kts"
  using assms
proof (induction ps arbitrary: n db)
  case (Cons p ps)
  obtain bt where bt: "pl_source p = Inr bt" "pl_action p = Act_tomb_create"
    using Cons.prems(2) by (auto simp: of_record_def split: sum.splits)
  with Cons.prems(1) obtain d where d: "apply_tombstone (pl_key p) bt db = Inr d"
    "apply_plan e favorites (n + 1) ps d = Inr db'" by (auto simp: bindE_ok apply_action_def)
  then obtain u where u: "iso_of_ms (bt_deleted bt) = Inr u"
    "d = bury (pl_key p) \<lparr>tr_revision = bt_revision bt, tr_deleted = u\<rparr> db"
    by (auto simp: apply_tombstone_def bindE_ok)
  let ?kt = "(pl_key p, \<lparr>tr_revision = bt_revision bt, tr_deleted = u\<rparr>)"
  have "live d = live db" "tombs d = tombs db @ [?kt]"
    using Cons.prems(4) u(2) by (auto simp: bury_def alist_update_fresh delete_fresh)
  moreover from this have "pl_key ` set ps \<inter> (fst ` set (live d) \<union> fst ` set (tombs d)) = {}" using Cons.prems(3,4) by auto
  then obtain kts where "live db' = live d" "tombs db' = tombs d @ kts" "list_all2 tomb_entry ps kts"
    using Cons.IH [OF d(2)] Cons.prems(2,3) by auto
  moreover have "tomb_entry p ?kt" using bt(1) u(1) by (simp add: tomb_entry_def)
  ultimately show ?case by (intro exI [of _ "?kt # kts"]) simp
qed simp

section \<open>Reading a row back\<close>

text \<open>A record as the export lists it, and where it is listed.\<close>

definition portable :: "backup_record \<Rightarrow> row" where
  "portable br =
     [(KStr ''legacy_id'', PStr (br_legacy br)), (KStr ''schema_version'', PInt (br_schema br)),
      (KStr ''revision'', PInt (br_revision br)), (KStr ''created_at'', PInt (br_created br)),
      (KStr ''updated_at'', PInt (br_updated br)), (KStr ''payload'', the (canon_js (PDict (br_payload br))))]"

definition portable_item :: "backup_record \<Rightarrow> row" where
  "portable_item br = portable br @ [(KStr ''parent_legacy_id'', PStr (br_parent br))]"

definition portable_tombstone :: "backup_tombstone \<Rightarrow> row" where
  "portable_tombstone bt =
     [(KStr ''kind'', PStr ''conversation''), (KStr ''legacy_id'', PStr (bt_legacy bt)), (KStr ''schema_version'', PInt 1),
      (KStr ''revision'', PInt (bt_revision bt)), (KStr ''deleted_at'', PInt (bt_deleted bt))]"

definition filed :: "string list \<Rightarrow> exports \<Rightarrow> string \<times> backup_record \<Rightarrow> exports" where
  "filed favorites x kb = (case kb of (kind, br) \<Rightarrow>
     if kind = ''conversation'' then x\<lparr>ex_conversations := ex_conversations x @ [portable br]\<rparr>
     else if kind = ''collection'' then
       x\<lparr>ex_collections := ex_collections x @ [portable br],
         ex_favorites := ex_favorites x @ (if br_legacy br \<in> set favorites then [PStr (br_legacy br)] else [])\<rparr>
     else x\<lparr>ex_items := ex_items x @ [portable_item br]\<rparr>)"

definition recent_ms :: "int \<Rightarrow> bool" where
  "recent_ms ms \<longleftrightarrow> 2 ^ 40 < ms \<and> ms < 1000 * 2 ^ 31"

lemma column_round_trip:
  assumes "iso_of_ms ms = Inr s" "recent_ms ms"
  shows "ms_of_column s = Inr ms"
proof -
  from assms(1) have "us_from_iso s = Some (us_from_ms ms)" by (simp add: iso_of_ms_def iso_short_round_trip)
  moreover have "us_from_ms ms = ms * 1000" by (rule us_from_ms_recent) (use assms(2) in \<open>simp_all add: recent_ms_def\<close>)
  ultimately have "ms_from_iso s = Some (ms_from_us (ms * 1000))" by (simp add: ms_from_iso_def)
  then show ?thesis using assms(2) by (simp add: ms_of_column_def recent_ms_def ms_from_us_recent)
qed

lemma incoming_fields:
  assumes "incoming e favorites kind br = Inr w"
  obtains m payload where "w = PDict m" "fetch m ''workspace_transfer_version'' = PInt 1" "fetch m ''source_kind'' = PStr kind"
    "fetch m ''legacy_id'' = PStr (br_legacy br)" "fetch m ''source_schema_version'' = PInt (br_schema br)"
    "fetch m ''data'' = PDict payload" "canon_js (PDict (br_payload br)) = Some (PDict payload)"
    "kind = ''collection'' \<longrightarrow> fetch m ''favorite'' = PBool (br_legacy br \<in> set favorites)"
    "kind = ''evidence_item'' \<longrightarrow> fetch m ''parent_legacy_id'' = PStr (br_parent br)"
proof -
  obtain kvs where kvs: "canon_js (PDict kvs) = Some w" "distinct (map fst kvs)"
    "fetch kvs ''workspace_transfer_version'' = PInt 1" "fetch kvs ''source_kind'' = PStr kind"
    "fetch kvs ''legacy_id'' = PStr (br_legacy br)" "fetch kvs ''source_schema_version'' = PInt (br_schema br)"
    "fetch kvs ''data'' = PDict (br_payload br)"
    "kind = ''collection'' \<Longrightarrow> fetch kvs ''favorite'' = PBool (br_legacy br \<in> set favorites)"
    "kind = ''evidence_item'' \<Longrightarrow> fetch kvs ''parent_legacy_id'' = PStr (br_parent br)"
    using assms unfolding incoming_def wrapped_payload_def Let_def
    by (auto simp: bindE_ok simp del: canon_js.simps split: if_splits)
  obtain m where w: "w = PDict m" using canon_js_dict [OF kvs(1)] by blast
  note f = canon_js_fetch [OF kvs(1) [unfolded w] kvs(2)]
  have d: "canon_js (PDict (br_payload br)) = Some (fetch m ''data'')" using f [of "''data''"] unfolding kvs(7) .
  then obtain payload where p: "fetch m ''data'' = PDict payload" using canon_js_dict by blast
  show thesis
  proof (rule that [OF w _ _ _ _ p])
    show "canon_js (PDict (br_payload br)) = Some (PDict payload)" using d unfolding p .
    show "kind = ''collection'' \<longrightarrow> fetch m ''favorite'' = PBool (br_legacy br \<in> set favorites)"
      using f [of "''favorite''"] kvs(8) by auto
    show "kind = ''evidence_item'' \<longrightarrow> fetch m ''parent_legacy_id'' = PStr (br_parent br)"
      using f [of "''parent_legacy_id''"] kvs(9) by auto
  qed (use f [of "''workspace_transfer_version''"] f [of "''source_kind''"] f [of "''legacy_id''"]
      f [of "''source_schema_version''"] kvs(3-6) in simp_all)
qed

lemma add_live_imported:
  assumes "imported_row e favorites kind br = Inr r" "entity_type_of kind \<noteq> None"
    "recent_ms (br_created br)" "recent_ms (br_updated br)"
  shows "add_live x (k, r) = Inr (filed favorites x (kind, br))"
proof -
  from assms(1) obtain w c u where w: "incoming e favorites kind br = Inr w" and
    r: "iso_of_ms (br_created br) = Inr c" "iso_of_ms (br_updated br) = Inr u"
      "r = \<lparr>rr_revision = br_revision br, rr_payload = Json w, rr_created = c, rr_updated = u\<rparr>"
    by (auto simp: imported_row_def bindE_ok)
  from w obtain m payload where m: "w = PDict m" "fetch m ''workspace_transfer_version'' = PInt 1"
    "fetch m ''source_kind'' = PStr kind" "fetch m ''legacy_id'' = PStr (br_legacy br)"
    "fetch m ''source_schema_version'' = PInt (br_schema br)" "fetch m ''data'' = PDict payload"
    "canon_js (PDict (br_payload br)) = Some (PDict payload)"
    "kind = ''collection'' \<longrightarrow> fetch m ''favorite'' = PBool (br_legacy br \<in> set favorites)"
    "kind = ''evidence_item'' \<longrightarrow> fetch m ''parent_legacy_id'' = PStr (br_parent br)"
    by (rule incoming_fields)
  have cols: "ms_of_column c = Inr (br_created br)" "ms_of_column u = Inr (br_updated br)"
    using r assms(3,4) column_round_trip by blast+
  have port: "portable br =
     [(KStr ''legacy_id'', PStr (br_legacy br)), (KStr ''schema_version'', PInt (br_schema br)),
      (KStr ''revision'', PInt (br_revision br)), (KStr ''created_at'', PInt (br_created br)),
      (KStr ''updated_at'', PInt (br_updated br)), (KStr ''payload'', PDict payload)]"
    by (simp only: portable_def m(7) option.sel)
  have "kind = ''conversation'' \<or> kind = ''collection'' \<or> kind = ''evidence_item''"
    using assms(2) by (auto simp: entity_type_of_def split: if_splits)
  then show ?thesis
    using m(2-6,8,9) assms(2)
    by (elim disjE) (simp_all add: add_live_def r(3) m(1) cols filed_def port portable_item_def Let_def entity_type_of_def)
qed

lemma foldE_steps:
  assumes "list_all2 R xs ys" "\<And>x y a. y \<in> set ys \<Longrightarrow> R x y \<Longrightarrow> f a y = Inr (g a x)"
  shows "foldE f a ys = Inr (foldl g a xs)"
  using assms by (induction xs ys arbitrary: a rule: list_all2_induct) auto

lemma filed_all:
  "ex_conversations (foldl (filed favorites) x kbs) =
     ex_conversations x @ map (\<lambda>kb. portable (snd kb)) (filter (\<lambda>kb. fst kb = ''conversation'') kbs)"
  "ex_collections (foldl (filed favorites) x kbs) =
     ex_collections x @ map (\<lambda>kb. portable (snd kb)) (filter (\<lambda>kb. fst kb = ''collection'') kbs)"
  "ex_items (foldl (filed favorites) x kbs) =
     ex_items x @ map (\<lambda>kb. portable_item (snd kb)) (filter (\<lambda>kb. fst kb \<noteq> ''conversation'' \<and> fst kb \<noteq> ''collection'') kbs)"
  "ex_favorites (foldl (filed favorites) x kbs) =
     ex_favorites x @ map PStr (filter (\<lambda>l. l \<in> set favorites)
       (map (\<lambda>kb. br_legacy (snd kb)) (filter (\<lambda>kb. fst kb = ''collection'') kbs)))"
  "ex_tombstones (foldl (filed favorites) x kbs) = ex_tombstones x"
  "ex_unsupported (foldl (filed favorites) x kbs) = ex_unsupported x"
  by (induction kbs arbitrary: x) (auto simp: filed_def split: prod.splits)

section \<open>The mappings of the receipt\<close>

definition reversed :: "string \<times> string \<times> string \<Rightarrow> (rec_key \<times> string \<times> string) option" where
  "reversed m = (case m of (kind, legacy, w) \<Rightarrow>
     map_option (\<lambda>t. ((t, w), (kind, legacy))) (entity_type_of kind))"

lemma canon_js_mapping: "canon_js (mapping_value m) = Some (mapping_value m)"
  by (cases m) (simp add: mapping_value_def)

lemma foldE_mappings:
  assumes "\<forall>m \<in> set maps. reversed m \<noteq> None"
  shows "foldE add_mapping ms (map mapping_value maps) = Inr (rev (map (the \<circ> reversed) maps) @ ms)"
  using assms
proof (induction maps arbitrary: ms)
  case (Cons m maps)
  obtain kind legacy w where m: "m = (kind, legacy, w)" by (cases m)
  with Cons.prems obtain t where t: "entity_type_of kind = Some t" by (auto simp: reversed_def)
  then have "add_mapping ms (mapping_value m) = Inr (the (reversed m) # ms)"
    by (simp add: m add_mapping_def mapping_value_def reversed_def)
  with Cons show ?case by simp
qed simp

lemma plan_mappings_set: "set (plan_mappings ps) = planned_mapping ` set ps"
proof -
  let ?f = "\<lambda>ms p. case pl_source p of
      Inl _ \<Rightarrow> ms @ [planned_mapping p]
    | Inr _ \<Rightarrow> if planned_mapping p \<in> set ms then ms else ms @ [planned_mapping p]"
  have "set (foldl ?f ms ps) = set ms \<union> planned_mapping ` set ps" for ms
    by (induction ps arbitrary: ms) (auto split: sum.splits)
  then show ?thesis by (simp add: plan_mappings_def)
qed

lemma those_mappings: "those (map (canon_js \<circ> mapping_value) maps) = Some (map mapping_value maps)"
  by (induction maps) (simp_all add: canon_js_mapping)

lemma receipt_mappings:
  assumes "canon_js (PDict (receipt_of e b ps)) = Some (PDict stored)"
  shows "or_empty stored ''mappings'' = PList (map mapping_value (plan_mappings ps))"
proof -
  have "distinct (map fst (receipt_of e b ps))" by (simp add: receipt_of_def preview_of_def)
  moreover have "fetch (receipt_of e b ps) ''mappings'' = PList (map mapping_value (plan_mappings ps))"
    by (simp add: receipt_of_def preview_of_def)
  ultimately have "canon_js (PList (map mapping_value (plan_mappings ps))) = Some (fetch stored ''mappings'')"
    using canon_js_fetch [OF assms, of "''mappings''"] by simp
  then have "fetch stored ''mappings'' = PList (map mapping_value (plan_mappings ps))"
    by (simp add: those_mappings)
  then show ?thesis by (simp add: fetch_def or_empty_def split: option.splits)
qed

lemma map_of_only:
  assumes "(k, y) \<in> set xs" "\<And>z. (k, z) \<in> set xs \<Longrightarrow> z = y"
  shows "map_of xs k = Some y"
proof -
  obtain z where z: "map_of xs k = Some z" using weak_map_of_SomeI [OF assms(1)] by blast
  with assms(2) [OF map_of_SomeD [OF z]] show ?thesis by simp
qed

section \<open>There and back\<close>

text \<open>All timestamps of the backup lie in the years that \<open>Py_Float\<close> shows to be exact.\<close>

definition recent :: "backup \<Rightarrow> bool" where
  "recent b \<longleftrightarrow> (\<forall>kb \<in> set (backup_records b). recent_ms (br_created (snd kb)) \<and> recent_ms (br_updated (snd kb))) \<and>
     (\<forall>bt \<in> set (vb_tombstones b). recent_ms (bt_deleted bt))"

lemma backup_kinds: "kb \<in> set (backup_records b) \<Longrightarrow> entity_type_of (fst kb) \<noteq> None"
  by (auto simp: backup_records_def entity_type_of_def)

lemma entity_key_parts:
  "entity_key e kind legacy = Inr k \<Longrightarrow> entity_type_of kind = Some (fst k)"
  by (cases k) (auto simp: entity_key_def bindE_ok)

lemma filter_kinds:
  "filter (\<lambda>kb. fst kb = ''conversation'') (backup_records b) = map (Pair ''conversation'') (vb_conversations b)"
  "filter (\<lambda>kb. fst kb = ''collection'') (backup_records b) = map (Pair ''collection'') (vb_collections b)"
  "filter (\<lambda>kb. fst kb \<noteq> ''conversation'' \<and> fst kb \<noteq> ''collection'') (backup_records b) =
     map (Pair ''evidence_item'') (vb_items b)"
  by (simp_all add: backup_records_def filter_empty_conv comp_def)

lemma add_tombs:
  assumes "list_all2 (\<lambda>bt kt. map_of ms (fst kt) = Some (''conversation'', bt_legacy bt) \<and>
     ms_of_column (tr_deleted (snd kt)) = Inr (bt_deleted bt) \<and> tr_revision (snd kt) = bt_revision bt) bts kts"
  shows "foldE (add_tomb ms) x kts = Inr (x\<lparr>ex_tombstones := ex_tombstones x @ map portable_tombstone bts\<rparr>)"
  using assms
proof (induction bts kts arbitrary: x rule: list_all2_induct)
  case (Cons bt bts kt kts)
  then have "add_tomb ms x kt = Inr (x\<lparr>ex_tombstones := ex_tombstones x @ [portable_tombstone bt]\<rparr>)"
    by (simp add: add_tomb_def portable_tombstone_def)
  with Cons.IH show ?case by simp
qed simp

text \<open>The mappings that a receipt yields name each key's source.\<close>

lemma receipt_table:
  assumes "distinct (map pl_key ps)" "\<forall>p \<in> set ps. entity_type_of (pl_kind p) = Some (fst (pl_key p))" "p \<in> set ps"
  shows "map_of (rev (map (the \<circ> reversed) (plan_mappings ps)) @ []) (pl_key p) =
     Some (pl_kind p, case_sum br_legacy bt_legacy (pl_source p))"
proof (rule map_of_only)
  have entry: "the (reversed (planned_mapping q)) = (pl_key q, pl_kind q, case_sum br_legacy bt_legacy (pl_source q))"
    if "q \<in> set ps" for q
    using assms(2) that by (simp add: reversed_def planned_mapping_def)
  then have all: "set (rev (map (the \<circ> reversed) (plan_mappings ps)) @ []) =
      (\<lambda>q. (pl_key q, pl_kind q, case_sum br_legacy bt_legacy (pl_source q))) ` set ps"
    by (simp add: plan_mappings_set image_image)
  then show "(pl_key p, pl_kind p, case_sum br_legacy bt_legacy (pl_source p))
      \<in> set (rev (map (the \<circ> reversed) (plan_mappings ps)) @ [])" using assms(3) by simp
  fix z
  assume "(pl_key p, z) \<in> set (rev (map (the \<circ> reversed) (plan_mappings ps)) @ [])"
  then obtain q where q: "q \<in> set ps" "pl_key p = pl_key q" "z = (pl_kind q, case_sum br_legacy bt_legacy (pl_source q))"
    unfolding all by blast
  then have "p = q" using assms(1,3) by (auto simp: distinct_map inj_on_def)
  with q(3) show "z = (pl_kind p, case_sum br_legacy bt_legacy (pl_source p))" by simp
qed

lemma list_all2_reorder:
  assumes "list_all2 R xs ys" "mset ys' = mset ys"
  obtains xs' where "list_all2 R xs' ys'" "mset xs' = mset xs"
proof -
  have "list_all2 (\<lambda>y x. R x y) ys xs" using assms(1) by (simp add: list_all2_conv_all_nth)
  from list_all2_reorder_left_invariance [OF this assms(2)]
  obtain xs' where xs': "list_all2 (\<lambda>y x. R x y) ys' xs'" "mset xs' = mset xs" by blast
  show thesis by (rule that [OF _ xs'(2)]) (use xs'(1) in \<open>simp add: list_all2_conv_all_nth\<close>)
qed

lemma imported_tables:
  assumes "plan_actions e no_records b = Inr ps" "apply_plan e (vb_favorites b) n ps no_records = Inr db" "keys_apart e b"
  shows "list_all2 (\<lambda>kb kr. imported_row e (vb_favorites b) (fst kb) (snd kb) = Inr (snd kr)) (backup_records b) (live db)"
    and "list_all2 (\<lambda>bt kt. \<exists>p \<in> set ps. pl_key p = fst kt \<and> pl_kind p = ''conversation'' \<and> pl_source p = Inr bt \<and>
       iso_of_ms (bt_deleted bt) = Inr (tr_deleted (snd kt)) \<and> tr_revision (snd kt) = bt_revision bt) (vb_tombstones b) (tombs db)"
    and "\<forall>p \<in> set ps. entity_type_of (pl_kind p) = Some (fst (pl_key p))"
proof -
  obtain rs ts where ps: "ps = rs @ ts"
    and r: "list_all2 (\<lambda>x p. pl_action p = Act_create \<and> pl_kind p = fst x \<and> pl_source p = Inl (snd x) \<and>
       entity_key e (fst x) (br_legacy (snd x)) = Inr (pl_key p)) (backup_records b) rs"
    and t: "list_all2 (\<lambda>bt p. pl_action p = Act_tomb_create \<and> pl_kind p = ''conversation'' \<and> pl_source p = Inr bt \<and>
       entity_key e ''conversation'' (bt_legacy bt) = Inr (pl_key p)) (vb_tombstones b) ts"
    using assms(1) by (rule plan_on_empty)
  have dist: "distinct (map pl_key rs)" "distinct (map pl_key ts)" "pl_key ` set rs \<inter> pl_key ` set ts = {}"
    using keys_apart_plan [OF assms(3,1)] by (auto simp: ps)
  have rs: "\<forall>p \<in> set rs. pl_action p = Act_create \<and> of_record p" and ts: "\<forall>p \<in> set ts. pl_action p = Act_tomb_create \<and> \<not> of_record p"
    using all2_in2 [OF r] all2_in2 [OF t] by (fastforce simp: of_record_def)+
  obtain m db1 where runs: "apply_plan e (vb_favorites b) n rs no_records = Inr db1" "apply_plan e (vb_favorites b) m ts db1 = Inr db"
    using assms(2) unfolding ps by (rule apply_plan_append)
  have none: "pl_key ` set rs \<inter> fst ` set (live no_records) = {}" by (simp add: no_records_def)
  obtain krs where k: "live db1 = krs" "tombs db1 = []" "list_all2 (live_entry e (vb_favorites b)) rs krs"
    using apply_creates [OF runs(1) rs dist(1) none] by (auto simp: no_records_def)
  have "fst ` set krs = pl_key ` set rs"
    using k(3) by (induction rule: list_all2_induct) (auto simp: live_entry_def)
  then have "pl_key ` set ts \<inter> (fst ` set (live db1) \<union> fst ` set (tombs db1)) = {}" using k(1,2) dist(3) by auto
  then obtain kts where d: "live db = krs" "tombs db = kts" "list_all2 tomb_entry ts kts"
    using apply_burials [OF runs(2) ts dist(2)] k(1,2) by auto
  show "list_all2 (\<lambda>kb kr. imported_row e (vb_favorites b) (fst kb) (snd kb) = Inr (snd kr)) (backup_records b) (live db)"
    unfolding d(1) by (rule list_all2_trans [OF _ r k(3)]) (auto simp: live_entry_def)
  have e: "list_all2 (\<lambda>p kt. p \<in> set ts \<and> tomb_entry p kt) ts kts"
    using d(3) by (auto simp: list_all2_conv_all_nth)
  show "list_all2 (\<lambda>bt kt. \<exists>p \<in> set ps. pl_key p = fst kt \<and> pl_kind p = ''conversation'' \<and> pl_source p = Inr bt \<and>
       iso_of_ms (bt_deleted bt) = Inr (tr_deleted (snd kt)) \<and> tr_revision (snd kt) = bt_revision bt) (vb_tombstones b) (tombs db)"
    unfolding d(2) ps by (rule list_all2_trans [OF _ t e]) (auto simp: tomb_entry_def)
  show "\<forall>p \<in> set ps. entity_type_of (pl_kind p) = Some (fst (pl_key p))"
    unfolding ps using all2_in2 [OF r] all2_in2 [OF t] by (fastforce dest: entity_key_parts)
qed

theorem import_export:
  assumes "plan_actions e no_records b = Inr ps" "apply_plan e (vb_favorites b) n ps no_records = Inr db" "keys_apart e b"
    "recent b" "canon_js (PDict (receipt_of e b ps)) = Some stored" "im_receipt i = Json stored"
  obtains x where "collect_exports \<lparr>td_records = db, td_imports = [i]\<rparr> = Inr x"
    "mset (ex_conversations x) = mset (map portable (vb_conversations b))"
    "mset (ex_collections x) = mset (map portable (vb_collections b))"
    "mset (ex_items x) = mset (map portable_item (vb_items b))"
    "set (ex_favorites x) = PStr ` (set (vb_favorites b) \<inter> br_legacy ` set (vb_collections b))"
    "mset (ex_tombstones x) = mset (map portable_tombstone (vb_tombstones b))"
    "ex_unsupported x = 0"
proof -
  note tabs = imported_tables [OF assms(1-3)]
  let ?favs = "vb_favorites b" and ?recs = "backup_records b"
  define table where "table = rev (map (the \<circ> reversed) (plan_mappings ps)) @ []"
  note dist = keys_apart_plan [OF assms(3,1)]
  have lookup: "map_of table (pl_key p) = Some (pl_kind p, case_sum br_legacy bt_legacy (pl_source p))" if "p \<in> set ps" for p
    unfolding table_def by (rule receipt_table [OF dist tabs(3) that])
  obtain receipt where stored: "stored = PDict receipt" using canon_js_dict [OF assms(5)] by blast
  have "\<forall>m \<in> set (plan_mappings ps). reversed m \<noteq> None"
    using tabs(3) by (auto simp: plan_mappings_set reversed_def planned_mapping_def)
  then have receipts: "add_receipt ([], 0) i = Inr (table, 0)"
    using receipt_mappings [OF assms(5) [unfolded stored]] foldE_mappings [of "plan_mappings ps" "[]"]
    by (simp add: add_receipt_def assms(6) stored table_def)
  have "list_all2 (\<lambda>kb kr. kb \<in> set ?recs \<and> imported_row e ?favs (fst kb) (snd kb) = Inr (snd kr)) ?recs (live db)"
    using tabs(1) by (auto simp: list_all2_conv_all_nth)
  then obtain M where M: "list_all2 (\<lambda>kb kr. kb \<in> set ?recs \<and> imported_row e ?favs (fst kb) (snd kb) = Inr (snd kr)) M
      (sort_key fst (live db))" "mset M = mset ?recs"
    by (rule list_all2_reorder [where ys' = "sort_key fst (live db)"]) simp_all
  have lives: "foldE add_live (no_exports 0) (sort_key fst (live db)) = Inr (foldl (filed ?favs) (no_exports 0) M)"
  proof (rule foldE_steps [OF M(1)])
    fix kb :: "string \<times> backup_record" and kr :: "rec_key \<times> rec_row" and a
    assume kb: "kb \<in> set ?recs \<and> imported_row e ?favs (fst kb) (snd kb) = Inr (snd kr)"
    then have "entity_type_of (fst kb) \<noteq> None" by (rule backup_kinds [OF conjunct1])
    with kb show "add_live a kr = Inr (filed ?favs a kb)"
      using add_live_imported [of e ?favs "fst kb" "snd kb" "snd kr" a "fst kr"] assms(4) by (simp add: recent_def)
  qed
  define x0 where "x0 = foldl (filed ?favs) (no_exports 0) M"
  have "list_all2 (\<lambda>bt kt. map_of table (fst kt) = Some (''conversation'', bt_legacy bt) \<and>
     ms_of_column (tr_deleted (snd kt)) = Inr (bt_deleted bt) \<and> tr_revision (snd kt) = bt_revision bt)
     (vb_tombstones b) (tombs db)"
  proof (rule list.rel_mono_strong [OF tabs(2)])
    fix bt kt
    assume "bt \<in> set (vb_tombstones b)" and
      "\<exists>p \<in> set ps. pl_key p = fst kt \<and> pl_kind p = ''conversation'' \<and> pl_source p = Inr bt \<and>
         iso_of_ms (bt_deleted bt) = Inr (tr_deleted (snd kt)) \<and> tr_revision (snd kt) = bt_revision bt"
    then show "map_of table (fst kt) = Some (''conversation'', bt_legacy bt) \<and>
        ms_of_column (tr_deleted (snd kt)) = Inr (bt_deleted bt) \<and> tr_revision (snd kt) = bt_revision bt"
      using lookup assms(4) column_round_trip by (force simp: recent_def)
  qed
  then obtain bts where bts: "list_all2 (\<lambda>bt kt. map_of table (fst kt) = Some (''conversation'', bt_legacy bt) \<and>
     ms_of_column (tr_deleted (snd kt)) = Inr (bt_deleted bt) \<and> tr_revision (snd kt) = bt_revision bt)
     bts (sort_key fst (tombs db))" "mset bts = mset (vb_tombstones b)"
    by (rule list_all2_reorder [where ys' = "sort_key fst (tombs db)"]) simp_all
  let ?x = "x0\<lparr>ex_tombstones := ex_tombstones x0 @ map portable_tombstone bts\<rparr>"
  have collected: "collect_exports \<lparr>td_records = db, td_imports = [i]\<rparr> = Inr ?x"
    using receipts lives add_tombs [OF bts(1), of x0] by (simp add: collect_exports_def x0_def)
  have sel: "mset (map f (filter P M)) = mset (map f (filter P ?recs))" for f :: "string \<times> backup_record \<Rightarrow> row" and P
    using M(2) by (simp add: mset_filter)
  have "set M = set ?recs" using M(2) by (metis set_mset_mset)
  moreover define C where "C = filter (\<lambda>kb. fst kb = ''collection'') M"
  ultimately have C: "set C = Pair ''collection'' ` set (vb_collections b)"
    using filter_kinds(2) [of b, THEN arg_cong [where f = set]] by simp
  have "ex_favorites x0 = map PStr (filter (\<lambda>l. l \<in> set ?favs) (map (\<lambda>kb. br_legacy (snd kb)) C))"
    by (simp add: x0_def filed_all no_exports_def C_def)
  then have favs: "set (ex_favorites x0) = PStr ` (set ?favs \<inter> br_legacy ` set (vb_collections b))"
    by (auto simp: C image_image)
  moreover have "mset (map portable_tombstone bts) = mset (map portable_tombstone (vb_tombstones b))" using bts(2) by simp
  moreover have "mset (ex_conversations x0) = mset (map portable (vb_conversations b))"
    "mset (ex_collections x0) = mset (map portable (vb_collections b))"
    "mset (ex_items x0) = mset (map portable_item (vb_items b))"
    unfolding x0_def filed_all no_exports_def exports.simps append_Nil sel filter_kinds by (simp_all add: comp_def)
  moreover have "ex_tombstones x0 = []" "ex_unsupported x0 = 0" by (simp_all add: x0_def filed_all no_exports_def)
  ultimately show thesis using collected favs by (intro that [of ?x]) simp_all
qed

end
