(* ===== verification/Transfer_Demo.thy ===== *)
theory Transfer_Demo
  imports Transfer_Roundtrip
begin

text \<open>
  Small backups for the witnesses: a conversation, a favorite collection with one piece of
  evidence, and a deleted conversation.  The digest tells identifiers apart by their last letter.
\<close>

definition demo_hex :: "string \<Rightarrow> string" where
  "demo_hex s = replicate 64 (if last s = CHR ''b'' then CHR ''b'' else CHR ''a'')"

definition demo_transfer :: transfer_env where
  "demo_transfer = \<lparr>te_sha = demo_hex, te_configured = [''long-secret''], te_now = ''2026-01-01T00:00:00.000000Z'',
     te_iso = (\<lambda>s. True), te_fault = (\<lambda>a n. False)\<rparr>"

definition demo_record :: "string \<Rightarrow> int \<Rightarrow> int \<Rightarrow> int \<Rightarrow> row \<Rightarrow> row \<Rightarrow> pyval" where
  "demo_record legacy schema revision stamp payload more_fields =
     PDict ([(KStr ''legacy_id'', PStr legacy), (KStr ''schema_version'', PInt schema), (KStr ''revision'', PInt revision),
             (KStr ''created_at'', PInt stamp), (KStr ''updated_at'', PInt stamp),
             (KStr ''payload'', PDict ((KStr ''id'', PStr legacy) # payload))] @ more_fields)"

definition demo_conversation :: "int \<Rightarrow> pyval" where
  "demo_conversation stamp = demo_record ''chat-a'' 4 2 stamp
     [(KStr ''schemaVersion'', PInt 4), (KStr ''revision'', PInt 2), (KStr ''createdAt'', PInt stamp),
      (KStr ''updatedAt'', PInt stamp), (KStr ''sessionId'', PStr ''s''), (KStr ''title'', PStr ''Margins''),
      (KStr ''titleMode'', PStr ''auto''), (KStr ''messages'', PList []), (KStr ''draft'', PStr []),
      (KStr ''bookmarkedMessageIds'', PList [])] []"

definition demo_collection :: "int \<Rightarrow> pyval" where
  "demo_collection stamp = demo_record ''col-a'' 2 1 stamp
     [(KStr ''schemaVersion'', PInt 2), (KStr ''name'', PStr ''Q3''), (KStr ''createdAt'', PInt stamp),
      (KStr ''updatedAt'', PInt stamp)] []"

definition demo_evidence :: "int \<Rightarrow> pyval" where
  "demo_evidence stamp = demo_record ''item-a'' 2 1 stamp
     [(KStr ''citation'', PStr ''10-K''), (KStr ''excerpt'', PStr ''text''), (KStr ''savedAt'', PInt stamp),
      (KStr ''score'', PFloat ''0.5'')] [(KStr ''parent_legacy_id'', PStr ''col-a'')]"

definition demo_tombstone :: "int \<Rightarrow> pyval" where
  "demo_tombstone stamp =
     PDict [(KStr ''kind'', PStr ''conversation''), (KStr ''legacy_id'', PStr ''chat-b''), (KStr ''schema_version'', PInt 1),
            (KStr ''revision'', PInt 3), (KStr ''deleted_at'', PInt stamp)]"

definition versions :: "pyval list \<Rightarrow> int \<Rightarrow> pyval" where
  "versions vs n = PList (if vs = [] then [] else [PInt n])"

definition backup_value :: "pyval list \<Rightarrow> pyval list \<Rightarrow> pyval list \<Rightarrow> pyval list \<Rightarrow> pyval list \<Rightarrow> pyval" where
  "backup_value convs cols items favorites deletions =
     PDict [(KStr ''format'', PStr ''enterprise-document-qa.workspace''), (KStr ''version'', PInt 1),
       (KStr ''exported_at'', PStr ''2026-01-01T00:00:00Z''),
       (KStr ''source_schemas'', PDict
         [(KStr ''conversations'', versions convs 4), (KStr ''evidence_collections'', versions cols 2),
          (KStr ''favorites'', versions favorites 1), (KStr ''tombstones'', versions deletions 1)]),
       (KStr ''source_counts'', PDict
         (count_row (length convs) (length cols) (length items) (length favorites) (length deletions) 0)),
       (KStr ''conversations'', PList convs), (KStr ''collections'', PList cols),
       (KStr ''evidence_items'', PList items), (KStr ''favorites'', PList favorites),
       (KStr ''tombstones'', PList deletions), (KStr ''unsupported'', PList []),
       (KStr ''digest'', PStr (replicate 64 CHR ''a''))]"

definition demo_record_of :: "string \<Rightarrow> int \<Rightarrow> int \<Rightarrow> int \<Rightarrow> pyval \<Rightarrow> string \<Rightarrow> backup_record" where
  "demo_record_of legacy schema revision stamp v parent =
     \<lparr>br_legacy = legacy, br_schema = schema, br_revision = revision, br_created = stamp, br_updated = stamp,
      br_payload = (case v of PDict r \<Rightarrow> (case fetch r ''payload'' of PDict p \<Rightarrow> p)), br_parent = parent\<rparr>"

definition parts_of :: "backup_record list \<Rightarrow> backup_record list \<Rightarrow> backup_record list \<Rightarrow> string list \<Rightarrow> backup_tombstone list \<Rightarrow> backup" where
  "parts_of convs cols items favorites deletions =
     \<lparr>vb_digest = replicate 64 CHR ''a'', vb_conversations = convs, vb_collections = cols, vb_items = items,
      vb_favorites = favorites, vb_tombstones = deletions, vb_unsupported = []\<rparr>"

definition demo_stamp :: int where
  "demo_stamp = 1700000000123"

text \<open>A conversation and the deletion of another; a collection with its evidence; an early conversation.\<close>

definition demo_backup :: pyval where
  "demo_backup = backup_value [demo_conversation demo_stamp] [] [] [] [demo_tombstone demo_stamp]"

definition demo_parts :: backup where
  "demo_parts = parts_of [demo_record_of ''chat-a'' 4 2 demo_stamp (demo_conversation demo_stamp) []] [] [] []
     [\<lparr>bt_legacy = ''chat-b'', bt_revision = 3, bt_deleted = demo_stamp\<rparr>]"

definition evidence_backup :: pyval where
  "evidence_backup = backup_value [] [demo_collection demo_stamp] [demo_evidence demo_stamp] [PStr ''col-a''] []"

definition evidence_parts :: backup where
  "evidence_parts = parts_of [] [demo_record_of ''col-a'' 2 1 demo_stamp (demo_collection demo_stamp) []]
     [demo_record_of ''item-a'' 2 1 demo_stamp (demo_evidence demo_stamp) ''col-a''] [''col-a''] []"

definition early_backup :: pyval where
  "early_backup = backup_value [demo_conversation 1001] [] [] [] []"

definition early_parts :: backup where
  "early_parts = parts_of [demo_record_of ''chat-a'' 4 2 1001 (demo_conversation 1001) []] [] [] [] []"

fun row_of :: "pyval \<Rightarrow> row" where
  "row_of (PDict r) = r"
| "row_of v = []"

lemma demo_contents:
  "validate_contents demo_transfer (row_of demo_backup) = Inr demo_parts"
  "validate_contents demo_transfer (row_of evidence_backup) = Inr evidence_parts"
  "validate_contents demo_transfer (row_of early_backup) = Inr early_parts"
  by code_simp+

text \<open>A canonical object ends in a brace, so its digest need not be computed letter by letter.\<close>

lemma canonical_digest:
  assumes "canon_js (PDict (filter (\<lambda>kv. fst kv \<notin> {KStr ''digest'', KStr ''exported_at''}) r)) \<noteq> None"
  shows "compute_backup_digest demo_hex r = Inr (replicate 64 CHR ''a'')"
proof -
  obtain kvs where "canon_js (PDict (filter (\<lambda>kv. fst kv \<notin> {KStr ''digest'', KStr ''exported_at''}) r)) = Some (PDict kvs)"
    using assms canon_js_dict by (metis not_Some_eq)
  then have "emit_canonical (PDict (filter (\<lambda>kv. fst kv \<notin> {KStr ''digest'', KStr ''exported_at''}) r)) = Some (json_text (PDict kvs))"
    by (simp only: emit_is_text option.map)
  moreover have "demo_hex (json_text (PDict kvs)) = replicate 64 CHR ''a''" by (simp add: demo_hex_def)
  ultimately show ?thesis unfolding compute_backup_digest_def by (simp only: option.map of_opt_simps map_err_simps)
qed

definition digestible :: "pyval \<Rightarrow> bool" where
  "digestible v \<longleftrightarrow> the_object v = Inr (row_of v) \<and>
     canon_js (PDict (filter (\<lambda>kv. fst kv \<notin> {KStr ''digest'', KStr ''exported_at''}) (row_of v))) \<noteq> None"

lemma demo_canonical: "digestible demo_backup" "digestible evidence_backup" "digestible early_backup"
  by code_simp+

lemma demo_validated:
  assumes "digestible v" "validate_contents demo_transfer (row_of v) = Inr b" "vb_digest b = replicate 64 CHR ''a''"
  shows "validate_workspace_backup demo_transfer v = Inr b"
proof -
  have "the_object v = Inr (row_of v)" "compute_backup_digest demo_hex (row_of v) = Inr (replicate 64 CHR ''a'')"
    using assms(1) canonical_digest unfolding digestible_def by blast+
  moreover have "te_sha demo_transfer = demo_hex" by (simp add: demo_transfer_def)
  ultimately show ?thesis using assms(2,3) by (simp add: validate_workspace_backup_def del: replicate.simps)
qed

lemma demo_digests:
  "vb_digest demo_parts = replicate 64 CHR ''a''" "vb_digest evidence_parts = replicate 64 CHR ''a''"
  "vb_digest early_parts = replicate 64 CHR ''a''"
  by (simp_all add: demo_parts_def evidence_parts_def early_parts_def parts_of_def del: replicate.simps)

lemmas demo_valid =
  demo_validated [OF demo_canonical(1) demo_contents(1) demo_digests(1)]
  demo_validated [OF demo_canonical(2) demo_contents(2) demo_digests(2)]
  demo_validated [OF demo_canonical(3) demo_contents(3) demo_digests(3)]

definition demo_import :: "pyval \<Rightarrow> transfer_db \<Rightarrow> (transfer_error + row) \<times> transfer_db" where
  "demo_import v td = import_backup demo_transfer v (PStr (replicate 64 CHR ''a'')) td"

lemma demo_apart: "keys_apart demo_transfer demo_parts"
  by code_simp

lemma demo_recent: "recent demo_parts"
  by code_simp

text \<open>An import of a valid backup is a commit of its parts.\<close>

lemma demo_import_commits:
  assumes "validate_workspace_backup demo_transfer v = Inr b" "vb_digest b = replicate 64 CHR ''a''" "td_imports td = []"
    "commit_import demo_transfer b td = Inr (receipt, td')"
  shows "demo_import v td = (Inr receipt, td')"
proof -
  have "confirm_digest (PStr (replicate 64 CHR ''a'')) (replicate 64 CHR ''a'') = Inr ()" by code_simp
  then show ?thesis
    using assms by (simp add: demo_import_def import_backup_def import_in_def find_import_def del: replicate.simps)
qed

lemma demo_committed: "is_ok (commit_import demo_transfer demo_parts empty_workspace)"
  by code_simp

section \<open>Exports that fail\<close>

text \<open>
  A conversation of the first seconds of 1970 is read back a millisecond early: the import of a
  valid backup succeeds, and what the export then lists does not pass the validation it goes through
  next.
\<close>

fun refused_conversation :: "transfer_error + row \<times> transfer_db \<Rightarrow> bool" where
  "refused_conversation (Inl err) = False"
| "refused_conversation (Inr (receipt, td)) = (case collect_exports td of
       Inl err \<Rightarrow> False
     | Inr x \<Rightarrow> validate_record demo_transfer ''conversation'' (PDict (hd (ex_conversations x))) = Inl Bad_backup)"

lemma early_committed: "refused_conversation (commit_import demo_transfer early_parts empty_workspace)"
  by code_simp

lemma early_stamp_refused:
  "\<exists>receipt td. demo_import early_backup empty_workspace = (Inr receipt, td) \<and> refused_conversation (Inr (receipt, td))"
  using early_committed demo_import_commits [OF demo_valid(3) demo_digests(3), of empty_workspace]
  by (cases "commit_import demo_transfer early_parts empty_workspace") (auto simp: empty_workspace_def simp del: refused_conversation.simps(2))

text \<open>
  Where the collection had been deleted before, the import skips it and still stores its evidence:
  the export then lists evidence of a collection that it does not list, which the validation refuses.
\<close>

definition collection_deleted :: transfer_db where
  "collection_deleted = \<lparr>td_records = no_records\<lparr>tombs :=
     [((''collection'', ''legacy-col-'' @ replicate 40 CHR ''a''), \<lparr>tr_revision = 2, tr_deleted = ''2026-01-01T00:00:00Z''\<rparr>)]\<rparr>,
     td_imports = []\<rparr>"

fun orphaned :: "transfer_error + row \<times> transfer_db \<Rightarrow> bool" where
  "orphaned (Inl err) = False"
| "orphaned (Inr (receipt, td)) = (case collect_exports td of
       Inl err \<Rightarrow> False
     | Inr x \<Rightarrow> ex_collections x = [] \<and> map (str_at ''parent_legacy_id'') (ex_items x) = [''col-a''])"

lemma orphans_committed: "orphaned (commit_import demo_transfer evidence_parts collection_deleted)"
  by code_simp

lemma evidence_orphaned:
  "\<exists>receipt td. demo_import evidence_backup collection_deleted = (Inr receipt, td) \<and> orphaned (Inr (receipt, td))"
  using orphans_committed demo_import_commits [OF demo_valid(2) demo_digests(2), of collection_deleted]
  by (cases "commit_import demo_transfer evidence_parts collection_deleted") (auto simp: collection_deleted_def simp del: orphaned.simps(2))

end
