(* ===== verification/Transfer_Properties.thy ===== *)
theory Transfer_Properties
  imports Transfer_Demo
begin

text \<open>
  What importing and exporting a backup guarantees, for every backup, workspace and digest.
  The witness imports a small backup into an empty workspace.
\<close>

section \<open>The cases of an import\<close>

lemma import_backup_cases:
  assumes "import_backup e raw d td = (r, td')"
  obtains (failed) err where "r = Inl err" "td' = td"
  | (replayed) b prior receipt where "validate_workspace_backup e raw = Inr b" "find_import td (vb_digest b) = Some prior"
      "im_receipt prior = Json (PDict receipt)" "r = Inr receipt" "td' = td"
  | (committed) b receipt where "validate_workspace_backup e raw = Inr b" "find_import td (vb_digest b) = None"
      "confirm_digest d (vb_digest b) = Inr ()" "commit_import e b td = Inr (receipt, td')" "r = Inr receipt"
proof (cases "bindE (validate_workspace_backup e raw) (\<lambda>b. bindE (confirm_digest d (vb_digest b)) (\<lambda>_. import_in e b td))")
  case (Inl err)
  with assms have "r = Inl err" "td' = td" by (auto simp: import_backup_def)
  then show thesis by (rule failed)
next
  case (Inr x)
  then obtain b where b: "validate_workspace_backup e raw = Inr b" "confirm_digest d (vb_digest b) = Inr ()"
    "import_in e b td = Inr x" by (auto simp: bindE_ok)
  with assms have x: "x = (case r of Inr receipt \<Rightarrow> receipt, td')" "\<exists>receipt. r = Inr receipt"
    by (auto simp: import_backup_def split: prod.splits)
  then obtain receipt where r: "r = Inr receipt" "x = (receipt, td')" by auto
  show thesis
  proof (cases "find_import td (vb_digest b)")
    case None
    with b r committed show thesis by (simp add: import_in_def)
  next
    case (Some prior)
    with b(3) r obtain k where "im_receipt prior = Json (PDict k)" "k = receipt" "td' = td"
      by (auto simp: import_in_def split: json_col.splits pyval.splits)
    with Some b r replayed show thesis by blast
  qed
qed

lemma commit_import_ok:
  assumes "commit_import e b td = Inr (receipt, td')"
  obtains ps db stored where "plan_actions e (td_records td) b = Inr ps"
    "apply_plan e (vb_favorites b) 0 ps (td_records td) = Inr db" "receipt = receipt_of e b ps"
    "canon_js (PDict receipt) = Some (PDict stored)"
    "td' = \<lparr>td_records = db, td_imports = td_imports td @
       [\<lparr>im_id = import_id (vb_digest b), im_digest = vb_digest b, im_receipt = Json (PDict stored), im_completed = te_now e\<rparr>]\<rparr>"
proof -
  obtain ps db stored where *: "plan_actions e (td_records td) b = Inr ps"
    "apply_plan e (vb_favorites b) 0 ps (td_records td) = Inr db" "receipt = receipt_of e b ps"
    "canon_js (PDict receipt) = Some stored"
    "td' = \<lparr>td_records = db, td_imports = td_imports td @
       [\<lparr>im_id = import_id (vb_digest b), im_digest = vb_digest b, im_receipt = Json stored, im_completed = te_now e\<rparr>]\<rparr>"
    using assms by (auto simp: commit_import_def Let_def bindE_ok simp del: canon_js.simps)
  moreover obtain kvs where "stored = PDict kvs" using canon_js_dict [OF *(4)] by blast
  ultimately show thesis using that by blast
qed

section \<open>Nothing is lost\<close>

text \<open>Whatever the backup is, no tombstone is removed or lowered, no version goes back, a record that no
  import owns stays as it is, and an import that fails leaves everything as it was.\<close>

lemma import_never_loses:
  assumes "import_backup e raw d td = (r, td')"
  shows "kept (td_records td) (td_records td') \<and>
    (apart (td_records td) \<longrightarrow> apart (td_records td')) \<and>
    set (td_imports td) \<subseteq> set (td_imports td') \<and>
    (is_ok r \<or> td' = td)"
  using assms
proof (cases rule: import_backup_cases)
  case (committed b receipt)
  obtain ps db where p: "plan_actions e (td_records td) b = Inr ps"
    "apply_plan e (vb_favorites b) 0 ps (td_records td) = Inr db" "td_records td' = db"
    "set (td_imports td) \<subseteq> set (td_imports td')"
    using committed(4) by (rule commit_import_ok) auto
  then show ?thesis using plan_applied [OF p(1,2)] committed(5) by simp
qed (simp_all add: kept_refl)

section \<open>An import settles its backup\<close>

lemma preview_all_skipped:
  assumes "\<forall>p \<in> set ps. skipped (pl_action p)"
  shows "count_of [Act_create] ps = 0" "count_of [Act_replace_older] ps = 0"
proof -
  have "filter (\<lambda>p. pl_action p \<in> set [Act_create]) ps = []" "filter (\<lambda>p. pl_action p \<in> set [Act_replace_older]) ps = []"
    using assms by (auto simp: filter_empty_conv dest!: bspec)
  then show "count_of [Act_create] ps = 0" "count_of [Act_replace_older] ps = 0" unfolding count_of_def by (simp_all only: list.size)
qed

text \<open>A record of the backup is on file: buried, someone else's, or at least as new.\<close>

definition on_file :: "transfer_env \<Rightarrow> record_db \<Rightarrow> string \<times> backup_record \<Rightarrow> bool" where
  "on_file e db kb = (case entity_key e (fst kb) (br_legacy (snd kb)) of
       Inl _ \<Rightarrow> False
     | Inr k \<Rightarrow> find_tomb db k \<noteq> None \<or>
         (case find_live db k of
            None \<Rightarrow> False
          | Some r \<Rightarrow> owned (fst kb) (br_legacy (snd kb)) r \<longrightarrow> br_revision (snd kb) \<le> rr_revision r))"

lemma skipped_on_file:
  assumes "plan_record e favorites db kb = Inr p" "skipped (pl_action p)"
  shows "on_file e db kb"
  using assms by (cases kb) (auto simp: plan_record_ok on_file_def record_action_def split: option.splits if_splits)

lemma fetch_preview:
  "fetch (preview_of b ps) ''records_to_create'' = PInt (count_of [Act_create] ps)"
  "fetch (preview_of b ps) ''records_to_update'' = PInt (count_of [Act_replace_older] ps)"
  by (simp_all add: preview_of_def)

lemma validate_same: "validate_workspace_backup (e\<lparr>te_now := t, te_fault := f\<rparr>) raw = validate_workspace_backup e raw"
proof -
  have tree: "validate_json_tree (e\<lparr>te_now := t, te_fault := f\<rparr>) = validate_json_tree e"
    by (simp add: fun_eq_iff validate_json_tree_def configured_secret_values_def)
  have parts: "te_iso (e\<lparr>te_now := t, te_fault := f\<rparr>) = te_iso e" "te_sha (e\<lparr>te_now := t, te_fault := f\<rparr>) = te_sha e"
    by simp_all
  have "validate_record (e\<lparr>te_now := t, te_fault := f\<rparr>) = validate_record e"
    "validate_unsupported (e\<lparr>te_now := t, te_fault := f\<rparr>) = validate_unsupported e"
    "validate_head (e\<lparr>te_now := t, te_fault := f\<rparr>) = validate_head e"
    by (intro ext; simp only: validate_record_def validate_unsupported_def validate_head_def tree parts)+
  then show ?thesis by (simp only: validate_workspace_backup_def validate_contents_def parts)
qed

lemma set_receipt: "set (preview_of b ps) \<subseteq> set (receipt_of e b ps)"
  by (auto simp: receipt_of_def preview_of_def)

text \<open>What a new import settles, for a digest that tells the identities of the backup apart.\<close>

lemma import_settles:
  assumes "import_backup e raw d td = (Inr receipt, td')" "validate_workspace_backup e raw = Inr b"
    "find_import td (vb_digest b) = None" "keys_apart e b"
  shows "(\<exists>q. preview_backup e raw td = Inr q \<and> set q \<subseteq> set receipt) \<and>
    (\<exists>q. preview_backup e raw td' = Inr q \<and> fetch q ''records_to_create'' = PInt 0 \<and>
         fetch q ''records_to_update'' = PInt 0) \<and>
    list_all (on_file e (td_records td')) (backup_records b) \<and>
    (\<exists>w. canon_js (PDict receipt) = Some (PDict w) \<and>
         (\<forall>t f. import_backup (e\<lparr>te_now := t, te_fault := f\<rparr>) raw d td' = (Inr w, td')))"
  using assms(1)
proof (cases rule: import_backup_cases)
  case (committed b' receipt')
  then have b: "commit_import e b td = Inr (receipt, td')" "confirm_digest d (vb_digest b) = Inr ()" using assms(2) by auto
  obtain ps db w where p: "plan_actions e (td_records td) b = Inr ps"
    "apply_plan e (vb_favorites b) 0 ps (td_records td) = Inr db" "receipt = receipt_of e b ps"
    "canon_js (PDict receipt) = Some (PDict w)"
    and td': "td' = \<lparr>td_records = db, td_imports = td_imports td @
       [\<lparr>im_id = import_id (vb_digest b), im_digest = vb_digest b, im_receipt = Json (PDict w), im_completed = te_now e\<rparr>]\<rparr>"
    using b(1) by (rule commit_import_ok)
  obtain ps' where again: "plan_actions e db b = Inr ps'" "\<forall>p \<in> set ps'. skipped (pl_action p)"
    using p(1,2) assms(4) by (rule plan_settled)
  have before: "preview_backup e raw td = Inr (preview_of b ps)" by (simp add: preview_backup_def assms(2) p(1))
  have after: "preview_backup e raw td' = Inr (preview_of b ps')" by (simp add: preview_backup_def assms(2) td' again(1))
  have "on_file e db kb" if "kb \<in> set (backup_records b)" for kb
  proof -
    obtain rs ts where "ps' = rs @ ts" "list_all2 (\<lambda>x p. plan_record e (vb_favorites b) db x = Inr p) (backup_records b) rs"
      using again(1) by (rule plan_actions_parts)
    with all2_in1 [OF _ that] again(2) show ?thesis by (force intro: skipped_on_file)
  qed
  then have filed: "list_all (on_file e (td_records td')) (backup_records b)" by (simp add: list_all_iff td')
  have "find_import td' (vb_digest b) = Some
      \<lparr>im_id = import_id (vb_digest b), im_digest = vb_digest b, im_receipt = Json (PDict w), im_completed = te_now e\<rparr>"
    using assms(3) by (auto simp: find_import_def td' find_Some_iff find_None_iff nth_append)
  then have "import_backup (e\<lparr>te_now := t, te_fault := f\<rparr>) raw d td' = (Inr w, td')" for t f
    by (simp add: import_backup_def validate_same assms(2) b(2) import_in_def)
  with before after filed p(3,4) set_receipt preview_all_skipped [OF again(2)] show ?thesis
    by (simp add: fetch_preview)
qed (use assms in auto)

text \<open>C24. An import loses nothing and settles its backup.  Whatever the backup is, no tombstone is removed
  or lowered, the version of no record goes back, a record that no import owns stays as it is, a deleted
  record stays deleted (if no record was both live and deleted, none is afterwards), earlier receipts
  stay, and an import that fails, at whatever point, leaves everything as it was.  If the backup was not
  imported before and the digest tells its identities apart, then the receipt reports what the preview
  announced; afterwards every record of the backup is on file (buried, someone else's, or at least as
  new), a preview of the same backup finds nothing to create or to replace, and importing it again, at
  any later time, returns the receipt that is on file and changes nothing.\<close>

theorem import_keeps_and_settles:
  assumes "import_backup e raw d td = (r, td')"
  shows "kept (td_records td) (td_records td') \<and>
    (apart (td_records td) \<longrightarrow> apart (td_records td')) \<and>
    set (td_imports td) \<subseteq> set (td_imports td') \<and>
    (is_ok r \<or> td' = td) \<and>
    (r = Inr receipt \<and> validate_workspace_backup e raw = Inr b \<and> find_import td (vb_digest b) = None \<and> keys_apart e b \<longrightarrow>
      (\<exists>q. preview_backup e raw td = Inr q \<and> set q \<subseteq> set receipt) \<and>
      (\<exists>q. preview_backup e raw td' = Inr q \<and> fetch q ''records_to_create'' = PInt 0 \<and>
           fetch q ''records_to_update'' = PInt 0) \<and>
      list_all (on_file e (td_records td')) (backup_records b) \<and>
      (\<exists>w. canon_js (PDict receipt) = Some (PDict w) \<and>
           (\<forall>t f. import_backup (e\<lparr>te_now := t, te_fault := f\<rparr>) raw d td' = (Inr w, td'))))"
proof -
  have append: "P \<and> Q \<and> R \<and> S \<Longrightarrow> T \<Longrightarrow> P \<and> Q \<and> R \<and> S \<and> T" for P Q R S T by simp
  show ?thesis
    by (rule append [OF import_never_loses [OF assms]]) (intro impI, elim conjE, rule import_settles, use assms in simp_all)
qed

theorem import_keeps_and_settles_witness:
  "\<exists>receipt td w. demo_import demo_backup empty_workspace = (Inr receipt, td) \<and> td \<noteq> empty_workspace \<and>
     list_all (on_file demo_transfer (td_records td)) (backup_records demo_parts) \<and>
     demo_import demo_backup td = (Inr w, td)"
proof -
  obtain receipt td where c: "commit_import demo_transfer demo_parts empty_workspace = Inr (receipt, td)"
    using demo_committed by (auto simp: is_ok_iff)
  have i: "demo_import demo_backup empty_workspace = (Inr receipt, td)"
    by (rule demo_import_commits [OF demo_valid(1) demo_digests(1) _ c]) (simp add: empty_workspace_def)
  have "find_import empty_workspace (vb_digest demo_parts) = None" by (simp add: find_import_def empty_workspace_def)
  moreover have "demo_transfer\<lparr>te_now := te_now demo_transfer, te_fault := te_fault demo_transfer\<rparr> = demo_transfer" by simp
  ultimately obtain w where w: "list_all (on_file demo_transfer (td_records td)) (backup_records demo_parts)"
    "demo_import demo_backup td = (Inr w, td)"
    using import_keeps_and_settles [OF i [unfolded demo_import_def], of receipt demo_parts] demo_valid(1) demo_apart
    unfolding demo_import_def by metis
  have "td_imports td \<noteq> []" using c by (rule commit_import_ok) simp
  then have "td \<noteq> empty_workspace" by (auto simp: empty_workspace_def)
  with i w show ?thesis by blast
qed

section \<open>What was imported is what is exported\<close>

lemma validated_identities: "validate_workspace_backup e raw = Inr b \<Longrightarrow> identities_ok b"
  unfolding validate_workspace_backup_def validate_contents_def Let_def by (elim bindE_okE) auto

text \<open>What was imported is what is exported: after a backup has been imported into an empty
  workspace, the export lists exactly its conversations, collections, evidence items, favorites and
  deletions, each with its identity, revision, timestamps and canonical payload, and nothing it cannot
  carry.  The timestamps lie between November 2004 and January 2038, and the digest tells the
  identities apart.\<close>

theorem export_returns_import:
  assumes "import_backup e raw d empty_workspace = (Inr receipt, td')" "validate_workspace_backup e raw = Inr b"
    "keys_apart e b" "recent b"
  shows "\<exists>x. collect_exports td' = Inr x \<and>
    mset (ex_conversations x) = mset (map portable (vb_conversations b)) \<and>
    mset (ex_collections x) = mset (map portable (vb_collections b)) \<and>
    mset (ex_items x) = mset (map portable_item (vb_items b)) \<and>
    set (ex_favorites x) = PStr ` set (vb_favorites b) \<and>
    mset (ex_tombstones x) = mset (map portable_tombstone (vb_tombstones b)) \<and>
    ex_unsupported x = 0"
  using assms(1)
proof (cases rule: import_backup_cases)
  case (committed b' receipt')
  then have "commit_import e b empty_workspace = Inr (receipt, td')" using assms(2) by auto
  then obtain ps db w where p: "plan_actions e no_records b = Inr ps"
    "apply_plan e (vb_favorites b) 0 ps no_records = Inr db" "canon_js (PDict (receipt_of e b ps)) = Some (PDict w)"
    and td': "td' = \<lparr>td_records = db, td_imports =
       [\<lparr>im_id = import_id (vb_digest b), im_digest = vb_digest b, im_receipt = Json (PDict w), im_completed = te_now e\<rparr>]\<rparr>"
    by (rule commit_import_ok) (simp add: empty_workspace_def)
  have "set (vb_favorites b) \<inter> br_legacy ` set (vb_collections b) = set (vb_favorites b)"
    using validated_identities [OF assms(2)] by (auto simp: identities_ok_def list_all_iff)
  then show ?thesis unfolding td' by (metis import_export [OF p(1,2) assms(3,4) p(3)] import_row.select_convs(3))
qed (simp_all add: empty_workspace_def find_import_def)

end
