(* ===== verification/Spec2Isabelle.thy ===== *)
theory Spec2Isabelle
  imports Worker_Properties Service_Properties Ledger_Properties Record_Properties Collection_Properties
    Transfer_Properties Transfer_Demo
begin

text \<open>
  FilingScope answers questions about SEC filings.  Its core is a bounded research agent that
  runs as a durable job in a local SQLite workspace, beside collections of evidence that the
  user keeps there; its evaluation campaigns spend a limited budget of provider requests.  This
  development models that core as executable functions over explicit states and proves what
  the code promises.  Paths below are under \<open>src/\<close> of the repository.

  \<^bold>\<open>The parts and how they meet.\<close>
  The job repository (\<open>src/workspace/jobs.py\<close>) owns the rows, steps and events of all jobs; an
  update names the revision it was prepared against.  The durable service
  (\<open>src/agent/durable.py\<close>) makes a job of an agent run: it freezes the plan, and while the
  orchestrator (\<open>src/agent/orchestration.py\<close>) runs it reports each trace entry to the job's log
  and polls the job for a cancellation.  The orchestrator alone decides what the decision model
  may cause: it validates decisions, admits tool calls against budgets and the evidence ledger
  (\<open>src/agent/research.py\<close>), and projects tool output into bounded observations
  (\<open>src/agent/observation.py\<close>).  The worker (\<open>src/workspace/worker.py\<close>) claims jobs and hands them
  to executors, one of which is the service.  Collections (\<open>src/workspace/collections.py\<close>) are
  stored through the record repository (\<open>src/workspace/repository.py\<close>); backups
  (\<open>src/workspace/transfer.py\<close>) are imported into its tables and exported from them.  The two request ledgers
  (\<open>src/evaluation/request_ledger.py\<close>, \<open>provider_budget.py\<close>) share a file format and a lock file.

  \<^bold>\<open>Theories.\<close>
  \<^item> Python: \<open>Py_Prelude\<close> (exceptions as sums, strings), \<open>Py_Regex\<close> (an ordered backtracking
    matcher), \<open>Py_Value\<close> (dynamic values, canonical JSON), \<open>Py_Dynamic\<close> (equality, truth, \<open>repr\<close>,
    iteration), \<open>Py_Float\<close> (the doubles of \<open>datetime\<close>), \<open>Workspace_Time\<close> (calendar and ISO text).
  \<^item> Jobs, \<open>jobs.py\<close>: \<open>Job_Types\<close> (records, transition tables, validators, row readers),
    \<open>Versioned_Store\<close> (the interface of an optimistically locked store), \<open>Job_Store\<close> (one function
    per public method, each one transaction), \<open>Job_Effects\<close> (what a commit changes),
    \<open>Job_Invariants\<close> (life cycle and table invariant), \<open>Job_Properties\<close>.
  \<^item> Agent: \<open>Agent_Types\<close> (\<open>state.py\<close>, \<open>research_models.py\<close>), \<open>Agent_Research\<close>,
    \<open>Agent_Observation\<close>, \<open>Agent_Decision\<close> (\<open>decision.py\<close>), \<open>Agent_Orchestrator\<close> (with
    \<open>registry.py\<close>); \<open>Agent_Invariants\<close>, \<open>Agent_Answer\<close> (the decision a
    completed run ends with), \<open>Agent_Properties\<close>, \<open>Agent_Source\<close> (what a tool answered, before
    anything is dropped), \<open>Agent_Total\<close>, \<open>Agent_Guarantees\<close>.
  \<^item> Durable service: \<open>Agent_Plan\<close>, \<open>Agent_Record\<close> (\<open>durable_models.py\<close>), \<open>Agent_Roundtrip\<close>,
    \<open>Job_World\<close> (the store over time, with other connections), \<open>Agent_Durable\<close> (the service),
    \<open>Agent_World\<close>, \<open>Agent_Service\<close>, \<open>Agent_Journal\<close>, \<open>Agent_Result\<close>, \<open>Agent_Finish\<close>, \<open>Agent_Closing\<close>,
    \<open>Service_Demo\<close>, \<open>Service_Demo_Live\<close>, \<open>Service_Properties\<close>.
  \<^item> Worker: \<open>Job_Success\<close>, \<open>Job_Live\<close>, \<open>Job_Worker\<close> (\<open>worker.py\<close>, \<open>executors.py\<close>),
    \<open>Worker_Properties\<close>.
  \<^item> Ledgers: \<open>Ledger_Store\<close> (file, lock, processes that die between effects), \<open>Ledger_Rows\<close>,
    \<open>Ledger_Account\<close>, \<open>Request_Ledger\<close>, \<open>Request_Records\<close>, \<open>Request_Replay\<close>, \<open>Request_Campaign\<close>,
    \<open>Provider_Budget\<close>, \<open>Budget_Account\<close>, \<open>Budget_Closed\<close>, \<open>Ledger_Properties\<close>.
  \<^item> Records and collections: \<open>Record_Store\<close>, \<open>Record_Properties\<close>, \<open>Collection_Model\<close> (values,
    validation, payloads), \<open>Collection_Store\<close> (every write), \<open>Collection_Reads\<close>,
    \<open>Collection_Steps\<close> (the writes as a step relation), \<open>Collection_Ops\<close>, \<open>Collection_Properties\<close>.
  \<^item> Backups, \<open>transfer.py\<close>: \<open>Transfer_Model\<close> (canonical JSON, digest, validation), \<open>Transfer_Store\<close>
    (plan, preview, import, export), \<open>Transfer_Effects\<close> (what an import changes), \<open>Transfer_Settled\<close>
    (a second plan skips everything), \<open>Transfer_Roundtrip\<close> (an export after an import into an empty
    workspace validates to the backup), \<open>Transfer_Demo\<close>, \<open>Transfer_Properties\<close>.

  \<^bold>\<open>State and operations.\<close>
  A table is a list of rows or an association list by primary key, an exception a value of an
  error datatype in a sum, a transaction a function that returns the new tables or an error (and
  then the old tables stay).  A run threads a world through its polls and its trace sink; for a
  durable run that world is the job store.  Concurrency is explicit: other connections commit
  between any two transactions of a client (\<open>store_env\<close>), a ledger process may die at any of its
  effects and in the middle of a write (\<open>fate\<close>), a consumer's task may be cancelled while it
  claims or executes (\<open>tick\<close>).

  \<^bold>\<open>What is shown.\<close>
  \<^item> C1 to C12: in every reachable job database the log replays to the row, steps agree with
    their job and every row can be read; commits refine the life cycle; ended jobs are frozen; of
    two writers with one revision the first wins, whatever is written in between; claims take the oldest queued job; creation is
    idempotent; recovery interrupts what was active; decisions are journalled once.
  \<^item> C13 to C21: whatever model and tools answer, a run keeps its budgets, numbers its trace,
    executes only permitted tools, ends a completed run with the model's own final decision,
    grounded in what it observed, covers its objectives, ends, and its result is a valid durable
    record; projections fit their budget and flag whatever they leave out.
  \<^item> C22, C23, C25, C26: frozen plans and created runs read back as written; the log is the
    trace, with its counters; a finished run is on record with its own status and result.  Every
    operation of the service is a path of repository transactions (\<open>follows\<close>, \<open>world_path\<close>), so
    it keeps the invariant behind C1 to C7 (lemma \<open>world_path_inv\<close>).
  \<^item> C24: an import of a backup loses nothing that is on file and settles the backup.
  \<^item> C27 to C30: a claimed job has ended when its execution or its iteration is over, three
    attempts are enough to interrupt one, and a pool that calls itself healthy is complete.
  \<^item> C31 to C36: sends never exceed the reserved slots and the budgets, wherever processes die;
    the file stays readable; answered operations replay, open ones are refused, closed keys stay
    closed.
  \<^item> C37 and C38: the record repository implements a life cycle per key; deleted records stay
    deleted.  C39 and C40: the limits of a workspace hold, and nothing outlives its collection.

  \<^bold>\<open>Bounds and recursion.\<close>
  The loop of \<open>run\<close> is \<open>for _ in range(max_steps)\<close>, so \<open>rounds\<close> recurs over \<open>al_max_steps\<close>; C19 shows
  that a result is always reached.  The retry loops recur over what the code iterates over: the
  attempts left (\<open>attempts\<close> of the service and the worker) or the list of attempt numbers
  (\<open>attempt_loop\<close> of the ledger).  Everything else recurs over its data; the one fuel, of a
  repetition in \<open>Py_Regex\<close>, is the number of characters left and one more.

  \<^bold>\<open>Parameters.\<close>
  SHA-256, clocks, random identifiers and tokens, the decision model, the tools' executables and
  their argument validators, the caller's \<open>send\<close>, and the answers of other connections.  Theorems
  hold for all of them; the hypotheses that remain (fresh identifiers, digests of 64 hexadecimal
  digits, what other connections leave alone) are what the code relies on, and a witness meets them.

  \<^bold>\<open>Not modelled.\<close>
  SQLite itself (\<open>database.py\<close>, \<open>migrations.py\<close>: the constraints used are part of the tables'
  model), telemetry and attribution, the
  provider and tool adapters, offline evaluation, and the HTTP routes around the services.
  Retrieval, ingestion and answer generation are left out because numpy, rank_bm25,
  sentence_transformers, Qdrant, BeautifulSoup and tiktoken decide their results; the agent meets
  them as tool parameters.  Strings range over U+0000 to U+00FF, so surrogates and the separators
  beyond that range do not occur.

  \<^bold>\<open>Findings.\<close>
  Lemmas that show the code to differ from its intention: \<open>separator_blocks_ledger\<close> (a response
  with U+0085 makes the ledger unreadable), \<open>delete_note_deletes_item\<close>, \<open>item_counts_disagree\<close>,
  \<open>dotted_note_identifier\<close> (collections), \<open>millisecond_lost\<close> (timestamps that shrink by a
  millisecond each time they are read and written back), \<open>early_stamp_refused\<close> and
  \<open>evidence_orphaned\<close> (backups that are imported and make every later export fail).
\<close>

end
